(* ===== verification/Prelude.thy ===== *)
theory Prelude
  imports Main "HOL-Library.Word"
begin

text \<open>
  Shared vocabulary of the development: the machine types of the C code, the collections the
  component theories add their automation to, and the generic lemmas on lists and words that
  several components need. Nothing here models code of its own, apart from the shapes of the
  list-scanning loops that the C code writes with its list macros.
\<close>

section \<open>Machine types\<close>

type_synonym byte = "8 word"
type_synonym u32 = "32 word"
type_synonym u64 = "64 word"

text \<open>Conversion of an integer to \<^verbatim>\<open>uint16_t\<close>, kept in \<open>nat\<close>: reduction modulo 2^16.\<close>

definition to_u16 :: "int \<Rightarrow> nat" where
  "to_u16 i = nat (i mod 65536)"

lemma to_u16_id [simp]: "0 \<le> i \<Longrightarrow> i < 65536 \<Longrightarrow> to_u16 i = nat i"
  by (simp add: to_u16_def)

lemma to_u16_bound [simp]: "to_u16 i < 65536"
  by (simp add: to_u16_def nat_less_iff)

section \<open>Collections\<close>

text \<open>
  \<open>invs\<close>: introduction rules that an operation keeps an invariant. \<open>frames\<close>: equations
  that an operation leaves a field alone.
\<close>

named_theorems invs
named_theorems frames

section \<open>Scanning loops\<close>

text \<open>
  A scan that removes the first entry with a property and returns, a scan that changes the
  first entry with a property, and one that changes the first \<open>n\<close> of them are the shapes of
  most loops of the C code.
\<close>

fun remove_first :: "('a \<Rightarrow> bool) \<Rightarrow> 'a list \<Rightarrow> 'a list" where
  "remove_first P [] = []"
| "remove_first P (x # xs) = (if P x then xs else x # remove_first P xs)"

lemma set_remove_first: "set (remove_first P xs) \<subseteq> set xs"
  by (induction xs) auto

lemma set_remove_firstD: "x \<in> set (remove_first P xs) \<Longrightarrow> x \<in> set xs"
  using set_remove_first by fastforce

lemma remove_first_None: "find P xs = None \<Longrightarrow> remove_first P xs = xs"
  by (induction xs) (auto split: if_splits)

lemma find_SomeD: "find P xs = Some x \<Longrightarrow> P x \<and> x \<in> set xs"
  by (induction xs) (auto split: if_splits)

lemma find_split:
  "find P xs = Some x \<Longrightarrow>
   \<exists>us vs. xs = us @ x # vs \<and> (\<forall>u \<in> set us. \<not> P u) \<and> P x \<and> remove_first P xs = us @ vs"
proof (induction xs)
  case (Cons y ys)
  show ?case
  proof (cases "P y")
    case True
    with Cons.prems have "y # ys = [] @ x # ys \<and> (\<forall>u \<in> set []. \<not> P u) \<and> P x \<and> remove_first P (y # ys) = [] @ ys"
      by simp
    then show ?thesis by blast
  next
    case False
    with Cons obtain us vs where
      "ys = us @ x # vs" "\<forall>u \<in> set us. \<not> P u" "P x" "remove_first P ys = us @ vs"
      by auto
    with False have "y # ys = (y # us) @ x # vs \<and> (\<forall>u \<in> set (y # us). \<not> P u) \<and> P x \<and>
        remove_first P (y # ys) = (y # us) @ vs"
      by simp
    then show ?thesis by blast
  qed
qed simp

lemma remove_first_filter:
  "length (filter P xs) \<le> Suc 0 \<Longrightarrow> remove_first P xs = filter (\<lambda>x. \<not> P x) xs"
proof (induction xs)
  case (Cons x xs)
  then show ?case by (cases "P x") (auto simp: filter_empty_conv)
qed simp

text \<open>Index of the first entry with a property.\<close>

fun find_index :: "('a \<Rightarrow> bool) \<Rightarrow> 'a list \<Rightarrow> nat option" where
  "find_index P [] = None"
| "find_index P (x # xs) = (if P x then Some 0 else map_option Suc (find_index P xs))"

lemma find_index_SomeD:
  "find_index P xs = Some i \<Longrightarrow> i < length xs \<and> P (xs ! i) \<and> (\<forall>j < i. \<not> P (xs ! j))"
proof (induction xs arbitrary: i)
  case (Cons x xs)
  show ?case
  proof (cases "P x")
    case True
    with Cons.prems show ?thesis by simp
  next
    case False
    with Cons.prems obtain k where k: "find_index P xs = Some k" "i = Suc k" by auto
    with Cons.IH [OF k(1)] False show ?thesis by (auto simp: less_Suc_eq_0_disj)
  qed
qed simp

lemma find_index_NoneD: "find_index P xs = None \<Longrightarrow> x \<in> set xs \<Longrightarrow> \<not> P x"
  by (induction xs) (auto split: if_splits)

lemma find_index_bound: "find_index P xs = Some i \<Longrightarrow> i < length xs"
  by (drule find_index_SomeD) simp

lemma find_index_mem: "find_index P xs = Some i \<Longrightarrow> xs ! i \<in> set xs"
  by (drule find_index_SomeD) simp

text \<open>\<^verbatim>\<open>memmove\<close> of the tail over entry \<open>i\<close>: removal by index.\<close>

definition remove_nth :: "nat \<Rightarrow> 'a list \<Rightarrow> 'a list" where
  "remove_nth i xs = take i xs @ drop (Suc i) xs"

lemma length_remove_nth [simp]: "i < length xs \<Longrightarrow> length (remove_nth i xs) = length xs - 1"
  by (simp add: remove_nth_def min_def)

lemma length_remove_nth_le: "length (remove_nth i xs) \<le> length xs"
  by (simp add: remove_nth_def min_def)

lemma set_remove_nth: "set (remove_nth i xs) \<subseteq> set xs"
  by (auto simp: remove_nth_def dest: in_set_takeD in_set_dropD)

lemma set_remove_nthD: "x \<in> set (remove_nth i xs) \<Longrightarrow> x \<in> set xs"
  using set_remove_nth by fast

lemma remove_nth_0 [simp]: "remove_nth 0 (x # xs) = xs"
  by (simp add: remove_nth_def)

text \<open>A loop from index \<open>j\<close> down to 0 that removes the entries with a property.\<close>

fun remove_down :: "('a \<Rightarrow> bool) \<Rightarrow> nat \<Rightarrow> 'a list \<Rightarrow> 'a list" where
  "remove_down P j xs =
     (let ys = (if P (xs ! j) then remove_nth j xs else xs)
      in case j of 0 \<Rightarrow> ys | Suc k \<Rightarrow> remove_down P k ys)"

lemma remove_down_filter:
  "j < length xs \<Longrightarrow> remove_down P j xs = filter (\<lambda>x. \<not> P x) (take (Suc j) xs) @ drop (Suc j) xs"
proof (induction P j xs rule: remove_down.induct)
  case (1 P j xs)
  define ys where "ys = (if P (xs ! j) then remove_nth j xs else xs)"
  have ys: "take j ys = take j xs" "drop j ys = (if P (xs ! j) then [] else [xs ! j]) @ drop (Suc j) xs"
    using 1 by (auto simp: ys_def remove_nth_def Cons_nth_drop_Suc)
  show ?case
  proof (cases j)
    case 0
    then show ?thesis using 1 ys by (cases xs) (auto simp: ys_def remove_nth_def)
  next
    case (Suc k)
    have "k < length ys" using 1 Suc by (auto simp: ys_def)
    then have "remove_down P k ys = filter (\<lambda>x. \<not> P x) (take j ys) @ drop j ys"
      using 1 Suc by (simp add: ys_def)
    moreover have "remove_down P j xs = remove_down P k ys"
      using Suc by (simp add: ys_def)
    moreover have "take (Suc j) xs = take j xs @ [xs ! j]" using 1 by (simp add: take_Suc_conv_app_nth)
    ultimately show ?thesis by (simp add: ys)
  qed
qed

declare remove_down.simps [simp del]

section \<open>Words\<close>

lemma word_of_nat_unat_id [simp]: "word_of_nat (unat w) = w"
  by simp

lemma byte_unat_less [simp]: "unat (w :: byte) < 256"
  using unsigned_less [of w] by simp

end
