(* ===== verification/Buffer.thy ===== *)
theory Buffer
  imports Prelude
begin

text \<open>
  \<^verbatim>\<open>src/buffer.c\<close>, \<^verbatim>\<open>src/buffer.h\<close>: the fixed-size byte buffer between the connectors and
  the keyer. The storage is an array of \<^verbatim>\<open>BUFFER_CAPACITY\<close> bytes, here a function from the
  index; \<^verbatim>\<open>size\<close> and \<^verbatim>\<open>rpos\<close> are \<^verbatim>\<open>uint16_t\<close>, kept as \<open>nat\<close> with the conversion written
  out (\<open>to_u16\<close>). The unread bytes are those from \<^verbatim>\<open>rpos\<close> up to \<^verbatim>\<open>size\<close> (\<open>buf_contents\<close>).
  The interface the other components use is the locale \<open>byte_fifo\<close>, interpreted here.
\<close>

section \<open>The buffer and its operations\<close>

definition BUFFER_CAPACITY :: nat where
  "BUFFER_CAPACITY = 4096"

record buffer =
  buf_data :: "nat \<Rightarrow> byte"
  buf_size :: nat
  buf_rpos :: nat

text \<open>A fresh buffer: \<^verbatim>\<open>calloc\<close>.\<close>

definition buf_alloc :: buffer where
  "buf_alloc = \<lparr>buf_data = (\<lambda>_. 0), buf_size = 0, buf_rpos = 0\<rparr>"

definition buf_reset :: "buffer \<Rightarrow> buffer" where
  "buf_reset b = b\<lparr>buf_size := 0, buf_rpos := 0\<rparr>"

definition buf_size_avail :: "buffer \<Rightarrow> nat" where
  "buf_size_avail b = to_u16 (int BUFFER_CAPACITY - int (buf_size b))"

definition buf_add_size :: "buffer \<Rightarrow> nat \<Rightarrow> buffer" where
  "buf_add_size b inc = b\<lparr>buf_size := to_u16 (int (buf_size b) + int inc)\<rparr>"

definition buf_consume :: "buffer \<Rightarrow> nat \<Rightarrow> buffer" where
  "buf_consume b inc =
     (let b' = b\<lparr>buf_rpos := to_u16 (int (buf_rpos b) + int inc)\<rparr>
      in if buf_rpos b' = buf_size b' then buf_reset b' else b')"

text \<open>The result is the C return value: \<open>-1\<close> when the buffer is full.\<close>

definition buf_append_c :: "buffer \<Rightarrow> byte \<Rightarrow> int \<times> buffer" where
  "buf_append_c b c =
     (if buf_size b = BUFFER_CAPACITY then (-1, b)
      else (0, b\<lparr>buf_data := (buf_data b)(buf_size b := c),
                 buf_size := to_u16 (int (buf_size b) + 1)\<rparr>))"

text \<open>
  \<^verbatim>\<open>memcpy\<close> to \<^verbatim>\<open>data + size\<close>; also what a \<^verbatim>\<open>read()\<close> to that address does.
\<close>

definition buf_store :: "buffer \<Rightarrow> byte list \<Rightarrow> buffer" where
  "buf_store b p =
     b\<lparr>buf_data := (\<lambda>i. if buf_size b \<le> i \<and> i < buf_size b + length p
                        then p ! (i - buf_size b) else buf_data b i)\<rparr>"

definition buf_append :: "buffer \<Rightarrow> byte list \<Rightarrow> nat \<Rightarrow> int \<times> buffer" where
  "buf_append b p len =
     (let avail = buf_size_avail b;
          len' = (if len > avail then avail else len)
      in (int len', buf_add_size (buf_store b (take len' p)) len'))"

text \<open>The C string argument is its bytes up to the terminating zero.\<close>

definition buf_append_str :: "buffer \<Rightarrow> byte list \<Rightarrow> int \<times> buffer" where
  "buf_append_str b p = (let s = takeWhile (\<lambda>c. c \<noteq> 0) p in buf_append b s (to_u16 (int (length s))))"

text \<open>\<open>None\<close> is the C return value \<open>-1\<close>.\<close>

definition buf_get_c :: "buffer \<Rightarrow> byte option \<times> buffer" where
  "buf_get_c b =
     (if buf_rpos b = buf_size b then (None, b)
      else let c = buf_data b (buf_rpos b);
               b' = b\<lparr>buf_rpos := to_u16 (int (buf_rpos b) + 1)\<rparr>
           in (Some c, if buf_rpos b' = buf_size b' then buf_reset b' else b'))"

definition buf_remove_front :: "buffer \<Rightarrow> nat \<Rightarrow> buffer" where
  "buf_remove_front b len =
     (let n = buf_size b - len;
          b' = b\<lparr>buf_data := (\<lambda>i. if i < n then buf_data b (i + len) else buf_data b i),
                 buf_size := to_u16 (int (buf_size b) - int len)\<rparr>
      in if buf_rpos b' \<le> len then b'\<lparr>buf_rpos := 0\<rparr>
         else b'\<lparr>buf_rpos := to_u16 (int (buf_rpos b') - int len)\<rparr>)"

section \<open>Invariant and abstraction\<close>

definition buf_ok :: "buffer \<Rightarrow> bool" where
  "buf_ok b \<longleftrightarrow> buf_rpos b \<le> buf_size b \<and> buf_size b \<le> BUFFER_CAPACITY \<and>
     (buf_rpos b = buf_size b \<longrightarrow> buf_size b = 0)"

definition buf_contents :: "buffer \<Rightarrow> byte list" where
  "buf_contents b = map (buf_data b) [buf_rpos b..<buf_size b]"

lemmas buf_defs = buf_ok_def buf_contents_def BUFFER_CAPACITY_def

lemma buf_ok_alloc [simp, invs]: "buf_ok buf_alloc"
  by (simp add: buf_defs buf_alloc_def)

lemma buf_contents_alloc [simp]: "buf_contents buf_alloc = []"
  by (simp add: buf_defs buf_alloc_def)

lemma buf_ok_reset [simp, invs]: "buf_ok (buf_reset b)"
  by (simp add: buf_defs buf_reset_def)

lemma buf_contents_reset [simp]: "buf_contents (buf_reset b) = []"
  by (simp add: buf_defs buf_reset_def)

lemma buf_size_reset [simp]: "buf_size (buf_reset b) = 0"
  by (simp add: buf_reset_def)

lemma buf_avail: "buf_ok b \<Longrightarrow> buf_size_avail b = BUFFER_CAPACITY - buf_size b"
  by (auto simp: buf_defs buf_size_avail_def nat_diff_distrib)

lemma buf_avail_le: "buf_ok b \<Longrightarrow> buf_size_avail b \<le> BUFFER_CAPACITY"
  by (simp add: buf_avail)

lemma length_buf_contents: "length (buf_contents b) = buf_size b - buf_rpos b"
  by (simp add: buf_contents_def)

lemma buf_contents_empty_iff: "buf_ok b \<Longrightarrow> buf_contents b = [] \<longleftrightarrow> buf_size b = 0"
  by (auto simp: buf_defs)

text \<open>What is read from the buffer lies inside the array.\<close>

lemma buf_index_bound: "buf_ok b \<Longrightarrow> buf_rpos b \<noteq> buf_size b \<Longrightarrow> buf_rpos b < BUFFER_CAPACITY"
  by (simp add: buf_defs)

section \<open>Putting and getting\<close>

text \<open>Storing bytes that fit and advancing the size appends them.\<close>

lemma buf_put:
  assumes ok: "buf_ok b" and fits: "length p \<le> buf_size_avail b"
  shows "buf_ok (buf_add_size (buf_store b p) (length p))"
    and "buf_contents (buf_add_size (buf_store b p) (length p)) = buf_contents b @ p"
    and "buf_size (buf_add_size (buf_store b p) (length p)) = buf_size b + length p"
proof -
  have room: "buf_size b + length p \<le> 4096"
    using assms by (auto simp: buf_avail buf_defs)
  then have sz: "buf_size (buf_add_size (buf_store b p) (length p)) = buf_size b + length p"
    by (simp add: buf_add_size_def buf_store_def nat_add_distrib)
  then show "buf_size (buf_add_size (buf_store b p) (length p)) = buf_size b + length p" .
  show "buf_ok (buf_add_size (buf_store b p) (length p))"
    using ok room sz by (auto simp: buf_defs buf_add_size_def buf_store_def)
  have le: "buf_rpos b \<le> buf_size b" using ok by (simp add: buf_ok_def)
  have "[buf_rpos b..<buf_size b + length p] = [buf_rpos b..<buf_size b] @ [buf_size b..<buf_size b + length p]"
    using le by (metis le_add1 upt_add_eq_append le_Suc_ex)
  moreover have "map (\<lambda>i. p ! (i - buf_size b)) [buf_size b..<buf_size b + length p] = p"
    by (rule nth_equalityI) auto
  moreover have "map (\<lambda>i. if buf_size b \<le> i \<and> i < buf_size b + length p then p ! (i - buf_size b) else buf_data b i)
      [buf_size b..<buf_size b + length p] = map (\<lambda>i. p ! (i - buf_size b)) [buf_size b..<buf_size b + length p]"
    by (rule map_cong) auto
  ultimately show "buf_contents (buf_add_size (buf_store b p) (length p)) = buf_contents b @ p"
    using sz by (simp add: buf_contents_def) (simp add: buf_add_size_def buf_store_def)
qed

lemma buf_append_fits:
  assumes "buf_ok b" and "length p \<le> buf_size_avail b"
  shows "fst (buf_append b p (length p)) = int (length p)"
    and "buf_ok (snd (buf_append b p (length p)))"
    and "buf_contents (snd (buf_append b p (length p))) = buf_contents b @ p"
    and "buf_size (snd (buf_append b p (length p))) = buf_size b + length p"
  using buf_put [OF assms] assms(2) by (auto simp: buf_append_def Let_def)

lemma buf_append_cut:
  assumes ok: "buf_ok b"
  shows "buf_ok (snd (buf_append b p (length p)))"
    and "buf_contents (snd (buf_append b p (length p))) = buf_contents b @ take (buf_size_avail b) p"
    and "fst (buf_append b p (length p)) = int (min (length p) (buf_size_avail b))"
proof -
  let ?n = "if length p > buf_size_avail b then buf_size_avail b else length p"
  have len: "length (take ?n p) = ?n" by auto
  note put = buf_put [OF ok, of "take ?n p"]
  have fits: "length (take ?n p) \<le> buf_size_avail b" by auto
  have tk: "take ?n p = take (buf_size_avail b) p" by auto
  have eq: "buf_append b p (length p) = (int ?n, buf_add_size (buf_store b (take ?n p)) (length (take ?n p)))"
    unfolding len by (simp add: buf_append_def Let_def)
  show "buf_ok (snd (buf_append b p (length p)))"
    unfolding eq snd_conv by (rule put(1) [OF fits])
  show "buf_contents (snd (buf_append b p (length p))) = buf_contents b @ take (buf_size_avail b) p"
    using put(2) [OF fits] by (simp only: eq snd_conv tk)
  show "fst (buf_append b p (length p)) = int (min (length p) (buf_size_avail b))"
    unfolding eq by auto
qed

lemma buf_append_c_ok [invs]: "buf_ok b \<Longrightarrow> buf_ok (snd (buf_append_c b c))"
  by (auto simp: buf_defs buf_append_c_def nat_add_distrib)

lemma buf_append_c_contents:
  assumes "buf_ok b" and "buf_size b \<noteq> BUFFER_CAPACITY"
  shows "fst (buf_append_c b c) = 0"
    and "buf_contents (snd (buf_append_c b c)) = buf_contents b @ [c]"
  using assms by (auto simp: buf_defs buf_append_c_def nat_add_distrib)

lemma buf_append_c_full: "buf_size b = BUFFER_CAPACITY \<Longrightarrow> buf_append_c b c = (-1, b)"
  by (simp add: buf_append_c_def)

lemma buf_get_c_empty: "buf_ok b \<Longrightarrow> buf_contents b = [] \<Longrightarrow> buf_get_c b = (None, b)"
  by (auto simp: buf_defs buf_get_c_def)

lemma buf_get_c_next:
  assumes ok: "buf_ok b" and c: "buf_contents b = c # cs"
  shows "fst (buf_get_c b) = Some c" and "buf_ok (snd (buf_get_c b))"
    and "buf_contents (snd (buf_get_c b)) = cs"
proof -
  have lt: "buf_rpos b < buf_size b"
  proof (rule ccontr)
    assume "\<not> buf_rpos b < buf_size b"
    then have "buf_contents b = []" by (simp add: buf_contents_def)
    with c show False by simp
  qed
  then have upt: "[buf_rpos b..<buf_size b] = buf_rpos b # [Suc (buf_rpos b)..<buf_size b]"
    by (rule upt_conv_Cons)
  from c upt have hd: "buf_data b (buf_rpos b) = c" and tl: "map (buf_data b) [Suc (buf_rpos b)..<buf_size b] = cs"
    by (auto simp: buf_contents_def)
  have b: "buf_size b \<le> 4096" using ok by (simp add: buf_defs)
  show "fst (buf_get_c b) = Some c"
    using lt hd by (simp add: buf_get_c_def Let_def)
  show "buf_ok (snd (buf_get_c b))"
    using lt b by (auto simp: buf_get_c_def Let_def buf_defs nat_add_distrib buf_reset_def)
  show "buf_contents (snd (buf_get_c b)) = cs"
    using lt b tl by (auto simp: buf_get_c_def Let_def buf_contents_def nat_add_distrib buf_reset_def)
qed

lemma buf_get_c_ok [invs]: "buf_ok b \<Longrightarrow> buf_ok (snd (buf_get_c b))"
  by (cases "buf_contents b") (auto simp: buf_get_c_empty buf_get_c_next)

lemma buf_consume_contents:
  assumes ok: "buf_ok b" and n: "n \<le> length (buf_contents b)"
  shows "buf_ok (buf_consume b n)" and "buf_contents (buf_consume b n) = drop n (buf_contents b)"
proof -
  have le: "buf_rpos b + n \<le> buf_size b" and b: "buf_size b \<le> 4096"
    using assms by (auto simp: length_buf_contents) (auto simp: buf_defs)
  then have rp: "to_u16 (int (buf_rpos b) + int n) = buf_rpos b + n"
    by (simp add: nat_add_distrib)
  show "buf_ok (buf_consume b n)"
    using ok le b rp by (auto simp: buf_consume_def Let_def buf_defs buf_reset_def)
  show "buf_contents (buf_consume b n) = drop n (buf_contents b)"
    using le rp by (auto simp: buf_consume_def Let_def buf_contents_def buf_reset_def drop_map)
qed

lemma buf_remove_front_contents:
  assumes ok: "buf_ok b" and n: "n \<le> buf_size b" and r: "buf_rpos b = 0"
  shows "buf_ok (buf_remove_front b n)" and "buf_contents (buf_remove_front b n) = drop n (buf_contents b)"
proof -
  have b: "buf_size b \<le> 4096" using ok by (simp add: buf_defs)
  have sz: "to_u16 (int (buf_size b) - int n) = buf_size b - n"
    using n b by (simp add: nat_diff_distrib)
  show "buf_ok (buf_remove_front b n)"
    using ok n r b sz by (auto simp: buf_remove_front_def Let_def buf_defs)
  have "map (\<lambda>i. if i < buf_size b - n then buf_data b (i + n) else buf_data b i) [0..<buf_size b - n]
      = map (buf_data b) [n..<buf_size b]"
    by (rule nth_equalityI) (auto simp: add.commute)
  then show "buf_contents (buf_remove_front b n) = drop n (buf_contents b)"
    using r sz by (simp add: buf_remove_front_def Let_def buf_contents_def drop_map)
qed

section \<open>The interface: a byte queue\<close>

text \<open>
  What the multiplexer and the router need of a buffer: a queue of bytes that gives them back in
  order. \<open>get\<close> is one \<^verbatim>\<open>buf_get_c\<close>; \<open>drain get n\<close> is a loop
  \<^verbatim>\<open>while(-1 != (c = buf_get_c(b)))\<close> that stops after \<open>n\<close> bytes.
\<close>

fun drain :: "('q \<Rightarrow> byte option \<times> 'q) \<Rightarrow> nat \<Rightarrow> 'q \<Rightarrow> byte list \<times> 'q" where
  "drain get 0 q = ([], q)"
| "drain get (Suc n) q =
     (case get q of (None, q') \<Rightarrow> ([], q') | (Some c, q') \<Rightarrow> let r = drain get n q' in (c # fst r, snd r))"

locale byte_fifo =
  fixes ok :: "'q \<Rightarrow> bool"
    and contents :: "'q \<Rightarrow> byte list"
    and room :: "'q \<Rightarrow> nat"
    and put :: "'q \<Rightarrow> byte list \<Rightarrow> 'q"
    and get :: "'q \<Rightarrow> byte option \<times> 'q"
  assumes put_ok: "ok q \<Longrightarrow> ok (put q bs)"
    and put_contents: "ok q \<Longrightarrow> contents (put q bs) = contents q @ take (room q) bs"
    and get_empty: "ok q \<Longrightarrow> contents q = [] \<Longrightarrow> get q = (None, q)"
    and get_next: "ok q \<Longrightarrow> contents q = c # cs \<Longrightarrow> fst (get q) = Some c \<and> ok (snd (get q)) \<and> contents (snd (get q)) = cs"
begin

lemma get_ok: "ok q \<Longrightarrow> ok (snd (get q))"
  using get_empty get_next by (cases "contents q") auto

lemma get_contents: "ok q \<Longrightarrow> contents (snd (get q)) = tl (contents q)"
  using get_empty get_next by (cases "contents q") auto

lemma get_fst: "ok q \<Longrightarrow> fst (get q) = (case contents q of [] \<Rightarrow> None | c # _ \<Rightarrow> Some c)"
  using get_empty get_next by (cases "contents q") auto

text \<open>What was read, followed by what is left, is what was there.\<close>

lemma get_split: "ok q \<Longrightarrow> contents q = (case fst (get q) of None \<Rightarrow> [] | Some c \<Rightarrow> [c]) @ contents (snd (get q))"
  using get_empty get_next by (cases "contents q") auto

lemma drain_contents:
  "ok q \<Longrightarrow> fst (drain get n q) = take n (contents q) \<and> contents (snd (drain get n q)) = drop n (contents q) \<and> ok (snd (drain get n q))"
proof (induction n arbitrary: q)
  case (Suc n)
  show ?case
  proof (cases "contents q")
    case Nil
    with Suc.prems get_empty show ?thesis by simp
  next
    case (Cons c cs)
    with Suc.prems get_next have "fst (get q) = Some c" "ok (snd (get q))" "contents (snd (get q)) = cs"
      by auto
    with Suc.IH [of "snd (get q)"] Cons show ?thesis
      by (auto simp: Let_def split: prod.splits)
  qed
qed simp

lemma put_drain:
  "ok q \<Longrightarrow> length bs \<le> room q \<Longrightarrow>
   fst (drain get (length (contents q) + length bs) (put q bs)) = contents q @ bs"
  using drain_contents [of "put q bs"] put_ok put_contents by simp

end

text \<open>The buffer with \<^verbatim>\<open>buf_append\<close> and \<^verbatim>\<open>buf_get_c\<close> keeps the contract.\<close>

interpretation bfifo: byte_fifo buf_ok buf_contents buf_size_avail
  "\<lambda>b p. snd (buf_append b p (length p))" buf_get_c
  by unfold_locales (auto simp: buf_append_cut buf_get_c_empty buf_get_c_next)

text \<open>Appending a block that fits and reading byte by byte with \<^verbatim>\<open>buf_get_c\<close> returns the bytes
  that were already unread, then the block, in order: nothing is lost, duplicated or reordered.\<close>

theorem buffer_fifo:
  assumes "buf_ok b" and "length p \<le> buf_size_avail b"
  shows "fst (buf_append b p (length p)) = int (length p) \<and>
    fst (drain buf_get_c (length (buf_contents b) + length p) (snd (buf_append b p (length p)))) = buf_contents b @ p"
  using bfifo.put_drain [OF assms] buf_append_fits(1) [OF assms] by auto

theorem buffer_fifo_witness:
  "fst (drain buf_get_c 3 (snd (buf_append buf_alloc [1, 2, 3] 3))) = [1, 2, 3]"
proof -
  have "length [1 :: byte, 2, 3] \<le> buf_size_avail buf_alloc"
    by (simp add: buf_avail) (simp add: buf_alloc_def BUFFER_CAPACITY_def)
  from buffer_fifo [OF buf_ok_alloc this] show ?thesis
    by (simp add: numeral_3_eq_3 del: drain.simps)
qed

end
