(* ===== verification/Channel.thy ===== *)
theory Channel
  imports Prelude
begin

text \<open>
  \<^verbatim>\<open>src/channel.c\<close>, \<^verbatim>\<open>src/channel.h\<close>, \<^verbatim>\<open>src/mhflags.h\<close>, \<^verbatim>\<open>src/ptt_byte.h\<close>: the numbers of the
  microHam channels and of the pseudo channels, their names, the PTT channel that belongs to a
  channel, and the bits of the flags byte.
\<close>

section \<open>Channel numbers\<close>

text \<open>A channel is a C \<^verbatim>\<open>int\<close>; the callers pass any value and the operations check the range.\<close>

type_synonym channel = int

abbreviation (input) "MH_CHANNEL_FLAGS \<equiv> (0::int)"
abbreviation (input) "MH_CHANNEL_CONTROL \<equiv> (1::int)"
abbreviation (input) "MH_CHANNEL_WINKEY \<equiv> (2::int)"
abbreviation (input) "MH_CHANNEL_PS2 \<equiv> (3::int)"
abbreviation (input) "MH_CHANNEL_R1 \<equiv> (4::int)"
abbreviation (input) "MH_CHANNEL_R2 \<equiv> (5::int)"
abbreviation (input) "MH_CHANNEL_R1_FSK \<equiv> (6::int)"
abbreviation (input) "MH_CHANNEL_R2_FSK \<equiv> (7::int)"
abbreviation (input) "MH_NUM_CHANNELS \<equiv> (8::int)"
abbreviation (input) "CH_PTT1 \<equiv> (9::int)"
abbreviation (input) "CH_PTT2 \<equiv> (10::int)"
abbreviation (input) "CH_PTT_FOCUS \<equiv> (11::int)"
abbreviation (input) "CH_MCP \<equiv> (12::int)"
abbreviation (input) "CH_ROTATOR \<equiv> (13::int)"
abbreviation (input) "ALL_NUM_CHANNELS \<equiv> (14::int)"

definition ch_is_ptt_channel :: "channel \<Rightarrow> bool" where
  "ch_is_ptt_channel ch \<longleftrightarrow> ch = CH_PTT1 \<or> ch = CH_PTT2 \<or> ch = CH_PTT_FOCUS"

section \<open>Names\<close>

definition channel_map :: "(string \<times> channel) list" where
  "channel_map =
     [(''CTL'', MH_CHANNEL_CONTROL), (''FLAGS'', MH_CHANNEL_FLAGS),
      (''R1'', MH_CHANNEL_R1), (''R2'', MH_CHANNEL_R2),
      (''CAT1'', MH_CHANNEL_R1), (''CAT2'', MH_CHANNEL_R2), (''AUX'', MH_CHANNEL_R2),
      (''FSK1'', MH_CHANNEL_R1_FSK), (''FSK2'', MH_CHANNEL_R2_FSK), (''WK'', MH_CHANNEL_WINKEY),
      (''PTT1'', CH_PTT1), (''PTT2'', CH_PTT2), (''PTT_FOCUS'', CH_PTT_FOCUS),
      (''MCP'', CH_MCP), (''ROTATOR'', CH_ROTATOR)]"

text \<open>\<^verbatim>\<open>-1\<close> for a channel that has no PTT channel.\<close>

definition ch_ptt_channel :: "channel \<Rightarrow> channel" where
  "ch_ptt_channel ch =
     (if ch = MH_CHANNEL_R1 \<or> ch = MH_CHANNEL_R1_FSK then CH_PTT1
      else if ch = MH_CHANNEL_R2 \<or> ch = MH_CHANNEL_R2_FSK then CH_PTT2
      else if ch = MH_CHANNEL_WINKEY then CH_PTT_FOCUS
      else if ch = CH_PTT1 \<or> ch = CH_PTT2 then ch
      else -1)"

definition ch_channel2str :: "channel \<Rightarrow> string" where
  "ch_channel2str ch =
     (case find (\<lambda>e. snd e = ch) channel_map of Some e \<Rightarrow> fst e | None \<Rightarrow> ''Unknown'')"

text \<open>The second argument is the flag \<^verbatim>\<open>MHF_HAS_R2\<close> of the keyer type.\<close>

definition ch_channel2str_new :: "channel \<Rightarrow> bool \<Rightarrow> string" where
  "ch_channel2str_new ch has_r2 =
     (if ch = MH_CHANNEL_R2 then (if has_r2 then ''R2'' else ''AUX'')
      else case find (\<lambda>e. snd e = ch) channel_map of Some e \<Rightarrow> fst e | None \<Rightarrow> ''UNKNOWN'')"

text \<open>\<^verbatim>\<open>strcasecmp\<close> in the C locale: equality after folding the ASCII capitals (adding 32, bit 5).\<close>

fun lower_char :: "char \<Rightarrow> char" where
  "lower_char (Char b0 b1 b2 b3 b4 b5 b6 b7) =
     (let n = of_char (Char b0 b1 b2 b3 b4 b5 b6 b7) :: nat
      in if 65 \<le> n \<and> n \<le> 90 then Char b0 b1 b2 b3 b4 True b6 b7 else Char b0 b1 b2 b3 b4 b5 b6 b7)"

definition strcaseeq :: "string \<Rightarrow> string \<Rightarrow> bool" where
  "strcaseeq s t \<longleftrightarrow> map lower_char s = map lower_char t"

definition ch_str2channel :: "string \<Rightarrow> channel" where
  "ch_str2channel s =
     (case find (\<lambda>e. strcaseeq (fst e) s) channel_map of Some e \<Rightarrow> snd e | None \<Rightarrow> -1)"

section \<open>Flag and PTT bytes\<close>

abbreviation (input) "MHC2DFL_PTT_R1 \<equiv> (4::byte)"
abbreviation (input) "MHC2DFL_PTT_R2 \<equiv> (8::byte)"
abbreviation (input) "PTT_ON_BYTE \<equiv> (1::byte)"
abbreviation (input) "PTT_OFF_BYTE \<equiv> (0::byte)"

section \<open>Properties\<close>

lemma strcaseeq_refl [simp]: "strcaseeq s s"
  by (simp add: strcaseeq_def)

lemma channel_map_range: "e \<in> set channel_map \<Longrightarrow> 0 \<le> snd e \<and> snd e < ALL_NUM_CHANNELS"
  by (auto simp: channel_map_def)

lemma ch_str2channel_range: "ch_str2channel s = -1 \<or> 0 \<le> ch_str2channel s \<and> ch_str2channel s < ALL_NUM_CHANNELS"
  by (auto simp: ch_str2channel_def split: option.splits dest!: find_SomeD dest: channel_map_range)

lemma find_each_name: "\<forall>x \<in> set channel_map. find (\<lambda>e. strcaseeq (fst e) (fst x)) channel_map = Some x"
  by (simp add: channel_map_def strcaseeq_def)

lemma find_unique_name:
  "(s, ch) \<in> set channel_map \<Longrightarrow> find (\<lambda>e. strcaseeq (fst e) s) channel_map = Some (s, ch)"
  using find_each_name by fastforce

lemma ch_ptt_channel_ptt: "ch_ptt_channel ch = -1 \<or> ch_is_ptt_channel (ch_ptt_channel ch)"
  by (simp add: ch_ptt_channel_def ch_is_ptt_channel_def)

text \<open>A channel that has a name keeps its number through \<^verbatim>\<open>ch_channel2str\<close> and \<^verbatim>\<open>ch_str2channel\<close>, which is how
  a connector configuration survives being written and read back. The keyer-specific name does too.\<close>

theorem channel_name_roundtrip:
  "ch \<in> snd ` set channel_map \<Longrightarrow>
   ch_str2channel (ch_channel2str ch) = ch \<and> ch_str2channel (ch_channel2str_new ch r2) = ch"
proof -
  assume "ch \<in> snd ` set channel_map"
  then have "ch \<in> {0, 1, 2, 4, 5, 6, 7, 9, 10, 11, 12, 13}"
    by (auto simp: channel_map_def)
  then have a: "(ch_channel2str ch, ch) \<in> set channel_map"
    by (auto simp: ch_channel2str_def channel_map_def)
  moreover from \<open>ch \<in> {0, 1, 2, 4, 5, 6, 7, 9, 10, 11, 12, 13}\<close>
  have "(ch_channel2str_new ch r2, ch) \<in> set channel_map"
    by (auto simp: ch_channel2str_new_def channel_map_def)
  ultimately show ?thesis
    by (simp add: ch_str2channel_def find_unique_name)
qed

theorem channel_name_roundtrip_witness:
  "ch_str2channel (ch_channel2str CH_ROTATOR) = CH_ROTATOR \<and>
   ch_str2channel (ch_channel2str_new MH_CHANNEL_R2 False) = MH_CHANNEL_R2"
proof -
  have "CH_ROTATOR \<in> snd ` set channel_map" "MH_CHANNEL_R2 \<in> snd ` set channel_map"
    by (simp_all add: channel_map_def)
  from channel_name_roundtrip [OF this(1)] channel_name_roundtrip [OF this(2), of False]
  show ?thesis by simp
qed

end
