(* ===== verification/Mux.thy ===== *)
theory Mux
  imports Buffer Channel
begin

unbundle bit_operations_syntax

text \<open>
  \<^verbatim>\<open>src/mux.c\<close>: the multiplexer. It takes one byte at a time from the channel buffers and packs them
  into sequences of up to five frames of four bytes: a sync byte with the validity bits and the
  most significant bits, and three payload bytes (radio 1, radio 2, shared channel of the frame).
  \<open>rd_frames\<close> is the specification side: how a receiver reads such a stream.
\<close>

section \<open>The multiplexer\<close>

type_synonym chan_bufs = "channel \<Rightarrow> buffer"

definition MAX_SEQUENCE_SIZE :: nat where
  "MAX_SEQUENCE_SIZE = 5 * 4"

text \<open>The shared channel of each frame (the switch on \<^verbatim>\<open>frame_no\<close>).\<close>

definition mux_shared :: "nat \<Rightarrow> channel" where
  "mux_shared f =
     (if f = 0 then MH_CHANNEL_FLAGS else if f = 1 then MH_CHANNEL_CONTROL
      else if f = 2 then MH_CHANNEL_WINKEY else if f = 3 then MH_CHANNEL_R1_FSK
      else MH_CHANNEL_R2_FSK)"

text \<open>\<^verbatim>\<open>buf_get_c(&ibuf[ch])\<close>.\<close>

definition mux_get :: "chan_bufs \<Rightarrow> channel \<Rightarrow> byte option \<times> chan_bufs" where
  "mux_get ib ch = (let r = buf_get_c (ib ch) in (fst r, ib(ch := snd r)))"

text \<open>\<^verbatim>\<open>(c >> 7) << k\<close>: the most significant bit of a payload byte, moved to bit \<open>k\<close> of the sync byte.\<close>

definition msb_at :: "nat \<Rightarrow> byte \<Rightarrow> byte" where
  "msb_at k c = push_bit k (drop_bit 7 c)"

text \<open>
  One pass of the \<^verbatim>\<open>for\<close> loop: the four bytes \<^verbatim>\<open>seq[frame_no*4 .. frame_no*4+3]\<close>, whether
  \<^verbatim>\<open>size\<close> was set, and the channel buffers.
\<close>

definition mux_frame :: "nat \<Rightarrow> chan_bufs \<Rightarrow> byte list \<times> bool \<times> chan_bufs" where
  "mux_frame f ib =
     (let s0 = (if f \<noteq> 0 then push_bit 6 1 else 0);
          p0 = push_bit 7 1;
          (c1, ib1) = mux_get ib MH_CHANNEL_R1;
          (s1, p1) = (case c1 of None \<Rightarrow> (s0, p0)
            | Some c \<Rightarrow> (s0 OR push_bit 5 1 OR msb_at 2 c, p0 OR c));
          (c2, ib2) = mux_get ib1 MH_CHANNEL_R2;
          (s2, p2) = (case c2 of None \<Rightarrow> (s1, p0)
            | Some c \<Rightarrow> (s1 OR push_bit 4 1 OR msb_at 1 c, p0 OR c));
          channel = mux_shared f;
          (c3, ib3) = mux_get ib2 channel;
          b = ib3 channel;
          (s3, p3) = (case c3 of None \<Rightarrow> (s2, p0)
            | Some c \<Rightarrow>
               ((if channel \<noteq> MH_CHANNEL_CONTROL \<or> (buf_rpos b > 1 \<and> buf_rpos b < buf_size b)
                 then s2 OR push_bit 3 1 else s2) OR msb_at 0 c, p0 OR c))
      in ([s3, p1, p2, p3], c1 \<noteq> None \<or> c2 \<noteq> None \<or> c3 \<noteq> None, ib3))"

text \<open>The \<^verbatim>\<open>for\<close> loop; \<^verbatim>\<open>size\<close> is \<^verbatim>\<open>-1\<close> while no frame carried data.\<close>

fun mux_frames :: "nat list \<Rightarrow> chan_bufs \<Rightarrow> byte list \<Rightarrow> int \<Rightarrow> byte list \<times> int \<times> chan_bufs" where
  "mux_frames [] ib seq sz = (seq, sz, ib)"
| "mux_frames (f # fs) ib seq sz =
     (let (bs, got, ib') = mux_frame f ib
      in mux_frames fs ib' (seq @ bs) (if got then (int f + 1) * 4 else sz))"

lemma mux_frames_size:
  "mux_frames fs ib seq sz = (seq', sz', ib') \<Longrightarrow> sz = -1 \<or> 0 < sz \<Longrightarrow> sz' = -1 \<or> 0 < sz'"
  by (induction fs arbitrary: ib seq sz) (auto split: prod.splits if_splits)

lemma mux_frames_pos: "mux_frames fs ib seq sz = (seq', sz', ib') \<Longrightarrow> 0 < sz \<Longrightarrow> 0 < sz'"
  by (induction fs arbitrary: ib seq sz) (auto split: prod.splits if_splits)

text \<open>The \<^verbatim>\<open>do\<close> loop, once the output buffer has room for a sequence.\<close>

lemma mux_append_less:
  assumes "0 < n" and "20 \<le> buf_size_avail (snd (buf_append b p n))"
  shows "buf_size_avail (snd (buf_append b p n)) < buf_size_avail b"
proof -
  let ?A = "buf_size_avail b" and ?s = "int (buf_size b)"
  let ?n = "if n > ?A then ?A else n"
  have A: "int ?A = (4096 - ?s) mod 65536"
    by (simp add: buf_size_avail_def to_u16_def BUFFER_CAPACITY_def)
  have s': "int (buf_size (snd (buf_append b p n))) = (?s + int ?n) mod 65536"
    by (simp add: buf_append_def Let_def buf_add_size_def buf_store_def to_u16_def)
  have "int (buf_size_avail (snd (buf_append b p n))) = (4096 - int (buf_size (snd (buf_append b p n)))) mod 65536"
    by (simp add: buf_size_avail_def to_u16_def BUFFER_CAPACITY_def del: mod_diff_eq)
  then have "int (buf_size_avail (snd (buf_append b p n))) = (4096 - (?s + int ?n) mod 65536) mod 65536"
    unfolding s' .
  also have "\<dots> = (4096 - ?s - int ?n) mod 65536"
    by (simp add: mod_diff_right_eq algebra_simps)
  also have "\<dots> = (int ?A - int ?n) mod 65536"
    unfolding A by (simp add: mod_diff_left_eq)
  also have "\<dots> = int ?A - int ?n"
  proof (rule mod_pos_pos_trivial)
    have "?A < 65536" by (simp add: buf_size_avail_def)
    then show "int ?A - int ?n < 65536" by simp
  qed simp
  finally have e: "int (buf_size_avail (snd (buf_append b p n))) = int ?A - int ?n" .
  show ?thesis
  proof (cases "n > ?A")
    case True
    with e have "buf_size_avail (snd (buf_append b p n)) = 0" by simp
    with assms(2) show ?thesis by simp
  next
    case False
    with e assms show ?thesis by simp
  qed
qed

function mux_loop :: "buffer \<Rightarrow> chan_bufs \<Rightarrow> int \<Rightarrow> int \<times> buffer \<times> chan_bufs" where
  "mux_loop bout ib out_size =
     (case mux_frames [0..<5] ib [] (-1) of (seq, sz, ib') \<Rightarrow>
        if sz \<noteq> -1 then
          (let bout' = snd (buf_append bout seq (nat sz)) in
           if buf_size_avail bout' \<ge> MAX_SEQUENCE_SIZE then mux_loop bout' ib' (out_size + sz)
           else (out_size + sz, bout', ib'))
        else (out_size, bout, ib'))"
  by pat_completeness auto
termination
  by (relation "measure (\<lambda>(bout, ib, out_size). buf_size_avail bout)")
    (auto simp: MAX_SEQUENCE_SIZE_def intro!: mux_append_less dest: mux_frames_size [OF sym])

declare mux_loop.simps [simp del]

definition mx_mux :: "buffer \<Rightarrow> chan_bufs \<Rightarrow> int \<times> buffer \<times> chan_bufs" where
  "mx_mux bout ib =
     (if buf_size_avail bout < MAX_SEQUENCE_SIZE then (0, bout, ib) else mux_loop bout ib 0)"

section \<open>Reading the stream\<close>

text \<open>
  The receiver's side, from the frame layout of the protocol: bit 6 of the sync byte is clear in
  the first frame of a sequence, bits 5, 4 and 3 tell which payload bytes carry data, bits 2, 1
  and 0 are their most significant bits.
\<close>

definition rd_byte :: "byte \<Rightarrow> nat \<Rightarrow> byte \<Rightarrow> byte" where
  "rd_byte s msb p = (p AND 127) OR (if bit s msb then 128 else 0)"

definition rd_frame :: "nat \<Rightarrow> byte \<Rightarrow> byte \<Rightarrow> byte \<Rightarrow> byte \<Rightarrow> (channel \<times> byte) list" where
  "rd_frame f s p1 p2 p3 =
     (if bit s 5 then [(MH_CHANNEL_R1, rd_byte s 2 p1)] else []) @
     (if bit s 4 then [(MH_CHANNEL_R2, rd_byte s 1 p2)] else []) @
     (if bit s 3 then [(mux_shared f, rd_byte s 0 p3)] else [])"

fun rd_frames :: "nat \<Rightarrow> byte list \<Rightarrow> (channel \<times> byte) list" where
  "rd_frames f (s # p1 # p2 # p3 # bs) =
     (let f' = (if bit s 6 then Suc f else 0) in rd_frame f' s p1 p2 p3 @ rd_frames f' bs)"
| "rd_frames f _ = []"

definition on_channel :: "channel \<Rightarrow> (channel \<times> byte) list \<Rightarrow> byte list" where
  "on_channel ch es = map snd (filter (\<lambda>e. fst e = ch) es)"

lemma on_channel_append [simp]: "on_channel ch (xs @ ys) = on_channel ch xs @ on_channel ch ys"
  by (simp add: on_channel_def)

lemma on_channel_Nil [simp]: "on_channel ch [] = []"
  by (simp add: on_channel_def)

definition all_ok :: "chan_bufs \<Rightarrow> bool" where
  "all_ok ib \<longleftrightarrow> (\<forall>ch. buf_ok (ib ch))"

section \<open>One frame\<close>

text \<open>What a frame writes, in one equation: the sync byte from the three optional bytes.\<close>

definition sync_of :: "nat \<Rightarrow> byte option \<Rightarrow> byte option \<Rightarrow> byte option \<Rightarrow> bool \<Rightarrow> byte" where
  "sync_of f c1 c2 c3 v =
     (if f \<noteq> 0 then 64 else 0)
     OR (case c1 of None \<Rightarrow> 0 | Some c \<Rightarrow> 32 OR msb_at 2 c)
     OR (case c2 of None \<Rightarrow> 0 | Some c \<Rightarrow> 16 OR msb_at 1 c)
     OR (case c3 of None \<Rightarrow> 0 | Some c \<Rightarrow> (if v then 8 else 0) OR msb_at 0 c)"

definition payload_of :: "byte option \<Rightarrow> byte" where
  "payload_of c = (case c of None \<Rightarrow> 128 | Some c \<Rightarrow> 128 OR c)"

lemma bit_drop7: "bit (drop_bit 7 (c :: byte)) n \<longleftrightarrow> n = 0 \<and> bit c 7"
proof (cases n)
  case (Suc m)
  then have "\<not> bit c (7 + n)" by (intro notI) (auto dest: bit_imp_le_length)
  with Suc show ?thesis by (simp add: bit_simps)
qed (simp add: bit_simps)

lemma bit_msb_at: "bit (msb_at k c) n \<longleftrightarrow> n = k \<and> k < 8 \<and> bit c 7"
  by (auto simp: msb_at_def bit_push_bit_iff bit_drop7)

lemma bit_127: "bit (127 :: byte) n \<longleftrightarrow> n < 7"
proof -
  have eq: "(127 :: byte) = mask 7" by (simp add: mask_eq_exp_minus_1)
  show ?thesis unfolding eq by (auto simp only: bit_mask_iff possible_bit_word) simp
qed

lemma bit_128: "bit (128 :: byte) n \<longleftrightarrow> n = 7"
proof -
  have eq: "(128 :: byte) = 2 ^ 7" by simp
  show ?thesis unfolding eq by (auto simp only: bit_exp_iff possible_bit_word) simp
qed

lemma sync_bits:
  "bit (sync_of f c1 c2 c3 v) 7 = False"
  "bit (sync_of f c1 c2 c3 v) 6 = (f \<noteq> 0)"
  "bit (sync_of f c1 c2 c3 v) 5 = (c1 \<noteq> None)"
  "bit (sync_of f c1 c2 c3 v) 4 = (c2 \<noteq> None)"
  "bit (sync_of f c1 c2 c3 v) 3 = (c3 \<noteq> None \<and> v)"
  "bit (sync_of f c1 c2 c3 v) 2 = (case c1 of None \<Rightarrow> False | Some c \<Rightarrow> bit c 7)"
  "bit (sync_of f c1 c2 c3 v) 1 = (case c2 of None \<Rightarrow> False | Some c \<Rightarrow> bit c 7)"
  "bit (sync_of f c1 c2 c3 v) 0 = (case c3 of None \<Rightarrow> False | Some c \<Rightarrow> bit c 7)"
  unfolding sync_of_def
  by (auto simp: bit_or_iff bit_msb_at bit_numeral_rec split: option.splits)

lemma rd_byte_payload:
  "bit s k = bit c 7 \<Longrightarrow> k < 8 \<Longrightarrow> rd_byte s k (128 OR c) = c"
proof (rule bit_word_eqI)
  fix n assume h: "bit s k = bit c 7" "k < 8" and n: "n < LENGTH(8)"
  show "bit (rd_byte s k (128 OR c)) n = bit c n"
    using n h by (cases "n = 7") (auto simp: rd_byte_def bit_or_iff bit_and_iff bit_127 bit_128 simp del: bit_numeral_word_iff)
qed

lemma or_64_8: "(64 :: byte) OR (8 OR x) = 72 OR x"
  by (simp add: or.assoc [symmetric])

lemma mux_get_ok:
  assumes "all_ok ib" and "mux_get ib ch = (c, ib')"
  shows "all_ok ib' \<and> buf_contents (ib ch) = (case c of None \<Rightarrow> [] | Some x \<Rightarrow> [x]) @ buf_contents (ib' ch) \<and>
     (\<forall>ch'. ch' \<noteq> ch \<longrightarrow> ib' ch' = ib ch') \<and> (c = None \<longrightarrow> ib' = ib \<and> buf_contents (ib ch) = [])"
proof -
  have ok: "buf_ok (ib ch)" using assms(1) by (simp add: all_ok_def)
  have c: "c = fst (buf_get_c (ib ch))" and ib': "ib' = ib(ch := snd (buf_get_c (ib ch)))"
    using assms(2) by (simp_all add: mux_get_def Let_def)
  have "c = None \<Longrightarrow> snd (buf_get_c (ib ch)) = ib ch"
    unfolding c by (simp add: buf_get_c_def Let_def split: if_splits)
  then have "c = None \<Longrightarrow> ib' = ib" by (simp add: ib')
  moreover have "c = None \<Longrightarrow> buf_contents (ib ch) = []"
    using bfifo.get_fst [OF ok] c by (simp split: list.splits)
  moreover have "all_ok ib'" using assms(1) bfifo.get_ok [OF ok] by (simp add: all_ok_def ib')
  ultimately show ?thesis using bfifo.get_split [OF ok] by (simp add: ib' c)
qed

text \<open>A frame written from the bytes taken, and the bytes taken from the three channels.\<close>

lemma mux_frame_shape:
  assumes "all_ok ib" and "mux_frame f ib = (bs, got, ib')"
  obtains c1 c2 c3 v where
    "bs = [sync_of f c1 c2 c3 v, payload_of c1, payload_of c2, payload_of c3]"
    "got = (c1 \<noteq> None \<or> c2 \<noteq> None \<or> c3 \<noteq> None)"
    "all_ok ib'" "\<not> got \<longrightarrow> ib' = ib"
    "\<not> got \<Longrightarrow> buf_contents (ib MH_CHANNEL_R1) = [] \<and> buf_contents (ib MH_CHANNEL_R2) = [] \<and> buf_contents (ib (mux_shared f)) = []"
    "mux_shared f \<noteq> MH_CHANNEL_CONTROL \<Longrightarrow> v"
    "\<And>ch. buf_contents (ib ch) = (case (if ch = MH_CHANNEL_R1 then c1 else if ch = MH_CHANNEL_R2 then c2
        else if ch = mux_shared f then c3 else None) of None \<Rightarrow> [] | Some x \<Rightarrow> [x]) @ buf_contents (ib' ch)"
proof -
  obtain c1 ib1 where g1: "mux_get ib MH_CHANNEL_R1 = (c1, ib1)" by fastforce
  obtain c2 ib2 where g2: "mux_get ib1 MH_CHANNEL_R2 = (c2, ib2)" by fastforce
  obtain c3 ib3 where g3: "mux_get ib2 (mux_shared f) = (c3, ib3)" by fastforce
  note k1 = mux_get_ok [OF assms(1) g1]
  note k2 = mux_get_ok [OF conjunct1 [OF k1] g2]
  note k3 = mux_get_ok [OF conjunct1 [OF k2] g3]
  define v where "v = (mux_shared f \<noteq> MH_CHANNEL_CONTROL \<or>
      (buf_rpos (ib3 (mux_shared f)) > 1 \<and> buf_rpos (ib3 (mux_shared f)) < buf_size (ib3 (mux_shared f))))"
  have sh: "mux_shared f \<noteq> 4" "mux_shared f \<noteq> 5" by (auto simp: mux_shared_def)
  have m: "mux_frame f ib = ([sync_of f c1 c2 c3 v, payload_of c1, payload_of c2, payload_of c3],
      c1 \<noteq> None \<or> c2 \<noteq> None \<or> c3 \<noteq> None, ib3)"
    unfolding mux_frame_def g1 g2 g3 Let_def prod.case v_def
    by (cases c1; cases c2; cases c3)
      (auto simp: sync_of_def payload_of_def or.assoc or_64_8 msb_at_def g1 g2 g3)
  show thesis
  proof (rule that [of c1 c2 c3 v])
    show "buf_contents (ib ch) = (case (if ch = MH_CHANNEL_R1 then c1 else if ch = MH_CHANNEL_R2 then c2
        else if ch = mux_shared f then c3 else None) of None \<Rightarrow> [] | Some x \<Rightarrow> [x]) @ buf_contents (ib' ch)" for ch
      using k1 k2 k3 m assms(2) sh by (cases "ch = mux_shared f") auto
    have none: "c1 = None" "c2 = None" "c3 = None" if "\<not> got" using that m assms(2) by auto
    have same: "ib1 = ib \<and> ib2 = ib1 \<and> ib3 = ib2" if "\<not> got" using none [OF that] k1 k2 k3 by blast
    show "buf_contents (ib MH_CHANNEL_R1) = [] \<and> buf_contents (ib MH_CHANNEL_R2) = [] \<and>
        buf_contents (ib (mux_shared f)) = []" if "\<not> got"
      using none [OF that] same [OF that] k1 k2 k3 by metis
    show "all_ok ib'" using conjunct1 [OF k3] m assms(2) by simp
    show "\<not> got \<longrightarrow> ib' = ib" using same m assms(2) by simp
  qed (use m assms(2) v_def in auto)
qed


section \<open>A sequence\<close>

lemma rd_frame_sync:
  assumes "mux_shared f \<noteq> MH_CHANNEL_CONTROL \<Longrightarrow> v" and "ch \<noteq> MH_CHANNEL_CONTROL"
  shows "on_channel ch (rd_frame f (sync_of f c1 c2 c3 v) (payload_of c1) (payload_of c2) (payload_of c3)) =
    (case (if ch = MH_CHANNEL_R1 then c1 else if ch = MH_CHANNEL_R2 then c2
        else if ch = mux_shared f then c3 else None) of None \<Rightarrow> [] | Some x \<Rightarrow> [x])"
proof -
  have sh: "mux_shared f \<noteq> 4" "mux_shared f \<noteq> 5" by (auto simp: mux_shared_def)
  have b1: "c1 = Some x \<Longrightarrow> rd_byte (sync_of f c1 c2 c3 v) 2 (payload_of c1) = x" for x
    unfolding payload_of_def by (simp add: rd_byte_payload sync_bits)
  have b2: "c2 = Some x \<Longrightarrow> rd_byte (sync_of f c1 c2 c3 v) 1 (payload_of c2) = x" for x
    unfolding payload_of_def by (simp add: rd_byte_payload sync_bits del: One_nat_def)
  have b3: "c3 = Some x \<Longrightarrow> rd_byte (sync_of f c1 c2 c3 v) 0 (payload_of c3) = x" for x
    unfolding payload_of_def by (simp add: rd_byte_payload sync_bits)
  show ?thesis
    using assms sh b1 b2 b3
    by (cases c1; cases c2; cases c3) (auto simp: rd_frame_def on_channel_def sync_bits)
qed

lemma rd_frames_cons:
  assumes "k > 0 \<longrightarrow> Suc f = k"
  shows "rd_frames f (sync_of k c1 c2 c3 v # p1 # p2 # p3 # bs) =
    rd_frame k (sync_of k c1 c2 c3 v) p1 p2 p3 @ rd_frames k bs"
  using assms by (cases k) (auto simp: sync_bits Let_def)

text \<open>
  The \<^verbatim>\<open>for\<close> loop from frame \<open>k\<close> on: what it sends is what a receiver that has seen \<open>k\<close> frames
  reads from the new part of the sequence.
\<close>

lemma mux_frames_read:
  assumes "mux_frames [k..<5] ib seq sz = (seq', sz', ib')"
    and "all_ok ib" and "k \<le> 5" and "length seq = 4 * k" and "sz = -1 \<or> 0 < sz \<and> sz \<le> 4 * int k"
    and "k > 0 \<longrightarrow> Suc f = k"
  shows "all_ok ib' \<and> length seq' = 20 \<and> take (4 * k) seq' = seq \<and>
    (sz' = sz \<and> ib' = ib \<or> 4 * int k < sz' \<and> sz' \<le> 20 \<and> 4 dvd sz') \<and>
    (\<forall>ch. ch \<noteq> MH_CHANNEL_CONTROL \<longrightarrow> buf_contents (ib ch) =
      on_channel ch (rd_frames f (drop (4 * k) (take (nat sz') seq'))) @ buf_contents (ib' ch)) \<and>
    (k = 0 \<longrightarrow> \<not> bit (hd seq') 6)"
  using assms
proof (induction "5 - k" arbitrary: k ib seq sz f)
  case 0
  then show ?case by auto
next
  case (Suc n)
  then have k: "k < 5" by simp
  obtain bs got ib1 where m: "mux_frame k ib = (bs, got, ib1)" by (metis prod_cases3)
  obtain c1 c2 c3 v where
    bs: "bs = [sync_of k c1 c2 c3 v, payload_of c1, payload_of c2, payload_of c3]" and
    got: "got = (c1 \<noteq> None \<or> c2 \<noteq> None \<or> c3 \<noteq> None)" and
    ok1: "all_ok ib1" and same: "\<not> got \<longrightarrow> ib1 = ib" and
    v: "mux_shared k \<noteq> MH_CHANNEL_CONTROL \<Longrightarrow> v" and
    con: "\<And>ch. buf_contents (ib ch) = (case (if ch = MH_CHANNEL_R1 then c1 else if ch = MH_CHANNEL_R2 then c2
        else if ch = mux_shared k then c3 else None) of None \<Rightarrow> [] | Some x \<Rightarrow> [x]) @ buf_contents (ib1 ch)"
    by (rule mux_frame_shape [OF \<open>all_ok ib\<close> m]) blast
  define sz1 where "sz1 = (if got then (int k + 1) * 4 else sz)"
  have m1: "mux_frames [Suc k..<5] ib1 (seq @ bs) sz1 = (seq', sz', ib')"
    using Suc.prems(1) m k by (simp add: upt_conv_Cons sz1_def)
  have IH: "all_ok ib' \<and> length seq' = 20 \<and> take (4 * Suc k) seq' = seq @ bs \<and>
    (sz' = sz1 \<and> ib' = ib1 \<or> 4 * int (Suc k) < sz' \<and> sz' \<le> 20 \<and> 4 dvd sz') \<and>
    (\<forall>ch. ch \<noteq> MH_CHANNEL_CONTROL \<longrightarrow> buf_contents (ib1 ch) =
      on_channel ch (rd_frames k (drop (4 * Suc k) (take (nat sz') seq'))) @ buf_contents (ib' ch)) \<and>
    (Suc k = 0 \<longrightarrow> \<not> bit (hd seq') 6)"
  proof (rule Suc.hyps(1) [OF _ m1 ok1])
    show "n = 5 - Suc k" using Suc.hyps(2) by simp
    show "length (seq @ bs) = 4 * Suc k" using Suc.prems(4) bs by simp
    show "sz1 = -1 \<or> 0 < sz1 \<and> sz1 \<le> 4 * int (Suc k)" using Suc.prems(5) by (auto simp: sz1_def)
  qed (use k in auto)
  have tk: "take (4 * Suc k) seq' = seq @ bs" and lseq: "length seq = 4 * k" and lbs: "length bs = 4"
    using IH Suc.prems(4) bs by auto
  have t1: "take (4 * k) seq' = seq"
  proof -
    have "take (4 * k) (take (4 * Suc k) seq') = take (4 * k) (seq @ bs)" using tk by simp
    then show ?thesis using lseq by (simp add: min_def)
  qed
  have seq': "seq' = seq @ bs @ drop (4 * Suc k) seq'"
    by (metis append_assoc append_take_drop_id tk)
  have hd0: "k = 0 \<longrightarrow> \<not> bit (hd seq') 6"
  proof
    assume "k = 0"
    then have "seq = []" using lseq by simp
    then have "hd seq' = sync_of 0 c1 c2 c3 v" by (subst seq') (simp add: bs \<open>k = 0\<close>)
    then show "\<not> bit (hd seq') 6" by (simp add: sync_bits)
  qed
  show ?case
  proof (cases "4 * int (Suc k) \<le> sz'")
    case True
    then have "4 * Suc k \<le> nat sz'" by linarith
    then have "take (nat sz') seq' = seq @ bs @ take (nat sz' - 4 * Suc k) (drop (4 * Suc k) seq')"
      by (subst seq') (simp add: lseq lbs add.commute)
    then have d: "drop (4 * k) (take (nat sz') seq') = bs @ drop (4 * Suc k) (take (nat sz') seq')"
      by (simp add: lseq lbs)
    have "rd_frames f (drop (4 * k) (take (nat sz') seq')) =
        rd_frame k (sync_of k c1 c2 c3 v) (payload_of c1) (payload_of c2) (payload_of c3) @
        rd_frames k (drop (4 * Suc k) (take (nat sz') seq'))"
      unfolding d bs append.simps by (rule rd_frames_cons [OF Suc.prems(6)])
    then have "ch \<noteq> MH_CHANNEL_CONTROL \<Longrightarrow> buf_contents (ib ch) =
      on_channel ch (rd_frames f (drop (4 * k) (take (nat sz') seq'))) @ buf_contents (ib' ch)" for ch
      using IH con [of ch] rd_frame_sync [OF v, where ch = ch and ?c1.0 = c1 and ?c2.0 = c2 and ?c3.0 = c3] by simp
    moreover have "4 * int k < sz' \<and> sz' \<le> 20 \<and> 4 dvd sz'"
      using IH True k Suc.prems(5) by (cases got) (auto simp: sz1_def)
    ultimately show ?thesis using IH t1 hd0 by blast
  next
    case False
    then have e: "sz' = sz1 \<and> ib' = ib1" using IH by auto
    then have ng: "\<not> got" using False by (auto simp: sz1_def)
    then have "sz' = sz \<and> ib' = ib" using e same by (auto simp: sz1_def)
    moreover have "drop (4 * k) (take (nat sz') seq') = []"
      using calculation Suc.prems(5) by auto
    ultimately show ?thesis using IH t1 hd0 by simp
  qed
qed

text \<open>A whole sequence.\<close>

lemma mux_sequence:
  assumes "mux_frames [0..<5] ib [] (-1) = (seq, sz, ib')" and "all_ok ib"
  shows "all_ok ib'" and "length seq = 20"
    and "sz = -1 \<and> ib' = ib \<or> 0 < sz \<and> sz \<le> 20 \<and> 4 dvd sz"
    and "ch \<noteq> MH_CHANNEL_CONTROL \<Longrightarrow>
      buf_contents (ib ch) = on_channel ch (rd_frames f (take (nat sz) seq)) @ buf_contents (ib' ch)"
    and "\<not> bit (hd seq) 6"
  using mux_frames_read [OF assms(1,2)] by auto


section \<open>The whole call\<close>

lemma buf_append_take:
  assumes "buf_ok b" and "n \<le> length p" and "n \<le> buf_size_avail b"
  shows "buf_ok (snd (buf_append b p n))"
    and "buf_contents (snd (buf_append b p n)) = buf_contents b @ take n p"
    and "fst (buf_append b p n) = int n"
proof -
  have "buf_append b p n = buf_append b (take n p) (length (take n p))"
    using assms(2,3) by (simp add: buf_append_def Let_def min_def)
  moreover have "length (take n p) \<le> buf_size_avail b" "length (take n p) = n" using assms by auto
  ultimately show "buf_ok (snd (buf_append b p n))"
    "buf_contents (snd (buf_append b p n)) = buf_contents b @ take n p" "fst (buf_append b p n) = int n"
    using buf_append_fits [OF assms(1), of "take n p"] by simp_all
qed

text \<open>A sequence starts with a first frame, which makes the reader forget its frame counter.\<close>

lemma rd_frames_start: "bs = [] \<or> \<not> bit (hd bs) 6 \<Longrightarrow> rd_frames f bs = rd_frames g bs"
  by (cases "(f, bs)" rule: rd_frames.cases) auto

lemma rd_frames_append:
  "4 dvd length xs \<Longrightarrow> ys = [] \<or> \<not> bit (hd ys) 6 \<Longrightarrow> rd_frames f (xs @ ys) = rd_frames f xs @ rd_frames 0 ys"
proof (induction f xs rule: rd_frames.induct, goal_cases)
  case (1 f s p1 p2 p3 bs)
  have "4 dvd length bs" using 1(2) by (auto elim: dvdE simp: dvd_def) presburger
  with 1 show ?case by (simp add: Let_def)
next
  case (2 f)
  then show ?case using rd_frames_start by simp
qed (auto dest: dvd_imp_le)

lemma mux_idle:
  assumes "mux_frames fs ib seq sz = (seq', -1, ib')" and "all_ok ib" and "fs \<noteq> []"
  shows "buf_contents (ib MH_CHANNEL_R1) = [] \<and> buf_contents (ib MH_CHANNEL_R2) = [] \<and>
    (\<forall>f \<in> set fs. buf_contents (ib (mux_shared f)) = [])"
  using assms
proof (induction fs arbitrary: seq sz)
  case (Cons f fs)
  obtain bs got ib1 where m: "mux_frame f ib = (bs, got, ib1)" by (metis prod_cases3)
  then have m1: "mux_frames fs ib1 (seq @ bs) (if got then (int f + 1) * 4 else sz) = (seq', -1, ib')"
    using Cons.prems(1) by simp
  have "\<not> got"
    using mux_frames_pos [OF m1] by (cases got) auto
  then have *: "ib1 = ib \<and> buf_contents (ib MH_CHANNEL_R1) = [] \<and> buf_contents (ib MH_CHANNEL_R2) = [] \<and>
      buf_contents (ib (mux_shared f)) = []"
    by (rule_tac mux_frame_shape [OF Cons.prems(2) m]) blast
  show ?case
  proof (cases fs)
    case Nil
    with * show ?thesis by simp
  next
    case (Cons g gs)
    with * Cons.IH [of "seq @ bs" "if got then (int f + 1) * 4 else sz"] m1 Cons.prems(2)
    show ?thesis by auto
  qed
qed simp

text \<open>The channels the multiplexer serves.\<close>

definition mux_channels :: "channel list" where
  "mux_channels = [MH_CHANNEL_R1, MH_CHANNEL_R2, MH_CHANNEL_FLAGS, MH_CHANNEL_CONTROL, MH_CHANNEL_WINKEY,
     MH_CHANNEL_R1_FSK, MH_CHANNEL_R2_FSK]"

definition mux_post :: "buffer \<Rightarrow> chan_bufs \<Rightarrow> int \<Rightarrow> buffer \<Rightarrow> chan_bufs \<Rightarrow> byte list \<Rightarrow> bool" where
  "mux_post bout ib n bout' ib' out \<longleftrightarrow>
     buf_ok bout' \<and> all_ok ib' \<and> buf_contents bout' = buf_contents bout @ out \<and> int (length out) = n \<and>
     4 dvd length out \<and> (out = [] \<or> \<not> bit (hd out) 6) \<and>
     (\<forall>ch. ch \<noteq> MH_CHANNEL_CONTROL \<longrightarrow>
       buf_contents (ib ch) = on_channel ch (rd_frames 0 out) @ buf_contents (ib' ch)) \<and>
     (buf_size_avail bout' < MAX_SEQUENCE_SIZE \<or> (\<forall>ch \<in> set mux_channels. buf_contents (ib' ch) = []))"

lemma mux_loop_post:
  assumes "buf_ok bout" and "all_ok ib" and "MAX_SEQUENCE_SIZE \<le> buf_size_avail bout"
    and "mux_loop bout ib n = (n', bout', ib')"
  shows "\<exists>out. mux_post bout ib (n' - n) bout' ib' out"
  using assms
proof (induction bout ib n arbitrary: n' bout' ib' rule: mux_loop.induct)
  case (1 bout ib n)
  obtain seq sz ib1 where f: "mux_frames [0..<5] ib [] (-1) = (seq, sz, ib1)" by (metis prod_cases3)
  note sq = mux_sequence [OF f \<open>all_ok ib\<close>]
  show ?case
  proof (cases "sz = -1")
    case True
    then have "n' = n \<and> bout' = bout \<and> ib' = ib"
      using 1(5) f sq(3) by (auto simp: mux_loop.simps [of bout])
    moreover have "\<forall>ch \<in> set mux_channels. buf_contents (ib ch) = []"
    proof -
      have "mux_frames [0..<5] ib [] (-1) = (seq, -1, ib1)" "[0..<5 :: nat] \<noteq> []" using f True by simp_all
      note idle = mux_idle [OF this(1) 1(3) this(2)]
      then have "f < 5 \<Longrightarrow> buf_contents (ib (mux_shared f)) = []" for f by simp
      from this [of 0] this [of 1] this [of 2] this [of 3] this [of 4] idle show ?thesis
        by (simp add: mux_channels_def mux_shared_def)
    qed
    ultimately have "mux_post bout ib (n' - n) bout' ib' []"
      using 1 by (simp add: mux_post_def)
    then show ?thesis ..
  next
    case False
    define b1 where "b1 = snd (buf_append bout seq (nat sz))"
    define o1 where "o1 = take (nat sz) seq"
    have sz: "0 < sz" "sz \<le> 20" "4 dvd sz" using sq(3) False by auto
    have fits: "nat sz \<le> length seq" "nat sz \<le> buf_size_avail bout"
      using sz sq(2) 1(4) by (auto simp: MAX_SEQUENCE_SIZE_def)
    note ap = buf_append_take [OF \<open>buf_ok bout\<close> fits, folded b1_def o1_def]
    have ol: "int (length o1) = sz" "4 dvd length o1" "o1 \<noteq> []" "\<not> bit (hd o1) 6"
      using sz sq(2) sq(5) by (auto simp: o1_def hd_take) (metis int_dvd_int_iff int_nat_eq less_le of_nat_numeral)
    have c1: "ch \<noteq> MH_CHANNEL_CONTROL \<Longrightarrow>
        buf_contents (ib ch) = on_channel ch (rd_frames 0 o1) @ buf_contents (ib1 ch)" for ch
      using sq(4) by (simp add: o1_def)
    show ?thesis
    proof (cases "MAX_SEQUENCE_SIZE \<le> buf_size_avail b1")
      case True
      then have l: "mux_loop b1 ib1 (n + sz) = (n', bout', ib')"
        using 1(5) f \<open>sz \<noteq> -1\<close> by (simp add: mux_loop.simps [of bout] Let_def b1_def)
      from 1(1) [OF f [symmetric] refl \<open>sz \<noteq> -1\<close> b1_def True ap(1) sq(1) True l]
      obtain out where "mux_post b1 ib1 (n' - (n + sz)) bout' ib' out" by blast
      then have "mux_post bout ib (n' - n) bout' ib' (o1 @ out)"
        using ol ap c1 by (auto simp: mux_post_def rd_frames_append)
      then show ?thesis ..
    next
      case False
      then have "n' = n + sz \<and> bout' = b1 \<and> ib' = ib1"
        using 1(5) f \<open>sz \<noteq> -1\<close> by (simp add: mux_loop.simps [of bout] Let_def b1_def)
      then have "mux_post bout ib (n' - n) bout' ib' o1"
        using ol ap c1 sq(1) False by (auto simp: mux_post_def)
      then show ?thesis ..
    qed
  qed
qed

lemma mx_mux_post:
  assumes "buf_ok bout" and "all_ok ib" and "mx_mux bout ib = (n, bout', ib')"
  shows "\<exists>out. mux_post bout ib n bout' ib' out"
proof (cases "buf_size_avail bout < MAX_SEQUENCE_SIZE")
  case True
  with assms have "mux_post bout ib n bout' ib' []"
    by (auto simp: mx_mux_def mux_post_def)
  then show ?thesis ..
next
  case False
  with assms mux_loop_post [OF assms(1,2), of 0] show ?thesis by (simp add: mx_mux_def)
qed


section \<open>Properties\<close>

lemma mux_control_byte:
  assumes "all_ok ib" and "buf_rpos (ib MH_CHANNEL_CONTROL) = i" and "buf_size (ib MH_CHANNEL_CONTROL) = n" and "i < n"
    and "mux_frame 1 ib = (bs, got, ib')"
  shows "bit (hd bs) 3 = (0 < i \<and> Suc i < n) \<and> rd_byte (hd bs) 0 (bs ! 3) = hd (buf_contents (ib MH_CHANNEL_CONTROL))"
proof -
  obtain c1 ib1 where g1: "mux_get ib MH_CHANNEL_R1 = (c1, ib1)" by fastforce
  obtain c2 ib2 where g2: "mux_get ib1 MH_CHANNEL_R2 = (c2, ib2)" by fastforce
  have same: "ib2 MH_CHANNEL_CONTROL = ib MH_CHANNEL_CONTROL"
    using g1 g2 by (auto simp: mux_get_def Let_def)
  let ?b = "ib MH_CHANNEL_CONTROL"
  let ?c = "buf_data ?b i"
  have n: "n \<le> 4096" using assms(1,3) by (auto simp: all_ok_def buf_defs)
  have nxt: "nat ((int i + 1) mod 65536) = Suc i" using n assms(4) by simp
  have g: "fst (buf_get_c ?b) = Some ?c"
    "(1 < buf_rpos (snd (buf_get_c ?b)) \<and> buf_rpos (snd (buf_get_c ?b)) < buf_size (snd (buf_get_c ?b))) = (0 < i \<and> Suc i < n)"
    using assms(2-4) nxt by (auto simp: buf_get_c_def Let_def buf_reset_def to_u16_def)
  have hd: "hd (buf_contents ?b) = ?c"
    using assms(2-4) by (simp add: buf_contents_def hd_map)
  have m: "mux_frame 1 ib = ([sync_of 1 c1 c2 (Some ?c) (0 < i \<and> Suc i < n), payload_of c1, payload_of c2,
      payload_of (Some ?c)], True, ib2(MH_CHANNEL_CONTROL := snd (buf_get_c ?b)))"
    unfolding mux_frame_def g1 g2 Let_def prod.case
    using g by (cases c1; cases c2)
      (auto simp: sync_of_def payload_of_def or.assoc or_64_8 msb_at_def mux_get_def mux_shared_def Let_def same)
  have "bs = [sync_of 1 c1 c2 (Some ?c) (0 < i \<and> Suc i < n), payload_of c1, payload_of c2, payload_of (Some ?c)]"
    using m assms(5) by simp
  then show ?thesis
    unfolding hd by (simp add: sync_bits payload_of_def rd_byte_payload)
qed


text \<open>The multiplexer stops only when all its channels are drained or the output buffer
  has no room for another sequence of five frames; it keeps every buffer well formed.\<close>

theorem mux_progress:
  assumes "buf_ok bout" and "all_ok ib" and "mx_mux bout ib = (n, bout', ib')"
  shows "buf_ok bout' \<and> all_ok ib' \<and>
    (buf_size_avail bout' < MAX_SEQUENCE_SIZE \<or> (\<forall>ch \<in> set mux_channels. buf_contents (ib' ch) = []))"
  using mx_mux_post [OF assms] unfolding mux_post_def by blast

text \<open>The bytes of a command that is alone in the control buffer are framed as the keyer
  expects: the validity bit is clear on the first and on the last byte of the command and set on
  the bytes between, and the byte itself is the next one of the buffer.\<close>

theorem mux_control_framing:
  assumes "all_ok ib" and "buf_rpos (ib MH_CHANNEL_CONTROL) = i" and "buf_size (ib MH_CHANNEL_CONTROL) = n" and "i < n"
    and "mux_frame 1 ib = (bs, got, ib')"
  shows "bit (hd bs) 3 = (0 < i \<and> Suc i < n) \<and> rd_byte (hd bs) 0 (bs ! 3) = hd (buf_contents (ib MH_CHANNEL_CONTROL))"
  using mux_control_byte [OF assms] .

definition mux_example :: chan_bufs where
  "mux_example ch =
     (if ch = MH_CHANNEL_R1 then snd (buf_append buf_alloc [200, 7] 2)
      else if ch = MH_CHANNEL_CONTROL then snd (buf_append buf_alloc [9, 2, 137] 3) else buf_alloc)"

lemma mux_example_ok: "all_ok mux_example"
proof -
  have "buf_ok (snd (buf_append buf_alloc [200, 7] (length [200 :: byte, 7])))"
    "buf_ok (snd (buf_append buf_alloc [9, 2, 137] (length [9 :: byte, 2, 137])))"
    by (rule buf_append_cut [OF buf_ok_alloc])+
  then show ?thesis by (simp add: all_ok_def mux_example_def numeral_2_eq_2 numeral_3_eq_3)
qed


lemma mux_example_r1: "buf_contents (mux_example MH_CHANNEL_R1) = [200, 7]"
  by (simp add: mux_example_def buf_contents_def buf_append_def buf_alloc_def Let_def buf_add_size_def
      buf_store_def buf_size_avail_def BUFFER_CAPACITY_def upt_rec)

lemma mux_example_ctl: "buf_contents (mux_example MH_CHANNEL_CONTROL) = [9, 2, 137]"
  "buf_rpos (mux_example MH_CHANNEL_CONTROL) = 0" "buf_size (mux_example MH_CHANNEL_CONTROL) = 3"
  by (simp_all add: mux_example_def buf_contents_def buf_append_def buf_alloc_def Let_def buf_add_size_def
      buf_store_def buf_size_avail_def BUFFER_CAPACITY_def upt_rec)


theorem mux_progress_witness:
  "\<exists>n bout' ib'. mx_mux buf_alloc mux_example = (n, bout', ib') \<and>
     (buf_size_avail bout' < MAX_SEQUENCE_SIZE \<or> buf_contents (ib' MH_CHANNEL_R1) = [])"
proof -
  obtain n bout' ib' where r: "mx_mux buf_alloc mux_example = (n, bout', ib')" by (metis prod_cases3)
  from mux_progress [OF buf_ok_alloc mux_example_ok r] r show ?thesis by (auto simp: mux_channels_def)
qed

theorem mux_control_framing_witness:
  "\<exists>bs got ib'. mux_frame 1 mux_example = (bs, got, ib') \<and> \<not> bit (hd bs) 3 \<and> rd_byte (hd bs) 0 (bs ! 3) = 9"
proof -
  obtain bs got ib' where r: "mux_frame 1 mux_example = (bs, got, ib')" by (metis prod_cases3)
  from mux_control_framing [OF mux_example_ok mux_example_ctl(2,3) _ r] r show ?thesis
    by (auto simp: mux_example_ctl(1))
qed

end
