(* ===== verification/Demux.thy ===== *)
theory Demux
  imports Mux
begin

text \<open>
  \<^verbatim>\<open>src/demux.c\<close>, \<^verbatim>\<open>src/demux.h\<close>: the demultiplexer, one call per byte from the keyer. It
  synchronises on bytes with bit 7 clear, returns the channel of a payload byte, and assembles the
  commands of the control channel in \<^verbatim>\<open>cmd_buffer\<close>. \<open>dmx_run\<close> collects what the caller
  reads out after each call; \<open>kf_bytes\<close> is the keyer's side, a frame as the keyer sends it.
\<close>

section \<open>The demultiplexer\<close>

definition MHDMX_CMD_BUFFER_SIZE :: nat where
  "MHDMX_CMD_BUFFER_SIZE = 4096"

text \<open>\<open>None\<close> is the value \<open>-1\<close> of the C fields \<^verbatim>\<open>sync_byte\<close> and \<^verbatim>\<open>cmd\<close>.\<close>

record dmx =
  frame_no :: int
  byte_no :: int
  sync_byte :: "byte option"
  result_byte :: byte
  cmd_buffer :: "nat \<Rightarrow> byte"
  cmd_length :: nat
  cmd :: "byte option"

definition dmx_create :: dmx where
  "dmx_create = \<lparr>frame_no = 0, byte_no = 0, sync_byte = Some 0, result_byte = 0,
     cmd_buffer = (\<lambda>_. 0), cmd_length = 0, cmd = Some 0\<rparr>"

text \<open>\<^verbatim>\<open>(c & 0x7f) | (((sync >> k) & 1) << 7)\<close>.\<close>

definition dmx_byte :: "byte \<Rightarrow> nat \<Rightarrow> byte \<Rightarrow> byte" where
  "dmx_byte sync k c = (c AND 0x7f) OR push_bit 7 (drop_bit k sync AND 1)"

text \<open>The control channel (frame 1, third payload byte), from the comment on the validity flags on.\<close>

definition dmx_control :: "dmx \<Rightarrow> byte \<Rightarrow> byte \<Rightarrow> int \<times> dmx" where
  "dmx_control d sync c =
     (let b = dmx_byte sync 0 c;
          (rv, d1) =
            (if sync AND push_bit 3 1 = 0 then
               (if b AND push_bit 7 1 = 0 then (-1, d\<lparr>cmd := Some b, cmd_length := 0\<rparr>)
                else if Some b = map_option (\<lambda>x. x OR push_bit 7 1) (cmd d) then (MH_CHANNEL_CONTROL, d)
                else (-1, d))
             else (-1, d))
      in if cmd d1 \<noteq> None then
           (if cmd_length d1 = MHDMX_CMD_BUFFER_SIZE then (-1, d1)
            else let d2 = d1\<lparr>cmd_buffer := (cmd_buffer d1)(cmd_length d1 := b), cmd_length := cmd_length d1 + 1\<rparr>
                 in (rv, if rv = MH_CHANNEL_CONTROL then d2\<lparr>cmd := None\<rparr> else d2))
         else (rv, d1))"

definition dmx_demux :: "dmx \<Rightarrow> byte \<Rightarrow> int \<times> dmx" where
  "dmx_demux d c =
     (if c AND push_bit 7 1 = 0 then
        (-1, d\<lparr>frame_no := (if c AND push_bit 6 1 = 0 then 0 else frame_no d + 1),
               byte_no := 0, sync_byte := Some c\<rparr>)
      else let d1 = d\<lparr>byte_no := byte_no d + 1\<rparr> in
        case sync_byte d1 of None \<Rightarrow> (-1, d1)
        | Some sync \<Rightarrow>
            if frame_no d1 > 3 then (-1, d1\<lparr>sync_byte := None\<rparr>)
            else if byte_no d1 = 1 then
              (if sync AND push_bit 5 1 \<noteq> 0
               then (MH_CHANNEL_R1, d1\<lparr>result_byte := dmx_byte sync 2 c\<rparr>) else (-1, d1))
            else if byte_no d1 = 2 then
              (if sync AND push_bit 4 1 \<noteq> 0
               then (MH_CHANNEL_R2, d1\<lparr>result_byte := dmx_byte sync 1 c\<rparr>) else (-1, d1))
            else if byte_no d1 = 3 then
              (if frame_no d1 \<noteq> 1 then
                 (if drop_bit 3 sync AND 1 \<noteq> 0
                  then (frame_no d1, d1\<lparr>result_byte := dmx_byte sync 0 c\<rparr>) else (-1, d1))
               else dmx_control d1 sync c)
            else (-1, d1))"

text \<open>What the caller reads after a call: the command, or the byte of the channel.\<close>

definition dmx_event :: "int \<times> dmx \<Rightarrow> (channel \<times> byte list) list" where
  "dmx_event r =
     (if fst r = -1 then []
      else if fst r = MH_CHANNEL_CONTROL then [(MH_CHANNEL_CONTROL, map (cmd_buffer (snd r)) [0..<cmd_length (snd r)])]
      else [(fst r, [result_byte (snd r)])])"

fun dmx_run :: "dmx \<Rightarrow> byte list \<Rightarrow> (channel \<times> byte list) list \<times> dmx" where
  "dmx_run d [] = ([], d)"
| "dmx_run d (c # cs) =
     (let r = dmx_demux d c; s = dmx_run (snd r) cs in (dmx_event r @ fst s, snd s))"

lemma dmx_run_append:
  "dmx_run d (xs @ ys) = (let r = dmx_run d xs; s = dmx_run (snd r) ys in (fst r @ fst s, snd s))"
  by (induction xs arbitrary: d) (auto simp: Let_def)

section \<open>Invariant\<close>

definition dmx_ok :: "dmx \<Rightarrow> bool" where
  "dmx_ok d \<longleftrightarrow> 0 \<le> frame_no d \<and> 0 \<le> byte_no d \<and> cmd_length d \<le> MHDMX_CMD_BUFFER_SIZE"

lemma dmx_ok_create [simp, invs]: "dmx_ok dmx_create"
  by (simp add: dmx_ok_def dmx_create_def)

section \<open>Reading a frame of the keyer\<close>

text \<open>
  A frame of the keyer: its number in the sequence, the bytes of the three payload positions and
  the validity flag of the third. \<open>sync_of\<close> and \<open>payload_of\<close> give its bytes.
\<close>

type_synonym kframe = "nat \<times> byte option \<times> byte option \<times> byte option \<times> bool"

definition kf_bytes :: "kframe \<Rightarrow> byte list" where
  "kf_bytes = (\<lambda>(k, c1, c2, c3, v). [sync_of k c1 c2 c3 v, payload_of c1, payload_of c2, payload_of c3])"

definition kf_data :: "kframe \<Rightarrow> (channel \<times> byte list) list" where
  "kf_data = (\<lambda>(k, c1, c2, c3, v).
     (case c1 of None \<Rightarrow> [] | Some c \<Rightarrow> [(MH_CHANNEL_R1, [c])]) @
     (case c2 of None \<Rightarrow> [] | Some c \<Rightarrow> [(MH_CHANNEL_R2, [c])]) @
     (if k = 1 then [] else case c3 of None \<Rightarrow> [] | Some c \<Rightarrow> [(int k, [c])]))"

text \<open>Frames numbered as the keyer numbers them: at most four in a sequence, from 0.\<close>

fun kf_seq :: "int \<Rightarrow> kframe list \<Rightarrow> bool" where
  "kf_seq p [] = True"
| "kf_seq p ((k, c1, c2, c3, v) # fs) =
     ((k = 0 \<or> int k = p + 1) \<and> k \<le> 3 \<and> (k \<noteq> 1 \<longrightarrow> v) \<and> kf_seq (int k) fs)"

lemma and_exp_0_iff: "(c :: byte) AND push_bit k 1 = 0 \<longleftrightarrow> \<not> bit c k"
  by (simp only: bit_iff_and_push_bit_not_eq_0 not_not)

lemma drop_and_1: "drop_bit k (c :: byte) AND 1 = (if bit c k then 1 else 0)"
  by (simp add: bit_iff_odd_drop_bit and_one_eq odd_iff_mod_2_eq_one)

lemma dmx_byte_eq: "dmx_byte s k c = rd_byte s k c"
  unfolding dmx_byte_def drop_and_1 rd_byte_def by simp

text \<open>The handler with its bit tests read as bits.\<close>

lemma dmx_demux_bits:
  "dmx_demux d c =
     (if \<not> bit c 7 then
        (-1, d\<lparr>frame_no := (if \<not> bit c 6 then 0 else frame_no d + 1), byte_no := 0, sync_byte := Some c\<rparr>)
      else let d1 = d\<lparr>byte_no := byte_no d + 1\<rparr> in
        case sync_byte d of None \<Rightarrow> (-1, d1)
        | Some sync \<Rightarrow>
            if frame_no d > 3 then (-1, d1\<lparr>sync_byte := None\<rparr>)
            else if byte_no d = 0 then
              (if bit sync 5 then (MH_CHANNEL_R1, d1\<lparr>result_byte := rd_byte sync 2 c\<rparr>) else (-1, d1))
            else if byte_no d = 1 then
              (if bit sync 4 then (MH_CHANNEL_R2, d1\<lparr>result_byte := rd_byte sync 1 c\<rparr>) else (-1, d1))
            else if byte_no d = 2 then
              (if frame_no d \<noteq> 1 then
                 (if bit sync 3 then (frame_no d, d1\<lparr>result_byte := rd_byte sync 0 c\<rparr>) else (-1, d1))
               else dmx_control d1 sync c)
            else (-1, d1))"
  unfolding dmx_demux_def and_exp_0_iff drop_and_1 dmx_byte_eq Let_def
  by (simp split: option.split)

lemma dmx_control_bits:
  "dmx_control d sync c =
     (let b = rd_byte sync 0 c;
          r = (if bit sync 3 then (-1, d)
               else if \<not> bit b 7 then (-1, d\<lparr>cmd := Some b, cmd_length := 0\<rparr>)
               else if Some b = map_option (\<lambda>x. x OR 128) (cmd d) then (1, d) else (-1, d));
          d1 = snd r
      in if cmd d1 = None then r
         else if cmd_length d1 = MHDMX_CMD_BUFFER_SIZE then (-1, d1)
         else (fst r, d1\<lparr>cmd_buffer := (cmd_buffer d1)(cmd_length d1 := b), cmd_length := cmd_length d1 + 1,
            cmd := (if fst r = 1 then None else cmd d1)\<rparr>))"
proof -
  have e: "push_bit 7 (1 :: byte) = 128" by simp
  show ?thesis
    unfolding dmx_control_def and_exp_0_iff dmx_byte_eq unfolding e Let_def by (auto split: if_splits)
qed


lemma dmx_control_result: "fst (dmx_control d s c) \<in> {-1, MH_CHANNEL_CONTROL}"
  unfolding dmx_control_bits Let_def by (simp split: if_split)

lemma dmx_control_ok: "dmx_ok d \<Longrightarrow> dmx_ok (snd (dmx_control d s c))"
  unfolding dmx_control_bits Let_def dmx_ok_def MHDMX_CMD_BUFFER_SIZE_def
  by (simp split: if_split)

lemma dmx_ok_updates [simp]:
  "dmx_ok (d\<lparr>sync_byte := x\<rparr>) = dmx_ok d" "dmx_ok (d\<lparr>result_byte := y\<rparr>) = dmx_ok d"
  "dmx_ok d \<Longrightarrow> 0 \<le> n \<Longrightarrow> dmx_ok (d\<lparr>byte_no := n\<rparr>)" "dmx_ok d \<Longrightarrow> 0 \<le> n \<Longrightarrow> dmx_ok (d\<lparr>frame_no := n\<rparr>)"
  by (simp_all add: dmx_ok_def)

lemma dmx_demux_ok [invs]: "dmx_ok d \<Longrightarrow> dmx_ok (snd (dmx_demux d c))"
proof -
  assume ok: "dmx_ok d"
  then have b: "0 \<le> byte_no d" and f: "0 \<le> frame_no d" by (simp_all add: dmx_ok_def)
  show ?thesis
    using ok b f unfolding dmx_demux_bits Let_def
    by (cases "sync_byte d") (auto intro!: dmx_control_ok)
qed

lemma dmx_demux_result: "dmx_ok d \<Longrightarrow> fst (dmx_demux d c) \<in> {-1..5}"
proof -
  assume "dmx_ok d"
  then have f: "0 \<le> frame_no d" by (simp add: dmx_ok_def)
  have "fst (dmx_control d' s c) \<in> {-1..5}" for d' s
    using dmx_control_result [of d' s c] by auto
  with f show ?thesis
    unfolding dmx_demux_bits Let_def by (cases "sync_byte d") (simp_all del: atLeastAtMost_iff, simp_all)
qed

text \<open>The data bytes of a frame come out of any state that is at the right frame number.\<close>

lemma dmx_run_sync:
  assumes "k \<noteq> 0 \<longrightarrow> int k = frame_no d + 1"
  shows "dmx_run d (sync_of k c1 c2 c3 v # bs) =
    dmx_run (d\<lparr>frame_no := int k, byte_no := 0, sync_byte := Some (sync_of k c1 c2 c3 v)\<rparr>) bs"
  using assms by (auto simp: dmx_demux_bits sync_bits Let_def dmx_event_def)

lemma payload_bit7: "bit (payload_of c) 7"
  by (cases c) (simp_all add: payload_of_def bit_or_iff)

lemma rd_sync1: "c1 = Some x \<Longrightarrow> rd_byte (sync_of k c1 c2 c3 v) 2 (payload_of c1) = x"
  unfolding payload_of_def by (simp add: rd_byte_payload sync_bits)

lemma rd_sync2: "c2 = Some x \<Longrightarrow> rd_byte (sync_of k c1 c2 c3 v) 1 (payload_of c2) = x"
  unfolding payload_of_def by (simp add: rd_byte_payload sync_bits del: One_nat_def)

lemma rd_sync3: "c3 = Some x \<Longrightarrow> rd_byte (sync_of k c1 c2 c3 v) 0 (payload_of c3) = x"
  unfolding payload_of_def by (simp add: rd_byte_payload sync_bits)

lemma rd_byte_payload_None: "\<not> bit s k \<Longrightarrow> rd_byte s k 128 = 0"
  by (simp add: rd_byte_def)


section \<open>The control channel over lists\<close>

text \<open>
  The specification of the command assembler: the command that is open, if any, and the bytes
  collected so far. \<open>ctl_of\<close> reads that state from the record.
\<close>

type_synonym ctl = "byte option \<times> byte list"

definition ctl_of :: "dmx \<Rightarrow> ctl" where
  "ctl_of d = (cmd d, map (cmd_buffer d) [0..<cmd_length d])"

fun ctl_step :: "ctl \<Rightarrow> bool \<Rightarrow> byte \<Rightarrow> byte list option \<times> ctl" where
  "ctl_step (cm, buf) v b =
     (let opens = (\<not> v \<and> \<not> bit b 7); closes = (\<not> v \<and> bit b 7 \<and> cm \<noteq> None \<and> b = the cm OR 128);
          cm' = (if opens then Some b else cm); buf' = (if opens then [] else buf)
      in if cm' = None \<or> length buf' = MHDMX_CMD_BUFFER_SIZE then (None, (cm', buf'))
         else if closes then (Some (buf' @ [b]), (None, buf' @ [b]))
         else (None, (cm', buf' @ [b])))"

definition ctl_event :: "byte list option \<Rightarrow> (channel \<times> byte list) list" where
  "ctl_event r = (case r of None \<Rightarrow> [] | Some bs \<Rightarrow> [(MH_CHANNEL_CONTROL, bs)])"

lemma dmx_control_refines:
  "ctl_event (fst (ctl_step (ctl_of d) (bit sync 3) (rd_byte sync 0 c))) = dmx_event (dmx_control d sync c) \<and>
   snd (ctl_step (ctl_of d) (bit sync 3) (rd_byte sync 0 c)) = ctl_of (snd (dmx_control d sync c)) \<and>
   frame_no (snd (dmx_control d sync c)) = frame_no d"
proof (cases "cmd d")
  case None
  then show ?thesis
    unfolding dmx_control_bits Let_def
    by (simp add: ctl_of_def ctl_event_def dmx_event_def Let_def MHDMX_CMD_BUFFER_SIZE_def)
next
  case (Some x)
  have fresh: "map (f(n := a)) [0..<n] = map f [0..<n]" for f :: "nat \<Rightarrow> byte" and n a by simp
  from Some show ?thesis
    unfolding dmx_control_bits Let_def
    by (cases "bit sync 3"; cases "bit (rd_byte sync 0 c) 7")
      (auto simp: ctl_of_def ctl_event_def dmx_event_def Let_def MHDMX_CMD_BUFFER_SIZE_def fresh)
qed

section \<open>A frame\<close>

text \<open>What a frame means: its data bytes, and for frame 1 a step of the command assembler.\<close>

fun kf_step :: "ctl \<Rightarrow> kframe \<Rightarrow> (channel \<times> byte list) list \<times> ctl" where
  "kf_step s (k, c1, c2, c3, v) =
     (if k = 1 then
        let r = ctl_step s (c3 \<noteq> None \<and> v) (case c3 of None \<Rightarrow> 0 | Some c \<Rightarrow> c)
        in (kf_data (k, c1, c2, c3, v) @ ctl_event (fst r), snd r)
      else (kf_data (k, c1, c2, c3, v), s))"

fun kf_run :: "ctl \<Rightarrow> kframe list \<Rightarrow> (channel \<times> byte list) list" where
  "kf_run s [] = []"
| "kf_run s (f # fs) = (let r = kf_step s f in fst r @ kf_run (snd r) fs)"

lemma dmx_run_frame:
  assumes "k \<noteq> 0 \<longrightarrow> int k = frame_no d + 1" and "k \<le> 3" and "k \<noteq> 1 \<longrightarrow> v"
  shows "\<exists>d'. dmx_run d (kf_bytes (k, c1, c2, c3, v)) = (fst (kf_step (ctl_of d) (k, c1, c2, c3, v)), d') \<and>
    frame_no d' = int k \<and> ctl_of d' = snd (kf_step (ctl_of d) (k, c1, c2, c3, v))"
proof -
  let ?s = "sync_of k c1 c2 c3 v"
  define d0 where "d0 = d\<lparr>frame_no := int k, byte_no := 0, sync_byte := Some ?s\<rparr>"
  have run: "dmx_run d (kf_bytes (k, c1, c2, c3, v)) = dmx_run d0 [payload_of c1, payload_of c2, payload_of c3]"
    unfolding kf_bytes_def d0_def prod.case by (rule dmx_run_sync [OF assms(1)])
  note rd = rd_sync1 rd_sync2 rd_sync3
  define d1 where "d1 = snd (dmx_demux d0 (payload_of c1))"
  have "dmx_demux d0 (payload_of c1) = (if bit ?s 5 then (MH_CHANNEL_R1, d0\<lparr>byte_no := 1, result_byte := rd_byte ?s 2 (payload_of c1)\<rparr>)
      else (-1, d0\<lparr>byte_no := 1\<rparr>))"
    using assms(2) by (simp add: dmx_demux_bits payload_bit7 d0_def)
  then have s1: "dmx_event (dmx_demux d0 (payload_of c1)) = (case c1 of None \<Rightarrow> [] | Some c \<Rightarrow> [(MH_CHANNEL_R1, [c])])"
    "frame_no d1 = int k" "byte_no d1 = 1" "sync_byte d1 = Some ?s" "ctl_of d1 = ctl_of d"
    unfolding d1_def by (cases c1; simp add: rd sync_bits dmx_event_def; simp add: d0_def ctl_of_def)+
  define d2 where "d2 = snd (dmx_demux d1 (payload_of c2))"
  have "dmx_demux d1 (payload_of c2) = (if bit ?s 4 then (MH_CHANNEL_R2, d1\<lparr>byte_no := 2, result_byte := rd_byte ?s 1 (payload_of c2)\<rparr>)
      else (-1, d1\<lparr>byte_no := 2\<rparr>))"
    using assms(2) s1 by (simp add: dmx_demux_bits payload_bit7)
  then have s2: "dmx_event (dmx_demux d1 (payload_of c2)) = (case c2 of None \<Rightarrow> [] | Some c \<Rightarrow> [(MH_CHANNEL_R2, [c])])"
    "frame_no d2 = int k" "byte_no d2 = 2" "sync_byte d2 = Some ?s" "ctl_of d2 = ctl_of d"
    unfolding d2_def using s1 by (cases c2; simp add: rd sync_bits dmx_event_def del: One_nat_def; simp add: ctl_of_def)+
  define d3 where "d3 = snd (dmx_demux d2 (payload_of c3))"
  have ev: "dmx_run d (kf_bytes (k, c1, c2, c3, v)) =
      ((case c1 of None \<Rightarrow> [] | Some c \<Rightarrow> [(MH_CHANNEL_R1, [c])]) @
       (case c2 of None \<Rightarrow> [] | Some c \<Rightarrow> [(MH_CHANNEL_R2, [c])]) @ dmx_event (dmx_demux d2 (payload_of c3)), d3)"
    unfolding run by (simp add: Let_def s1 s2 d1_def [symmetric] d2_def [symmetric] d3_def)
  show ?thesis
  proof (cases "k = 1")
    case False
    have "dmx_demux d2 (payload_of c3) = (if bit ?s 3 then (int k, d2\<lparr>byte_no := 3, result_byte := rd_byte ?s 0 (payload_of c3)\<rparr>)
        else (-1, d2\<lparr>byte_no := 3\<rparr>))"
      using assms(2) s2 False by (simp add: dmx_demux_bits payload_bit7)
    then have "dmx_event (dmx_demux d2 (payload_of c3)) = (case c3 of None \<Rightarrow> [] | Some c \<Rightarrow> [(int k, [c])])"
      "frame_no d3 = int k" "ctl_of d3 = ctl_of d"
      unfolding d3_def using s2 False assms(3) by (cases c3; simp add: rd sync_bits dmx_event_def; simp add: ctl_of_def)+
    with False ev show ?thesis by (simp add: kf_data_def)
  next
    case True
    define dc where "dc = d2\<lparr>byte_no := byte_no d2 + 1\<rparr>"
    have c: "dmx_demux d2 (payload_of c3) = dmx_control dc ?s (payload_of c3)"
      using assms(2) True s2 by (simp add: dmx_demux_bits Let_def payload_bit7 dc_def)
    have "ctl_of dc = ctl_of d" "frame_no dc = 1"
      using s2 True by (simp_all add: ctl_of_def dc_def)
    moreover have "rd_byte ?s 0 (payload_of c3) = (case c3 of None \<Rightarrow> 0 | Some c \<Rightarrow> c)"
      by (cases c3) (simp_all add: payload_of_def rd_byte_payload rd_byte_payload_None sync_bits)
    moreover have "bit ?s 3 = (c3 \<noteq> None \<and> v)" by (simp add: sync_bits)
    ultimately show ?thesis
      using dmx_control_refines [of dc ?s "payload_of c3"] ev c True
      by (simp add: kf_data_def Let_def d3_def)
  qed
qed

lemma dmx_run_frames:
  "kf_seq (frame_no d) fs \<Longrightarrow> fst (dmx_run d (concat (map kf_bytes fs))) = kf_run (ctl_of d) fs"
proof (induction fs arbitrary: d)
  case (Cons f fs)
  obtain k c1 c2 c3 v where f: "f = (k, c1, c2, c3, v)" by (metis prod_cases5)
  have pre: "k \<noteq> 0 \<longrightarrow> int k = frame_no d + 1" "k \<le> 3" "k \<noteq> 1 \<longrightarrow> v"
    using Cons.prems f by auto
  obtain d' where d': "dmx_run d (kf_bytes f) = (fst (kf_step (ctl_of d) f), d')"
    "frame_no d' = int k" "ctl_of d' = snd (kf_step (ctl_of d) f)"
    using dmx_run_frame [OF pre] f by blast
  have "fst (dmx_run d' (concat (map kf_bytes fs))) = kf_run (ctl_of d') fs"
    by (rule Cons.IH) (use Cons.prems f d'(2) in simp)
  then show ?case
    by (simp add: dmx_run_append d' Let_def del: kf_step.simps)
qed simp

lemma kf_seq_start: "fs = [] \<or> fst (hd fs) = 0 \<Longrightarrow> kf_seq p fs = kf_seq q fs"
  by (cases fs) auto


section \<open>Properties\<close>

definition data_events :: "(channel \<times> byte list) list \<Rightarrow> (channel \<times> byte list) list" where
  "data_events es = filter (\<lambda>e. fst e \<noteq> MH_CHANNEL_CONTROL) es"

definition command_events :: "(channel \<times> byte list) list \<Rightarrow> byte list list" where
  "command_events es = map snd (filter (\<lambda>e. fst e = MH_CHANNEL_CONTROL) es)"

lemma data_events_append [simp]: "data_events (xs @ ys) = data_events xs @ data_events ys"
  by (simp add: data_events_def)

lemma command_events_append [simp]: "command_events (xs @ ys) = command_events xs @ command_events ys"
  by (simp add: command_events_def)

lemma kf_data_events:
  "data_events (kf_data f) = kf_data f" "command_events (kf_data f) = []"
  by (cases f; auto simp: kf_data_def data_events_def command_events_def split: option.splits)+

lemma ctl_events: "data_events (ctl_event r) = []" "command_events (ctl_event r) = (case r of None \<Rightarrow> [] | Some c \<Rightarrow> [c])"
  by (auto simp: data_events_def command_events_def ctl_event_def split: option.splits)

lemma kf_run_data: "data_events (kf_run s fs) = concat (map kf_data fs)"
proof (induction fs arbitrary: s)
  case (Cons f fs)
  then show ?case by (cases f) (simp add: Let_def kf_data_events ctl_events)
qed (simp add: data_events_def)

text \<open>The control bytes of a list of frames, with their validity flags.\<close>

definition kf_control :: "kframe list \<Rightarrow> (byte \<times> bool) list" where
  "kf_control fs = map (\<lambda>(k, c1, c2, c3, v). (case c3 of None \<Rightarrow> 0 | Some c \<Rightarrow> c, c3 \<noteq> None \<and> v))
     (filter (\<lambda>f. fst f = 1) fs)"

fun ctl_run :: "ctl \<Rightarrow> (byte \<times> bool) list \<Rightarrow> byte list list" where
  "ctl_run s [] = []"
| "ctl_run s ((b, v) # bs) =
     (let r = ctl_step s v b in (case fst r of None \<Rightarrow> [] | Some c \<Rightarrow> [c]) @ ctl_run (snd r) bs)"

lemma kf_run_commands: "command_events (kf_run s fs) = ctl_run s (kf_control fs)"
proof (induction fs arbitrary: s)
  case (Cons f fs)
  then show ?case by (cases f) (simp add: Let_def kf_data_events ctl_events kf_control_def)
qed (simp add: command_events_def kf_control_def)

lemma ctl_run_inner:
  "length buf + length mid < MHDMX_CMD_BUFFER_SIZE \<Longrightarrow> \<not> bit c0 7 \<Longrightarrow>
   ctl_run (Some c0, buf) (map (\<lambda>b. (b, True)) mid @ [(c0 OR 128, False)]) = [buf @ mid @ [c0 OR 128]]"
proof (induction mid arbitrary: buf)
  case Nil
  then show ?case by (simp add: Let_def bit_or_iff)
next
  case (Cons m mid)
  then show ?case by (simp add: Let_def)
qed

definition command_framing :: "byte \<Rightarrow> byte list \<Rightarrow> (byte \<times> bool) list" where
  "command_framing c0 mid = (c0, False) # map (\<lambda>b. (b, True)) mid @ [(c0 OR 128, False)]"

lemma ctl_run_command:
  assumes "\<not> bit c0 7" and "length mid + 2 \<le> MHDMX_CMD_BUFFER_SIZE"
  shows "ctl_run s (command_framing c0 mid) = [c0 # mid @ [c0 OR 128]]"
  using assms ctl_run_inner [of "[c0]" mid c0] by (cases s) (simp add: command_framing_def Let_def MHDMX_CMD_BUFFER_SIZE_def)

text \<open>Claim C6. Whatever the demultiplexer has seen before, from the first frame of a sequence on it
  delivers exactly the data bytes of the frames, each on its channel, in the order sent.\<close>

theorem demux_stream:
  assumes "fs = [] \<or> fst (hd fs) = 0" and "kf_seq 0 fs"
  shows "data_events (fst (dmx_run d (concat (map kf_bytes fs)))) = concat (map kf_data fs)"
proof -
  have "kf_seq (frame_no d) fs" using assms kf_seq_start by blast
  then show ?thesis by (simp add: dmx_run_frames kf_run_data)
qed

text \<open>A command that the keyer sends, its first byte with a clear validity flag, inner bytes of
  any value flagged valid, and the first byte again with the top bit set, is delivered once
  and complete, whatever was in the command buffer before and whatever the data bytes of the
  frames are, if it fits in the buffer.\<close>

theorem demux_command:
  assumes "fs = [] \<or> fst (hd fs) = 0" and "kf_seq 0 fs" and "kf_control fs = command_framing c0 mid"
    and "\<not> bit c0 7" and "length mid + 2 \<le> MHDMX_CMD_BUFFER_SIZE"
  shows "command_events (fst (dmx_run d (concat (map kf_bytes fs)))) = [c0 # mid @ [c0 OR 128]]"
proof -
  have "kf_seq (frame_no d) fs" using assms(1,2) kf_seq_start by blast
  then show ?thesis by (simp add: dmx_run_frames kf_run_commands assms(3) ctl_run_command [OF assms(4,5)])
qed

text \<open>A run over any bytes from the keyer keeps the index into the command buffer within
  the buffer, and every channel a call reports is a keyer channel or none.\<close>

theorem demux_safe:
  assumes "dmx_ok d"
  shows "dmx_ok (snd (dmx_run d cs)) \<and> fst (dmx_demux (snd (dmx_run d cs)) c) \<in> {-1..5}"
proof -
  have ok: "dmx_ok (snd (dmx_run d cs))"
    using assms by (induction cs arbitrary: d) (simp_all add: Let_def dmx_demux_ok)
  with dmx_demux_result show ?thesis by blast
qed

definition kf_example :: "kframe list" where
  "kf_example =
     [(0, Some 65, None, Some 4, True), (1, None, Some 200, Some 9, False),
      (0, None, None, None, True), (1, Some 66, None, Some 255, True), (2, None, None, Some 193, True),
      (0, None, None, None, True), (1, None, None, Some 137, False)]"

theorem demux_stream_witness:
  "data_events (fst (dmx_run dmx_create (concat (map kf_bytes kf_example)))) =
     [(4, [65]), (0, [4]), (5, [200]), (4, [66]), (2, [193])]"
proof -
  have "kf_example = [] \<or> fst (hd kf_example) = 0" "kf_seq 0 kf_example" by (simp_all add: kf_example_def)
  from demux_stream [OF this, of dmx_create] show ?thesis by (simp add: kf_example_def kf_data_def)
qed

theorem demux_command_witness:
  "command_events (fst (dmx_run dmx_create (concat (map kf_bytes kf_example)))) = [[9, 255, 137]]"
proof -
  have "kf_example = [] \<or> fst (hd kf_example) = 0" "kf_seq 0 kf_example"
    "kf_control kf_example = command_framing 9 [255]" "\<not> bit (9 :: byte) 7"
    "length [255 :: byte] + 2 \<le> MHDMX_CMD_BUFFER_SIZE"
    by (simp_all add: kf_example_def kf_control_def command_framing_def MHDMX_CMD_BUFFER_SIZE_def)
  from demux_command [OF this, of dmx_create] show ?thesis by simp
qed

theorem demux_safe_witness:
  "dmx_ok (snd (dmx_run dmx_create [1, 2, 3])) \<and> fst (dmx_demux (snd (dmx_run dmx_create [1, 2, 3])) 130) \<in> {-1..5}"
  by (rule demux_safe [OF dmx_ok_create])

end
