(* ===== verification/IoState.thy ===== *)
theory IoState
  imports Prelude
begin

text \<open>
  \<^verbatim>\<open>src/util.c\<close>, \<^verbatim>\<open>src/util.h\<close>: the life cycle of an I/O endpoint (\<^verbatim>\<open>enum mhuxd_io_state\<close>),
  closing a descriptor once, and the classification of non-blocking reads and writes. The result
  of a system call is an argument.
\<close>

section \<open>System calls\<close>

text \<open>
  What a \<^verbatim>\<open>read\<close> finds: the bytes that wait (none means end of file), or an error with
  the question whether it is \<^verbatim>\<open>EAGAIN\<close>. \<open>os_read\<close> is a \<^verbatim>\<open>read\<close> with a limit.
\<close>

type_synonym fd = int

datatype rd_result = RdBytes "byte list" | RdErr bool

datatype wr_result = WrSome nat | WrErr bool

fun os_read :: "nat \<Rightarrow> rd_result \<Rightarrow> rd_result" where
  "os_read n (RdBytes bs) = RdBytes (take n bs)"
| "os_read n (RdErr again) = RdErr again"

datatype io_rw = IO_RW_PROGRESS | IO_RW_WOULD_BLOCK | IO_RW_EOF | IO_RW_ERROR

text \<open>The classification and \<^verbatim>\<open>io_size\<close>.\<close>

fun io_read_nonblock :: "nat \<Rightarrow> rd_result \<Rightarrow> io_rw \<times> int" where
  "io_read_nonblock n res =
     (case os_read n res of
        RdBytes [] \<Rightarrow> (IO_RW_EOF, 0)
      | RdBytes bs \<Rightarrow> (IO_RW_PROGRESS, int (length bs))
      | RdErr again \<Rightarrow> (if again then IO_RW_WOULD_BLOCK else IO_RW_ERROR, -1))"

fun io_write_nonblock :: "nat \<Rightarrow> wr_result \<Rightarrow> io_rw \<times> int" where
  "io_write_nonblock n (WrSome k) = (if min n k = 0 then (IO_RW_EOF, 0) else (IO_RW_PROGRESS, int (min n k)))"
| "io_write_nonblock n (WrErr again) = (if again then IO_RW_WOULD_BLOCK else IO_RW_ERROR, -1)"

text \<open>\<^verbatim>\<open>fd_close\<close>: the new value of the variable, the result, and the descriptor that was closed, if any.
  \<open>err\<close> is the \<^verbatim>\<open>errno\<close> of a failing \<^verbatim>\<open>close\<close>.\<close>

definition fd_close :: "fd \<Rightarrow> int option \<Rightarrow> fd \<times> int \<times> fd option" where
  "fd_close fd err =
     (if fd < 0 then (fd, 0, None) else (-1, (case err of None \<Rightarrow> 1 | Some e \<Rightarrow> - e), Some fd))"

section \<open>The state of an endpoint\<close>

datatype io_state = IO_OPEN | IO_DRAINING | IO_FAILED | IO_CLOSED

definition io_state_to_str :: "io_state \<Rightarrow> string" where
  "io_state_to_str s = (case s of IO_OPEN \<Rightarrow> ''OPEN'' | IO_DRAINING \<Rightarrow> ''DRAINING''
     | IO_FAILED \<Rightarrow> ''FAILED'' | IO_CLOSED \<Rightarrow> ''CLOSED'')"

definition io_state_can_transition :: "io_state \<Rightarrow> io_state \<Rightarrow> bool" where
  "io_state_can_transition from to =
     (if from = to then True
      else case from of
        IO_OPEN \<Rightarrow> to = IO_DRAINING \<or> to = IO_FAILED \<or> to = IO_CLOSED
      | IO_DRAINING \<Rightarrow> to = IO_FAILED \<or> to = IO_CLOSED
      | IO_FAILED \<Rightarrow> to = IO_CLOSED
      | IO_CLOSED \<Rightarrow> False)"

definition io_state_transition :: "io_state \<Rightarrow> io_state \<Rightarrow> int \<times> io_state" where
  "io_state_transition s to =
     (if s = to then (1, s)
      else if \<not> io_state_can_transition s to then (0, s)
      else (1, to))"

text \<open>The order of the life cycle; a state that is left never comes back.\<close>

fun io_rank :: "io_state \<Rightarrow> nat" where
  "io_rank IO_OPEN = 0" | "io_rank IO_DRAINING = 1" | "io_rank IO_FAILED = 2" | "io_rank IO_CLOSED = 3"

lemma io_rank_inj: "io_rank a = io_rank b \<Longrightarrow> a = b"
  by (cases a; cases b) simp_all

instantiation io_state :: linorder
begin

definition less_eq_io_state :: "io_state \<Rightarrow> io_state \<Rightarrow> bool" where
  "less_eq_io_state a b \<longleftrightarrow> io_rank a \<le> io_rank b"

definition less_io_state :: "io_state \<Rightarrow> io_state \<Rightarrow> bool" where
  "less_io_state a b \<longleftrightarrow> io_rank a < io_rank b"

instance
  by standard (auto simp: less_eq_io_state_def less_io_state_def intro: io_rank_inj)

end

lemma io_transition_order: "io_state_can_transition a b \<longleftrightarrow> a \<le> b"
  by (cases a; cases b) (simp_all add: io_state_can_transition_def less_eq_io_state_def)

lemma io_state_transition_le: "s \<le> snd (io_state_transition s to)"
  by (auto simp: io_state_transition_def io_transition_order)

text \<open>A run of transition requests.\<close>

definition io_run :: "io_state \<Rightarrow> io_state list \<Rightarrow> io_state" where
  "io_run s ts = fold (\<lambda>t s. snd (io_state_transition s t)) ts s"

lemma io_run_le: "s \<le> io_run s ts"
proof (induction ts arbitrary: s)
  case (Cons t ts)
  then show ?case
    using io_state_transition_le [of s t] by (auto simp: io_run_def intro: order_trans)
qed (simp add: io_run_def)

text \<open>Whatever transitions are requested, an endpoint never goes back to an earlier state of
  its life cycle: a closed endpoint stays closed, a failed one never reopens; a request is
  refused exactly when it would go back, and then changes nothing.\<close>

theorem io_state_monotone:
  "s \<le> io_run s ts \<and> io_run IO_CLOSED ts = IO_CLOSED \<and>
   (fst (io_state_transition s t) = 0 \<longleftrightarrow> t < s) \<and> (t < s \<longrightarrow> snd (io_state_transition s t) = s)"
proof -
  have "io_run IO_CLOSED ts = IO_CLOSED"
  proof -
    have "io_rank IO_CLOSED \<le> io_rank (io_run IO_CLOSED ts)"
      using io_run_le [of IO_CLOSED ts] by (simp add: less_eq_io_state_def)
    then show ?thesis by (cases "io_run IO_CLOSED ts") simp_all
  qed
  then show ?thesis
    using io_run_le by (auto simp: io_state_transition_def io_transition_order)
qed

theorem io_state_monotone_witness:
  "io_run IO_OPEN [IO_FAILED, IO_DRAINING, IO_CLOSED, IO_OPEN] = IO_CLOSED \<and> snd (io_state_transition IO_FAILED IO_OPEN) = IO_FAILED"
  using io_state_monotone [of IO_FAILED "[]" IO_OPEN]
  by (simp add: io_run_def io_state_transition_def io_state_can_transition_def less_io_state_def)

lemma fd_close_once:
  "fd_close (fst (fd_close fd e1)) e2 = (fst (fd_close fd e1), 0, None)"
  by (simp add: fd_close_def)

end
