(* ===== verification/RouterModel.thy ===== *)
theory RouterModel
  imports Complex_Main Demux IoState
begin

text \<open>
  \<^verbatim>\<open>src/mhrouter.c\<close>, \<^verbatim>\<open>src/mhrouter.h\<close>: the router, which moves bytes between the connectors
  (file descriptors registered as producers and consumers of a channel), the callbacks of other
  modules, and the keyer. The lists of the C code are HOL lists per channel, in list order; a
  libev watcher is the flag whether it is active; the results of \<^verbatim>\<open>read\<close>, \<^verbatim>\<open>write\<close> and
  \<^verbatim>\<open>ioctl\<close> are arguments; what the router does to the world (closing a descriptor, writing,
  calling a callback) is appended to an event log. Callbacks are identified by a number.
\<close>

section \<open>State\<close>

type_synonym cb = nat
type_synonym user = nat

datatype status = MHROUTER_CONNECTED | MHROUTER_DISCONNECTED

text \<open>\<^verbatim>\<open>LB_BYTES_PER_IVAL\<close>, \<^verbatim>\<open>LB_CARRY_OVER\<close>: the values held in the \<^verbatim>\<open>double\<close> are whole numbers.\<close>

abbreviation (input) "LB_BYTES_PER_IVAL \<equiv> (20 :: int)"
abbreviation (input) "LB_CARRY_OVER \<equiv> (2 :: int)"

record producer =
  prd_fd :: fd
  prd_tag :: "string option"
  prd_owner :: bool
  prd_w :: bool
  prd_channel :: channel
  prd_mask :: byte

record consumer =
  cns_fd :: fd
  cns_tag :: "string option"
  cns_owner :: bool
  cns_w :: bool
  cns_buf :: buffer
  cns_channel :: channel
  cns_flags :: u32

record consumer_callback =
  cnc_cb :: cb
  cnc_channel :: channel
  cnc_user :: user

record tap_callback =
  tap_cb :: cb
  tap_user :: user

record status_callback =
  stc_cb :: "cb option"
  stc_user :: user

record processor_callback =
  prc_cb :: cb
  prc_channel :: channel
  prc_user :: user

record leaky_bucket =
  lb_bps :: rat
  lb_ival :: rat
  lb_avail :: int
  lb_timer :: bool

text \<open>
  Events: a descriptor closed (\<^verbatim>\<open>fd_close\<close>), the keyer's closed (\<^verbatim>\<open>tty_close\<close>), bytes written
  to a descriptor, a callback called. A tap is called with a pointer and a length; the bytes are
  \<open>None\<close> when they lie before the buffer's array.
\<close>

datatype event =
    EvClose fd
  | EvTtyClose fd
  | EvWrite fd "byte list"
  | EvConsumer cb user channel "byte list"
  | EvTap cb user channel fd "byte list option"
  | EvStatus cb user status

record router =
  consumers :: "channel \<Rightarrow> consumer list"
  producers :: "channel \<Rightarrow> producer list"
  consumer_cbs :: "channel \<Rightarrow> consumer_callback list"
  taps :: "channel \<Rightarrow> tap_callback list"
  processors :: "channel \<Rightarrow> processor_callback list"
  status_cbs :: "status_callback list"
  channel_buf_out :: chan_bufs
  lbs :: "channel \<Rightarrow> leaky_bucket"
  rtr_fd :: fd
  rbuf_in :: buffer
  rbuf_out :: buffer
  w_in :: bool
  w_out :: bool
  rdmx :: dmx
  serial :: string
  hold :: "channel \<Rightarrow> bool"
  turn :: "channel \<Rightarrow> fd"
  intercept :: "channel \<Rightarrow> bool"
  wflag :: byte
  has_flags_channel :: bool
  wk_tx_focus :: byte
  events :: "event list"

definition in_range :: "channel \<Rightarrow> bool" where
  "in_range ch \<longleftrightarrow> \<not> (ch < 0 \<or> ch \<ge> ALL_NUM_CHANNELS)"

definition all_channels :: "channel list" where
  "all_channels = map int [0..<14]"

definition emit :: "event list \<Rightarrow> router \<Rightarrow> router" where
  "emit es r = r\<lparr>events := events r @ es\<rparr>"

definition map_producers :: "channel \<Rightarrow> (producer \<Rightarrow> producer) \<Rightarrow> router \<Rightarrow> router" where
  "map_producers ch f r = r\<lparr>producers := (producers r)(ch := map f (producers r ch))\<rparr>"

definition map_consumers :: "channel \<Rightarrow> (consumer \<Rightarrow> consumer) \<Rightarrow> router \<Rightarrow> router" where
  "map_consumers ch f r = r\<lparr>consumers := (consumers r)(ch := map f (consumers r ch))\<rparr>"

definition set_lb :: "channel \<Rightarrow> leaky_bucket \<Rightarrow> router \<Rightarrow> router" where
  "set_lb ch lb r = r\<lparr>lbs := (lbs r)(ch := lb)\<rparr>"

definition set_buf :: "channel \<Rightarrow> buffer \<Rightarrow> router \<Rightarrow> router" where
  "set_buf ch b r = r\<lparr>channel_buf_out := (channel_buf_out r)(ch := b)\<rparr>"

section \<open>Producers that may be read\<close>

definition has_consumer_fd :: "router \<Rightarrow> fd \<Rightarrow> channel \<Rightarrow> bool" where
  "has_consumer_fd r fd ch = list_ex (\<lambda>c. cns_fd c = fd) (consumers r ch)"

definition has_producer_fd :: "router \<Rightarrow> fd \<Rightarrow> channel \<Rightarrow> bool" where
  "has_producer_fd r fd ch = list_ex (\<lambda>p. prd_fd p = fd) (producers r ch)"

definition producer_may_read :: "router \<Rightarrow> producer \<Rightarrow> bool" where
  "producer_may_read r p =
     (let t = turn r (prd_channel p) in \<not> hold r (prd_channel p) \<and> (t = -1 \<or> t = prd_fd p))"

definition start_if_may :: "router \<Rightarrow> producer \<Rightarrow> producer" where
  "start_if_may r p = (if producer_may_read r p then p\<lparr>prd_w := True\<rparr> else p)"

section \<open>Leaky bucket\<close>

definition lb_cb :: "channel \<Rightarrow> router \<Rightarrow> router" where
  "lb_cb ch r =
     (let lb = lbs r ch in
      if lb_avail lb = LB_BYTES_PER_IVAL + LB_CARRY_OVER then set_lb ch (lb\<lparr>lb_timer := False\<rparr>) r
      else
        let r1 = set_lb ch (lb\<lparr>lb_avail := LB_BYTES_PER_IVAL +
                    (if lb_avail lb > LB_CARRY_OVER then LB_CARRY_OVER else lb_avail lb)\<rparr>) r
        in map_producers ch (start_if_may r1) r1)"

definition mhr_set_bps_limit :: "router \<Rightarrow> channel \<Rightarrow> rat \<Rightarrow> router" where
  "mhr_set_bps_limit r ch bps =
     (let lb = lbs r ch in
      if bps = lb_bps lb then r
      else if bps = 0 then
        (if lb_bps lb \<noteq> 0 then set_lb ch (lb\<lparr>lb_timer := False, lb_bps := 0\<rparr>) r else r)
      else set_lb ch (lb\<lparr>lb_bps := bps, lb_ival := (1 / bps) * 20,
             lb_avail := LB_BYTES_PER_IVAL + LB_CARRY_OVER, lb_timer := True\<rparr>) r)"

definition switch_producer_events :: "bool \<Rightarrow> router \<Rightarrow> router" where
  "switch_producer_events active r =
     fold (\<lambda>ch r. map_producers ch
             (\<lambda>p. if \<not> active \<or> producer_may_read r p then p\<lparr>prd_w := active\<rparr> else p) r) all_channels r"

section \<open>Sending to the keyer\<close>

text \<open>\<open>data\<close> holds the \<^verbatim>\<open>len\<close> bytes. The result is the C return value.\<close>

definition mhr_send_in :: "router \<Rightarrow> byte list \<Rightarrow> channel \<Rightarrow> int \<times> router" where
  "mhr_send_in r data ch =
     (if \<not> in_range ch then (-1, r)
      else if ch = MH_CHANNEL_FLAGS \<and> \<not> has_flags_channel r then (-1, r)
      else if length data > BUFFER_CAPACITY then (-1, r)
      else if rtr_fd r = -1 then (-1, r)
      else if length data > buf_size_avail (channel_buf_out r ch) then (-1, r)
      else let (n, b) = buf_append (channel_buf_out r ch) data (length data)
           in (n, (set_buf ch b r)\<lparr>w_out := True\<rparr>))"

section \<open>PTT\<close>

definition PTT_FLAGS :: byte where
  "PTT_FLAGS = MHC2DFL_PTT_R1 OR MHC2DFL_PTT_R2"

text \<open>The two loops of \<^verbatim>\<open>push_ptt\<close>.\<close>

definition held_ptt :: "router \<Rightarrow> byte" where
  "held_ptt r = fold (\<lambda>ch h. if \<not> ch_is_ptt_channel ch then h
       else fold (\<lambda>p h. h OR prd_mask p) (producers r ch) h) all_channels 0"

definition push_ptt :: "router \<Rightarrow> router" where
  "push_ptt r =
     (let r1 = r\<lparr>wflag := (wflag r AND NOT PTT_FLAGS) OR held_ptt r\<rparr>
      in if rtr_fd r1 = -1 then r1 else snd (mhr_send_in r1 [wflag r1] MH_CHANNEL_FLAGS))"

definition drop_ptt :: "router \<Rightarrow> router" where
  "drop_ptt r =
     (let r1 = fold (\<lambda>ch r. map_producers ch (\<lambda>p. p\<lparr>prd_mask := 0\<rparr>) r) all_channels r
      in r1\<lparr>wflag := wflag r1 AND NOT PTT_FLAGS\<rparr>)"

text \<open>The mask of a PTT byte, \<open>None\<close> for a channel that is no PTT channel.\<close>

definition ptt_radio :: "channel \<Rightarrow> byte \<Rightarrow> byte option" where
  "ptt_radio ch focus =
     (if ch = CH_PTT1 then Some MHC2DFL_PTT_R1
      else if ch = CH_PTT2 then Some MHC2DFL_PTT_R2
      else if ch = CH_PTT_FOCUS then Some (if focus = 1 then MHC2DFL_PTT_R2 else MHC2DFL_PTT_R1)
      else None)"

text \<open>The loop of \<^verbatim>\<open>process_ptt_producer\<close> over the bytes read from the buffer: the producer's mask and \<^verbatim>\<open>push\<close>.\<close>

fun ptt_bytes :: "byte option \<Rightarrow> byte list \<Rightarrow> byte \<Rightarrow> bool \<Rightarrow> byte \<times> bool" where
  "ptt_bytes radio [] held push = (held, push)"
| "ptt_bytes radio (c # cs) held push =
     (if c \<noteq> PTT_ON_BYTE \<and> c \<noteq> PTT_OFF_BYTE then ptt_bytes radio cs held push
      else case radio of None \<Rightarrow> ptt_bytes radio cs held push
        | Some m \<Rightarrow> ptt_bytes radio cs (if c = PTT_ON_BYTE then m else 0) True)"

text \<open>
  Producer \<open>i\<close> of the channel; the buffer is the output buffer of the channel. The loop takes
  bytes until the buffer is empty, at most as many as the buffer holds.
\<close>

definition process_ptt_producer :: "channel \<Rightarrow> nat \<Rightarrow> router \<Rightarrow> router" where
  "process_ptt_producer ch i r =
     (let b = channel_buf_out r ch; p = producers r ch ! i in
      if buf_size b = 0 then r
      else
        let (cs, b') = drain buf_get_c (buf_size b) b;
            (held, push) = ptt_bytes (ptt_radio (prd_channel p) (wk_tx_focus r)) cs (prd_mask p) False;
            r1 = (set_buf ch b' r)\<lparr>producers := (producers r)(ch := (producers r ch)[i := p\<lparr>prd_mask := held\<rparr>])\<rparr>
        in if push then push_ptt r1 else r1)"

section \<open>Removing connectors\<close>

text \<open>\<^verbatim>\<open>fd_close\<close> on the descriptor of an entry that is about to be freed.\<close>

definition close_fd :: "fd \<Rightarrow> router \<Rightarrow> router" where
  "close_fd fd r = (case snd (snd (fd_close fd None)) of None \<Rightarrow> r | Some f \<Rightarrow> emit [EvClose f] r)"

definition mhr_rem_consumer :: "router \<Rightarrow> fd \<Rightarrow> channel \<Rightarrow> router" where
  "mhr_rem_consumer r fd ch =
     (if \<not> in_range ch then r
      else case find (\<lambda>c. cns_fd c = fd) (consumers r ch) of
        None \<Rightarrow> r
      | Some c \<Rightarrow>
          let r1 = r\<lparr>consumers := (consumers r)(ch := remove_first (\<lambda>c. cns_fd c = fd) (consumers r ch))\<rparr>
          in if \<not> has_producer_fd r1 (cns_fd c) ch
             then (if \<not> cns_owner c then r1 else close_fd (cns_fd c) r1)
             else r1)"

definition mhr_rem_producer :: "router \<Rightarrow> fd \<Rightarrow> channel \<Rightarrow> router" where
  "mhr_rem_producer r fd ch =
     (if \<not> in_range ch then r
      else case find (\<lambda>p. prd_fd p = fd) (producers r ch) of
        None \<Rightarrow> r
      | Some p \<Rightarrow>
          let held = prd_mask p;
              r1 = r\<lparr>producers := (producers r)(ch := remove_first (\<lambda>p. prd_fd p = fd) (producers r ch))\<rparr>;
              r2 = (if held \<noteq> 0 then push_ptt r1 else r1)
          in if \<not> has_consumer_fd r2 (prd_fd p) ch
             then (if \<not> prd_owner p then r2 else close_fd (prd_fd p) r2)
             else r2)"

definition mhr_rem_endpoint_fd :: "router \<Rightarrow> fd \<Rightarrow> channel \<Rightarrow> router" where
  "mhr_rem_endpoint_fd r fd ch = mhr_rem_consumer (mhr_rem_producer r fd ch) fd ch"

definition mhr_rem_consumer_cb :: "router \<Rightarrow> cb \<Rightarrow> channel \<Rightarrow> router" where
  "mhr_rem_consumer_cb r cb ch =
     (if \<not> in_range ch then r
      else r\<lparr>consumer_cbs := (consumer_cbs r)(ch := remove_first (\<lambda>c. cnc_cb c = cb) (consumer_cbs r ch))\<rparr>)"

definition mhr_rem_producer_tap_cb :: "router \<Rightarrow> cb \<Rightarrow> channel \<Rightarrow> user \<Rightarrow> router" where
  "mhr_rem_producer_tap_cb r cb ch ud =
     (if \<not> in_range ch then r
      else r\<lparr>taps := (taps r)(ch := remove_first (\<lambda>t. tap_cb t = cb \<and> tap_user t = ud) (taps r ch))\<rparr>)"

definition mhr_rem_status_cb :: "router \<Rightarrow> cb option \<Rightarrow> router" where
  "mhr_rem_status_cb r cb = r\<lparr>status_cbs := remove_first (\<lambda>s. stc_cb s = cb) (status_cbs r)\<rparr>"

definition mhr_rem_processor_cb :: "router \<Rightarrow> cb \<Rightarrow> channel \<Rightarrow> router" where
  "mhr_rem_processor_cb r cb ch =
     (if \<not> in_range ch then r
      else r\<lparr>processors := (processors r)(ch := remove_first (\<lambda>p. prc_cb p = cb) (processors r ch))\<rparr>)"

section \<open>The keyer's descriptor\<close>

definition status_events :: "router \<Rightarrow> status \<Rightarrow> event list" where
  "status_events r st =
     concat (map (\<lambda>s. case stc_cb s of None \<Rightarrow> [] | Some cb \<Rightarrow> [EvStatus cb (stc_user s) st]) (status_cbs r))"

definition mhr_set_keyer_fd :: "router \<Rightarrow> fd \<Rightarrow> router" where
  "mhr_set_keyer_fd r fd =
     (if fd = rtr_fd r then r
      else
        let r1 = (if rtr_fd r \<noteq> -1
                  then drop_ptt (emit [EvTtyClose (rtr_fd r)] (r\<lparr>w_in := False, w_out := False\<rparr>)) else r);
            r2 = r1\<lparr>rtr_fd := fd\<rparr>;
            r3 = (if fd \<noteq> -1 then r2\<lparr>w_in := True, w_out := False\<rparr> else r2);
            r4 = switch_producer_events (fd \<noteq> -1) r3
        in emit (status_events r4 (if fd \<noteq> -1 then MHROUTER_CONNECTED else MHROUTER_DISCONNECTED)) r4)"

section \<open>Watcher callbacks\<close>

text \<open>
  \<^verbatim>\<open>producer_cb\<close> of producer \<open>i\<close> of the channel, with \<^verbatim>\<open>EV_READ\<close>. \<open>res\<close> is what waits in
  the socket, \<open>proc\<close> what a processor callback does to the buffer it is given.
\<close>

definition stop_producer :: "channel \<Rightarrow> nat \<Rightarrow> router \<Rightarrow> router" where
  "stop_producer ch i r =
     r\<lparr>producers := (producers r)(ch := (producers r ch)[i := (producers r ch ! i)\<lparr>prd_w := False\<rparr>])\<rparr>"

text \<open>The data pointer of the taps: \<^verbatim>\<open>b->data + b->size - r\<close>, with length \<^verbatim>\<open>r\<close>.\<close>

definition tap_data :: "buffer \<Rightarrow> nat \<Rightarrow> byte list option" where
  "tap_data b n = (if buf_size b < n then None else Some (map (buf_data b) [buf_size b - n..<buf_size b]))"

definition rem_endpoint_after_error :: "fd \<Rightarrow> channel \<Rightarrow> router \<Rightarrow> router" where
  "rem_endpoint_after_error fd ch r = mhr_rem_producer (mhr_rem_consumer r fd ch) fd ch"

definition read_avail :: "router \<Rightarrow> channel \<Rightarrow> int" where
  "read_avail r ch =
     (let avail = int (buf_size_avail (channel_buf_out r ch))
      in if lb_bps (lbs r ch) \<noteq> 0 \<and> avail > lb_avail (lbs r ch) then lb_avail (lbs r ch) else avail)"

definition producer_data ::
  "(cb \<Rightarrow> user \<Rightarrow> buffer \<Rightarrow> buffer) \<Rightarrow> channel \<Rightarrow> nat \<Rightarrow> byte list \<Rightarrow> router \<Rightarrow> router" where
  "producer_data proc ch i bs r =
     (let n = length bs;
          fd = prd_fd (producers r ch ! i);
          r1 = set_buf ch (buf_add_size (buf_store (channel_buf_out r ch) bs) n) r;
          r2 = (if lb_bps (lbs r1 ch) \<noteq> 0 then set_lb ch ((lbs r1 ch)\<lparr>lb_timer := True\<rparr>) r1 else r1);
          r3 = (if ch_is_ptt_channel ch then process_ptt_producer ch i r2 else r2);
          r4 = emit (map (\<lambda>t. EvTap (tap_cb t) (tap_user t) ch fd (tap_data (channel_buf_out r3 ch) n)) (taps r3 ch)) r3;
          r5 = set_buf ch (fold (\<lambda>p b. proc (prc_cb p) (prc_user p) b) (processors r4 ch) (channel_buf_out r4 ch)) r4;
          r6 = r5\<lparr>w_out := True\<rparr>
      in if lb_bps (lbs r6 ch) \<noteq> 0
         then set_lb ch ((lbs r6 ch)\<lparr>lb_avail := lb_avail (lbs r6 ch) - int n\<rparr>) r6 else r6)"

definition producer_cb ::
  "(cb \<Rightarrow> user \<Rightarrow> buffer \<Rightarrow> buffer) \<Rightarrow> channel \<Rightarrow> nat \<Rightarrow> rd_result \<Rightarrow> router \<Rightarrow> router" where
  "producer_cb proc ch i res r =
     (let p = producers r ch ! i in
      if \<not> producer_may_read r p then stop_producer ch i r
      else if rtr_fd r = -1 then r
      else let avail = read_avail r (prd_channel p) in
        if avail = 0 then stop_producer ch i r
        else case os_read (nat avail) res of
          RdBytes bs \<Rightarrow>
            (if bs \<noteq> [] then producer_data proc (prd_channel p) i bs r
             else rem_endpoint_after_error (prd_fd p) (prd_channel p) r)
        | RdErr again \<Rightarrow> (if \<not> again then rem_endpoint_after_error (prd_fd p) (prd_channel p) r else r))"

text \<open>\<^verbatim>\<open>consumer_cb\<close> of consumer \<open>i\<close> of the channel, with \<^verbatim>\<open>EV_WRITE\<close>. \<open>res\<close>: how many bytes the descriptor takes.\<close>

definition set_consumer :: "channel \<Rightarrow> nat \<Rightarrow> consumer \<Rightarrow> router \<Rightarrow> router" where
  "set_consumer ch i c r = r\<lparr>consumers := (consumers r)(ch := (consumers r ch)[i := c])\<rparr>"

definition consumer_cb :: "channel \<Rightarrow> nat \<Rightarrow> wr_result \<Rightarrow> router \<Rightarrow> router" where
  "consumer_cb ch i res r =
     (let c = consumers r ch ! i; b = cns_buf c in
      case res of
        WrErr again \<Rightarrow>
          (if \<not> again then mhr_rem_consumer (mhr_rem_producer r (cns_fd c) (cns_channel c)) (cns_fd c) (cns_channel c)
           else if buf_size b = 0 then set_consumer ch i (c\<lparr>cns_w := False\<rparr>) r else r)
      | WrSome k \<Rightarrow>
          let n = min k (buf_size b - buf_rpos b);
              b' = (if n > 0 then buf_consume b n else b);
              c' = c\<lparr>cns_buf := b', cns_w := (if buf_size b' = 0 then False else cns_w c)\<rparr>;
              r' = set_consumer ch i c' r
          in if n > 0 then emit [EvWrite (cns_fd c) (map (buf_data b) [buf_rpos b..<buf_rpos b + n])] r' else r')"

text \<open>One byte or command from the keyer, delivered on its channel.\<close>

definition deliver :: "channel \<Rightarrow> router \<Rightarrow> router" where
  "deliver ch r =
     (let d = rdmx r;
          data = (if ch = MH_CHANNEL_CONTROL then map (cmd_buffer d) [0..<cmd_length d] else [result_byte d]);
          r1 = (if intercept r ch then r
                else map_consumers ch (\<lambda>c. c\<lparr>cns_buf := (if ch = MH_CHANNEL_CONTROL
                          then snd (buf_append (cns_buf c) data (to_u16 (int (cmd_length d))))
                          else snd (buf_append_c (cns_buf c) (result_byte d))), cns_w := True\<rparr>) r)
      in emit (map (\<lambda>c. EvConsumer (cnc_cb c) (cnc_user c) ch data) (consumer_cbs r1 ch)) r1)"

definition keyer_byte :: "byte \<Rightarrow> router \<Rightarrow> router" where
  "keyer_byte c r =
     (let (ch, d) = dmx_demux (rdmx r) c; r1 = r\<lparr>rdmx := d\<rparr>
      in if ch < 0 \<or> ch \<ge> MH_NUM_CHANNELS then r1 else deliver ch r1)"

definition keyer_in_cb :: "rd_result \<Rightarrow> router \<Rightarrow> router" where
  "keyer_in_cb res r =
     (if rtr_fd r = -1 then r
      else
        let avail = buf_size_avail (rbuf_in r);
            r1 = (case os_read avail res of
                RdBytes bs \<Rightarrow>
                  (if bs \<noteq> [] then r\<lparr>rbuf_in := buf_add_size (buf_store (rbuf_in r) bs) (length bs)\<rparr>
                   else mhr_set_keyer_fd r (-1))
              | RdErr again \<Rightarrow> (if \<not> again then mhr_set_keyer_fd r (-1) else r));
            (cs, b) = drain buf_get_c (buf_size (rbuf_in r1)) (rbuf_in r1)
        in fold keyer_byte cs (r1\<lparr>rbuf_in := b\<rparr>))"

text \<open>Stopping the write watcher when neither the output buffer nor a keyer channel holds data.\<close>

definition stop_idle_out :: "router \<Rightarrow> router" where
  "stop_idle_out r =
     (if buf_size (rbuf_out r) = 0 \<and> list_all (\<lambda>ch. buf_size (channel_buf_out r ch) = 0) [0..MH_NUM_CHANNELS - 1]
      then r\<lparr>w_out := False\<rparr> else r)"

definition keyer_out_cb :: "wr_result \<Rightarrow> router \<Rightarrow> router" where
  "keyer_out_cb res r =
     (if rtr_fd r = -1 then r
      else
        let (_, bo, ib) = mx_mux (rbuf_out r) (channel_buf_out r);
            r1 = r\<lparr>rbuf_out := bo, channel_buf_out := ib\<rparr>
        in case res of
             WrErr again \<Rightarrow> if \<not> again then mhr_set_keyer_fd r1 (-1) else stop_idle_out r1
           | WrSome k \<Rightarrow>
               let n = min k (buf_size bo - buf_rpos bo)
               in stop_idle_out
                    (if n > 0
                     then switch_producer_events True
                            (emit [EvWrite (rtr_fd r1) (map (buf_data bo) [buf_rpos bo..<buf_rpos bo + n])]
                              (r1\<lparr>rbuf_out := buf_consume bo n\<rparr>))
                     else r1))"

section \<open>Creation and destruction\<close>

definition mhr_create :: "string \<Rightarrow> bool \<Rightarrow> router" where
  "mhr_create ser has_flags =
     \<lparr>consumers = (\<lambda>_. []), producers = (\<lambda>_. []), consumer_cbs = (\<lambda>_. []), taps = (\<lambda>_. []),
      processors = (\<lambda>_. []), status_cbs = [], channel_buf_out = (\<lambda>_. buf_alloc),
      lbs = (\<lambda>_. \<lparr>lb_bps = 0, lb_ival = 0, lb_avail = 0, lb_timer = False\<rparr>),
      rtr_fd = -1, rbuf_in = buf_alloc, rbuf_out = buf_alloc, w_in = False, w_out = False,
      rdmx = Demux.dmx_create, serial = ser, hold = (\<lambda>_. False), turn = (\<lambda>_. -1), intercept = (\<lambda>_. False),
      wflag = 0, has_flags_channel = has_flags, wk_tx_focus = 0, events = []\<rparr>"

text \<open>
  The \<^verbatim>\<open>while\<close> loops of \<^verbatim>\<open>mhr_destroy\<close>: each round removes the entry that has the descriptor
  or callback of the first one. The counter is the length of the list.
\<close>

fun rem_all_consumers :: "nat \<Rightarrow> channel \<Rightarrow> router \<Rightarrow> router" where
  "rem_all_consumers 0 ch r = r"
| "rem_all_consumers (Suc n) ch r =
     (case consumers r ch of [] \<Rightarrow> r | c # _ \<Rightarrow> rem_all_consumers n ch (mhr_rem_consumer r (cns_fd c) ch))"

fun rem_all_producers :: "nat \<Rightarrow> channel \<Rightarrow> router \<Rightarrow> router" where
  "rem_all_producers 0 ch r = r"
| "rem_all_producers (Suc n) ch r =
     (case producers r ch of [] \<Rightarrow> r | p # _ \<Rightarrow> rem_all_producers n ch (mhr_rem_producer r (prd_fd p) ch))"

fun rem_all_consumer_cbs :: "nat \<Rightarrow> channel \<Rightarrow> router \<Rightarrow> router" where
  "rem_all_consumer_cbs 0 ch r = r"
| "rem_all_consumer_cbs (Suc n) ch r =
     (case consumer_cbs r ch of [] \<Rightarrow> r | c # _ \<Rightarrow> rem_all_consumer_cbs n ch (mhr_rem_consumer_cb r (cnc_cb c) ch))"

fun rem_all_taps :: "nat \<Rightarrow> channel \<Rightarrow> router \<Rightarrow> router" where
  "rem_all_taps 0 ch r = r"
| "rem_all_taps (Suc n) ch r =
     (case taps r ch of [] \<Rightarrow> r | t # _ \<Rightarrow> rem_all_taps n ch (mhr_rem_producer_tap_cb r (tap_cb t) ch (tap_user t)))"

fun rem_all_status :: "nat \<Rightarrow> router \<Rightarrow> router" where
  "rem_all_status 0 r = r"
| "rem_all_status (Suc n) r =
     (case status_cbs r of [] \<Rightarrow> r | s # _ \<Rightarrow> rem_all_status n (mhr_rem_status_cb r (stc_cb s)))"

definition destroy_channel :: "channel \<Rightarrow> router \<Rightarrow> router" where
  "destroy_channel ch r =
     (let r1 = (if lb_bps (lbs r ch) \<noteq> 0 then set_lb ch ((lbs r ch)\<lparr>lb_timer := False\<rparr>) r else r);
          r2 = rem_all_consumers (length (consumers r1 ch)) ch r1;
          r3 = rem_all_producers (length (producers r2 ch)) ch r2;
          r4 = rem_all_consumer_cbs (length (consumer_cbs r3 ch)) ch r3
      in rem_all_taps (length (taps r4 ch)) ch r4)"

text \<open>The state just before the router's memory is freed.\<close>

definition mhr_destroy :: "router \<Rightarrow> router" where
  "mhr_destroy r =
     (let r1 = fold destroy_channel all_channels r
      in mhr_set_keyer_fd (rem_all_status (length (status_cbs r1)) r1) (-1))"

section \<open>Registration\<close>

definition may_register :: "router \<Rightarrow> channel \<Rightarrow> bool" where
  "may_register r ch \<longleftrightarrow> in_range ch \<and> \<not> (ch = MH_CHANNEL_FLAGS \<and> \<not> has_flags_channel r)"

definition mhr_add_consumer :: "router \<Rightarrow> fd \<Rightarrow> channel \<Rightarrow> string option \<Rightarrow> router" where
  "mhr_add_consumer r fd ch tag =
     (if \<not> may_register r ch then r
      else if fd = -1 then r
      else let c = \<lparr>cns_fd = fd, cns_tag = tag, cns_owner = True, cns_w = False, cns_buf = buf_alloc,
                    cns_channel = ch, cns_flags = 0\<rparr>
           in r\<lparr>consumers := (consumers r)(ch := consumers r ch @ [c])\<rparr>)"

definition mhr_add_producer :: "router \<Rightarrow> fd \<Rightarrow> channel \<Rightarrow> string option \<Rightarrow> router" where
  "mhr_add_producer r fd ch tag =
     (if \<not> may_register r ch then r
      else if fd = -1 then r
      else let p = \<lparr>prd_fd = fd, prd_tag = tag, prd_owner = True, prd_w = False, prd_channel = ch, prd_mask = 0\<rparr>;
               p' = (if rtr_fd r \<noteq> -1 \<and> producer_may_read r p then p\<lparr>prd_w := True\<rparr> else p)
           in r\<lparr>producers := (producers r)(ch := producers r ch @ [p'])\<rparr>)"

definition mhr_add_endpoint_fd :: "router \<Rightarrow> fd \<Rightarrow> channel \<Rightarrow> string option \<Rightarrow> router" where
  "mhr_add_endpoint_fd r fd ch tag = mhr_add_producer (mhr_add_consumer r fd ch tag) fd ch tag"

definition mhr_add_consumer_cb :: "router \<Rightarrow> cb \<Rightarrow> channel \<Rightarrow> user \<Rightarrow> router" where
  "mhr_add_consumer_cb r cb ch ud =
     (if \<not> may_register r ch then r
      else r\<lparr>consumer_cbs := (consumer_cbs r)(ch := consumer_cbs r ch @ [\<lparr>cnc_cb = cb, cnc_channel = ch, cnc_user = ud\<rparr>])\<rparr>)"

definition mhr_add_producer_tap_cb :: "router \<Rightarrow> cb \<Rightarrow> channel \<Rightarrow> user \<Rightarrow> router" where
  "mhr_add_producer_tap_cb r cb ch ud =
     (if \<not> in_range ch then r
      else r\<lparr>taps := (taps r)(ch := taps r ch @ [\<lparr>tap_cb = cb, tap_user = ud\<rparr>])\<rparr>)"

definition mhr_add_status_cb :: "router \<Rightarrow> cb option \<Rightarrow> user \<Rightarrow> router" where
  "mhr_add_status_cb r cb ud = r\<lparr>status_cbs := status_cbs r @ [\<lparr>stc_cb = cb, stc_user = ud\<rparr>]\<rparr>"

definition mhr_add_processor_cb :: "router \<Rightarrow> cb \<Rightarrow> channel \<Rightarrow> user \<Rightarrow> router" where
  "mhr_add_processor_cb r cb ch ud =
     (if \<not> may_register r ch then r
      else r\<lparr>processors := (processors r)(ch := processors r ch @ [\<lparr>prc_cb = cb, prc_channel = ch, prc_user = ud\<rparr>])\<rparr>)"

section \<open>Sending to the connectors\<close>

text \<open>A block goes to a consumer's buffer as a whole or not at all.\<close>

definition give_block :: "byte list \<Rightarrow> consumer \<Rightarrow> consumer" where
  "give_block data c =
     (if length data \<le> buf_size_avail (cns_buf c)
      then c\<lparr>cns_buf := snd (buf_append (cns_buf c) data (length data)), cns_w := True\<rparr> else c)"

definition mhr_send_out :: "router \<Rightarrow> byte list \<Rightarrow> channel \<Rightarrow> router" where
  "mhr_send_out r data ch =
     (if \<not> in_range ch then r
      else let r1 = map_consumers ch (give_block data) r
           in emit (map (\<lambda>c. EvConsumer (cnc_cb c) (cnc_user c) ch data) (consumer_cbs r1 ch)) r1)"

abbreviation (input) "MHR_CNS_NO_UNSOLICITED \<equiv> (1 :: u32)"
abbreviation (input) "MHR_ALL \<equiv> (-1 :: int)"
abbreviation (input) "MHR_UNSOLICITED \<equiv> (-2 :: int)"

definition passes_over :: "fd \<Rightarrow> consumer \<Rightarrow> bool" where
  "passes_over fd c =
     (if fd = MHR_UNSOLICITED then cns_flags c AND MHR_CNS_NO_UNSOLICITED \<noteq> 0 else fd \<noteq> MHR_ALL \<and> cns_fd c \<noteq> fd)"

definition mhr_pass_out :: "router \<Rightarrow> byte list \<Rightarrow> channel \<Rightarrow> fd \<Rightarrow> router" where
  "mhr_pass_out r data ch fd =
     (if \<not> in_range ch \<or> data = [] then r
      else map_consumers ch (\<lambda>c. if passes_over fd c then c else give_block data c) r)"

section \<open>Turns, holding, flags\<close>

definition update_producers :: "channel \<Rightarrow> router \<Rightarrow> router" where
  "update_producers ch r = map_producers ch (\<lambda>p. p\<lparr>prd_w := (rtr_fd r \<noteq> -1 \<and> producer_may_read r p)\<rparr>) r"

definition mhr_hold_producers :: "router \<Rightarrow> channel \<Rightarrow> bool \<Rightarrow> router" where
  "mhr_hold_producers r ch h =
     (if \<not> in_range ch \<or> hold r ch = h then r
      else update_producers ch (r\<lparr>hold := (hold r)(ch := h)\<rparr>))"

definition mhr_set_producer_turn :: "router \<Rightarrow> channel \<Rightarrow> fd \<Rightarrow> router" where
  "mhr_set_producer_turn r ch fd =
     (if \<not> in_range ch \<or> turn r ch = fd then r
      else update_producers ch (r\<lparr>turn := (turn r)(ch := fd)\<rparr>))"

text \<open>The scan of \<^verbatim>\<open>mhr_next_waiting_producer\<close>; \<open>waiting\<close> is the answer of \<^verbatim>\<open>ioctl(FIONREAD)\<close>.\<close>

fun next_scan :: "(fd \<Rightarrow> bool) \<Rightarrow> fd \<Rightarrow> bool \<Rightarrow> producer option \<Rightarrow> producer list \<Rightarrow> fd" where
  "next_scan waiting fd after first [] = (case first of Some p \<Rightarrow> prd_fd p | None \<Rightarrow> -1)"
| "next_scan waiting fd after first (p # ps) =
     (if prd_fd p = fd then next_scan waiting fd True first ps
      else if waiting (prd_fd p) then
        (if after then prd_fd p
         else next_scan waiting fd after (if first = None then Some p else first) ps)
      else next_scan waiting fd after first ps)"

definition mhr_next_waiting_producer :: "router \<Rightarrow> (fd \<Rightarrow> bool) \<Rightarrow> channel \<Rightarrow> fd \<Rightarrow> fd" where
  "mhr_next_waiting_producer r waiting ch fd =
     (if \<not> in_range ch then -1 else next_scan waiting fd False None (producers r ch))"

definition mhr_set_consumer_flags :: "router \<Rightarrow> fd \<Rightarrow> channel \<Rightarrow> u32 \<Rightarrow> router" where
  "mhr_set_consumer_flags r fd ch flags =
     (if \<not> in_range ch then r
      else map_consumers ch (\<lambda>c. if cns_fd c = fd then c\<lparr>cns_flags := flags\<rparr> else c) r)"

definition mhr_count_consumers_flagged :: "router \<Rightarrow> channel \<Rightarrow> u32 \<Rightarrow> int" where
  "mhr_count_consumers_flagged r ch flags =
     (if \<not> in_range ch then 0
      else fold (\<lambda>c n. n + (if cns_flags c AND flags \<noteq> 0 then 1 else 0)) (consumers r ch) 0)"

definition mhr_count_producers :: "router \<Rightarrow> channel \<Rightarrow> int" where
  "mhr_count_producers r ch = (if \<not> in_range ch then 0 else fold (\<lambda>_ n. n + 1) (producers r ch) 0)"

definition mhr_get_producer_tag :: "router \<Rightarrow> channel \<Rightarrow> fd \<Rightarrow> string option" where
  "mhr_get_producer_tag r ch fd =
     (if \<not> in_range ch then None
      else case find (\<lambda>p. prd_fd p = fd) (producers r ch) of None \<Rightarrow> None
        | Some p \<Rightarrow> Some (case prd_tag p of None \<Rightarrow> [] | Some t \<Rightarrow> t))"

definition mhr_intercept_consumers :: "router \<Rightarrow> channel \<Rightarrow> bool \<Rightarrow> router" where
  "mhr_intercept_consumers r ch on =
     (if ch < 0 \<or> ch \<ge> MH_NUM_CHANNELS \<or> ch = MH_CHANNEL_CONTROL then r
      else r\<lparr>intercept := (intercept r)(ch := on)\<rparr>)"

definition mhr_set_wk_tx_focus :: "router \<Rightarrow> byte \<Rightarrow> router" where
  "mhr_set_wk_tx_focus r focus = r\<lparr>wk_tx_focus := focus\<rparr>"

end
