(* ===== verification/RouterInv.thy ===== *)
theory RouterInv
  imports RouterModel
begin

text \<open>
  The router's invariant and its preservation: by every operation, every watcher callback and so
  by every run of the event loop (\<open>rstep\<close>, \<open>reachable\<close>). The PTT part ties the flags byte
  to the producers that hold PTT; the leaky-bucket part bounds what a producer may send.
\<close>

section \<open>The PTT bits held\<close>

text \<open>A radio is keyed by the producers of the three PTT channels together.\<close>

definition keyed :: "router \<Rightarrow> nat \<Rightarrow> bool" where
  "keyed r n \<longleftrightarrow> (\<exists>ch p. ch_is_ptt_channel ch \<and> p \<in> set (producers r ch) \<and> bit (prd_mask p) n)"

lemma bit_fold_or: "bit (fold (\<lambda>p h. h OR f p) ps (h :: byte)) n \<longleftrightarrow> bit h n \<or> (\<exists>p \<in> set ps. bit (f p) n)"
  by (induction ps arbitrary: h) (auto simp: bit_or_iff)

lemma all_channels_eq: "all_channels = [0, 1, 2, 3, 4, 5, 6, 7, 8, 9, 10, 11, 12, 13]"
  by (simp add: all_channels_def upt_rec)

lemma set_all_channels: "set all_channels = {ch. in_range ch}"
proof (rule set_eqI)
  fix ch :: channel
  show "ch \<in> set all_channels \<longleftrightarrow> ch \<in> {ch. in_range ch}"
    by (cases "0 \<le> ch") (auto simp: all_channels_def in_range_def image_iff intro!: bexI [of _ "nat ch"])
qed

lemma held_ptt_bits: "bit (held_ptt r) n \<longleftrightarrow> keyed r n"
proof -
  have "held_ptt r = fold (\<lambda>p h. h OR prd_mask p) (producers r 11) (fold (\<lambda>p h. h OR prd_mask p) (producers r 10)
      (fold (\<lambda>p h. h OR prd_mask p) (producers r 9) 0))"
    by (simp add: held_ptt_def all_channels_eq ch_is_ptt_channel_def)
  then show ?thesis
    by (auto simp: bit_fold_or keyed_def ch_is_ptt_channel_def)
qed

lemma held_ptt_cong: "(\<And>ch. map prd_mask (producers r' ch) = map prd_mask (producers r ch)) \<Longrightarrow> held_ptt r' = held_ptt r"
proof -
  assume a: "\<And>ch. map prd_mask (producers r' ch) = map prd_mask (producers r ch)"
  have e: "prd_mask ` set (producers r' ch) = prd_mask ` set (producers r ch)" for ch
    using a [of ch] by (metis list.set_map)
  have "(\<exists>p \<in> set (producers r' ch). bit (prd_mask p) n) = (\<exists>p \<in> set (producers r ch). bit (prd_mask p) n)" for ch n
    using e [of ch] by (metis (no_types, lifting) image_iff)
  then have "bit (held_ptt r') n = bit (held_ptt r) n" for n
    unfolding held_ptt_bits keyed_def by blast
  then show ?thesis by (intro bit_word_eqI) auto
qed

section \<open>The invariant\<close>

definition prd_ok :: "channel \<Rightarrow> producer \<Rightarrow> bool" where
  "prd_ok ch p \<longleftrightarrow> in_range ch \<and> prd_channel p = ch \<and> prd_fd p \<noteq> -1 \<and>
     prd_mask p \<in> {0, MHC2DFL_PTT_R1, MHC2DFL_PTT_R2} \<and> (prd_mask p \<noteq> 0 \<longrightarrow> ch_is_ptt_channel ch)"

definition cns_ok :: "channel \<Rightarrow> consumer \<Rightarrow> bool" where
  "cns_ok ch c \<longleftrightarrow> in_range ch \<and> cns_channel c = ch \<and> cns_fd c \<noteq> -1 \<and> buf_ok (cns_buf c)"

definition bufs_ok :: "router \<Rightarrow> bool" where
  "bufs_ok r \<longleftrightarrow> (\<forall>ch. buf_ok (channel_buf_out r ch)) \<and> buf_ok (rbuf_in r) \<and> buf_ok (rbuf_out r) \<and> dmx_ok (rdmx r)"

definition prds_ok :: "router \<Rightarrow> bool" where
  "prds_ok r \<longleftrightarrow> (\<forall>ch p. p \<in> set (producers r ch) \<longrightarrow> prd_ok ch p)"

definition cnss_ok :: "router \<Rightarrow> bool" where
  "cnss_ok r \<longleftrightarrow> (\<forall>ch c. c \<in> set (consumers r ch) \<longrightarrow> cns_ok ch c)"

definition lbs_ok :: "router \<Rightarrow> bool" where
  "lbs_ok r \<longleftrightarrow> (\<forall>ch. 0 \<le> lb_avail (lbs r ch) \<and> lb_avail (lbs r ch) \<le> LB_BYTES_PER_IVAL + LB_CARRY_OVER)"

definition ptt_ok :: "router \<Rightarrow> bool" where
  "ptt_ok r \<longleftrightarrow> wflag r = held_ptt r \<and> (rtr_fd r = -1 \<longrightarrow> held_ptt r = 0)"

definition router_ok :: "router \<Rightarrow> bool" where
  "router_ok r \<longleftrightarrow> bufs_ok r \<and> prds_ok r \<and> cnss_ok r \<and> lbs_ok r \<and> ptt_ok r"

lemmas ok_defs = bufs_ok_def prds_ok_def cnss_ok_def lbs_ok_def

section \<open>What the building blocks leave alone\<close>

lemma emit_sel [simp, frames]:
  "consumers (emit es r) = consumers r" "producers (emit es r) = producers r"
  "consumer_cbs (emit es r) = consumer_cbs r" "taps (emit es r) = taps r" "processors (emit es r) = processors r"
  "status_cbs (emit es r) = status_cbs r" "channel_buf_out (emit es r) = channel_buf_out r" "lbs (emit es r) = lbs r"
  "rtr_fd (emit es r) = rtr_fd r" "rbuf_in (emit es r) = rbuf_in r" "rbuf_out (emit es r) = rbuf_out r"
  "w_in (emit es r) = w_in r" "w_out (emit es r) = w_out r" "rdmx (emit es r) = rdmx r" "hold (emit es r) = hold r"
  "turn (emit es r) = turn r" "intercept (emit es r) = intercept r" "wflag (emit es r) = wflag r"
  "has_flags_channel (emit es r) = has_flags_channel r" "wk_tx_focus (emit es r) = wk_tx_focus r"
  "events (emit es r) = events r @ es"
  by (simp_all add: emit_def)

lemma map_producers_sel [simp, frames]:
  "producers (map_producers ch f r) = (producers r)(ch := map f (producers r ch))"
  "consumers (map_producers ch f r) = consumers r"
  "consumer_cbs (map_producers ch f r) = consumer_cbs r" "taps (map_producers ch f r) = taps r"
  "processors (map_producers ch f r) = processors r"
  "status_cbs (map_producers ch f r) = status_cbs r" "channel_buf_out (map_producers ch f r) = channel_buf_out r"
  "lbs (map_producers ch f r) = lbs r" "rtr_fd (map_producers ch f r) = rtr_fd r"
  "rbuf_in (map_producers ch f r) = rbuf_in r" "rbuf_out (map_producers ch f r) = rbuf_out r"
  "w_in (map_producers ch f r) = w_in r" "w_out (map_producers ch f r) = w_out r"
  "rdmx (map_producers ch f r) = rdmx r" "hold (map_producers ch f r) = hold r" "turn (map_producers ch f r) = turn r"
  "intercept (map_producers ch f r) = intercept r" "wflag (map_producers ch f r) = wflag r"
  "has_flags_channel (map_producers ch f r) = has_flags_channel r" "wk_tx_focus (map_producers ch f r) = wk_tx_focus r"
  "events (map_producers ch f r) = events r"
  by (simp_all add: map_producers_def)

lemma map_consumers_sel [simp, frames]:
  "consumers (map_consumers ch f r) = (consumers r)(ch := map f (consumers r ch))"
  "producers (map_consumers ch f r) = producers r"
  "consumer_cbs (map_consumers ch f r) = consumer_cbs r" "taps (map_consumers ch f r) = taps r"
  "processors (map_consumers ch f r) = processors r"
  "status_cbs (map_consumers ch f r) = status_cbs r" "channel_buf_out (map_consumers ch f r) = channel_buf_out r"
  "lbs (map_consumers ch f r) = lbs r" "rtr_fd (map_consumers ch f r) = rtr_fd r"
  "rbuf_in (map_consumers ch f r) = rbuf_in r" "rbuf_out (map_consumers ch f r) = rbuf_out r"
  "w_in (map_consumers ch f r) = w_in r" "w_out (map_consumers ch f r) = w_out r"
  "rdmx (map_consumers ch f r) = rdmx r" "hold (map_consumers ch f r) = hold r" "turn (map_consumers ch f r) = turn r"
  "intercept (map_consumers ch f r) = intercept r" "wflag (map_consumers ch f r) = wflag r"
  "has_flags_channel (map_consumers ch f r) = has_flags_channel r" "wk_tx_focus (map_consumers ch f r) = wk_tx_focus r"
  "events (map_consumers ch f r) = events r"
  by (simp_all add: map_consumers_def)

lemma set_lb_sel [simp, frames]:
  "lbs (set_lb ch lb r) = (lbs r)(ch := lb)" "producers (set_lb ch lb r) = producers r"
  "consumers (set_lb ch lb r) = consumers r" "channel_buf_out (set_lb ch lb r) = channel_buf_out r"
  "rtr_fd (set_lb ch lb r) = rtr_fd r" "rbuf_in (set_lb ch lb r) = rbuf_in r" "rbuf_out (set_lb ch lb r) = rbuf_out r"
  "rdmx (set_lb ch lb r) = rdmx r" "hold (set_lb ch lb r) = hold r" "turn (set_lb ch lb r) = turn r"
  "intercept (set_lb ch lb r) = intercept r" "wflag (set_lb ch lb r) = wflag r"
  "has_flags_channel (set_lb ch lb r) = has_flags_channel r" "wk_tx_focus (set_lb ch lb r) = wk_tx_focus r"
  "events (set_lb ch lb r) = events r" "taps (set_lb ch lb r) = taps r" "processors (set_lb ch lb r) = processors r"
  "consumer_cbs (set_lb ch lb r) = consumer_cbs r" "status_cbs (set_lb ch lb r) = status_cbs r"
  "w_in (set_lb ch lb r) = w_in r" "w_out (set_lb ch lb r) = w_out r"
  by (simp_all add: set_lb_def)

lemma set_buf_sel [simp, frames]:
  "channel_buf_out (set_buf ch b r) = (channel_buf_out r)(ch := b)" "producers (set_buf ch b r) = producers r"
  "consumers (set_buf ch b r) = consumers r" "lbs (set_buf ch b r) = lbs r"
  "rtr_fd (set_buf ch b r) = rtr_fd r" "rbuf_in (set_buf ch b r) = rbuf_in r" "rbuf_out (set_buf ch b r) = rbuf_out r"
  "rdmx (set_buf ch b r) = rdmx r" "hold (set_buf ch b r) = hold r" "turn (set_buf ch b r) = turn r"
  "intercept (set_buf ch b r) = intercept r" "wflag (set_buf ch b r) = wflag r"
  "has_flags_channel (set_buf ch b r) = has_flags_channel r" "wk_tx_focus (set_buf ch b r) = wk_tx_focus r"
  "events (set_buf ch b r) = events r" "taps (set_buf ch b r) = taps r" "processors (set_buf ch b r) = processors r"
  "consumer_cbs (set_buf ch b r) = consumer_cbs r" "status_cbs (set_buf ch b r) = status_cbs r"
  "w_in (set_buf ch b r) = w_in r" "w_out (set_buf ch b r) = w_out r"
  by (simp_all add: set_buf_def)

text \<open>The watcher flags are no part of the invariant.\<close>

lemma start_if_may_sel [simp]:
  "prd_fd (start_if_may r p) = prd_fd p" "prd_channel (start_if_may r p) = prd_channel p"
  "prd_mask (start_if_may r p) = prd_mask p" "prd_owner (start_if_may r p) = prd_owner p"
  by (simp_all add: start_if_may_def)

lemma prd_ok_w [simp]: "prd_ok ch (p\<lparr>prd_w := b\<rparr>) = prd_ok ch p"
  by (simp add: prd_ok_def)

lemma prd_ok_start [simp]: "prd_ok ch (start_if_may r p) = prd_ok ch p"
  by (simp add: prd_ok_def)

lemma ptt_ok_cong:
  "wflag r' = wflag r \<Longrightarrow> rtr_fd r' = rtr_fd r \<Longrightarrow> (\<And>ch. map prd_mask (producers r' ch) = map prd_mask (producers r ch)) \<Longrightarrow>
   ptt_ok r' = ptt_ok r"
  unfolding ptt_ok_def using held_ptt_cong [of r' r] by simp

lemma ptt_ok_same_producers:
  "wflag r' = wflag r \<Longrightarrow> rtr_fd r' = rtr_fd r \<Longrightarrow> producers r' = producers r \<Longrightarrow> ptt_ok r' = ptt_ok r"
  by (rule ptt_ok_cong) simp_all

text \<open>Changing producers without touching descriptor, channel and mask.\<close>

definition keeps_producer :: "(producer \<Rightarrow> producer) \<Rightarrow> bool" where
  "keeps_producer f \<longleftrightarrow> (\<forall>p. prd_fd (f p) = prd_fd p \<and> prd_channel (f p) = prd_channel p \<and> prd_mask (f p) = prd_mask p)"

lemma keeps_prd_ok: "keeps_producer f \<Longrightarrow> prd_ok ch (f p) = prd_ok ch p"
  by (simp add: keeps_producer_def prd_ok_def)

lemma map_producers_ok [invs]: "router_ok r \<Longrightarrow> keeps_producer f \<Longrightarrow> router_ok (map_producers ch f r)"
proof -
  assume ok: "router_ok r" and f: "keeps_producer f"
  have "map (prd_mask \<circ> f) ps = map prd_mask ps" for ps
    using f by (simp add: keeps_producer_def)
  then have "ptt_ok (map_producers ch f r) = ptt_ok r"
    by (intro ptt_ok_cong) simp_all
  moreover have "prds_ok (map_producers ch f r)"
    using ok by (auto simp: router_ok_def prds_ok_def keeps_prd_ok [OF f])
  ultimately show ?thesis using ok by (simp add: router_ok_def ok_defs)
qed

lemma keeps_start [simp]: "keeps_producer (start_if_may r)"
  by (simp add: keeps_producer_def)

lemma keeps_w [simp]: "keeps_producer (\<lambda>p. p\<lparr>prd_w := g p\<rparr>)" "keeps_producer (\<lambda>p. if c p then p\<lparr>prd_w := g p\<rparr> else p)"
  by (simp_all add: keeps_producer_def)

lemma router_ok_log [simp]: "router_ok (emit es r) = router_ok r"
proof -
  have "ptt_ok (emit es r) = ptt_ok r" by (rule ptt_ok_same_producers) simp_all
  then show ?thesis by (simp add: router_ok_def ok_defs)
qed

lemma router_ok_updates [simp]:
  "router_ok (r\<lparr>w_in := x\<rparr>) = router_ok r" "router_ok (r\<lparr>w_out := x\<rparr>) = router_ok r"
  "router_ok (r\<lparr>hold := h\<rparr>) = router_ok r" "router_ok (r\<lparr>turn := t\<rparr>) = router_ok r"
  "router_ok (r\<lparr>intercept := h\<rparr>) = router_ok r" "router_ok (r\<lparr>wk_tx_focus := f\<rparr>) = router_ok r"
  "router_ok (r\<lparr>consumer_cbs := cc\<rparr>) = router_ok r" "router_ok (r\<lparr>taps := tt\<rparr>) = router_ok r"
  "router_ok (r\<lparr>processors := pp\<rparr>) = router_ok r" "router_ok (r\<lparr>status_cbs := ss\<rparr>) = router_ok r"
  by (simp_all add: router_ok_def ok_defs ptt_ok_def held_ptt_def cong: if_cong)

lemma set_lb_ok [invs]: "router_ok r \<Longrightarrow> 0 \<le> lb_avail lb \<Longrightarrow> lb_avail lb \<le> 22 \<Longrightarrow> router_ok (set_lb ch lb r)"
proof -
  assume "router_ok r" "0 \<le> lb_avail lb" "lb_avail lb \<le> 22"
  moreover have "ptt_ok (set_lb ch lb r) = ptt_ok r" by (rule ptt_ok_same_producers) simp_all
  ultimately show ?thesis by (simp add: router_ok_def ok_defs)
qed

lemma set_buf_ok [invs]: "router_ok r \<Longrightarrow> buf_ok b \<Longrightarrow> router_ok (set_buf ch b r)"
proof -
  assume "router_ok r" "buf_ok b"
  moreover have "ptt_ok (set_buf ch b r) = ptt_ok r" by (rule ptt_ok_same_producers) simp_all
  ultimately show ?thesis by (simp add: router_ok_def ok_defs)
qed

lemma map_consumers_ok [invs]:
  "router_ok r \<Longrightarrow> (\<And>c. cns_ok ch c \<Longrightarrow> cns_ok ch (f c)) \<Longrightarrow> router_ok (map_consumers ch f r)"
proof -
  assume "router_ok r" "\<And>c. cns_ok ch c \<Longrightarrow> cns_ok ch (f c)"
  moreover have "ptt_ok (map_consumers ch f r) = ptt_ok r" by (rule ptt_ok_same_producers) simp_all
  ultimately show ?thesis by (auto simp: router_ok_def ok_defs)
qed

section \<open>Sending and PTT\<close>

lemma mhr_send_in_sel [simp, frames]:
  "producers (snd (mhr_send_in r data ch)) = producers r" "consumers (snd (mhr_send_in r data ch)) = consumers r"
  "rtr_fd (snd (mhr_send_in r data ch)) = rtr_fd r" "wflag (snd (mhr_send_in r data ch)) = wflag r"
  "lbs (snd (mhr_send_in r data ch)) = lbs r" "rbuf_in (snd (mhr_send_in r data ch)) = rbuf_in r"
  "rbuf_out (snd (mhr_send_in r data ch)) = rbuf_out r" "rdmx (snd (mhr_send_in r data ch)) = rdmx r"
  "hold (snd (mhr_send_in r data ch)) = hold r" "turn (snd (mhr_send_in r data ch)) = turn r"
  "taps (snd (mhr_send_in r data ch)) = taps r" "processors (snd (mhr_send_in r data ch)) = processors r"
  "events (snd (mhr_send_in r data ch)) = events r" "intercept (snd (mhr_send_in r data ch)) = intercept r"
  "has_flags_channel (snd (mhr_send_in r data ch)) = has_flags_channel r"
  "consumer_cbs (snd (mhr_send_in r data ch)) = consumer_cbs r" "status_cbs (snd (mhr_send_in r data ch)) = status_cbs r"
  "ch' \<noteq> ch \<Longrightarrow> channel_buf_out (snd (mhr_send_in r data ch)) ch' = channel_buf_out r ch'"
  by (simp_all add: mhr_send_in_def Let_def split: prod.split)

lemma mhr_send_in_ok [invs]: "router_ok r \<Longrightarrow> router_ok (snd (mhr_send_in r data ch))"
proof -
  assume ok: "router_ok r"
  then have b: "buf_ok (channel_buf_out r ch)" by (simp add: router_ok_def bufs_ok_def)
  show ?thesis
    using ok set_buf_ok [OF ok buf_append_cut(1) [OF b, of data], of ch]
    by (simp add: mhr_send_in_def Let_def split_def)
qed

text \<open>All the producers of a state before the PTT flags byte is recomputed.\<close>

definition pre_ptt_ok :: "router \<Rightarrow> bool" where
  "pre_ptt_ok r \<longleftrightarrow> bufs_ok r \<and> prds_ok r \<and> cnss_ok r \<and> lbs_ok r \<and> (\<forall>n. bit (wflag r) n \<longrightarrow> n = 2 \<or> n = 3) \<and>
     (rtr_fd r = -1 \<longrightarrow> held_ptt r = 0)"

lemma bit_ptt_r1: "bit (4 :: byte) n \<longleftrightarrow> n = 2"
proof -
  have eq: "(4 :: byte) = 2 ^ 2" by simp
  show ?thesis unfolding eq by (auto simp only: bit_exp_iff possible_bit_word) simp
qed

lemma bit_ptt_r2: "bit (8 :: byte) n \<longleftrightarrow> n = 3"
proof -
  have eq: "(8 :: byte) = 2 ^ 3" by simp
  show ?thesis unfolding eq by (auto simp only: bit_exp_iff possible_bit_word) simp
qed

lemma prd_mask_bits: "prd_ok ch p \<Longrightarrow> bit (prd_mask p) n \<Longrightarrow> n = 2 \<or> n = 3"
  unfolding prd_ok_def by (auto simp: bit_ptt_r1 bit_ptt_r2 simp del: bit_numeral_word_iff)

lemma held_ptt_bits23: "prds_ok r \<Longrightarrow> bit (held_ptt r) n \<Longrightarrow> n = 2 \<or> n = 3"
  unfolding held_ptt_bits keyed_def prds_ok_def using prd_mask_bits by blast

lemma PTT_FLAGS_bits: "bit PTT_FLAGS n \<longleftrightarrow> n = 2 \<or> n = 3"
  unfolding PTT_FLAGS_def bit_or_iff bit_ptt_r1 bit_ptt_r2 ..

lemma clear_ptt: "(\<And>n. bit (w :: byte) n \<Longrightarrow> n = 2 \<or> n = 3) \<Longrightarrow> w AND NOT PTT_FLAGS = 0"
  by (rule bit_word_eqI) (auto simp: bit_and_iff bit_not_iff PTT_FLAGS_bits)

lemma router_ok_pre: "router_ok r \<Longrightarrow> pre_ptt_ok r"
  unfolding router_ok_def pre_ptt_ok_def ptt_ok_def using held_ptt_bits23 by metis

lemma wflag_update_sel [simp]: "held_ptt (r\<lparr>wflag := w\<rparr>) = held_ptt r"
  by (rule held_ptt_cong) simp

lemma held_rtr_fd [simp]: "held_ptt (r\<lparr>rtr_fd := x\<rparr>) = held_ptt r"
  by (rule held_ptt_cong) simp

lemma push_ptt_ok [invs]: "pre_ptt_ok r \<Longrightarrow> router_ok (push_ptt r)"
proof -
  assume pre: "pre_ptt_ok r"
  then have "wflag r AND NOT PTT_FLAGS = 0" by (intro clear_ptt) (auto simp: pre_ptt_ok_def)
  then have "router_ok (r\<lparr>wflag := (wflag r AND NOT PTT_FLAGS) OR held_ptt r\<rparr>)"
    using pre by (simp add: router_ok_def pre_ptt_ok_def ok_defs ptt_ok_def)
  then show ?thesis by (simp add: push_ptt_def Let_def mhr_send_in_ok)
qed

lemma push_ptt_sel [simp, frames]:
  "producers (push_ptt r) = producers r" "consumers (push_ptt r) = consumers r" "rtr_fd (push_ptt r) = rtr_fd r"
  "lbs (push_ptt r) = lbs r" "rdmx (push_ptt r) = rdmx r" "taps (push_ptt r) = taps r" "processors (push_ptt r) = processors r"
  "events (push_ptt r) = events r" "hold (push_ptt r) = hold r" "turn (push_ptt r) = turn r"
  "intercept (push_ptt r) = intercept r" "has_flags_channel (push_ptt r) = has_flags_channel r"
  "consumer_cbs (push_ptt r) = consumer_cbs r" "status_cbs (push_ptt r) = status_cbs r"
  "rbuf_in (push_ptt r) = rbuf_in r" "rbuf_out (push_ptt r) = rbuf_out r"
  "ch \<noteq> MH_CHANNEL_FLAGS \<Longrightarrow> channel_buf_out (push_ptt r) ch = channel_buf_out r ch"
  by (simp_all add: push_ptt_def Let_def)

text \<open>What the loop over the PTT bytes leaves in the mask, and that it pushes when it changed it.\<close>

lemma ptt_bytes_mask:
  "held \<in> {0, 4, 8} \<Longrightarrow> fst (ptt_bytes (ptt_radio ch f) cs held push) \<in> {0, 4, 8}"
  by (induction "ptt_radio ch f" cs held push rule: ptt_bytes.induct)
    (auto simp: ptt_radio_def split: if_splits)

lemma ptt_bytes_pushed: "push \<Longrightarrow> snd (ptt_bytes rad cs held push)"
  by (induction rad cs held push rule: ptt_bytes.induct) (auto split: option.splits)

lemma ptt_bytes_no_push: "\<not> snd (ptt_bytes rad cs held push) \<Longrightarrow> fst (ptt_bytes rad cs held push) = held"
proof (induction rad cs held push rule: ptt_bytes.induct)
  case (2 rad c cs held push)
  then show ?case by (auto split: option.splits if_splits simp: ptt_bytes_pushed)
qed simp

text \<open>The last valid byte of a block decides what the producer keys.\<close>

lemma ptt_bytes_last:
  "ptt_bytes (Some m) cs held push =
     (case filter (\<lambda>c. c = PTT_ON_BYTE \<or> c = PTT_OFF_BYTE) cs of [] \<Rightarrow> (held, push)
      | vs \<Rightarrow> (if last vs = PTT_ON_BYTE then m else 0, True))"
  by (induction cs arbitrary: held push) (auto split: list.splits)

section \<open>Preservation: producers and consumers\<close>

lemma fun_upd_prds_ok: "prds_ok r \<Longrightarrow> (\<forall>p \<in> set ps. prd_ok ch p) \<Longrightarrow> prds_ok (r\<lparr>producers := (producers r)(ch := ps)\<rparr>)"
  by (simp add: prds_ok_def)

lemma set_producers_pre:
  assumes "pre_ptt_ok r" and "rtr_fd r \<noteq> -1 \<or> (\<forall>p \<in> set ps. prd_mask p = 0)" and "\<forall>p \<in> set ps. prd_ok ch p"
  shows "pre_ptt_ok (r\<lparr>producers := (producers r)(ch := ps)\<rparr>)"
proof -
  let ?r = "r\<lparr>producers := (producers r)(ch := ps)\<rparr>"
  have "held_ptt ?r = 0" if fd: "rtr_fd r = -1"
  proof (rule bit_word_eqI)
    fix n
    have z: "\<forall>p \<in> set ps. prd_mask p = 0" using assms(2) fd by blast
    have "held_ptt r = 0" using assms(1) fd by (simp add: pre_ptt_ok_def)
    then have "\<not> keyed r n" using held_ptt_bits [of r n] by simp
    then have "\<not> keyed ?r n" using z by (auto simp: keyed_def split: if_splits)
    then show "bit (held_ptt ?r) n = bit 0 n" by (simp add: held_ptt_bits)
  qed
  then show ?thesis
    using assms(1,3) by (auto simp: pre_ptt_ok_def fun_upd_prds_ok) (auto simp: ok_defs)
qed

lemma offline_masks: "pre_ptt_ok r \<Longrightarrow> rtr_fd r = -1 \<Longrightarrow> p \<in> set (producers r ch) \<Longrightarrow> prd_mask p = 0"
proof -
  assume pre: "pre_ptt_ok r" and fd: "rtr_fd r = -1" and p: "p \<in> set (producers r ch)"
  then have ok: "prd_ok ch p" and z: "held_ptt r = 0" by (auto simp: pre_ptt_ok_def prds_ok_def)
  show "prd_mask p = 0"
  proof (rule ccontr)
    assume "prd_mask p \<noteq> 0"
    then have "ch_is_ptt_channel ch" using ok by (simp add: prd_ok_def)
    moreover obtain n where "bit (prd_mask p) n"
      using \<open>prd_mask p \<noteq> 0\<close> by (metis bit_0_eq bit_eqI bot_apply bot_bool_def)
    ultimately have "keyed r n" using p by (auto simp: keyed_def)
    then show False using z held_ptt_bits [of r n] by simp
  qed
qed

text \<open>A subset of the producers, with their masks, after which the PTT flags are recomputed.\<close>

lemma fewer_producers_pre:
  "pre_ptt_ok r \<Longrightarrow> set ps \<subseteq> set (producers r ch) \<Longrightarrow> pre_ptt_ok (r\<lparr>producers := (producers r)(ch := ps)\<rparr>)"
proof -
  assume pre: "pre_ptt_ok r" and sub: "set ps \<subseteq> set (producers r ch)"
  then have "\<forall>p \<in> set ps. prd_ok ch p" by (auto simp: pre_ptt_ok_def prds_ok_def)
  moreover have "rtr_fd r \<noteq> -1 \<or> (\<forall>p \<in> set ps. prd_mask p = 0)"
    using sub offline_masks [OF pre] by blast
  ultimately show ?thesis using set_producers_pre [OF pre] by blast
qed

lemma drop_zero_producer_ok:
  assumes ok: "router_ok r" and sub: "set ps \<subseteq> set (producers r ch)"
    and rest: "\<forall>p \<in> set (producers r ch) - set ps. prd_mask p = 0"
  shows "router_ok (r\<lparr>producers := (producers r)(ch := ps)\<rparr>)"
proof -
  let ?r = "r\<lparr>producers := (producers r)(ch := ps)\<rparr>"
  have k: "keyed ?r n = keyed r n" for n
  proof
    assume "keyed ?r n"
    then show "keyed r n" using sub by (auto simp: keyed_def split: if_splits)
  next
    assume "keyed r n"
    then obtain c p where c: "ch_is_ptt_channel c" "p \<in> set (producers r c)" "bit (prd_mask p) n"
      by (auto simp: keyed_def)
    then have "c = ch \<Longrightarrow> p \<in> set ps" using rest by (metis DiffI bit_0_eq bot_apply bot_bool_def)
    with c have "p \<in> set (producers ?r c)" by simp
    with c show "keyed ?r n" by (auto simp only: keyed_def)
  qed
  have "held_ptt ?r = held_ptt r"
    by (rule bit_word_eqI) (simp add: held_ptt_bits k)
  then have "ptt_ok ?r" using ok by (simp add: router_ok_def ptt_ok_def)
  moreover have "prds_ok ?r" using ok sub by (auto simp: router_ok_def prds_ok_def)
  ultimately show ?thesis using ok by (simp add: router_ok_def ok_defs)
qed

lemma close_fd_ok [simp]: "router_ok (close_fd fd r) = router_ok r"
  by (simp add: close_fd_def split: option.split)

lemma router_ok_consumers:
  "router_ok r \<Longrightarrow> (\<forall>c \<in> set cs. cns_ok ch c) \<Longrightarrow> router_ok (r\<lparr>consumers := (consumers r)(ch := cs)\<rparr>)"
proof -
  let ?r = "r\<lparr>consumers := (consumers r)(ch := cs)\<rparr>"
  assume "router_ok r" "\<forall>c \<in> set cs. cns_ok ch c"
  moreover have "ptt_ok ?r = ptt_ok r" by (rule ptt_ok_same_producers) simp_all
  ultimately show ?thesis by (simp add: router_ok_def ok_defs)
qed

lemma mhr_rem_consumer_ok [invs]: "router_ok r \<Longrightarrow> router_ok (mhr_rem_consumer r fd ch)"
proof -
  assume ok: "router_ok r"
  let ?r = "r\<lparr>consumers := (consumers r)(ch := remove_first (\<lambda>c. cns_fd c = fd) (consumers r ch))\<rparr>"
  have "router_ok ?r"
    by (rule router_ok_consumers [OF ok]) (use ok in \<open>auto simp: router_ok_def cnss_ok_def dest: set_remove_firstD\<close>)
  then show ?thesis using ok by (simp add: mhr_rem_consumer_def Let_def split: option.split)
qed

lemma mhr_rem_producer_ok [invs]: "router_ok r \<Longrightarrow> router_ok (mhr_rem_producer r fd ch)"
proof -
  assume ok: "router_ok r"
  let ?ps = "remove_first (\<lambda>p. prd_fd p = fd) (producers r ch)"
  let ?r = "r\<lparr>producers := (producers r)(ch := ?ps)\<rparr>"
  have pushed: "router_ok (push_ptt ?r)"
    by (intro push_ptt_ok fewer_producers_pre router_ok_pre [OF ok] set_remove_first)
  have plain: "router_ok ?r" if "find (\<lambda>p. prd_fd p = fd) (producers r ch) = Some p" "prd_mask p = 0" for p
  proof (rule drop_zero_producer_ok [OF ok set_remove_first])
    show "\<forall>q \<in> set (producers r ch) - set ?ps. prd_mask q = 0"
      using find_split [OF that(1)] that(2) by auto
  qed
  show ?thesis
    using ok pushed plain by (auto simp: mhr_rem_producer_def Let_def split: option.split)
qed

lemma mhr_add_consumer_ok [invs]: "router_ok r \<Longrightarrow> router_ok (mhr_add_consumer r fd ch tag)"
proof -
  assume ok: "router_ok r"
  then show ?thesis
    unfolding mhr_add_consumer_def Let_def
    by (auto intro!: router_ok_consumers simp: may_register_def cns_ok_def)
      (auto simp: router_ok_def cnss_ok_def cns_ok_def)
qed

lemma add_producer_pre:
  assumes ok: "router_ok r" and p: "prd_ok ch p" "prd_mask p = 0"
  shows "router_ok (r\<lparr>producers := (producers r)(ch := producers r ch @ [p])\<rparr>)"
proof -
  let ?r = "r\<lparr>producers := (producers r)(ch := producers r ch @ [p])\<rparr>"
  have k: "keyed ?r n = keyed r n" for n
    using p(2) by (auto simp: keyed_def split: if_splits)
  have "held_ptt ?r = held_ptt r"
    by (rule bit_word_eqI) (simp add: held_ptt_bits k)
  then have "ptt_ok ?r" using ok by (simp add: router_ok_def ptt_ok_def)
  moreover have "prds_ok ?r" using ok p(1) by (auto simp: router_ok_def prds_ok_def)
  ultimately show ?thesis using ok by (simp add: router_ok_def ok_defs)
qed

lemma mhr_add_producer_ok [invs]: "router_ok r \<Longrightarrow> router_ok (mhr_add_producer r fd ch tag)"
  unfolding mhr_add_producer_def Let_def
  by (auto intro!: add_producer_pre simp: may_register_def) (simp_all add: prd_ok_def)

section \<open>Preservation: the keyer's descriptor\<close>

lemma fold_map_producers_sel:
  "wflag (fold (\<lambda>ch r. map_producers ch (f r) r) chs r) = wflag r"
  "rtr_fd (fold (\<lambda>ch r. map_producers ch (f r) r) chs r) = rtr_fd r"
  by (induction chs arbitrary: r) simp_all

lemma switch_producer_events_ok [invs]: "router_ok r \<Longrightarrow> router_ok (switch_producer_events a r)"
proof -
  have "router_ok r \<Longrightarrow> router_ok (fold (\<lambda>ch r. map_producers ch
             (\<lambda>p. if \<not> a \<or> producer_may_read r p then p\<lparr>prd_w := a\<rparr> else p) r) chs r)" for chs r
    by (induction chs arbitrary: r) (simp_all add: map_producers_ok)
  then show "router_ok r \<Longrightarrow> router_ok (switch_producer_events a r)"
    by (simp add: switch_producer_events_def)
qed

lemma fold_zero_masks:
  "bufs_ok (fold (\<lambda>ch r. map_producers ch (\<lambda>p. p\<lparr>prd_mask := 0\<rparr>) r) chs r) = bufs_ok r"
  "cnss_ok (fold (\<lambda>ch r. map_producers ch (\<lambda>p. p\<lparr>prd_mask := 0\<rparr>) r) chs r) = cnss_ok r"
  "lbs_ok (fold (\<lambda>ch r. map_producers ch (\<lambda>p. p\<lparr>prd_mask := 0\<rparr>) r) chs r) = lbs_ok r"
  "wflag (fold (\<lambda>ch r. map_producers ch (\<lambda>p. p\<lparr>prd_mask := 0\<rparr>) r) chs r) = wflag r"
  "rtr_fd (fold (\<lambda>ch r. map_producers ch (\<lambda>p. p\<lparr>prd_mask := 0\<rparr>) r) chs r) = rtr_fd r"
  "producers (fold (\<lambda>ch r. map_producers ch (\<lambda>p. p\<lparr>prd_mask := 0\<rparr>) r) chs r) =
     (\<lambda>ch. if ch \<in> set chs then map (\<lambda>p. p\<lparr>prd_mask := 0\<rparr>) (producers r ch) else producers r ch)"
  by (induction chs arbitrary: r) (auto simp: ok_defs)

lemma drop_ptt_masks: "prds_ok r \<Longrightarrow> p \<in> set (producers (drop_ptt r) ch) \<Longrightarrow> prd_mask p = 0 \<and> prd_ok ch p"
  by (auto simp: drop_ptt_def Let_def fold_zero_masks set_all_channels prds_ok_def prd_ok_def split: if_splits)

lemma drop_ptt_sel: "rtr_fd (drop_ptt r) = rtr_fd r" "wflag (drop_ptt r) = wflag r AND NOT PTT_FLAGS"
  by (simp_all add: drop_ptt_def Let_def fold_zero_masks)

lemma drop_ptt_any_fd: "router_ok r \<Longrightarrow> router_ok ((drop_ptt r)\<lparr>rtr_fd := fd\<rparr>)"
proof -
  assume ok: "router_ok r"
  let ?r = "(drop_ptt r)\<lparr>rtr_fd := fd\<rparr>"
  have m: "p \<in> set (producers ?r ch) \<Longrightarrow> prd_mask p = 0 \<and> prd_ok ch p" for p ch
    using drop_ptt_masks [of r p ch] ok by (simp add: router_ok_def)
  have nk: "\<not> keyed (drop_ptt r) n" for n using m by (auto simp: keyed_def)
  have h0: "held_ptt ?r = 0" by (rule bit_word_eqI) (simp add: held_ptt_bits nk)
  have "wflag r AND NOT PTT_FLAGS = 0"
    by (rule clear_ptt) (use router_ok_pre [OF ok] in \<open>simp add: pre_ptt_ok_def\<close>)
  then have "ptt_ok ?r" using h0 by (auto simp: ptt_ok_def drop_ptt_sel)
  moreover have "prds_ok ?r" using m by (simp add: prds_ok_def)
  moreover have "bufs_ok ?r \<and> cnss_ok ?r \<and> lbs_ok ?r"
    using ok fold_zero_masks(1-3) [of all_channels r]
    by (simp add: router_ok_def drop_ptt_def Let_def) (simp add: ok_defs)
  ultimately show ?thesis by (simp add: router_ok_def)
qed

lemma offline_any_fd: "router_ok r \<Longrightarrow> rtr_fd r = -1 \<Longrightarrow> router_ok (r\<lparr>rtr_fd := fd\<rparr>)"
proof -
  assume ok: "router_ok r" and fd: "rtr_fd r = -1"
  then have "ptt_ok (r\<lparr>rtr_fd := fd\<rparr>)" using ok fd by (simp add: router_ok_def ptt_ok_def)
  then show ?thesis using ok by (simp add: router_ok_def ok_defs)
qed

lemma mhr_set_keyer_fd_ok [invs]: "router_ok r \<Longrightarrow> router_ok (mhr_set_keyer_fd r fd)"
proof -
  assume ok: "router_ok r"
  have a: "router_ok ((drop_ptt (emit es (r\<lparr>w_in := x, w_out := y\<rparr>)))\<lparr>rtr_fd := fd\<rparr>)" for es x y
    by (rule drop_ptt_any_fd) (simp add: ok)
  have b: "rtr_fd r = -1 \<Longrightarrow> router_ok (r\<lparr>rtr_fd := fd\<rparr>)" by (rule offline_any_fd [OF ok])
  show ?thesis
    using ok a b by (auto simp: mhr_set_keyer_fd_def Let_def intro!: switch_producer_events_ok)
qed

section \<open>Preservation: the watcher callbacks\<close>

lemma nth_prd_ok: "router_ok r \<Longrightarrow> i < length (producers r ch) \<Longrightarrow> prd_ok ch (producers r ch ! i)"
  by (auto simp: router_ok_def prds_ok_def)

lemma nth_cns_ok: "router_ok r \<Longrightarrow> i < length (consumers r ch) \<Longrightarrow> cns_ok ch (consumers r ch ! i)"
  by (auto simp: router_ok_def cnss_ok_def)

lemma stop_producer_ok [invs]:
  assumes ok: "router_ok r" and i: "i < length (producers r ch)"
  shows "router_ok (stop_producer ch i r)"
proof -
  let ?r = "stop_producer ch i r"
  have "map prd_mask (producers ?r c) = map prd_mask (producers r c)" for c
    using i by (auto simp: stop_producer_def map_update intro: list_update_id) (metis list_update_id map_update)
  then have "ptt_ok ?r = ptt_ok r"
    by (intro ptt_ok_cong) (simp_all add: stop_producer_def)
  moreover have "prds_ok ?r"
    using ok nth_prd_ok [OF ok i] by (auto simp: stop_producer_def router_ok_def prds_ok_def dest!: set_update_subset_insert [THEN subsetD])
  ultimately show ?thesis using ok by (simp add: router_ok_def ok_defs stop_producer_def)
qed

lemma process_ptt_producer_ok [invs]:
  assumes ok: "router_ok r" and i: "i < length (producers r ch)" and fd: "rtr_fd r \<noteq> -1"
  shows "router_ok (process_ptt_producer ch i r)"
proof (cases "buf_size (channel_buf_out r ch) = 0")
  case True
  with ok show ?thesis by (simp add: process_ptt_producer_def Let_def)
next
  case False
  let ?p = "producers r ch ! i"
  obtain cs b' where d: "drain buf_get_c (buf_size (channel_buf_out r ch)) (channel_buf_out r ch) = (cs, b')"
    by fastforce
  obtain held push where h: "ptt_bytes (ptt_radio (prd_channel ?p) (wk_tx_focus r)) cs (prd_mask ?p) False = (held, push)"
    by fastforce
  let ?ps = "(producers r ch)[i := ?p\<lparr>prd_mask := held\<rparr>]"
  let ?r = "(set_buf ch b' r)\<lparr>producers := (producers r)(ch := ?ps)\<rparr>"
  have m: "process_ptt_producer ch i r = (if push then push_ptt ?r else ?r)"
    using False d h by (simp add: process_ptt_producer_def Let_def)
  have pok: "prd_ok ch ?p" by (rule nth_prd_ok [OF ok i])
  have b': "buf_ok b'"
    using bfifo.drain_contents [of "channel_buf_out r ch" "buf_size (channel_buf_out r ch)"] ok d
    by (simp add: router_ok_def bufs_ok_def)
  have sb: "router_ok (set_buf ch b' r)" by (rule set_buf_ok [OF ok b'])
  have held: "held \<in> {0, 4, 8}"
    using ptt_bytes_mask [of "prd_mask ?p" "prd_channel ?p" "wk_tx_focus r" cs False] pok h by (simp add: prd_ok_def)
  have same: "held = prd_mask ?p" if "\<not> push"
    using ptt_bytes_no_push [of "ptt_radio (prd_channel ?p) (wk_tx_focus r)" cs "prd_mask ?p" False] h that by simp
  have zero: "held = prd_mask ?p" if "\<not> ch_is_ptt_channel ch"
  proof -
    have "ptt_radio (prd_channel ?p) (wk_tx_focus r) = None"
      using that pok by (auto simp: ptt_radio_def prd_ok_def ch_is_ptt_channel_def)
    moreover have "ptt_bytes None cs hh pp = (hh, pp)" for hh pp
      by (induction cs) simp_all
    ultimately show ?thesis using h by simp
  qed
  have "prd_ok ch (?p\<lparr>prd_mask := held\<rparr>)"
    using pok held zero by (auto simp: prd_ok_def)
  then have all: "\<forall>p \<in> set ?ps. prd_ok ch p"
    using ok by (auto simp: router_ok_def prds_ok_def dest!: set_update_subset_insert [THEN subsetD])
  have "pre_ptt_ok ?r"
    using set_producers_pre [OF router_ok_pre [OF sb], of ?ps ch] all fd by simp
  moreover have "router_ok ?r" if "\<not> push"
  proof -
    have "?ps = producers r ch" using same [OF that] by (simp add: list_update_same_conv i)
    then have "?r = set_buf ch b' r" by (simp add: fun_upd_idem set_buf_def)
    with sb show ?thesis by simp
  qed
  ultimately show ?thesis unfolding m using push_ptt_ok by simp
qed

lemma process_ptt_producer_sel [simp, frames]:
  "lbs (process_ptt_producer ch i r) = lbs r" "rtr_fd (process_ptt_producer ch i r) = rtr_fd r"
  "taps (process_ptt_producer ch i r) = taps r" "processors (process_ptt_producer ch i r) = processors r"
  "consumers (process_ptt_producer ch i r) = consumers r" "hold (process_ptt_producer ch i r) = hold r"
  "turn (process_ptt_producer ch i r) = turn r" "events (process_ptt_producer ch i r) = events r"
  "length (producers (process_ptt_producer ch i r) c) = length (producers r c)"
  by (simp_all add: process_ptt_producer_def Let_def split: prod.split)

definition proc_keeps :: "(cb \<Rightarrow> user \<Rightarrow> buffer \<Rightarrow> buffer) \<Rightarrow> bool" where
  "proc_keeps proc \<longleftrightarrow> (\<forall>c u b. buf_ok b \<longrightarrow> buf_ok (proc c u b))"

lemma proc_fold_ok: "proc_keeps proc \<Longrightarrow> buf_ok b \<Longrightarrow> buf_ok (fold (\<lambda>p b. proc (prc_cb p) (prc_user p) b) ps b)"
  by (induction ps arbitrary: b) (simp_all add: proc_keeps_def)

lemma producer_data_ok [invs]:
  assumes ok: "router_ok r" and i: "i < length (producers r ch)" and fd: "rtr_fd r \<noteq> -1"
    and n: "int (length bs) \<le> read_avail r ch" and proc: "proc_keeps proc"
  shows "router_ok (producer_data proc ch i bs r)"
proof -
  let ?b = "channel_buf_out r ch"
  have b: "buf_ok ?b" and lb: "0 \<le> lb_avail (lbs r ch)" "lb_avail (lbs r ch) \<le> 22"
    using ok by (simp_all add: router_ok_def ok_defs)
  have fits: "length bs \<le> buf_size_avail ?b"
    using n by (simp add: read_avail_def Let_def split: if_splits)
  define r1 where "r1 = set_buf ch (buf_add_size (buf_store ?b bs) (length bs)) r"
  define r2 where "r2 = (if lb_bps (lbs r1 ch) \<noteq> 0 then set_lb ch ((lbs r1 ch)\<lparr>lb_timer := True\<rparr>) r1 else r1)"
  define r3 where "r3 = (if ch_is_ptt_channel ch then process_ptt_producer ch i r2 else r2)"
  have ok1: "router_ok r1" unfolding r1_def by (rule set_buf_ok [OF ok buf_put(1) [OF b fits]])
  have ok2: "router_ok r2" unfolding r2_def using ok1 lb by (auto intro!: set_lb_ok simp: r1_def)
  have l2: "length (producers r2 ch) = length (producers r ch)" "rtr_fd r2 = rtr_fd r"
    by (auto simp: r2_def r1_def)
  have ok3: "router_ok r3"
    unfolding r3_def using ok2 process_ptt_producer_ok [OF ok2] l2 i fd by simp
  have l3: "lb_avail (lbs r3 ch) = lb_avail (lbs r ch)" "lb_bps (lbs r3 ch) = lb_bps (lbs r ch)"
    by (auto simp: r3_def r2_def r1_def)
  have b3: "buf_ok (channel_buf_out r3 ch)" using ok3 by (simp add: router_ok_def bufs_ok_def)
  define r4 where "r4 = emit (map (\<lambda>t. EvTap (tap_cb t) (tap_user t) ch (prd_fd (producers r ch ! i))
      (tap_data (channel_buf_out r3 ch) (length bs))) (taps r3 ch)) r3"
  define r5 where "r5 = set_buf ch (fold (\<lambda>p b. proc (prc_cb p) (prc_user p) b) (processors r4 ch) (channel_buf_out r4 ch)) r4"
  have ok5: "router_ok (r5\<lparr>w_out := True\<rparr>)"
    unfolding r5_def r4_def using ok3 b3 by (simp add: set_buf_ok proc_fold_ok [OF proc])
  have "lb_avail (lbs r ch) - int (length bs) \<ge> 0" if "lb_bps (lbs r ch) \<noteq> 0"
    using n that by (simp add: read_avail_def Let_def split: if_splits)
  then show ?thesis
    unfolding producer_data_def Let_def r1_def [symmetric] r2_def [symmetric] r3_def [symmetric] r4_def [symmetric] r5_def [symmetric]
    using ok5 lb l3 by (auto intro!: set_lb_ok simp: r5_def r4_def)
qed

lemma producer_cb_ok [invs]:
  assumes ok: "router_ok r" and i: "i < length (producers r ch)" and proc: "proc_keeps proc"
  shows "router_ok (producer_cb proc ch i res r)"
proof -
  let ?p = "producers r ch ! i"
  have c: "prd_channel ?p = ch" using nth_prd_ok [OF ok i] by (simp add: prd_ok_def)
  have a: "0 \<le> read_avail r ch"
    using ok by (auto simp: read_avail_def Let_def router_ok_def lbs_ok_def)
  have data: "router_ok (producer_data proc ch i (take (nat (read_avail r ch)) bs) r)" if "rtr_fd r \<noteq> -1" for bs
    by (rule producer_data_ok [OF ok i that _ proc]) (use a in auto)
  show ?thesis
    using ok i data by (cases res)
      (auto simp: producer_cb_def Let_def c rem_endpoint_after_error_def
        intro!: stop_producer_ok mhr_rem_producer_ok mhr_rem_consumer_ok)
qed

lemma set_consumer_ok [invs]: "router_ok r \<Longrightarrow> cns_ok ch c \<Longrightarrow> router_ok (set_consumer ch i c r)"
proof -
  assume ok: "router_ok r" and c: "cns_ok ch c"
  show ?thesis
    unfolding set_consumer_def
    by (rule router_ok_consumers [OF ok])
      (use ok c in \<open>auto simp: router_ok_def cnss_ok_def dest!: set_update_subset_insert [THEN subsetD]\<close>)
qed

lemma cns_ok_buf: "cns_ok ch c \<Longrightarrow> buf_ok b \<Longrightarrow> cns_ok ch (c\<lparr>cns_buf := b, cns_w := w\<rparr>)"
  by (simp add: cns_ok_def)

lemma buf_consume_ok: "buf_ok b \<Longrightarrow> n \<le> buf_size b - buf_rpos b \<Longrightarrow> buf_ok (buf_consume b n)"
  by (rule buf_consume_contents) (simp_all add: length_buf_contents)

lemma consumer_cb_ok [invs]:
  assumes ok: "router_ok r" and i: "i < length (consumers r ch)"
  shows "router_ok (consumer_cb ch i res r)"
proof -
  let ?c = "consumers r ch ! i"
  have c: "cns_ok ch ?c" by (rule nth_cns_ok [OF ok i])
  then have b: "buf_ok (cns_buf ?c)" by (simp add: cns_ok_def)
  have c': "cns_ok ch (?c\<lparr>cns_w := False\<rparr>)" using c by (simp add: cns_ok_def)
  have w: "router_ok (set_consumer ch i (?c\<lparr>cns_buf := buf_consume (cns_buf ?c) (min k (buf_size (cns_buf ?c) - buf_rpos (cns_buf ?c))),
      cns_w := x\<rparr>) r)" for k x
    by (intro set_consumer_ok [OF ok] cns_ok_buf [OF c] buf_consume_ok [OF b]) simp
  have w0: "router_ok (set_consumer ch i (?c\<lparr>cns_buf := cns_buf ?c, cns_w := x\<rparr>) r)" for x
    by (intro set_consumer_ok [OF ok] cns_ok_buf [OF c b])
  show ?thesis
  proof (cases res)
    case (WrSome k)
    show ?thesis
      unfolding consumer_cb_def WrSome Let_def
      by (cases "0 < min k (buf_size (cns_buf ?c) - buf_rpos (cns_buf ?c))") (simp_all only: if_True if_False wr_result.case router_ok_log w w0)
  next
    case (WrErr again)
    then show ?thesis
      using ok set_consumer_ok [OF ok c', of i] mhr_rem_consumer_ok mhr_rem_producer_ok
      by (simp add: consumer_cb_def Let_def)
  qed
qed

lemma deliver_ok [invs]: "router_ok r \<Longrightarrow> router_ok (deliver ch r)"
proof -
  assume ok: "router_ok r"
  have len: "cmd_length (rdmx r) \<le> 4096"
    using ok by (simp add: router_ok_def bufs_ok_def dmx_ok_def MHDMX_CMD_BUFFER_SIZE_def)
  let ?data = "map (cmd_buffer (rdmx r)) [0..<cmd_length (rdmx r)]"
  have ap: "buf_ok b \<Longrightarrow> buf_ok (snd (buf_append b ?data (to_u16 (int (cmd_length (rdmx r))))))" for b
    using buf_append_cut(1) [of b ?data] len by simp
  have "router_ok (map_consumers ch (\<lambda>c. c\<lparr>cns_buf := (if ch = MH_CHANNEL_CONTROL
         then snd (buf_append (cns_buf c) (if ch = MH_CHANNEL_CONTROL then ?data else [result_byte (rdmx r)]) (to_u16 (int (cmd_length (rdmx r)))))
         else snd (buf_append_c (cns_buf c) (result_byte (rdmx r)))), cns_w := True\<rparr>) r)"
    by (rule map_consumers_ok [OF ok]) (auto simp: cns_ok_def ap buf_append_c_ok)
  then show ?thesis using ok by (simp add: deliver_def Let_def)
qed

lemma keyer_byte_ok [invs]: "router_ok r \<Longrightarrow> router_ok (keyer_byte c r)"
proof -
  assume ok: "router_ok r"
  let ?r = "r\<lparr>rdmx := snd (dmx_demux (rdmx r) c)\<rparr>"
  have "ptt_ok ?r = ptt_ok r" by (rule ptt_ok_same_producers) simp_all
  then have "router_ok ?r" using ok dmx_demux_ok [of "rdmx r" c] by (simp add: router_ok_def ok_defs)
  then show ?thesis by (auto simp: keyer_byte_def Let_def split: prod.split intro!: deliver_ok)
qed

lemma router_ok_rbuf_in: "router_ok r \<Longrightarrow> buf_ok b \<Longrightarrow> router_ok (r\<lparr>rbuf_in := b\<rparr>)"
proof -
  assume "router_ok r" "buf_ok b"
  moreover have "ptt_ok (r\<lparr>rbuf_in := b\<rparr>) = ptt_ok r" by (rule ptt_ok_same_producers) simp_all
  ultimately show ?thesis by (simp add: router_ok_def ok_defs)
qed

lemma router_ok_muxed: "router_ok r \<Longrightarrow> buf_ok b \<Longrightarrow> all_ok ib \<Longrightarrow> router_ok (r\<lparr>rbuf_out := b, channel_buf_out := ib\<rparr>)"
proof -
  assume "router_ok r" "buf_ok b" "all_ok ib"
  moreover have "ptt_ok (r\<lparr>rbuf_out := b, channel_buf_out := ib\<rparr>) = ptt_ok r" by (rule ptt_ok_same_producers) simp_all
  ultimately show ?thesis by (simp add: router_ok_def ok_defs all_ok_def)
qed

lemma router_ok_rbuf_out: "router_ok r \<Longrightarrow> buf_ok b \<Longrightarrow> router_ok (r\<lparr>rbuf_out := b\<rparr>)"
proof -
  assume "router_ok r" "buf_ok b"
  moreover have "ptt_ok (r\<lparr>rbuf_out := b\<rparr>) = ptt_ok r" by (rule ptt_ok_same_producers) simp_all
  ultimately show ?thesis by (simp add: router_ok_def ok_defs)
qed

lemma keyer_in_cb_ok [invs]: "router_ok r \<Longrightarrow> router_ok (keyer_in_cb res r)"
proof -
  assume ok: "router_ok r"
  let ?a = "buf_size_avail (rbuf_in r)"
  define r1 where "r1 = (case os_read ?a res of
      RdBytes bs \<Rightarrow> (if bs \<noteq> [] then r\<lparr>rbuf_in := buf_add_size (buf_store (rbuf_in r) bs) (length bs)\<rparr> else mhr_set_keyer_fd r (-1))
    | RdErr again \<Rightarrow> (if \<not> again then mhr_set_keyer_fd r (-1) else r))"
  have b: "buf_ok (rbuf_in r)" using ok by (simp add: router_ok_def bufs_ok_def)
  have "buf_ok (buf_add_size (buf_store (rbuf_in r) (take ?a bs)) (length (take ?a bs)))" for bs
    by (rule buf_put(1) [OF b]) simp
  then have ok1: "router_ok r1"
    unfolding r1_def using ok router_ok_rbuf_in [OF ok] mhr_set_keyer_fd_ok [OF ok] by (cases res) auto
  then have "buf_ok (snd (drain buf_get_c (buf_size (rbuf_in r1)) (rbuf_in r1)))"
    using bfifo.drain_contents by (simp add: router_ok_def bufs_ok_def)
  then have "router_ok (r1\<lparr>rbuf_in := snd (drain buf_get_c (buf_size (rbuf_in r1)) (rbuf_in r1))\<rparr>)"
    by (rule router_ok_rbuf_in [OF ok1])
  moreover have "router_ok q \<Longrightarrow> router_ok (fold keyer_byte cs q)" for q cs
    by (induction cs arbitrary: q) (simp_all add: keyer_byte_ok)
  ultimately show ?thesis
    using ok by (simp add: keyer_in_cb_def Let_def r1_def [symmetric] split_def)
qed

lemma stop_idle_out_ok [simp]: "router_ok (stop_idle_out r) = router_ok r"
  by (simp add: stop_idle_out_def)

lemma keyer_out_cb_ok [invs]: "router_ok r \<Longrightarrow> router_ok (keyer_out_cb res r)"
proof -
  assume ok: "router_ok r"
  obtain n bo ib where m: "mx_mux (rbuf_out r) (channel_buf_out r) = (n, bo, ib)" by (metis prod_cases3)
  have "buf_ok (rbuf_out r)" "all_ok (channel_buf_out r)"
    using ok by (simp_all add: router_ok_def bufs_ok_def all_ok_def)
  from mx_mux_post [OF this m] have b: "buf_ok bo" "all_ok ib"
    unfolding mux_post_def by blast+
  let ?r = "r\<lparr>rbuf_out := bo, channel_buf_out := ib\<rparr>"
  have ok1: "router_ok ?r" by (rule router_ok_muxed [OF ok b])
  have "router_ok (?r\<lparr>rbuf_out := buf_consume bo (min k (buf_size bo - buf_rpos bo))\<rparr>)" for k
    by (intro router_ok_rbuf_out [OF ok1] buf_consume_ok [OF b(1)]) simp
  then show ?thesis
    using ok ok1 by (auto simp: keyer_out_cb_def Let_def m split: wr_result.split intro!: switch_producer_events_ok mhr_set_keyer_fd_ok)
qed

section \<open>Preservation: the rest\<close>

lemma mhr_create_ok [simp, invs]: "router_ok (mhr_create ser flags)"
proof -
  have "held_ptt (mhr_create ser flags) = 0"
    by (rule bit_word_eqI) (simp add: held_ptt_bits keyed_def mhr_create_def)
  then show ?thesis
    by (simp add: router_ok_def ok_defs ptt_ok_def) (simp add: mhr_create_def)
qed

lemma lb_cb_ok [invs]: "router_ok r \<Longrightarrow> router_ok (lb_cb ch r)"
  unfolding lb_cb_def Let_def
  by (auto intro!: map_producers_ok set_lb_ok simp: router_ok_def [of r] lbs_ok_def)

lemma mhr_set_bps_limit_ok [invs]: "router_ok r \<Longrightarrow> router_ok (mhr_set_bps_limit r ch bps)"
proof -
  assume ok: "router_ok r"
  then have "0 \<le> lb_avail (lbs r ch)" "lb_avail (lbs r ch) \<le> 22" by (simp_all add: router_ok_def lbs_ok_def)
  with ok show ?thesis by (simp add: mhr_set_bps_limit_def Let_def set_lb_ok)
qed

lemma give_block_ok: "cns_ok ch c \<Longrightarrow> cns_ok ch (give_block data c)"
  by (simp add: give_block_def cns_ok_def buf_append_cut)

lemma mhr_send_out_ok [invs]: "router_ok r \<Longrightarrow> router_ok (mhr_send_out r data ch)"
  by (auto simp: mhr_send_out_def Let_def intro!: map_consumers_ok give_block_ok)

lemma mhr_pass_out_ok [invs]: "router_ok r \<Longrightarrow> router_ok (mhr_pass_out r data ch fd)"
  by (auto simp: mhr_pass_out_def Let_def intro!: map_consumers_ok give_block_ok)

lemma update_producers_ok [invs]: "router_ok r \<Longrightarrow> router_ok (update_producers ch r)"
  by (simp add: update_producers_def map_producers_ok)

lemma mhr_hold_producers_ok [invs]: "router_ok r \<Longrightarrow> router_ok (mhr_hold_producers r ch h)"
  by (simp add: mhr_hold_producers_def update_producers_ok)

lemma mhr_set_producer_turn_ok [invs]: "router_ok r \<Longrightarrow> router_ok (mhr_set_producer_turn r ch fd)"
  by (simp add: mhr_set_producer_turn_def update_producers_ok)

lemma mhr_set_consumer_flags_ok [invs]: "router_ok r \<Longrightarrow> router_ok (mhr_set_consumer_flags r fd ch fl)"
  by (auto simp: mhr_set_consumer_flags_def intro!: map_consumers_ok simp: cns_ok_def)

lemma registration_ok [invs]:
  "router_ok r \<Longrightarrow> router_ok (mhr_add_consumer_cb r cb ch ud)"
  "router_ok r \<Longrightarrow> router_ok (mhr_add_producer_tap_cb r cb ch ud)"
  "router_ok r \<Longrightarrow> router_ok (mhr_add_status_cb r scb ud)"
  "router_ok r \<Longrightarrow> router_ok (mhr_add_processor_cb r cb ch ud)"
  "router_ok r \<Longrightarrow> router_ok (mhr_rem_consumer_cb r cb ch)"
  "router_ok r \<Longrightarrow> router_ok (mhr_rem_producer_tap_cb r cb ch ud)"
  "router_ok r \<Longrightarrow> router_ok (mhr_rem_status_cb r scb)"
  "router_ok r \<Longrightarrow> router_ok (mhr_rem_processor_cb r cb ch)"
  "router_ok r \<Longrightarrow> router_ok (mhr_intercept_consumers r ch on)"
  "router_ok r \<Longrightarrow> router_ok (mhr_set_wk_tx_focus r focus)"
  "router_ok r \<Longrightarrow> router_ok (mhr_add_endpoint_fd r fd ch tag)"
  "router_ok r \<Longrightarrow> router_ok (mhr_rem_endpoint_fd r fd ch)"
  by (simp_all add: mhr_add_consumer_cb_def mhr_add_producer_tap_cb_def mhr_add_status_cb_def mhr_add_processor_cb_def
      mhr_rem_consumer_cb_def mhr_rem_producer_tap_cb_def mhr_rem_status_cb_def mhr_rem_processor_cb_def
      mhr_intercept_consumers_def mhr_set_wk_tx_focus_def mhr_add_endpoint_fd_def mhr_rem_endpoint_fd_def
      mhr_add_producer_ok mhr_add_consumer_ok mhr_rem_consumer_ok mhr_rem_producer_ok)

section \<open>Runs of the event loop\<close>

text \<open>
  A step is a watcher callback for which the watcher is active, or a call of an operation by another
  module, with any arguments. \<open>proc\<close> is what the processor callbacks do to a buffer.
\<close>

inductive rstep :: "(cb \<Rightarrow> user \<Rightarrow> buffer \<Rightarrow> buffer) \<Rightarrow> router \<Rightarrow> router \<Rightarrow> bool" for proc where
  timer: "lb_timer (lbs r ch) \<Longrightarrow> rstep proc r (lb_cb ch r)"
| readable: "i < length (producers r ch) \<Longrightarrow> prd_w (producers r ch ! i) \<Longrightarrow> rstep proc r (producer_cb proc ch i rd r)"
| writable: "i < length (consumers r ch) \<Longrightarrow> cns_w (consumers r ch ! i) \<Longrightarrow> rstep proc r (consumer_cb ch i wr r)"
| keyer_in: "w_in r \<Longrightarrow> rstep proc r (keyer_in_cb rd r)"
| keyer_out: "w_out r \<Longrightarrow> rstep proc r (keyer_out_cb wr r)"
| keyer_fd: "rstep proc r (mhr_set_keyer_fd r fd)"
| send_in: "rstep proc r (snd (mhr_send_in r data ch))"
| send_out: "rstep proc r (mhr_send_out r data ch)"
| pass_out: "rstep proc r (mhr_pass_out r data ch fd)"
| bps_limit: "rstep proc r (mhr_set_bps_limit r ch bps)"
| add_consumer: "rstep proc r (mhr_add_consumer r fd ch tag)"
| add_producer: "rstep proc r (mhr_add_producer r fd ch tag)"
| rem_consumer: "rstep proc r (mhr_rem_consumer r fd ch)"
| rem_producer: "rstep proc r (mhr_rem_producer r fd ch)"
| add_consumer_cb: "rstep proc r (mhr_add_consumer_cb r cb ch ud)"
| rem_consumer_cb: "rstep proc r (mhr_rem_consumer_cb r cb ch)"
| add_tap: "rstep proc r (mhr_add_producer_tap_cb r cb ch ud)"
| rem_tap: "rstep proc r (mhr_rem_producer_tap_cb r cb ch ud)"
| add_status: "rstep proc r (mhr_add_status_cb r scb ud)"
| rem_status: "rstep proc r (mhr_rem_status_cb r scb)"
| add_processor: "rstep proc r (mhr_add_processor_cb r cb ch ud)"
| rem_processor: "rstep proc r (mhr_rem_processor_cb r cb ch)"
| hold: "rstep proc r (mhr_hold_producers r ch h)"
| turn: "rstep proc r (mhr_set_producer_turn r ch fd)"
| flags: "rstep proc r (mhr_set_consumer_flags r fd ch fl)"
| intercept: "rstep proc r (mhr_intercept_consumers r ch on)"
| focus: "rstep proc r (mhr_set_wk_tx_focus r fo)"

inductive reachable :: "(cb \<Rightarrow> user \<Rightarrow> buffer \<Rightarrow> buffer) \<Rightarrow> router \<Rightarrow> bool" for proc where
  create: "reachable proc (mhr_create ser flags)"
| step: "reachable proc r \<Longrightarrow> rstep proc r r' \<Longrightarrow> reachable proc r'"

lemma rstep_ok: "rstep proc r r' \<Longrightarrow> proc_keeps proc \<Longrightarrow> router_ok r \<Longrightarrow> router_ok r'"
  by (cases rule: rstep.cases, assumption) (simp_all add: invs)

lemma reachable_ok: "reachable proc r \<Longrightarrow> proc_keeps proc \<Longrightarrow> router_ok r"
  by (induction rule: reachable.induct) (auto intro: rstep_ok)

end
