(* ===== verification/RouterWatch.thy ===== *)
theory RouterWatch
  imports RouterInv
begin

text \<open>
  Who may send: the read watcher of a producer is active only while its channel is not held and
  it has the turn, in every reachable state; and the choice of the next producer.
\<close>

section \<open>Active watchers are permitted\<close>

definition watch_ok :: "router \<Rightarrow> bool" where
  "watch_ok r \<longleftrightarrow> (\<forall>ch p. p \<in> set (producers r ch) \<longrightarrow> prd_w p \<longrightarrow> producer_may_read r p)"

text \<open>\<open>r'\<close> permits what \<open>r\<close> permits and has no watcher that is new and not permitted.\<close>

definition watch_le :: "router \<Rightarrow> router \<Rightarrow> bool" where
  "watch_le r r' \<longleftrightarrow> turn r' = turn r \<and> hold r' = hold r \<and>
     (\<forall>ch p'. p' \<in> set (producers r' ch) \<longrightarrow> prd_w p' \<longrightarrow> producer_may_read r p' \<or>
        (\<exists>p \<in> set (producers r ch). prd_w p \<and> prd_fd p = prd_fd p' \<and> prd_channel p = prd_channel p'))"

lemma may_read_cong:
  "turn r' = turn r \<Longrightarrow> hold r' = hold r \<Longrightarrow> prd_fd p' = prd_fd p \<Longrightarrow> prd_channel p' = prd_channel p \<Longrightarrow>
   producer_may_read r' p' = producer_may_read r p"
  by (simp add: producer_may_read_def)

lemma watch_le_ok: "watch_le r r' \<Longrightarrow> watch_ok r \<Longrightarrow> watch_ok r'"
proof -
  assume le: "watch_le r r'" and ok: "watch_ok r"
  have "producer_may_read r' p" if p: "p \<in> set (producers r' ch)" "prd_w p" for ch p
  proof -
    have c: "prd_fd q = prd_fd p \<Longrightarrow> prd_channel q = prd_channel p \<Longrightarrow> producer_may_read r q \<Longrightarrow> producer_may_read r' p" for q
      using le may_read_cong [of r r' q p] by (simp add: watch_le_def)
    from le p consider "producer_may_read r p"
      | q where "q \<in> set (producers r ch)" "prd_w q" "prd_fd q = prd_fd p" "prd_channel q = prd_channel p"
      unfolding watch_le_def by blast
    then show ?thesis using c ok by cases (auto simp: watch_ok_def)
  qed
  then show ?thesis by (simp add: watch_ok_def)
qed

lemma watch_le_same: "turn r' = turn r \<Longrightarrow> hold r' = hold r \<Longrightarrow> producers r' = producers r \<Longrightarrow> watch_le r r'"
  by (auto simp: watch_le_def)

lemma watch_le_refl [simp]: "watch_le r r"
  by (rule watch_le_same) simp_all

lemma watch_le_trans [trans]: "watch_le a b \<Longrightarrow> watch_le b c \<Longrightarrow> watch_le a c"
proof -
  assume ab: "watch_le a b" and bc: "watch_le b c"
  have "producer_may_read a p \<or> (\<exists>q \<in> set (producers a ch). prd_w q \<and> prd_fd q = prd_fd p \<and> prd_channel q = prd_channel p)"
    if p: "p \<in> set (producers c ch)" "prd_w p" for ch p
  proof -
    from bc p consider "producer_may_read b p"
      | q where "q \<in> set (producers b ch)" "prd_w q" "prd_fd q = prd_fd p" "prd_channel q = prd_channel p"
      unfolding watch_le_def by blast
    then show ?thesis
    proof cases
      case 1
      then show ?thesis using ab may_read_cong [of b a p p] by (simp add: watch_le_def)
    next
      case 2
      with ab consider "producer_may_read a q"
        | q' where "q' \<in> set (producers a ch)" "prd_w q'" "prd_fd q' = prd_fd q" "prd_channel q' = prd_channel q"
        unfolding watch_le_def by blast
      then show ?thesis
      proof cases
        case 1
        then show ?thesis using 2 may_read_cong [of a a q p] by simp
      next
        case (2 q')
        with \<open>prd_fd q = prd_fd p\<close> \<open>prd_channel q = prd_channel p\<close> have "prd_fd q' = prd_fd p \<and> prd_channel q' = prd_channel p" by simp
        with 2 show ?thesis by blast
      qed
    qed
  qed
  then show "watch_le a c" using ab bc by (simp add: watch_le_def)
qed

lemma watch_le_map:
  assumes "\<And>p. prd_fd (f p) = prd_fd p \<and> prd_channel (f p) = prd_channel p"
    and "\<And>p. prd_w (f p) \<Longrightarrow> prd_w p \<or> producer_may_read r p"
  shows "watch_le r (map_producers ch f r)"
  using assms by (fastforce simp: watch_le_def producer_may_read_def)

lemma watch_le_subset:
  "set ps \<subseteq> set (producers r ch) \<Longrightarrow> watch_le r (r\<lparr>producers := (producers r)(ch := ps)\<rparr>)"
  by (auto simp: watch_le_def)

lemma watch_le_update:
  assumes "i < length (producers r ch)" and "prd_fd p = prd_fd (producers r ch ! i)" and "prd_channel p = prd_channel (producers r ch ! i)"
    and "prd_w p \<Longrightarrow> prd_w (producers r ch ! i)"
  shows "watch_le r (r\<lparr>producers := (producers r)(ch := (producers r ch)[i := p])\<rparr>)"
proof -
  have "\<exists>q \<in> set (producers r ch). prd_w q \<and> prd_fd q = prd_fd p' \<and> prd_channel q = prd_channel p'"
    if "p' \<in> set ((producers r ch)[i := p])" "prd_w p'" for p'
  proof -
    from that(1) have "p' \<in> insert p (set (producers r ch))" using set_update_subset_insert by fastforce
    with assms that(2) show ?thesis by auto
  qed
  then show ?thesis by (auto simp: watch_le_def)
qed

lemma log_watch [simp]: "watch_le r (emit es r')  = watch_le r r'"
  by (simp add: watch_le_def)

lemma close_fd_sel [simp, frames]:
  "producers (close_fd fd r) = producers r" "consumers (close_fd fd r) = consumers r" "turn (close_fd fd r) = turn r"
  "hold (close_fd fd r) = hold r" "rtr_fd (close_fd fd r) = rtr_fd r" "wflag (close_fd fd r) = wflag r"
  "channel_buf_out (close_fd fd r) = channel_buf_out r" "lbs (close_fd fd r) = lbs r" "taps (close_fd fd r) = taps r"
  "consumer_cbs (close_fd fd r) = consumer_cbs r" "status_cbs (close_fd fd r) = status_cbs r"
  by (simp_all add: close_fd_def split: option.split)

lemma mhr_rem_consumer_sel [simp, frames]:
  "producers (mhr_rem_consumer r fd ch) = producers r" "turn (mhr_rem_consumer r fd ch) = turn r"
  "hold (mhr_rem_consumer r fd ch) = hold r" "taps (mhr_rem_consumer r fd ch) = taps r"
  "consumer_cbs (mhr_rem_consumer r fd ch) = consumer_cbs r" "status_cbs (mhr_rem_consumer r fd ch) = status_cbs r"
  "lbs (mhr_rem_consumer r fd ch) = lbs r"
  by (simp_all add: mhr_rem_consumer_def Let_def split: option.split)

lemma mhr_rem_producer_watch: "watch_le r (mhr_rem_producer r fd ch)"
proof -
  have "watch_le r (r\<lparr>producers := (producers r)(ch := remove_first (\<lambda>p. prd_fd p = fd) (producers r ch))\<rparr>)" (is "watch_le r ?r")
    by (rule watch_le_subset [OF set_remove_first])
  moreover have "watch_le ?r (close_fd x (push_ptt ?r))" "watch_le ?r (push_ptt ?r)" "watch_le ?r (close_fd x ?r)" for x
    by (rule watch_le_same; simp)+
  ultimately show ?thesis
    by (auto simp: mhr_rem_producer_def Let_def split: option.split intro: watch_le_trans)
qed

lemma process_ptt_watch:
  assumes "i < length (producers r ch)"
  shows "watch_le r (process_ptt_producer ch i r)"
proof -
  have "watch_le (set_buf ch b r) ((set_buf ch b r)\<lparr>producers := (producers r)(ch := (producers r ch)[i := (producers r ch ! i)\<lparr>prd_mask := m\<rparr>])\<rparr>)" for b m
    using watch_le_update [of i "set_buf ch b r" ch "(producers r ch ! i)\<lparr>prd_mask := m\<rparr>"] assms by simp
  moreover have "watch_le r (set_buf ch b r)" for b by (rule watch_le_same) simp_all
  ultimately have 1: "watch_le r ((set_buf ch b r)\<lparr>producers := (producers r)(ch := (producers r ch)[i := (producers r ch ! i)\<lparr>prd_mask := m\<rparr>])\<rparr>)" for b m
    using watch_le_trans by blast
  have 2: "watch_le q (push_ptt q)" for q by (rule watch_le_same) simp_all
  show ?thesis
    by (auto simp: process_ptt_producer_def Let_def split: prod.split intro: 1 watch_le_trans [OF 1 2])
qed

lemma watch_le_simple [simp]:
  "watch_le r (set_lb ch lb r)" "watch_le r (set_buf ch b r)" "watch_le r (r\<lparr>w_out := x\<rparr>)" "watch_le r (push_ptt r)"
  by (rule watch_le_same; simp)+

lemma producer_data_watch:
  assumes "i < length (producers r ch)"
  shows "watch_le r (producer_data proc ch i bs r)"
proof -
  define r1 where "r1 = set_buf ch (buf_add_size (buf_store (channel_buf_out r ch) bs) (length bs)) r"
  define r2 where "r2 = (if lb_bps (lbs r1 ch) \<noteq> 0 then set_lb ch ((lbs r1 ch)\<lparr>lb_timer := True\<rparr>) r1 else r1)"
  define r3 where "r3 = (if ch_is_ptt_channel ch then process_ptt_producer ch i r2 else r2)"
  have "watch_le r r1" by (simp add: r1_def)
  also have "watch_le r1 r2" by (simp add: r2_def)
  also have "watch_le r2 r3"
    using assms process_ptt_watch [of i r2 ch] by (auto simp: r3_def r2_def r1_def)
  also have "watch_le r3 (producer_data proc ch i bs r)"
    unfolding producer_data_def Let_def r1_def [symmetric] r2_def [symmetric] r3_def [symmetric]
    by (rule watch_le_same) simp_all
  finally show ?thesis .
qed

lemma producer_cb_watch:
  assumes ok: "router_ok r" and i: "i < length (producers r ch)"
  shows "watch_le r (producer_cb proc ch i res r)"
proof -
  have c: "prd_channel (producers r ch ! i) = ch" using nth_prd_ok [OF ok i] by (simp add: prd_ok_def)
  have s: "watch_le r (stop_producer ch i r)"
    unfolding stop_producer_def by (rule watch_le_update [OF i]) simp_all
  have e: "watch_le r (rem_endpoint_after_error fd ch r)" for fd
    unfolding rem_endpoint_after_error_def
    by (rule watch_le_trans [OF watch_le_same mhr_rem_producer_watch]) simp_all
  show ?thesis
    using s e producer_data_watch [OF i]
    by (cases res) (auto simp: producer_cb_def Let_def c)
qed

lemma switch_watch: "watch_le r (switch_producer_events a r)"
proof -
  have "watch_le r (fold (\<lambda>ch r. map_producers ch
             (\<lambda>p. if \<not> a \<or> producer_may_read r p then p\<lparr>prd_w := a\<rparr> else p) r) chs r)" for chs
  proof (induction chs arbitrary: r)
    case (Cons ch chs)
    have "watch_le r (map_producers ch (\<lambda>p. if \<not> a \<or> producer_may_read r p then p\<lparr>prd_w := a\<rparr> else p) r)"
      by (rule watch_le_map) (auto split: if_splits)
    with Cons.IH show ?case by (auto intro: watch_le_trans)
  qed simp
  then show ?thesis by (simp add: switch_producer_events_def)
qed

lemma drop_ptt_watch: "watch_le r (drop_ptt r)"
proof -
  have "watch_le r (fold (\<lambda>ch r. map_producers ch (\<lambda>p. p\<lparr>prd_mask := 0\<rparr>) r) chs r)" for chs
  proof (induction chs arbitrary: r)
    case (Cons ch chs)
    have "watch_le r (map_producers ch (\<lambda>p. p\<lparr>prd_mask := 0\<rparr>) r)"
      by (rule watch_le_map) auto
    with Cons.IH show ?case by (auto intro: watch_le_trans)
  qed simp
  then have 1: "watch_le r (fold (\<lambda>ch r. map_producers ch (\<lambda>p. p\<lparr>prd_mask := 0\<rparr>) r) all_channels r)" .
  show ?thesis
    unfolding drop_ptt_def Let_def by (rule watch_le_trans [OF 1]) (rule watch_le_same; simp)
qed

lemma set_keyer_fd_watch: "watch_le r (mhr_set_keyer_fd r fd)"
proof (cases "fd = rtr_fd r")
  case False
  define r1 where "r1 = (if rtr_fd r \<noteq> -1
      then drop_ptt (emit [EvTtyClose (rtr_fd r)] (r\<lparr>w_in := False, w_out := False\<rparr>)) else r)"
  define r2 where "r2 = r1\<lparr>rtr_fd := fd\<rparr>"
  define r3 where "r3 = (if fd \<noteq> -1 then r2\<lparr>w_in := True, w_out := False\<rparr> else r2)"
  have "watch_le r r1"
  proof -
    have "watch_le r (emit [EvTtyClose (rtr_fd r)] (r\<lparr>w_in := False, w_out := False\<rparr>))" (is "watch_le r ?q")
      by (rule watch_le_same) simp_all
    then show ?thesis using watch_le_trans [OF _ drop_ptt_watch] by (simp add: r1_def)
  qed
  also have "watch_le r1 r3" by (rule watch_le_same) (simp_all add: r3_def r2_def)
  also have "watch_le r3 (mhr_set_keyer_fd r fd)"
    unfolding mhr_set_keyer_fd_def Let_def r1_def [symmetric] r2_def [symmetric] r3_def [symmetric]
    by (simp only: if_not_P [OF False] log_watch switch_watch)
  finally show ?thesis .
qed (simp add: mhr_set_keyer_fd_def)

lemma update_producers_watch:
  assumes "prds_ok r" and "\<And>c p. p \<in> set (producers r c) \<Longrightarrow> c \<noteq> ch \<Longrightarrow> prd_w p \<Longrightarrow> producer_may_read r p"
  shows "watch_ok (update_producers ch r)"
  using assms by (auto simp: watch_ok_def update_producers_def producer_may_read_def split: if_splits)

lemma set_consumer_sel [simp, frames]:
  "producers (set_consumer ch i c r) = producers r" "turn (set_consumer ch i c r) = turn r"
  "hold (set_consumer ch i c r) = hold r"
  by (simp_all add: set_consumer_def)

lemma consumer_cb_watch: "watch_le r (consumer_cb ch i res r)"
proof -
  have "watch_le r (mhr_rem_consumer (mhr_rem_producer r fd c) fd' c')" for fd c fd' c'
    by (rule watch_le_trans [OF mhr_rem_producer_watch watch_le_same]) simp_all
  moreover have "watch_le r (set_consumer ch i c r)" for c
    by (rule watch_le_same) simp_all
  ultimately show ?thesis by (cases res) (simp_all add: consumer_cb_def Let_def)
qed

lemma deliver_sel [simp, frames]:
  "producers (deliver ch r) = producers r" "turn (deliver ch r) = turn r" "hold (deliver ch r) = hold r"
  "rtr_fd (deliver ch r) = rtr_fd r" "intercept (deliver ch r) = intercept r" "rdmx (deliver ch r) = rdmx r"
  "consumer_cbs (deliver ch r) = consumer_cbs r"
  by (simp_all add: deliver_def Let_def)

lemma keyer_byte_sel [simp, frames]:
  "producers (keyer_byte c r) = producers r" "turn (keyer_byte c r) = turn r" "hold (keyer_byte c r) = hold r"
  "intercept (keyer_byte c r) = intercept r" "rdmx (keyer_byte c r) = snd (dmx_demux (rdmx r) c)"
  "consumer_cbs (keyer_byte c r) = consumer_cbs r"
  by (simp_all add: keyer_byte_def Let_def split_def)

lemma fold_keyer_byte_sel:
  "producers (fold keyer_byte cs r) = producers r" "turn (fold keyer_byte cs r) = turn r"
  "hold (fold keyer_byte cs r) = hold r"
  by (induction cs arbitrary: r) simp_all

lemma keyer_in_watch: "watch_le r (keyer_in_cb res r)"
proof -
  define r1 where "r1 = (case os_read (buf_size_avail (rbuf_in r)) res of
      RdBytes bs \<Rightarrow> (if bs \<noteq> [] then r\<lparr>rbuf_in := buf_add_size (buf_store (rbuf_in r) bs) (length bs)\<rparr> else mhr_set_keyer_fd r (-1))
    | RdErr again \<Rightarrow> (if \<not> again then mhr_set_keyer_fd r (-1) else r))"
  have "watch_le r (r\<lparr>rbuf_in := b\<rparr>)" for b by (rule watch_le_same) simp_all
  then have "watch_le r r1" by (cases res) (simp_all add: r1_def set_keyer_fd_watch)
  also have "watch_le r1 (fold keyer_byte cs (r1\<lparr>rbuf_in := b\<rparr>))" for cs b
    by (rule watch_le_same) (simp_all add: fold_keyer_byte_sel)
  finally have "watch_le r (fold keyer_byte cs (r1\<lparr>rbuf_in := b\<rparr>))" for cs b .
  then show ?thesis by (simp add: keyer_in_cb_def Let_def r1_def [symmetric] split_def)
qed

lemma keyer_out_watch: "watch_le r (keyer_out_cb res r)"
proof -
  have idle: "watch_le q (stop_idle_out q)" for q by (rule watch_le_same) (simp_all add: stop_idle_out_def)
  have mx: "watch_le r (r\<lparr>rbuf_out := b, channel_buf_out := ib\<rparr>)" for b ib by (rule watch_le_same) simp_all
  have lg: "watch_le r (emit es ((r\<lparr>rbuf_out := b, channel_buf_out := ib\<rparr>)\<lparr>rbuf_out := b'\<rparr>))" for es b ib b'
    by (rule watch_le_same) simp_all
  show ?thesis
    unfolding keyer_out_cb_def Let_def split_def
    by (auto split: wr_result.split intro!: watch_le_trans [OF _ idle] watch_le_trans [OF _ switch_watch] watch_le_trans [OF mx set_keyer_fd_watch] mx)
      (rule watch_le_same; simp)
qed

lemma lb_cb_watch: "watch_le r (lb_cb ch r)"
proof -
  have 1: "watch_le q (map_producers ch (start_if_may q) q)" for q
    by (rule watch_le_map) (auto simp: start_if_may_def split: if_splits)
  show ?thesis unfolding lb_cb_def Let_def by (auto intro: watch_le_trans [OF _ 1])
qed

lemma hold_watch:
  assumes "router_ok r" and "watch_ok r"
  shows "watch_ok (mhr_hold_producers r ch h)" and "watch_ok (mhr_set_producer_turn r ch fd)"
proof -
  have c: "p \<in> set (producers r c) \<Longrightarrow> prd_channel p = c" for p c
    using assms(1) by (auto simp: router_ok_def prds_ok_def prd_ok_def)
  have ok: "prds_ok r" using assms(1) by (simp add: router_ok_def)
  have "watch_ok (update_producers ch (r\<lparr>hold := (hold r)(ch := h)\<rparr>))"
    using assms(2) c ok by (intro update_producers_watch) (auto simp: prds_ok_def watch_ok_def producer_may_read_def Let_def)
  moreover have "watch_ok (update_producers ch (r\<lparr>turn := (turn r)(ch := fd)\<rparr>))"
    using assms(2) c ok by (intro update_producers_watch) (auto simp: prds_ok_def watch_ok_def producer_may_read_def Let_def)
  ultimately show "watch_ok (mhr_hold_producers r ch h)" "watch_ok (mhr_set_producer_turn r ch fd)"
    using assms(2) by (simp_all add: mhr_hold_producers_def mhr_set_producer_turn_def)
qed

lemma add_producer_watch: "watch_le r (mhr_add_producer r fd ch tag)"
  by (auto simp: watch_le_def mhr_add_producer_def Let_def producer_may_read_def split: if_splits)

lemma plain_watch:
  "watch_le r (snd (mhr_send_in r data ch))" "watch_le r (mhr_send_out r data ch)" "watch_le r (mhr_pass_out r data ch fd)"
  "watch_le r (mhr_set_bps_limit r ch bps)" "watch_le r (mhr_add_consumer r fd ch tag)" "watch_le r (mhr_rem_consumer r fd ch)"
  "watch_le r (mhr_add_consumer_cb r cb ch ud)" "watch_le r (mhr_rem_consumer_cb r cb ch)"
  "watch_le r (mhr_add_producer_tap_cb r cb ch ud)" "watch_le r (mhr_rem_producer_tap_cb r cb ch ud)"
  "watch_le r (mhr_add_status_cb r scb ud)" "watch_le r (mhr_rem_status_cb r scb)"
  "watch_le r (mhr_add_processor_cb r cb ch ud)" "watch_le r (mhr_rem_processor_cb r cb ch)"
  "watch_le r (mhr_set_consumer_flags r fd ch fl)" "watch_le r (mhr_intercept_consumers r ch on)"
  "watch_le r (mhr_set_wk_tx_focus r fo)"
  by (rule watch_le_same; simp add: mhr_send_out_def mhr_pass_out_def
    mhr_set_bps_limit_def mhr_add_consumer_def mhr_add_consumer_cb_def mhr_rem_consumer_cb_def mhr_add_producer_tap_cb_def
    mhr_rem_producer_tap_cb_def mhr_add_status_cb_def mhr_rem_status_cb_def mhr_add_processor_cb_def mhr_rem_processor_cb_def
    mhr_set_consumer_flags_def mhr_intercept_consumers_def mhr_set_wk_tx_focus_def Let_def)+

lemmas plain_watch_ok = plain_watch [THEN watch_le_ok]

lemma rstep_watch:
  assumes "rstep proc r r'" and "router_ok r" and "watch_ok r"
  shows "watch_ok r'"
  using assms
proof (cases rule: rstep.cases)
  case (timer ch) with assms(3) show ?thesis using watch_le_ok [OF lb_cb_watch] by simp
next
  case (readable i ch rd) with assms(2,3) show ?thesis using watch_le_ok [OF producer_cb_watch] by simp
next
  case (writable i ch wr) with assms(3) show ?thesis using watch_le_ok [OF consumer_cb_watch] by simp
next
  case (keyer_in rd) with assms(3) show ?thesis using watch_le_ok [OF keyer_in_watch] by simp
next
  case (keyer_out wr) with assms(3) show ?thesis using watch_le_ok [OF keyer_out_watch] by simp
next
  case (keyer_fd fd) with assms(3) show ?thesis using watch_le_ok [OF set_keyer_fd_watch] by simp
next
  case (rem_producer fd ch) with assms(3) show ?thesis using watch_le_ok [OF mhr_rem_producer_watch] by simp
next
  case (add_producer fd ch tag) with assms(3) show ?thesis using watch_le_ok [OF add_producer_watch] by simp
qed (use assms(2,3) hold_watch plain_watch_ok in simp_all)

lemma reachable_watch: "reachable proc r \<Longrightarrow> proc_keeps proc \<Longrightarrow> watch_ok r"
proof (induction rule: reachable.induct)
  case (create ser flags)
  then show ?case by (simp add: watch_ok_def mhr_create_def)
next
  case (step r r')
  then show ?case using rstep_watch reachable_ok by blast
qed

section \<open>The next producer\<close>

text \<open>
  The specification of \<^verbatim>\<open>mhr_next_waiting_producer\<close>: the list as a ring, read from behind
  the descriptor that had the turn.
\<close>

definition ring_after :: "fd \<Rightarrow> fd list \<Rightarrow> fd list" where
  "ring_after fd fds = tl (dropWhile (\<lambda>x. x \<noteq> fd) fds) @ takeWhile (\<lambda>x. x \<noteq> fd) fds"

definition next_spec :: "(fd \<Rightarrow> bool) \<Rightarrow> fd \<Rightarrow> fd list \<Rightarrow> fd" where
  "next_spec waiting fd fds =
     (case find (\<lambda>x. x \<noteq> fd \<and> waiting x) (ring_after fd fds) of Some x \<Rightarrow> x | None \<Rightarrow> -1)"

lemma find_append: "find P (xs @ ys) = (case find P xs of Some x \<Rightarrow> Some x | None \<Rightarrow> find P ys)"
  by (induction xs) auto

lemma next_scan_after:
  "next_scan waiting fd True first ps =
     (case find (\<lambda>x. x \<noteq> fd \<and> waiting x) (map prd_fd ps) of Some x \<Rightarrow> x
      | None \<Rightarrow> (case first of Some p \<Rightarrow> prd_fd p | None \<Rightarrow> -1))"
  by (induction ps) auto

lemma next_scan_before:
  "next_scan waiting fd False first ps =
     (case find (\<lambda>x. x \<noteq> fd \<and> waiting x) (tl (dropWhile (\<lambda>x. x \<noteq> fd) (map prd_fd ps))) of Some x \<Rightarrow> x
      | None \<Rightarrow> (case first of Some p \<Rightarrow> prd_fd p
          | None \<Rightarrow> (case find (\<lambda>x. x \<noteq> fd \<and> waiting x) (takeWhile (\<lambda>x. x \<noteq> fd) (map prd_fd ps)) of Some x \<Rightarrow> x | None \<Rightarrow> -1)))"
proof (induction ps arbitrary: first)
  case (Cons p ps)
  show ?case
  proof (cases "prd_fd p = fd")
    case True
    then show ?thesis by (simp add: next_scan_after split: option.split)
  next
    case False
    then show ?thesis using Cons by (auto split: option.splits)
  qed
qed (simp split: option.split)

lemma next_waiting_spec:
  "in_range ch \<Longrightarrow> mhr_next_waiting_producer r waiting ch fd = next_spec waiting fd (map prd_fd (producers r ch))"
  by (simp add: mhr_next_waiting_producer_def next_scan_before next_spec_def ring_after_def find_append split: option.split)

lemma ring_split: "distinct (xs @ fd # ys) \<Longrightarrow> ring_after fd (xs @ fd # ys) = ys @ xs"
proof -
  assume "distinct (xs @ fd # ys)"
  then have "\<forall>x \<in> set xs. x \<noteq> fd" by auto
  then have "dropWhile (\<lambda>x. x \<noteq> fd) (xs @ fd # ys) = fd # ys" "takeWhile (\<lambda>x. x \<noteq> fd) (xs @ fd # ys) = xs"
    by (induction xs) auto
  then show ?thesis by (simp add: ring_after_def)
qed

lemma ring_step:
  assumes d: "distinct fds" and fd: "fd \<in> set fds" and r: "ring_after fd fds = us @ x # vs"
  shows "ring_after x fds = vs @ fd # us" and "x \<in> set fds" and "x \<noteq> fd"
proof -
  obtain xs ys where f: "fds = xs @ fd # ys" using fd by (meson split_list)
  have e: "ys @ xs = us @ x # vs" using ring_split [of xs fd ys] d f r by simp
  then show "x \<in> set fds" using f by (metis Un_iff in_set_conv_decomp list.set_intros(2) set_append)
  have "x \<in> set (ys @ xs)" using e by simp
  then show "x \<noteq> fd" using d f by auto
  from e consider us' where "ys = us @ x # us'" "vs = us' @ xs" | us' where "us = ys @ us'" "xs = us' @ x # vs"
  proof -
    obtain w where "ys = us @ w \<and> w @ xs = x # vs \<or> ys @ w = us \<and> xs = w @ x # vs"
      using e by (auto simp: append_eq_append_conv2)
    then show thesis
    proof
      assume a: "ys = us @ w \<and> w @ xs = x # vs"
      show thesis
      proof (cases w)
        case Nil
        then show thesis using a that(2) [of "[]"] by simp
      next
        case (Cons y w')
        then show thesis using a that(1) [of w'] by simp
      qed
    next
      assume "ys @ w = us \<and> xs = w @ x # vs"
      then have "us = ys @ w" "xs = w @ x # vs" by blast+
      then show thesis by (rule that(2))
    qed
  qed
  then show "ring_after x fds = vs @ fd # us"
  proof cases
    case (1 us')
    then have "fds = (xs @ fd # us) @ x # us'" by (simp add: f)
    then show ?thesis using ring_split [of "xs @ fd # us" x us'] d 1 by simp
  next
    case (2 us')
    then have "fds = us' @ x # (vs @ fd # ys)" by (simp add: f)
    then show ?thesis using ring_split [of us' x "vs @ fd # ys"] d 2 by simp
  qed
qed

lemma next_spec_reaches:
  assumes "distinct fds" and "fd \<in> set fds" and "q \<in> set fds" and "q \<noteq> fd" and "waiting q"
  shows "\<exists>k \<le> length (takeWhile (\<lambda>x. x \<noteq> q) (ring_after fd fds)). ((\<lambda>x. next_spec waiting x fds) ^^ Suc k) fd = q"
  using assms
proof (induction "length (takeWhile (\<lambda>x. x \<noteq> q) (ring_after fd fds))" arbitrary: fd rule: less_induct)
  case less
  obtain xs ys where f: "fds = xs @ fd # ys" using less.prems(2) by (meson split_list)
  have r: "ring_after fd fds = ys @ xs" using ring_split less.prems(1) f by simp
  have "q \<in> set (ring_after fd fds)" using less.prems(3,4) f r by auto
  then obtain x where x: "find (\<lambda>x. x \<noteq> fd \<and> waiting x) (ring_after fd fds) = Some x"
    using less.prems(4,5) by (cases "find (\<lambda>x. x \<noteq> fd \<and> waiting x) (ring_after fd fds)") (auto simp: find_None_iff)
  then obtain us vs where uv: "ring_after fd fds = us @ x # vs" "\<forall>u \<in> set us. \<not> (u \<noteq> fd \<and> waiting u)"
    using find_split [OF x] by blast
  have nx: "next_spec waiting fd fds = x" using x by (simp add: next_spec_def)
  note st = ring_step [OF less.prems(1,2) uv(1)]
  show ?case
  proof (cases "x = q")
    case True
    with nx show ?thesis by (intro exI [of _ 0]) simp
  next
    case False
    have qus: "q \<notin> set us" using uv(2) less.prems(4,5) by auto
    have "q \<in> set vs" using \<open>q \<in> set (ring_after fd fds)\<close> uv(1) qus False by auto
    then have l1: "takeWhile (\<lambda>x. x \<noteq> q) (ring_after x fds) = takeWhile (\<lambda>x. x \<noteq> q) vs"
      unfolding st(1) by (rule takeWhile_append1) simp
    have l2: "takeWhile (\<lambda>x. x \<noteq> q) (ring_after fd fds) = us @ x # takeWhile (\<lambda>x. x \<noteq> q) vs"
    proof -
      have "\<forall>u \<in> set us. u \<noteq> q" using qus by auto
      then show ?thesis unfolding uv(1) using False by (simp add: takeWhile_append2)
    qed
    have "length (takeWhile (\<lambda>x. x \<noteq> q) (ring_after x fds)) < length (takeWhile (\<lambda>x. x \<noteq> q) (ring_after fd fds))"
      by (simp add: l1 l2)
    from less.hyps [OF this less.prems(1) st(2) less.prems(3) _ less.prems(5)] False
    obtain k where k: "k \<le> length (takeWhile (\<lambda>x. x \<noteq> q) (ring_after x fds))"
      "((\<lambda>x. next_spec waiting x fds) ^^ Suc k) x = q" by auto
    have "((\<lambda>x. next_spec waiting x fds) ^^ Suc (Suc k)) fd = q"
      using k(2) nx by (simp only: funpow_Suc_right o_apply)
    then show ?thesis using k(1) l1 l2 by (intro exI [of _ "Suc k"]) simp
  qed
qed

section \<open>Properties\<close>

text \<open>Claim C8. In every reachable state a producer is watched for input only while its channel is not
  held and the turn is its own or everybody's; and when its watcher fires after the permission
  was taken away, nothing is read: the only effect is that the watcher is stopped.\<close>

theorem producers_respect_turn:
  assumes "reachable proc r" and "proc_keeps proc" and "p \<in> set (producers r ch)"
  shows "(prd_w p \<longrightarrow> \<not> hold r ch \<and> (turn r ch = -1 \<or> turn r ch = prd_fd p)) \<and>
    (producers r ch ! i = p \<and> (hold r ch \<or> turn r ch \<noteq> -1 \<and> turn r ch \<noteq> prd_fd p) \<longrightarrow>
      producer_cb proc ch i res r = stop_producer ch i r)"
proof -
  have "prd_channel p = ch"
    using reachable_ok [OF assms(1,2)] assms(3) by (auto simp: router_ok_def prds_ok_def prd_ok_def)
  moreover have "prd_w p \<longrightarrow> producer_may_read r p"
    using reachable_watch [OF assms(1,2)] assms(3) by (auto simp: watch_ok_def)
  ultimately show ?thesis
    by (auto simp: producer_may_read_def Let_def producer_cb_def)
qed

text \<open>Claim C9. The round robin is fair: while a producer has data waiting, passing the turn on from any
  other producer of the channel reaches it after at most as many steps as the channel has
  producers.\<close>

theorem next_producer_fair:
  assumes "in_range ch" and "distinct (map prd_fd (producers r ch))"
    and "fd \<in> set (map prd_fd (producers r ch))" and "q \<in> set (map prd_fd (producers r ch))"
    and "q \<noteq> fd" and "waiting q"
  shows "\<exists>k. 0 < k \<and> k \<le> length (producers r ch) \<and> (mhr_next_waiting_producer r waiting ch ^^ k) fd = q"
proof -
  let ?fds = "map prd_fd (producers r ch)"
  have eq: "mhr_next_waiting_producer r waiting ch = (\<lambda>x. next_spec waiting x ?fds)"
    using next_waiting_spec [OF assms(1)] by (intro ext) simp
  obtain k where k: "k \<le> length (takeWhile (\<lambda>x. x \<noteq> q) (ring_after fd ?fds))"
    "(mhr_next_waiting_producer r waiting ch ^^ Suc k) fd = q"
    using next_spec_reaches [where waiting = waiting, OF assms(2-6)] unfolding eq by blast
  obtain xs ys where f: "?fds = xs @ fd # ys" using assms(3) by (meson split_list)
  have "length (ring_after fd ?fds) < length (producers r ch)"
  proof -
    have "length (producers r ch) = length xs + Suc (length ys)" using arg_cong [OF f, of length] by simp
    then show ?thesis using ring_split [of xs fd ys] assms(2) f by simp
  qed
  then have "Suc k \<le> length (producers r ch)"
    using k(1) length_takeWhile_le [of "\<lambda>x. x \<noteq> q" "ring_after fd ?fds"] by linarith
  with k(2) show ?thesis by blast
qed

text \<open>The producer that is chosen is the first one with data waiting behind the current one in
  the channel's list, read as a ring, never the current one, and \<^verbatim>\<open>-1\<close> if there is none.\<close>

theorem next_producer_ring:
  assumes "in_range ch"
  shows "mhr_next_waiting_producer r waiting ch fd =
    (case find (\<lambda>x. x \<noteq> fd \<and> waiting x) (ring_after fd (map prd_fd (producers r ch))) of Some x \<Rightarrow> x | None \<Rightarrow> -1)"
  using next_waiting_spec [OF assms] by (simp add: next_spec_def)

section \<open>A router with two connectors\<close>

definition no_proc :: "cb \<Rightarrow> user \<Rightarrow> buffer \<Rightarrow> buffer" where
  "no_proc c u b = b"

lemma no_proc_keeps [simp]: "proc_keeps no_proc"
  by (simp add: proc_keeps_def no_proc_def)

definition two_connectors :: "channel \<Rightarrow> router" where
  "two_connectors ch =
     mhr_set_producer_turn
       (mhr_add_endpoint_fd (mhr_add_endpoint_fd (mhr_set_keyer_fd (mhr_create ''K'' True) 3) 5 ch None) 6 ch None) ch 5"

lemma two_connectors_reachable: "reachable no_proc (two_connectors ch)"
  unfolding two_connectors_def mhr_add_endpoint_fd_def
  by (intro reachable.step [OF _ turn] reachable.step [OF _ add_producer] reachable.step [OF _ add_consumer]
      reachable.step [OF _ keyer_fd] reachable.create)

text \<open>The keyer coming online with no connectors registered.\<close>

lemma online_fresh:
  "fd \<noteq> -1 \<Longrightarrow> mhr_set_keyer_fd (mhr_create ser fl) fd = (mhr_create ser fl)\<lparr>rtr_fd := fd, w_in := True\<rparr>"
proof -
  assume fd: "fd \<noteq> -1"
  define b where "b = (mhr_create ser fl)\<lparr>rtr_fd := fd, w_in := True\<rparr>"
  have "map_producers ch f b = b" for ch f
    by (simp add: map_producers_def mhr_create_def b_def fun_eq_iff)
  then have "fold (\<lambda>ch r. map_producers ch (f r) r) chs b = b" for f chs
    by (induction chs) simp_all
  then have sw: "switch_producer_events True b = b" by (simp add: switch_producer_events_def)
  have lg: "emit (status_events b st) b = b" for st by (simp add: b_def emit_def status_events_def mhr_create_def)
  have "(mhr_create ser fl)\<lparr>rtr_fd := fd, w_in := True, w_out := False\<rparr> = b"
    by (simp add: b_def mhr_create_def)
  moreover have "rtr_fd (mhr_create ser fl) = -1" by (simp add: mhr_create_def)
  ultimately have "mhr_set_keyer_fd (mhr_create ser fl) fd = emit (status_events b MHROUTER_CONNECTED) b"
    using fd sw by (simp add: mhr_set_keyer_fd_def Let_def)
  then show ?thesis unfolding lg unfolding b_def .
qed

lemma mhr_create_sel:
  "consumers (mhr_create ser fl) = (\<lambda>_. [])" "producers (mhr_create ser fl) = (\<lambda>_. [])"
  "consumer_cbs (mhr_create ser fl) = (\<lambda>_. [])" "channel_buf_out (mhr_create ser fl) = (\<lambda>_. buf_alloc)"
  "lbs (mhr_create ser fl) = (\<lambda>_. \<lparr>lb_bps = 0, lb_ival = 0, lb_avail = 0, lb_timer = False\<rparr>)"
  "rbuf_in (mhr_create ser fl) = buf_alloc" "rbuf_out (mhr_create ser fl) = buf_alloc"
  "rdmx (mhr_create ser fl) = Demux.dmx_create" "hold (mhr_create ser fl) = (\<lambda>_. False)" "turn (mhr_create ser fl) = (\<lambda>_. -1)"
  "intercept (mhr_create ser fl) = (\<lambda>_. False)" "has_flags_channel (mhr_create ser fl) = fl" "wk_tx_focus (mhr_create ser fl) = 0"
  "events (mhr_create ser fl) = []"
  by (simp_all add: mhr_create_def)

lemmas connector_defs = mhr_create_sel Let_def map_producers_def set_lb_def mhr_add_endpoint_fd_def mhr_add_producer_def mhr_add_consumer_def may_register_def in_range_def
  mhr_set_producer_turn_def update_producers_def producer_may_read_def mhr_set_bps_limit_def

lemma two_connectors_producers:
  "producers (two_connectors MH_CHANNEL_R1) MH_CHANNEL_R1 =
     [\<lparr>prd_fd = 5, prd_tag = None, prd_owner = True, prd_w = True, prd_channel = MH_CHANNEL_R1, prd_mask = 0\<rparr>,
      \<lparr>prd_fd = 6, prd_tag = None, prd_owner = True, prd_w = False, prd_channel = MH_CHANNEL_R1, prd_mask = 0\<rparr>] \<and>
   turn (two_connectors MH_CHANNEL_R1) MH_CHANNEL_R1 = 5"
  by (simp add: two_connectors_def online_fresh connector_defs)

theorem producers_respect_turn_witness:
  "producer_cb no_proc MH_CHANNEL_R1 1 (RdBytes [1, 2]) (two_connectors MH_CHANNEL_R1) =
     stop_producer MH_CHANNEL_R1 1 (two_connectors MH_CHANNEL_R1) \<and>
   \<not> prd_w (producers (two_connectors MH_CHANNEL_R1) MH_CHANNEL_R1 ! 1)"
proof -
  let ?r = "two_connectors MH_CHANNEL_R1"
  have "producers ?r MH_CHANNEL_R1 ! 1 \<in> set (producers ?r MH_CHANNEL_R1)"
    using two_connectors_producers by simp
  from producers_respect_turn [OF two_connectors_reachable no_proc_keeps this] show ?thesis
    using two_connectors_producers by simp
qed

theorem next_producer_fair_witness:
  "\<exists>k. 0 < k \<and> k \<le> 2 \<and> (mhr_next_waiting_producer (two_connectors MH_CHANNEL_R1) (\<lambda>_. True) MH_CHANNEL_R1 ^^ k) 5 = 6"
proof -
  let ?r = "two_connectors MH_CHANNEL_R1"
  have "in_range MH_CHANNEL_R1" "distinct (map prd_fd (producers ?r MH_CHANNEL_R1))" "5 \<in> set (map prd_fd (producers ?r MH_CHANNEL_R1))"
    "6 \<in> set (map prd_fd (producers ?r MH_CHANNEL_R1))" "6 \<noteq> (5 :: fd)" "(\<lambda>_ :: fd. True) 6"
    using two_connectors_producers by (simp_all add: in_range_def)
  from next_producer_fair [OF this] show ?thesis using two_connectors_producers by (simp add: numeral_2_eq_2)
qed

theorem next_producer_ring_witness:
  "mhr_next_waiting_producer (two_connectors MH_CHANNEL_R1) (\<lambda>_. True) MH_CHANNEL_R1 6 = 5"
  using next_producer_ring [of MH_CHANNEL_R1 "two_connectors MH_CHANNEL_R1" "\<lambda>_. True" 6] two_connectors_producers
  by (simp add: in_range_def ring_after_def)

end
