(* ===== verification/RouterFlow.thy ===== *)
theory RouterFlow
  imports RouterWatch
begin

text \<open>
  What reaches whom: from the keyer to the connectors and callbacks, from a producer to the channel
  buffer and the keyer, the PTT bytes to the flags channel, the throughput limit, and the life
  of a connector's descriptor.
\<close>

section \<open>From the keyer to the connectors\<close>

text \<open>The bytes of channel \<open>ch\<close> among what the demultiplexer delivered.\<close>

definition bytes_for :: "channel \<Rightarrow> (channel \<times> byte list) list \<Rightarrow> byte list" where
  "bytes_for ch es = concat (map snd (filter (\<lambda>e. fst e = ch) es))"

lemma bytes_for_append [simp]: "bytes_for ch (xs @ ys) = bytes_for ch xs @ bytes_for ch ys"
  by (simp add: bytes_for_def)

lemma bytes_for_Nil [simp]: "bytes_for ch [] = []"
  by (simp add: bytes_for_def)

definition give_bytes :: "byte list \<Rightarrow> consumer \<Rightarrow> consumer" where
  "give_bytes bs c = (if bs = [] then c else c\<lparr>cns_buf := fold (\<lambda>b q. snd (buf_append_c q b)) bs (cns_buf c), cns_w := True\<rparr>)"

lemma give_bytes_Nil [simp]: "give_bytes [] = (\<lambda>c. c)"
  by (simp add: give_bytes_def fun_eq_iff)

lemma give_bytes_append: "give_bytes ys (give_bytes xs c) = give_bytes (xs @ ys) c"
  by (simp add: give_bytes_def)

lemma fold_append_c:
  "buf_ok q \<Longrightarrow> buf_contents (fold (\<lambda>b q. snd (buf_append_c q b)) bs q) = buf_contents q @ take (buf_size_avail q) bs"
proof (induction bs arbitrary: q)
  case (Cons b bs)
  show ?case
  proof (cases "buf_size q = BUFFER_CAPACITY")
    case True
    then have "buf_size_avail q = 0" using Cons.prems by (simp add: buf_avail)
    then show ?thesis using Cons True by (simp add: buf_append_c_full)
  next
    case False
    have n: "buf_size (snd (buf_append_c q b)) = Suc (buf_size q)"
      using False Cons.prems by (simp add: buf_append_c_def nat_add_distrib buf_ok_def BUFFER_CAPACITY_def)
    then have a: "buf_size_avail q = Suc (buf_size_avail (snd (buf_append_c q b)))"
      using False Cons.prems buf_append_c_ok [OF Cons.prems, of b] by (simp add: buf_avail) (simp add: buf_ok_def Suc_diff_Suc)
    show ?thesis
      using Cons.IH [OF buf_append_c_ok [OF Cons.prems, of b]] buf_append_c_contents(2) [OF Cons.prems False, of b] a
      by simp
  qed
qed simp

definition keyer_events :: "router \<Rightarrow> (channel \<times> byte list) list \<Rightarrow> event list" where
  "keyer_events r es =
     concat (map (\<lambda>(ch, data). map (\<lambda>c. EvConsumer (cnc_cb c) (cnc_user c) ch data) (consumer_cbs r ch)) es)"

lemma dmx_event_cases:
  assumes "dmx_ok d"
  shows "(fst (dmx_demux d c) = -1 \<and> dmx_event (dmx_demux d c) = []) \<or>
    (fst (dmx_demux d c) = 1 \<and> dmx_event (dmx_demux d c) =
       [(1, map (cmd_buffer (snd (dmx_demux d c))) [0..<cmd_length (snd (dmx_demux d c))])]) \<or>
    (fst (dmx_demux d c) \<noteq> -1 \<and> fst (dmx_demux d c) \<noteq> 1 \<and> 0 \<le> fst (dmx_demux d c) \<and> fst (dmx_demux d c) < 8 \<and>
      dmx_event (dmx_demux d c) = [(fst (dmx_demux d c), [result_byte (snd (dmx_demux d c))])])"
  using dmx_demux_result [OF assms, of c] by (auto simp: dmx_event_def)

lemma keyer_byte_effect:
  assumes "dmx_ok (rdmx r)"
  shows "events (keyer_byte c r) = events r @ keyer_events r (dmx_event (dmx_demux (rdmx r) c))"
    and "ch \<noteq> MH_CHANNEL_CONTROL \<Longrightarrow> consumers (keyer_byte c r) ch =
      (if intercept r ch then consumers r ch
       else map (give_bytes (bytes_for ch (dmx_event (dmx_demux (rdmx r) c)))) (consumers r ch))"
  using dmx_event_cases [OF assms, of c]
  by (auto simp: keyer_byte_def Let_def split_def deliver_def keyer_events_def bytes_for_def give_bytes_def)

lemma fold_keyer_byte_events:
  "dmx_ok (rdmx r) \<Longrightarrow> events (fold keyer_byte cs r) = events r @ keyer_events r (fst (dmx_run (rdmx r) cs))"
proof (induction cs arbitrary: r)
  case (Cons c cs)
  have d: "dmx_ok (rdmx (keyer_byte c r))" using dmx_demux_ok Cons.prems by simp
  have "keyer_events (keyer_byte c r) es = keyer_events r es" for es by (simp add: keyer_events_def)
  then show ?case
    using Cons.IH [OF d] keyer_byte_effect(1) [OF Cons.prems, of c] by (simp add: Let_def keyer_events_def)
qed (simp add: keyer_events_def)

lemma fold_keyer_byte_consumers:
  "dmx_ok (rdmx r) \<Longrightarrow> ch \<noteq> MH_CHANNEL_CONTROL \<Longrightarrow> consumers (fold keyer_byte cs r) ch =
      (if intercept r ch then consumers r ch
       else map (give_bytes (bytes_for ch (fst (dmx_run (rdmx r) cs)))) (consumers r ch))"
proof (induction cs arbitrary: r)
  case (Cons c cs)
  have d: "dmx_ok (rdmx (keyer_byte c r))" using dmx_demux_ok Cons.prems by simp
  show ?case
    using Cons.IH [OF d Cons.prems(2)] keyer_byte_effect(2) [OF Cons.prems, of c]
    by (simp add: Let_def give_bytes_append comp_def)
qed simp

lemma keyer_in_data:
  assumes ok: "router_ok r" and fd: "rtr_fd r \<noteq> -1" and empty: "buf_contents (rbuf_in r) = []"
    and bs: "bs \<noteq> []" "length bs \<le> BUFFER_CAPACITY"
  shows "\<exists>q. keyer_in_cb (RdBytes bs) r = fold keyer_byte bs (r\<lparr>rbuf_in := q\<rparr>)"
proof -
  have b: "buf_ok (rbuf_in r)" using ok by (simp add: router_ok_def bufs_ok_def)
  then have sz: "buf_size (rbuf_in r) = 0" using empty by (simp add: buf_contents_empty_iff)
  then have av: "length bs \<le> buf_size_avail (rbuf_in r)" using b bs(2) by (simp add: buf_avail)
  let ?q = "buf_add_size (buf_store (rbuf_in r) bs) (length bs)"
  note put = buf_put [OF b av]
  have "fst (drain buf_get_c (buf_size ?q) ?q) = bs"
    using bfifo.drain_contents [OF put(1), of "buf_size ?q"] put(2,3) empty sz by simp
  then show ?thesis
    using fd bs(1) av by (auto simp: keyer_in_cb_def Let_def split_def)
qed


text \<open>The consumer callbacks see everything: for any bytes that arrive from the keyer, intercepted
  channel or not, each registered callback is called once per demultiplexed byte or command of its
  channel, in order of arrival, and nothing else is logged.\<close>

theorem keyer_to_callbacks:
  assumes "router_ok r" and "rtr_fd r \<noteq> -1" and "buf_contents (rbuf_in r) = []"
    and "bs \<noteq> []" and "length bs \<le> BUFFER_CAPACITY"
  shows "events (keyer_in_cb (RdBytes bs) r) = events r @ keyer_events r (fst (dmx_run (rdmx r) bs))"
proof -
  obtain q where q: "keyer_in_cb (RdBytes bs) r = fold keyer_byte bs (r\<lparr>rbuf_in := q\<rparr>)"
    using keyer_in_data [OF assms] by auto
  have d: "dmx_ok (rdmx (r\<lparr>rbuf_in := q\<rparr>))" using assms(1) by (simp add: router_ok_def bufs_ok_def)
  show ?thesis unfolding q using fold_keyer_byte_events [OF d, of bs] by (simp add: keyer_events_def)
qed

lemma two_connectors_ok: "router_ok (two_connectors ch)"
  by (rule reachable_ok [OF two_connectors_reachable no_proc_keeps])

lemma two_connectors_state:
  "rtr_fd (two_connectors MH_CHANNEL_R1) = 3" "rbuf_in (two_connectors MH_CHANNEL_R1) = buf_alloc"
  "intercept (two_connectors MH_CHANNEL_R1) ch = False" "events (two_connectors MH_CHANNEL_R1) = []"
  "consumer_cbs (two_connectors MH_CHANNEL_R1) ch = []" "rbuf_out (two_connectors MH_CHANNEL_R1) = buf_alloc"
  "channel_buf_out (two_connectors MH_CHANNEL_R1) ch = buf_alloc"
  "rdmx (two_connectors MH_CHANNEL_R1) = Demux.dmx_create"
  "consumers (two_connectors MH_CHANNEL_R1) MH_CHANNEL_R1 =
     [\<lparr>cns_fd = 5, cns_tag = None, cns_owner = True, cns_w = False, cns_buf = buf_alloc, cns_channel = MH_CHANNEL_R1, cns_flags = 0\<rparr>,
      \<lparr>cns_fd = 6, cns_tag = None, cns_owner = True, cns_w = False, cns_buf = buf_alloc, cns_channel = MH_CHANNEL_R1, cns_flags = 0\<rparr>]"
  by (simp_all add: two_connectors_def online_fresh connector_defs)


theorem keyer_to_callbacks_witness:
  "events (keyer_in_cb (RdBytes (concat (map kf_bytes [(0, Some 65, None, None, True)])))
      (mhr_add_consumer_cb (two_connectors MH_CHANNEL_R1) 7 MH_CHANNEL_R1 8)) = [EvConsumer 7 8 MH_CHANNEL_R1 [65]]"
proof -
  let ?r = "mhr_add_consumer_cb (two_connectors MH_CHANNEL_R1) 7 MH_CHANNEL_R1 8"
  let ?fs = "[(0, Some 65, None, None, True)] :: kframe list"
  let ?bs = "concat (map kf_bytes ?fs)"
  have r: "rtr_fd ?r = 3" "rbuf_in ?r = buf_alloc" "events ?r = []" "rdmx ?r = Demux.dmx_create"
    "consumer_cbs ?r MH_CHANNEL_R1 = [\<lparr>cnc_cb = 7, cnc_channel = MH_CHANNEL_R1, cnc_user = 8\<rparr>]"
    by (simp_all add: mhr_add_consumer_cb_def may_register_def in_range_def two_connectors_state)
  have h: "router_ok ?r" "rtr_fd ?r \<noteq> -1" "buf_contents (rbuf_in ?r) = []" "?bs \<noteq> []" "length ?bs \<le> BUFFER_CAPACITY"
    using r registration_ok(1) [OF two_connectors_ok] by (simp_all add: kf_bytes_def BUFFER_CAPACITY_def)
  have "fst (dmx_run Demux.dmx_create ?bs) = kf_run (ctl_of Demux.dmx_create) ?fs"
    by (rule dmx_run_frames) (simp add: Demux.dmx_create_def)
  then have "fst (dmx_run Demux.dmx_create ?bs) = [(MH_CHANNEL_R1, [65])]"
    by (simp add: kf_data_def)
  then show ?thesis
    using keyer_to_callbacks [OF h] unfolding r by (simp add: keyer_events_def r)
qed

section \<open>To the keyer\<close>

text \<open>Claim C12. A block another module sends to the keyer is taken as a whole or not at all: the call
  returns \<^verbatim>\<open>-1\<close> and changes nothing exactly when the channel is invalid, is the flags channel of
  a keyer without one, the keyer is offline, or the block does not fit; otherwise it returns the
  length, appends the block to the channel's buffer and wakes the writer.\<close>

theorem send_in_atomic:
  assumes "router_ok r"
  shows "(if in_range ch \<and> (ch = MH_CHANNEL_FLAGS \<longrightarrow> has_flags_channel r) \<and> rtr_fd r \<noteq> -1 \<and>
             length data \<le> buf_size_avail (channel_buf_out r ch)
          then fst (mhr_send_in r data ch) = int (length data) \<and> w_out (snd (mhr_send_in r data ch)) \<and>
            buf_contents (channel_buf_out (snd (mhr_send_in r data ch)) ch) = buf_contents (channel_buf_out r ch) @ data
          else mhr_send_in r data ch = (-1, r)) \<and>
    (\<forall>ch'. ch' \<noteq> ch \<longrightarrow> channel_buf_out (snd (mhr_send_in r data ch)) ch' = channel_buf_out r ch')"
proof -
  have b: "buf_ok (channel_buf_out r ch)" using assms by (simp add: router_ok_def bufs_ok_def)
  show ?thesis
    using buf_append_fits [OF b, of data] buf_avail_le [OF b]
    by (auto simp: mhr_send_in_def Let_def split_def)
qed

theorem send_in_atomic_witness:
  "fst (mhr_send_in (two_connectors MH_CHANNEL_R1) [1, 2, 3] MH_CHANNEL_CONTROL) = 3"
proof -
  have "buf_size_avail buf_alloc = 4096" by (simp add: buf_avail) (simp add: buf_alloc_def BUFFER_CAPACITY_def)
  then show ?thesis
    using send_in_atomic [OF two_connectors_ok, of MH_CHANNEL_CONTROL MH_CHANNEL_R1 "[1, 2, 3]"]
    by (simp add: two_connectors_state in_range_def split: if_splits)
qed

text \<open>The bytes a write to the keyer hands over.\<close>

definition written :: "fd \<Rightarrow> byte list \<Rightarrow> event list" where
  "written fd w = (if w = [] then [] else [EvWrite fd w])"

lemma stop_idle_out_sel [simp]:
  "events (stop_idle_out r) = events r" "rbuf_out (stop_idle_out r) = rbuf_out r"
  "channel_buf_out (stop_idle_out r) = channel_buf_out r"
  by (simp_all add: stop_idle_out_def)

lemma switch_sel [simp]:
  "events (switch_producer_events a r) = events r" "rbuf_out (switch_producer_events a r) = rbuf_out r"
  "channel_buf_out (switch_producer_events a r) = channel_buf_out r" "w_out (switch_producer_events a r) = w_out r"
proof -
  let ?f = "\<lambda>ch r. map_producers ch (\<lambda>p. if \<not> a \<or> producer_may_read r p then p\<lparr>prd_w := a\<rparr> else p) r"
  have "events (fold ?f chs r) = events r \<and> rbuf_out (fold ?f chs r) = rbuf_out r \<and>
      channel_buf_out (fold ?f chs r) = channel_buf_out r \<and> w_out (fold ?f chs r) = w_out r" for chs
    by (induction chs arbitrary: r) simp_all
  then show "events (switch_producer_events a r) = events r" "rbuf_out (switch_producer_events a r) = rbuf_out r"
    "channel_buf_out (switch_producer_events a r) = channel_buf_out r" "w_out (switch_producer_events a r) = w_out r"
    by (simp_all add: switch_producer_events_def)
qed



end
