(* ===== verification/RouterPtt.thy ===== *)
theory RouterPtt
  imports RouterFlow
begin

text \<open>
  PTT, throughput and the life of a connector: who keys which radio, how many bytes a limited
  channel lets through, and when a descriptor is closed.
\<close>

section \<open>Keying\<close>

text \<open>Claim C1. In every reachable state the flags byte keys exactly the radios some producer of a PTT
  channel holds: a bit is set if and only if a registered producer holds it, so a producer that
  releases PTT or goes away unkeys a radio only if no other producer keys it, and no radio stays
  keyed that nobody holds; while the keyer is offline nothing is keyed.\<close>

theorem ptt_flags_exact:
  assumes "reachable proc r" and "proc_keeps proc"
  shows "(bit (wflag r) n \<longleftrightarrow> (\<exists>ch p. ch_is_ptt_channel ch \<and> p \<in> set (producers r ch) \<and> bit (prd_mask p) n)) \<and>
    (rtr_fd r = -1 \<longrightarrow> wflag r = 0) \<and>
    (\<forall>ch p. p \<in> set (producers r ch) \<longrightarrow> prd_mask p \<in> {0, MHC2DFL_PTT_R1, MHC2DFL_PTT_R2})"
proof -
  have ok: "router_ok r" by (rule reachable_ok [OF assms])
  then have "wflag r = held_ptt r" "rtr_fd r = -1 \<longrightarrow> held_ptt r = 0" by (simp_all add: router_ok_def ptt_ok_def)
  moreover have "p \<in> set (producers r ch) \<Longrightarrow> prd_mask p \<in> {0, 4, 8}" for p ch
    using ok by (simp add: router_ok_def prds_ok_def prd_ok_def)
  ultimately show ?thesis using held_ptt_bits [of r n] by (simp add: keyed_def)
qed

text \<open>What a block of PTT bytes does to the producer that sends it.\<close>

definition valid_ptt :: "byte list \<Rightarrow> byte list" where
  "valid_ptt bs = filter (\<lambda>c. c = PTT_ON_BYTE \<or> c = PTT_OFF_BYTE) bs"

definition ptt_after :: "byte \<Rightarrow> byte list \<Rightarrow> byte \<Rightarrow> byte" where
  "ptt_after radio bs held =
     (case valid_ptt bs of [] \<Rightarrow> held | vs \<Rightarrow> (if last vs = PTT_ON_BYTE then radio else 0))"

lemma ptt_bytes_after: "ptt_bytes (Some m) bs held False = (ptt_after m bs held, valid_ptt bs \<noteq> [])"
  by (simp add: ptt_bytes_last ptt_after_def valid_ptt_def split: list.split)

lemma process_ptt_effect:
  assumes ok: "router_ok r" and i: "i < length (producers r ch)" and m: "ptt_radio ch (wk_tx_focus r) = Some m"
    and ne: "buf_contents (channel_buf_out r ch) \<noteq> []"
  shows "producers (process_ptt_producer ch i r) ch =
      (producers r ch)[i := (producers r ch ! i)\<lparr>prd_mask := ptt_after m (buf_contents (channel_buf_out r ch)) (prd_mask (producers r ch ! i))\<rparr>]"
    and "ch' \<noteq> ch \<Longrightarrow> producers (process_ptt_producer ch i r) ch' = producers r ch'"
    and "\<exists>r1. (\<forall>c. c \<noteq> ch \<longrightarrow> channel_buf_out r1 c = channel_buf_out r c) \<and> rtr_fd r1 = rtr_fd r \<and>
      has_flags_channel r1 = has_flags_channel r \<and> buf_contents (channel_buf_out r1 ch) = [] \<and>
      process_ptt_producer ch i r =
        (if valid_ptt (buf_contents (channel_buf_out r ch)) \<noteq> [] then push_ptt r1 else r1)"
proof -
  let ?b = "channel_buf_out r ch" and ?p = "producers r ch ! i"
  have b: "buf_ok ?b" using ok by (simp add: router_ok_def bufs_ok_def)
  have c: "prd_channel ?p = ch" using nth_prd_ok [OF ok i] by (simp add: prd_ok_def)
  have sz: "buf_size ?b \<noteq> 0" using b ne by (simp add: buf_contents_empty_iff)
  have dr: "fst (drain buf_get_c (buf_size ?b) ?b) = buf_contents ?b"
    and de: "buf_contents (snd (drain buf_get_c (buf_size ?b) ?b)) = []"
    using bfifo.drain_contents [OF b, of "buf_size ?b"] by (simp_all add: length_buf_contents)
  define r1 where "r1 = (set_buf ch (snd (drain buf_get_c (buf_size ?b) ?b)) r)
      \<lparr>producers := (producers r)(ch := (producers r ch)[i := ?p\<lparr>prd_mask := ptt_after m (buf_contents ?b) (prd_mask ?p)\<rparr>])\<rparr>"
  have eq: "process_ptt_producer ch i r = (if valid_ptt (buf_contents ?b) \<noteq> [] then push_ptt r1 else r1)"
    unfolding process_ptt_producer_def Let_def split_def r1_def c m dr ptt_bytes_after using sz by simp
  show "producers (process_ptt_producer ch i r) ch =
      (producers r ch)[i := ?p\<lparr>prd_mask := ptt_after m (buf_contents ?b) (prd_mask ?p)\<rparr>]"
    unfolding eq by (simp add: r1_def)
  show "ch' \<noteq> ch \<Longrightarrow> producers (process_ptt_producer ch i r) ch' = producers r ch'"
    unfolding eq by (simp add: r1_def)
  show "\<exists>r1. (\<forall>c. c \<noteq> ch \<longrightarrow> channel_buf_out r1 c = channel_buf_out r c) \<and> rtr_fd r1 = rtr_fd r \<and>
      has_flags_channel r1 = has_flags_channel r \<and> buf_contents (channel_buf_out r1 ch) = [] \<and>
      process_ptt_producer ch i r =
        (if valid_ptt (buf_contents (channel_buf_out r ch)) \<noteq> [] then push_ptt r1 else r1)"
    by (rule exI [of _ r1]) (simp add: eq, simp add: r1_def de)
qed

lemma push_ptt_sends:
  assumes "has_flags_channel r" and "rtr_fd r \<noteq> -1" and "buf_ok (channel_buf_out r MH_CHANNEL_FLAGS)"
    and "1 \<le> buf_size_avail (channel_buf_out r MH_CHANNEL_FLAGS)"
  shows "buf_contents (channel_buf_out (push_ptt r) MH_CHANNEL_FLAGS) =
    buf_contents (channel_buf_out r MH_CHANNEL_FLAGS) @ [wflag (push_ptt r)]"
  using assms buf_append_fits(3) [OF assms(3), of "[(wflag r AND NOT PTT_FLAGS) OR held_ptt r]"]
  by (simp add: push_ptt_def Let_def mhr_send_in_def in_range_def split_def BUFFER_CAPACITY_def)

lemma producer_data_frame [simp]:
  "producers (set_lb c lb r) = producers r" "wflag (r\<lparr>w_out := x\<rparr>) = wflag r"
  by simp_all

text \<open>Claim C4. A producer of a PTT channel keys and unkeys by its bytes: after a read that it may do, the
  last valid byte decides whether it holds the radio of its channel (with the focus deciding for
  the focus channel) or none, no other producer changes, and if there was a valid byte the new
  flags byte is queued once for the keyer, also when it did not change.\<close>

theorem ptt_bytes_key:
  assumes ok: "router_ok r" and i: "i < length (producers r ch)" and m: "ptt_radio ch (wk_tx_focus r) = Some m"
    and may: "producer_may_read r (producers r ch ! i)" and fd: "rtr_fd r \<noteq> -1"
    and empty: "buf_contents (channel_buf_out r ch) = []"
    and bs: "bs \<noteq> []" "int (length bs) \<le> read_avail r ch"
    and fl: "has_flags_channel r" "1 \<le> buf_size_avail (channel_buf_out r MH_CHANNEL_FLAGS)"
  shows "producers (producer_cb proc ch i (RdBytes bs) r) ch =
      (producers r ch)[i := (producers r ch ! i)\<lparr>prd_mask := ptt_after m bs (prd_mask (producers r ch ! i))\<rparr>] \<and>
    buf_contents (channel_buf_out (producer_cb proc ch i (RdBytes bs) r) MH_CHANNEL_FLAGS) =
      buf_contents (channel_buf_out r MH_CHANNEL_FLAGS) @
      (if valid_ptt bs = [] then [] else [wflag (producer_cb proc ch i (RdBytes bs) r)])"
proof -
  let ?p = "producers r ch ! i" and ?b = "channel_buf_out r ch"
  have c: "prd_channel ?p = ch" using nth_prd_ok [OF ok i] by (simp add: prd_ok_def)
  have ptt: "ch_is_ptt_channel ch" "ch \<noteq> MH_CHANNEL_FLAGS"
    using m by (auto simp: ptt_radio_def ch_is_ptt_channel_def split: if_splits)
  have b: "buf_ok ?b" using ok by (simp add: router_ok_def bufs_ok_def)
  have fits: "length bs \<le> buf_size_avail ?b" using bs(2) by (simp add: read_avail_def Let_def split: if_splits)
  have av: "read_avail r ch \<noteq> 0" "take (nat (read_avail r ch)) bs = bs" using bs by auto
  define r1 where "r1 = set_buf ch (buf_add_size (buf_store ?b bs) (length bs)) r"
  define r2 where "r2 = (if lb_bps (lbs r1 ch) \<noteq> 0 then set_lb ch ((lbs r1 ch)\<lparr>lb_timer := True\<rparr>) r1 else r1)"
  have f2: "producers r2 = producers r" "rtr_fd r2 = rtr_fd r" "wk_tx_focus r2 = wk_tx_focus r" "has_flags_channel r2 = has_flags_channel r"
    "channel_buf_out r2 = (channel_buf_out r)(ch := buf_add_size (buf_store ?b bs) (length bs))"
    by (auto simp: r2_def r1_def)
  have c2: "buf_contents (channel_buf_out r2 ch) = bs"
    using buf_put(2) [OF b fits] empty f2(5) by simp
  have ok2: "router_ok r2"
  proof -
    have "router_ok r1" unfolding r1_def by (rule set_buf_ok [OF ok buf_put(1) [OF b fits]])
    moreover have "0 \<le> lb_avail (lbs r1 ch)" "lb_avail (lbs r1 ch) \<le> 22"
      using ok by (simp_all add: r1_def router_ok_def lbs_ok_def)
    ultimately show ?thesis by (simp add: r2_def set_lb_ok)
  qed
  have i2: "i < length (producers r2 ch)" and m2: "ptt_radio ch (wk_tx_focus r2) = Some m" and ne2: "buf_contents (channel_buf_out r2 ch) \<noteq> []"
    using i m bs(1) f2 c2 by simp_all
  note eff = process_ptt_effect [OF ok2 i2 m2 ne2]
  let ?r3 = "process_ptt_producer ch i r2"
  let ?r' = "producer_cb proc ch i (RdBytes bs) r"
  have r': "?r' = producer_data proc ch i bs r"
    using may fd av bs(1) by (simp add: producer_cb_def Let_def c)
  have same: "producers ?r' = producers ?r3" "wflag ?r' = wflag ?r3" "channel_buf_out ?r' MH_CHANNEL_FLAGS = channel_buf_out ?r3 MH_CHANNEL_FLAGS"
    unfolding r' producer_data_def Let_def r1_def [symmetric] r2_def [symmetric] using ptt by simp_all
  from eff(3) obtain r4 where r4: "\<forall>c. c \<noteq> ch \<longrightarrow> channel_buf_out r4 c = channel_buf_out r2 c" "rtr_fd r4 = rtr_fd r2"
    "has_flags_channel r4 = has_flags_channel r2" "?r3 = (if valid_ptt bs \<noteq> [] then push_ptt r4 else r4)"
    unfolding c2 by blast
  have f4: "channel_buf_out r4 MH_CHANNEL_FLAGS = channel_buf_out r MH_CHANNEL_FLAGS" using r4(1) f2(5) ptt by simp
  have okf: "buf_ok (channel_buf_out r MH_CHANNEL_FLAGS)" using ok by (simp add: router_ok_def bufs_ok_def)
  have "buf_contents (channel_buf_out ?r3 MH_CHANNEL_FLAGS) = buf_contents (channel_buf_out r MH_CHANNEL_FLAGS) @
      (if valid_ptt bs = [] then [] else [wflag ?r3])"
    using push_ptt_sends [of r4] r4 f4 okf fl fd f2 by auto
  then show ?thesis using eff(1) same by (simp add: f2(1) c2)
qed

section \<open>Throughput\<close>

text \<open>
  A run of timer ticks and readable events on one channel, and the number of bytes its producers
  got through.
\<close>

datatype lb_event = LbTick | LbRead nat rd_result

definition taken :: "channel \<Rightarrow> nat \<Rightarrow> rd_result \<Rightarrow> router \<Rightarrow> nat" where
  "taken ch i res r =
     (if producer_may_read r (producers r ch ! i) \<and> rtr_fd r \<noteq> -1
      then (case os_read (nat (read_avail r ch)) res of RdBytes bs \<Rightarrow> length bs | RdErr _ \<Rightarrow> 0) else 0)"

fun lb_run :: "(cb \<Rightarrow> user \<Rightarrow> buffer \<Rightarrow> buffer) \<Rightarrow> channel \<Rightarrow> lb_event list \<Rightarrow> router \<Rightarrow> nat" where
  "lb_run proc ch [] r = 0"
| "lb_run proc ch (LbTick # es) r = lb_run proc ch es (lb_cb ch r)"
| "lb_run proc ch (LbRead i res # es) r =
     (if i < length (producers r ch) then taken ch i res r + lb_run proc ch es (producer_cb proc ch i res r)
      else lb_run proc ch es r)"

lemma rem_producer_lbs [simp]: "lbs (mhr_rem_producer r fd ch) = lbs r"
  by (simp add: mhr_rem_producer_def Let_def split: option.split)

lemma producer_cb_lb:
  assumes ok: "router_ok r" and i: "i < length (producers r ch)" and bps: "lb_bps (lbs r ch) \<noteq> 0"
  shows "lb_bps (lbs (producer_cb proc ch i res r) ch) \<noteq> 0"
    and "int (taken ch i res r) + lb_avail (lbs (producer_cb proc ch i res r) ch) = lb_avail (lbs r ch)"
proof -
  have c: "prd_channel (producers r ch ! i) = ch" using nth_prd_ok [OF ok i] by (simp add: prd_ok_def)
  have data: "lb_bps (lbs (producer_data proc ch i bs r) ch) = lb_bps (lbs r ch)"
    "lb_avail (lbs (producer_data proc ch i bs r) ch) = lb_avail (lbs r ch) - int (length bs)" for bs
    using bps by (simp_all add: producer_data_def Let_def)
  have stop: "lbs (stop_producer ch i r) = lbs r" by (simp add: stop_producer_def)
  have err: "lbs (rem_endpoint_after_error fd ch' r) = lbs r" for fd ch' by (simp add: rem_endpoint_after_error_def)
  show "lb_bps (lbs (producer_cb proc ch i res r) ch) \<noteq> 0"
    using bps by (cases res) (auto simp: producer_cb_def Let_def c data stop err)
  show "int (taken ch i res r) + lb_avail (lbs (producer_cb proc ch i res r) ch) = lb_avail (lbs r ch)"
    by (cases res) (auto simp: producer_cb_def taken_def Let_def c data stop err)
qed

lemma lb_cb_lb:
  assumes "router_ok r" and "lb_bps (lbs r ch) \<noteq> 0"
  shows "lb_bps (lbs (lb_cb ch r) ch) \<noteq> 0" and "lb_avail (lbs (lb_cb ch r) ch) \<le> lb_avail (lbs r ch) + 20"
  using assms by (auto simp: lb_cb_def Let_def router_ok_def lbs_ok_def)

lemma lb_run_bound:
  "router_ok r \<Longrightarrow> lb_bps (lbs r ch) \<noteq> 0 \<Longrightarrow> proc_keeps proc \<Longrightarrow>
   int (lb_run proc ch es r) \<le> lb_avail (lbs r ch) + 20 * int (length (filter (\<lambda>e. e = LbTick) es))"
proof (induction proc ch es r rule: lb_run.induct)
  case (1 proc ch r)
  then show ?case by (simp add: router_ok_def lbs_ok_def)
next
  case (2 proc ch es r)
  then show ?case using lb_cb_ok [OF 2(2)] lb_cb_lb [OF 2(2,3)] by fastforce
next
  case (3 proc ch i res es r)
  then show ?case
    using producer_cb_ok [OF 3(3) _ 3(5), where i = i and ch = ch and res = res]
      producer_cb_lb [OF 3(3) _ 3(4), where i = i and proc = proc and res = res] by fastforce
qed

text \<open>Claim C7. A channel with a speed limit passes at most 20 bytes per timer interval, plus a carry-over
  of 2 at the start: in any run of timer ticks and readable events, whatever the producers send
  and however they share the channel.\<close>

theorem throughput_bounded:
  assumes "reachable proc r" and "proc_keeps proc" and "lb_bps (lbs r ch) \<noteq> 0"
  shows "lb_run proc ch es r \<le> 22 + 20 * length (filter (\<lambda>e. e = LbTick) es)"
proof -
  have ok: "router_ok r" by (rule reachable_ok [OF assms(1,2)])
  then have "lb_avail (lbs r ch) \<le> 22" by (simp add: router_ok_def lbs_ok_def)
  with lb_run_bound [OF ok assms(3,2), of es] show ?thesis by linarith
qed

section \<open>Closing descriptors\<close>

definition close_count :: "fd \<Rightarrow> router \<Rightarrow> nat" where
  "close_count fd r = length (filter (\<lambda>e. e = EvClose fd) (events r))"

lemma find_first_ex: "x \<in> set xs \<Longrightarrow> P x \<Longrightarrow> \<exists>y. find P xs = Some y \<and> P y"
  by (induction xs) auto

lemma remove_only: "length (filter P xs) = Suc 0 \<Longrightarrow> \<forall>x \<in> set (remove_first P xs). \<not> P x"
  using remove_first_filter [of P xs] by auto

lemma mem_filter_one: "length (filter P xs) = Suc 0 \<Longrightarrow> \<exists>x \<in> set xs. P x"
  by (cases "filter P xs") (auto simp: filter_eq_Cons_iff)

text \<open>A descriptor registered once as a producer and once as a consumer of a channel, as \<^verbatim>\<open>mhr_add_endpoint_fd\<close> does.\<close>

definition endpoint :: "router \<Rightarrow> fd \<Rightarrow> channel \<Rightarrow> bool" where
  "endpoint r fd ch \<longleftrightarrow> in_range ch \<and> 0 \<le> fd \<and>
     length (filter (\<lambda>p. prd_fd p = fd) (producers r ch)) = Suc 0 \<and>
     length (filter (\<lambda>c. cns_fd c = fd) (consumers r ch)) = Suc 0 \<and>
     (\<forall>p \<in> set (producers r ch). prd_fd p = fd \<longrightarrow> prd_owner p) \<and> (\<forall>c \<in> set (consumers r ch). cns_fd c = fd \<longrightarrow> cns_owner c)"

lemma rem_producer_lists:
  "in_range ch \<Longrightarrow> consumers (mhr_rem_producer r fd ch) = consumers r \<and>
   producers (mhr_rem_producer r fd ch) ch = remove_first (\<lambda>p. prd_fd p = fd) (producers r ch)"
  by (auto simp: mhr_rem_producer_def Let_def remove_first_None split: option.split)

lemma rem_consumer_lists:
  "in_range ch \<Longrightarrow> producers (mhr_rem_consumer r fd ch) = producers r \<and>
   consumers (mhr_rem_consumer r fd ch) ch = remove_first (\<lambda>c. cns_fd c = fd) (consumers r ch)"
  by (auto simp: mhr_rem_consumer_def Let_def remove_first_None split: option.split)

lemma rem_producer_close:
  assumes "in_range ch" and "length (filter (\<lambda>p. prd_fd p = fd) (producers r ch)) = Suc 0" and "0 \<le> fd"
    and "\<forall>p \<in> set (producers r ch). prd_fd p = fd \<longrightarrow> prd_owner p"
  shows "events (mhr_rem_producer r fd ch) = events r @ (if list_ex (\<lambda>c. cns_fd c = fd) (consumers r ch) then [] else [EvClose fd])"
proof -
  obtain p where p: "find (\<lambda>p. prd_fd p = fd) (producers r ch) = Some p" "prd_fd p = fd" "p \<in> set (producers r ch)"
    using mem_filter_one [OF assms(2)] find_first_ex find_SomeD by (metis (mono_tags, lifting))
  then show ?thesis using assms
    by (auto simp: mhr_rem_producer_def Let_def has_consumer_fd_def close_fd_def fd_close_def)
qed

lemma rem_consumer_close:
  assumes "in_range ch" and "length (filter (\<lambda>c. cns_fd c = fd) (consumers r ch)) = Suc 0" and "0 \<le> fd"
    and "\<forall>c \<in> set (consumers r ch). cns_fd c = fd \<longrightarrow> cns_owner c"
  shows "events (mhr_rem_consumer r fd ch) = events r @ (if list_ex (\<lambda>p. prd_fd p = fd) (producers r ch) then [] else [EvClose fd])"
proof -
  obtain c where c: "find (\<lambda>c. cns_fd c = fd) (consumers r ch) = Some c" "cns_fd c = fd" "c \<in> set (consumers r ch)"
    using mem_filter_one [OF assms(2)] find_first_ex find_SomeD by (metis (mono_tags, lifting))
  then show ?thesis using assms
    by (auto simp: mhr_rem_consumer_def Let_def has_producer_fd_def close_fd_def fd_close_def)
qed

text \<open>Claim C10. A connector's descriptor is closed exactly once, and only when neither list of the channel
  holds it any more, in whichever order it is taken out: by \<^verbatim>\<open>mhr_rem_endpoint_fd\<close>, after a read
  error or end of file (consumer first), or after a write error (producer first).\<close>

theorem endpoint_closed_once:
  assumes "endpoint r fd ch" and "r' = mhr_rem_endpoint_fd r fd ch \<or> r' = rem_endpoint_after_error fd ch r"
  shows "close_count fd r' = Suc (close_count fd r) \<and> \<not> has_producer_fd r' fd ch \<and> \<not> has_consumer_fd r' fd ch"
proof -
  have e: "in_range ch" "0 \<le> fd" "length (filter (\<lambda>p. prd_fd p = fd) (producers r ch)) = Suc 0"
    "length (filter (\<lambda>c. cns_fd c = fd) (consumers r ch)) = Suc 0"
    "\<forall>p \<in> set (producers r ch). prd_fd p = fd \<longrightarrow> prd_owner p" "\<forall>c \<in> set (consumers r ch). cns_fd c = fd \<longrightarrow> cns_owner c"
    using assms(1) by (simp_all add: endpoint_def)
  have ex: "list_ex (\<lambda>p. prd_fd p = fd) (producers r ch)" "list_ex (\<lambda>c. cns_fd c = fd) (consumers r ch)"
    using mem_filter_one [OF e(3)] mem_filter_one [OF e(4)] by (auto simp: list_ex_iff)
  have gone: "\<not> list_ex (\<lambda>p. prd_fd p = fd) (remove_first (\<lambda>p. prd_fd p = fd) (producers r ch))"
    "\<not> list_ex (\<lambda>c. cns_fd c = fd) (remove_first (\<lambda>c. cns_fd c = fd) (consumers r ch))"
    using remove_only [OF e(3)] remove_only [OF e(4)] by (auto simp: list_ex_iff)
  note pl = rem_producer_lists [OF e(1)] and cl = rem_consumer_lists [OF e(1)]
  have a: "events (mhr_rem_endpoint_fd r fd ch) = events r @ [EvClose fd]"
    unfolding mhr_rem_endpoint_fd_def
    using rem_producer_close [OF e(1,3,2,5)] rem_consumer_close [OF e(1), of fd "mhr_rem_producer r fd ch"] e ex gone pl by simp
  have b: "events (rem_endpoint_after_error fd ch r) = events r @ [EvClose fd]"
    unfolding rem_endpoint_after_error_def
    using rem_consumer_close [OF e(1,4,2,6)] rem_producer_close [OF e(1), of fd "mhr_rem_consumer r fd ch"] e ex gone cl by simp
  have g: "\<not> has_producer_fd r' fd ch" "\<not> has_consumer_fd r' fd ch"
    using assms(2) gone pl cl
    by (auto simp: mhr_rem_endpoint_fd_def rem_endpoint_after_error_def has_producer_fd_def has_consumer_fd_def)
  show ?thesis using assms(2) a b g by (auto simp: close_count_def)
qed

section \<open>Passing data out\<close>

text \<open>Claim C11. Data passed out on a channel goes to whom it is meant for, as a whole or not at all: to the
  one connector named, to all, or to all that want unsolicited data; a consumer that is passed over
  or whose buffer has no room for the block keeps its buffer as it was, and no other channel is
  touched.\<close>

theorem pass_out_routing:
  assumes "router_ok r" and "in_range ch" and "data \<noteq> []" and "i < length (consumers r ch)"
  shows "(let c = consumers r ch ! i; c' = consumers (mhr_pass_out r data ch fd) ch ! i;
            meant = (if fd = MHR_ALL then True
                     else if fd = MHR_UNSOLICITED then cns_flags c AND MHR_CNS_NO_UNSOLICITED = 0
                     else cns_fd c = fd)
          in buf_contents (cns_buf c') = buf_contents (cns_buf c) @
               (if meant \<and> length data \<le> buf_size_avail (cns_buf c) then data else []) \<and>
             cns_fd c' = cns_fd c) \<and>
    (\<forall>ch'. ch' \<noteq> ch \<longrightarrow> consumers (mhr_pass_out r data ch fd) ch' = consumers r ch') \<and>
    events (mhr_pass_out r data ch fd) = events r"
proof -
  have b: "buf_ok (cns_buf (consumers r ch ! i))" using nth_cns_ok [OF assms(1,4)] by (simp add: cns_ok_def)
  have "buf_contents (cns_buf (give_block data (consumers r ch ! i))) = buf_contents (cns_buf (consumers r ch ! i)) @
      (if length data \<le> buf_size_avail (cns_buf (consumers r ch ! i)) then data else [])"
    "cns_fd (give_block data (consumers r ch ! i)) = cns_fd (consumers r ch ! i)"
    using buf_append_fits [OF b, of data] by (auto simp: give_block_def)
  then show ?thesis using assms(2-4) by (auto simp: mhr_pass_out_def passes_over_def Let_def)
qed

theorem pass_out_routing_witness:
  "buf_contents (cns_buf (consumers (mhr_pass_out (two_connectors MH_CHANNEL_R1) [1, 2] MH_CHANNEL_R1 6) MH_CHANNEL_R1 ! 0)) = [] \<and>
   buf_contents (cns_buf (consumers (mhr_pass_out (two_connectors MH_CHANNEL_R1) [1, 2] MH_CHANNEL_R1 6) MH_CHANNEL_R1 ! 1)) = [1, 2]"
proof -
  let ?r = "two_connectors MH_CHANNEL_R1"
  have av: "buf_size_avail buf_alloc = 4096" by (simp add: buf_avail) (simp add: buf_alloc_def BUFFER_CAPACITY_def)
  have h: "in_range MH_CHANNEL_R1" "[1 :: byte, 2] \<noteq> []" "0 < length (consumers ?r MH_CHANNEL_R1)" "1 < length (consumers ?r MH_CHANNEL_R1)"
    by (simp_all add: in_range_def two_connectors_state)
  show ?thesis
    using pass_out_routing [OF two_connectors_ok h(1,2,3), of 6] pass_out_routing [OF two_connectors_ok h(1,2,4), of 6]
    by (simp add: two_connectors_state av Let_def)
qed

section \<open>Destruction\<close>

lemma rem_consumer_first:
  "in_range ch \<Longrightarrow> consumers r ch = c # cs \<Longrightarrow> consumers (mhr_rem_consumer r (cns_fd c) ch) ch = cs"
  using rem_consumer_lists [of ch r "cns_fd c"] by simp

lemma rem_producer_first:
  "in_range ch \<Longrightarrow> producers r ch = p # ps \<Longrightarrow> producers (mhr_rem_producer r (prd_fd p) ch) ch = ps"
  using rem_producer_lists [of ch r "prd_fd p"] by simp

lemma rem_all_consumers_sel:
  "in_range ch \<Longrightarrow> length (consumers r ch) \<le> n \<Longrightarrow> consumers (rem_all_consumers n ch r) ch = []"
  by (induction n arbitrary: r) (auto simp: rem_consumer_first split: list.split)

lemma rem_all_producers_sel:
  "in_range ch \<Longrightarrow> length (producers r ch) \<le> n \<Longrightarrow> producers (rem_all_producers n ch r) ch = []"
  by (induction n arbitrary: r) (auto simp: rem_producer_first split: list.split)

lemma rem_all_consumer_cbs_sel:
  "in_range ch \<Longrightarrow> length (consumer_cbs r ch) \<le> n \<Longrightarrow> consumer_cbs (rem_all_consumer_cbs n ch r) ch = []"
  by (induction n arbitrary: r) (auto simp: mhr_rem_consumer_cb_def split: list.split)

lemma rem_all_taps_sel:
  "in_range ch \<Longrightarrow> length (taps r ch) \<le> n \<Longrightarrow> taps (rem_all_taps n ch r) ch = []"
  by (induction n arbitrary: r) (auto simp: mhr_rem_producer_tap_cb_def split: list.split)

lemma rem_all_status_sel: "length (status_cbs r) \<le> n \<Longrightarrow> status_cbs (rem_all_status n r) = []"
  by (induction n arbitrary: r) (auto simp: mhr_rem_status_cb_def split: list.split)

text \<open>Emptying one list leaves the lists that are empty already empty.\<close>

definition empty_lists :: "router \<Rightarrow> channel \<Rightarrow> bool \<times> bool \<times> bool \<times> bool" where
  "empty_lists r ch = (consumers r ch = [], producers r ch = [], consumer_cbs r ch = [], taps r ch = [])"

lemma mhr_rem_producer_sel2 [simp]:
  "taps (mhr_rem_producer r fd ch) = taps r" "consumer_cbs (mhr_rem_producer r fd ch) = consumer_cbs r"
  "status_cbs (mhr_rem_producer r fd ch) = status_cbs r" "consumers (mhr_rem_producer r fd ch) = consumers r"
  by (simp_all add: mhr_rem_producer_def Let_def split: option.split)

lemma rem_other_channel:
  "ch' \<noteq> ch \<Longrightarrow> consumers (mhr_rem_consumer r fd ch) ch' = consumers r ch'"
  "ch' \<noteq> ch \<Longrightarrow> producers (mhr_rem_producer r fd ch) ch' = producers r ch'"
  by (simp_all add: mhr_rem_producer_def mhr_rem_consumer_def Let_def split: option.split)

lemma rem_all_frames:
  "producers (rem_all_consumers n ch r) = producers r" "consumer_cbs (rem_all_consumers n ch r) = consumer_cbs r"
  "taps (rem_all_consumers n ch r) = taps r" "status_cbs (rem_all_consumers n ch r) = status_cbs r"
  "consumers (rem_all_producers n ch r) = consumers r" "consumer_cbs (rem_all_producers n ch r) = consumer_cbs r"
  "taps (rem_all_producers n ch r) = taps r" "status_cbs (rem_all_producers n ch r) = status_cbs r"
  "consumers (rem_all_consumer_cbs n ch r) = consumers r" "producers (rem_all_consumer_cbs n ch r) = producers r"
  "taps (rem_all_consumer_cbs n ch r) = taps r" "status_cbs (rem_all_consumer_cbs n ch r) = status_cbs r"
  "consumers (rem_all_taps n ch r) = consumers r" "producers (rem_all_taps n ch r) = producers r"
  "consumer_cbs (rem_all_taps n ch r) = consumer_cbs r" "status_cbs (rem_all_taps n ch r) = status_cbs r"
  "consumers (rem_all_status n r) = consumers r" "producers (rem_all_status n r) = producers r"
  "consumer_cbs (rem_all_status n r) = consumer_cbs r" "taps (rem_all_status n r) = taps r"
  by (induction n arbitrary: r)
    (auto simp: mhr_rem_consumer_cb_def mhr_rem_producer_tap_cb_def mhr_rem_status_cb_def split: list.split)

lemma rem_all_other:
  assumes "ch' \<noteq> ch"
  shows "consumers (rem_all_consumers n ch r) ch' = consumers r ch'"
    "producers (rem_all_producers n ch r) ch' = producers r ch'"
    "consumer_cbs (rem_all_consumer_cbs n ch r) ch' = consumer_cbs r ch'"
    "taps (rem_all_taps n ch r) ch' = taps r ch'"
  using assms
  by (induction n arbitrary: r)
    (auto simp: rem_other_channel mhr_rem_consumer_cb_def mhr_rem_producer_tap_cb_def split: list.split)

lemma destroy_channel_empty:
  assumes "in_range ch"
  shows "empty_lists (destroy_channel ch r) ch = (True, True, True, True)"
  using assms unfolding empty_lists_def destroy_channel_def Let_def
  by (simp add: rem_all_frames rem_all_consumers_sel rem_all_producers_sel rem_all_consumer_cbs_sel rem_all_taps_sel)

lemma destroy_channel_other: "ch' \<noteq> ch \<Longrightarrow> empty_lists (destroy_channel ch r) ch' = empty_lists r ch'"
  unfolding empty_lists_def destroy_channel_def Let_def
  by (simp add: rem_all_frames rem_all_other)

lemma destroy_channels_empty:
  "\<forall>ch \<in> set chs. in_range ch \<Longrightarrow> ch \<in> set chs \<or> empty_lists r ch = (True, True, True, True) \<Longrightarrow>
   empty_lists (fold destroy_channel chs r) ch = (True, True, True, True)"
proof (induction chs arbitrary: r)
  case (Cons c chs)
  show ?case
  proof (cases "ch = c")
    case True
    with Cons show ?thesis by (simp add: destroy_channel_empty)
  next
    case False
    with Cons show ?thesis by (auto simp: destroy_channel_other)
  qed
qed simp

lemma fold_map_empty:
  "(consumers (fold (\<lambda>ch r. map_producers ch (f r) r) chs r) ch = consumers r ch) \<and>
   ((producers (fold (\<lambda>ch r. map_producers ch (f r) r) chs r) ch = []) = (producers r ch = [])) \<and>
   (consumer_cbs (fold (\<lambda>ch r. map_producers ch (f r) r) chs r) = consumer_cbs r) \<and>
   (taps (fold (\<lambda>ch r. map_producers ch (f r) r) chs r) = taps r) \<and>
   (status_cbs (fold (\<lambda>ch r. map_producers ch (f r) r) chs r) = status_cbs r)"
  by (induction chs arbitrary: r) auto

lemma set_keyer_fd_lists:
  "empty_lists (mhr_set_keyer_fd r fd) ch = empty_lists r ch" "status_cbs (mhr_set_keyer_fd r fd) = status_cbs r"
  using fold_map_empty [where chs = all_channels] unfolding empty_lists_def
  by (auto simp: mhr_set_keyer_fd_def switch_producer_events_def drop_ptt_def Let_def)

text \<open>Destroying the router takes every registered connector and callback out and leaves the
  keyer's descriptor closed; the removal loops end.\<close>

theorem destroy_empties:
  assumes "in_range ch"
  shows "consumers (mhr_destroy r) ch = [] \<and> producers (mhr_destroy r) ch = [] \<and> consumer_cbs (mhr_destroy r) ch = [] \<and>
    taps (mhr_destroy r) ch = [] \<and> status_cbs (mhr_destroy r) = [] \<and> rtr_fd (mhr_destroy r) = -1"
proof -
  let ?r = "fold destroy_channel all_channels r"
  have "empty_lists ?r ch = (True, True, True, True)"
    by (rule destroy_channels_empty) (use assms in \<open>auto simp: set_all_channels\<close>)
  then have "empty_lists (mhr_destroy r) ch = (True, True, True, True)"
    by (simp add: mhr_destroy_def Let_def set_keyer_fd_lists) (simp add: empty_lists_def rem_all_frames)
  moreover have "status_cbs (mhr_destroy r) = []"
    by (simp add: mhr_destroy_def Let_def set_keyer_fd_lists rem_all_status_sel)
  moreover have "rtr_fd (mhr_set_keyer_fd q (-1)) = -1" for q
    by (simp add: mhr_set_keyer_fd_def Let_def switch_producer_events_def fold_map_producers_sel)
  ultimately show ?thesis by (simp add: empty_lists_def mhr_destroy_def Let_def)
qed

theorem destroy_empties_witness:
  "producers (mhr_destroy (two_connectors MH_CHANNEL_R1)) MH_CHANNEL_R1 = [] \<and> rtr_fd (mhr_destroy (two_connectors MH_CHANNEL_R1)) = -1"
  using destroy_empties [of MH_CHANNEL_R1 "two_connectors MH_CHANNEL_R1"] by (simp add: in_range_def)

section \<open>Two PTT connectors\<close>

definition ptt_connectors :: router where
  "ptt_connectors =
     mhr_set_bps_limit
       (mhr_add_endpoint_fd (mhr_add_endpoint_fd (mhr_set_keyer_fd (mhr_create ''K'' True) 3) 5 CH_PTT1 None) 6 CH_PTT1 None)
       CH_PTT1 133"

lemma ptt_connectors_reachable: "reachable no_proc ptt_connectors"
  unfolding ptt_connectors_def mhr_add_endpoint_fd_def
  by (intro reachable.step [OF _ bps_limit] reachable.step [OF _ add_producer] reachable.step [OF _ add_consumer]
      reachable.step [OF _ keyer_fd] reachable.create)

lemma ptt_connectors_state:
  "producers ptt_connectors CH_PTT1 =
     [\<lparr>prd_fd = 5, prd_tag = None, prd_owner = True, prd_w = True, prd_channel = CH_PTT1, prd_mask = 0\<rparr>,
      \<lparr>prd_fd = 6, prd_tag = None, prd_owner = True, prd_w = True, prd_channel = CH_PTT1, prd_mask = 0\<rparr>]"
  "length (filter (\<lambda>c. cns_fd c = 6) (consumers ptt_connectors CH_PTT1)) = 1"
  "\<forall>c \<in> set (consumers ptt_connectors CH_PTT1). cns_owner c"
  "rtr_fd ptt_connectors = 3" "wk_tx_focus ptt_connectors = 0" "channel_buf_out ptt_connectors ch = buf_alloc"
  "turn ptt_connectors ch = -1" "hold ptt_connectors ch = False" "has_flags_channel ptt_connectors"
  "lb_bps (lbs ptt_connectors CH_PTT1) = 133" "lb_avail (lbs ptt_connectors CH_PTT1) = 22" "events ptt_connectors = []"
  by (simp_all add: ptt_connectors_def online_fresh connector_defs)

lemma ptt_connectors_ok: "router_ok ptt_connectors"
  by (rule reachable_ok [OF ptt_connectors_reachable no_proc_keeps])

lemma alloc_avail: "buf_size_avail buf_alloc = 4096"
  by (simp add: buf_avail) (simp add: buf_alloc_def BUFFER_CAPACITY_def)

definition keyed_connectors :: router where
  "keyed_connectors = producer_cb no_proc CH_PTT1 1 (RdBytes [PTT_ON_BYTE]) ptt_connectors"

theorem ptt_bytes_key_witness:
  "map prd_mask (producers keyed_connectors CH_PTT1) = [0, MHC2DFL_PTT_R1] \<and>
   buf_contents (channel_buf_out keyed_connectors MH_CHANNEL_FLAGS) = [wflag keyed_connectors]"
proof -
  let ?r = ptt_connectors
  have h: "1 < length (producers ?r CH_PTT1)" "ptt_radio CH_PTT1 (wk_tx_focus ?r) = Some MHC2DFL_PTT_R1"
    "producer_may_read ?r (producers ?r CH_PTT1 ! 1)" "rtr_fd ?r \<noteq> -1" "buf_contents (channel_buf_out ?r CH_PTT1) = []"
    "[PTT_ON_BYTE] \<noteq> []" "int (length [PTT_ON_BYTE]) \<le> read_avail ?r CH_PTT1" "has_flags_channel ?r"
    "1 \<le> buf_size_avail (channel_buf_out ?r MH_CHANNEL_FLAGS)"
    by (simp_all add: ptt_connectors_state ptt_radio_def producer_may_read_def read_avail_def alloc_avail)
  show ?thesis
    using ptt_bytes_key [OF ptt_connectors_ok h, of no_proc]
    by (simp add: keyed_connectors_def ptt_connectors_state ptt_after_def valid_ptt_def)
qed

lemma keyed_connectors_reachable: "reachable no_proc keyed_connectors"
  unfolding keyed_connectors_def
  by (rule reachable.step [OF ptt_connectors_reachable readable]) (simp_all add: ptt_connectors_state)

theorem ptt_flags_exact_witness:
  "\<forall>n. bit (wflag keyed_connectors) n \<longleftrightarrow>
   (\<exists>ch p. ch_is_ptt_channel ch \<and> p \<in> set (producers keyed_connectors ch) \<and> bit (prd_mask p) n)"
  using ptt_flags_exact [OF keyed_connectors_reachable no_proc_keeps] by blast

theorem throughput_bounded_witness:
  "lb_run no_proc CH_PTT1 [LbRead 0 (RdBytes (replicate 100 0)), LbTick, LbRead 1 (RdBytes [1, 0])] ptt_connectors \<le> 42"
proof -
  have "lb_bps (lbs ptt_connectors CH_PTT1) \<noteq> 0" by (simp add: ptt_connectors_state)
  from throughput_bounded [OF ptt_connectors_reachable no_proc_keeps this,
      of "[LbRead 0 (RdBytes (replicate 100 0)), LbTick, LbRead 1 (RdBytes [1, 0])]"]
  show ?thesis by (simp del: lb_run.simps)
qed

theorem endpoint_closed_once_witness:
  "close_count 6 (mhr_rem_endpoint_fd ptt_connectors 6 CH_PTT1) = 1"
proof -
  have "endpoint ptt_connectors 6 CH_PTT1"
    using ptt_connectors_state(2,3) by (simp add: endpoint_def in_range_def ptt_connectors_state(1))
  from endpoint_closed_once [OF this, of "mhr_rem_endpoint_fd ptt_connectors 6 CH_PTT1"]
  show ?thesis by (simp add: close_count_def ptt_connectors_state)
qed

section \<open>What the model shows of the comments\<close>

text \<open>
  The comment on \<^verbatim>\<open>drop_ptt\<close> says that producers are not read while the keyer is offline and that
  what they send is processed after the reconnect. A timer of the leaky bucket that is still
  running starts their watchers again, since \<^verbatim>\<open>lb_cb\<close> does not look at the keyer's descriptor; the
  callback then reads and discards.
\<close>

definition offline_connectors :: router where
  "offline_connectors = mhr_set_keyer_fd keyed_connectors (-1)"

lemma producer_data_lb_timer: "lb_bps (lbs r ch) \<noteq> 0 \<Longrightarrow> lb_timer (lbs (producer_data proc ch i bs r) ch)"
  by (simp add: producer_data_def Let_def)

lemma lbs_set_keyer_fd: "lbs (mhr_set_keyer_fd r fd) = lbs r"
proof -
  have "lbs (fold (\<lambda>ch r. map_producers ch (f r) r) chs r) = lbs r" for f chs r
    by (induction chs arbitrary: r) simp_all
  then show ?thesis by (simp add: mhr_set_keyer_fd_def Let_def switch_producer_events_def drop_ptt_def)
qed

text \<open>A tick that starts a producer while the keyer is offline.\<close>

lemma lb_cb_starts_offline:
  assumes "rtr_fd r = -1" and "lb_avail (lbs r ch) \<noteq> 22" and "p \<in> set (producers r ch)" and "producer_may_read r p"
  shows "rtr_fd (lb_cb ch r) = -1 \<and> p\<lparr>prd_w := True\<rparr> \<in> set (producers (lb_cb ch r) ch)"
  using assms by (force simp: lb_cb_def Let_def start_if_may_def producer_may_read_def)

lemma offline_read_discards:
  "rtr_fd r = -1 \<Longrightarrow> producer_may_read r (producers r ch ! i) \<Longrightarrow> producer_cb proc ch i res r = r"
  by (simp add: producer_cb_def Let_def)

text \<open>The state of the comment: two connectors, the keyer lost while the timer of their channel runs.\<close>

lemma offline_connectors_facts:
  "rtr_fd offline_connectors = -1" "lb_timer (lbs offline_connectors CH_PTT1)" "lb_avail (lbs offline_connectors CH_PTT1) = 21"
  "reachable no_proc offline_connectors"
proof -
  show "rtr_fd offline_connectors = -1"
    unfolding offline_connectors_def
    by (auto simp: mhr_set_keyer_fd_def Let_def switch_producer_events_def fold_map_producers_sel)
  have k: "keyed_connectors = producer_data no_proc CH_PTT1 1 [PTT_ON_BYTE] ptt_connectors"
    by (simp add: keyed_connectors_def producer_cb_def ptt_connectors_state producer_may_read_def read_avail_def alloc_avail)
  show "lb_timer (lbs offline_connectors CH_PTT1)" "lb_avail (lbs offline_connectors CH_PTT1) = 21"
    unfolding offline_connectors_def lbs_set_keyer_fd k
    by (simp_all add: producer_data_def Let_def ptt_connectors_state)
  show "reachable no_proc offline_connectors"
    unfolding offline_connectors_def by (rule reachable.step [OF keyed_connectors_reachable keyer_fd])
qed

text \<open>The tap of a PTT channel is handed a pointer before the start of the buffer: the PTT bytes are taken
  out of the buffer, which resets it, before the taps are called.\<close>

lemma tap_after_ptt: "buf_size b = 0 \<Longrightarrow> 0 < n \<Longrightarrow> tap_data b n = None"
  by (simp add: tap_data_def)

end
