(* ===== verification/CatState.thy ===== *)
theory CatState
  imports Channel
begin

text \<open>
  \<^verbatim>\<open>src/cat_state.c\<close>, \<^verbatim>\<open>src/cat_state.h\<close>: the radio state that native CAT decodes from the traffic,
  frequencies, modes and data flags of the selected and the other VFO, split, and which VFO is
  selected. Times and frequencies keep their machine width; a mode is the enum, a flag a Boolean.
\<close>

section \<open>Modes\<close>

datatype cat_mode = CAT_MODE_NONE | CAT_MODE_LSB | CAT_MODE_USB | CAT_MODE_CW | CAT_MODE_CWR | CAT_MODE_RTTY
  | CAT_MODE_RTTYR | CAT_MODE_AM | CAT_MODE_AMS | CAT_MODE_FM | CAT_MODE_WFM | CAT_MODE_PKTLSB | CAT_MODE_PKTUSB
  | CAT_MODE_PKTAM | CAT_MODE_PKTFM | CAT_MODE_FAX | CAT_MODE_PSK | CAT_MODE_PSKR | CAT_MODE_OTHER

text \<open>Keyer modes (\<^verbatim>\<open>mhcontrol.h\<close>).\<close>

abbreviation (input) "MOD_CW \<equiv> (0 :: int)"
abbreviation (input) "MOD_VOICE \<equiv> (1 :: int)"
abbreviation (input) "MOD_FSK \<equiv> (2 :: int)"
abbreviation (input) "MOD_DIGITAL \<equiv> (3 :: int)"

fun mode_tab :: "cat_mode \<Rightarrow> string \<times> int" where
  "mode_tab CAT_MODE_NONE = ('''', -1)"
| "mode_tab CAT_MODE_LSB = (''LSB'', MOD_VOICE)"
| "mode_tab CAT_MODE_USB = (''USB'', MOD_VOICE)"
| "mode_tab CAT_MODE_CW = (''CW'', MOD_CW)"
| "mode_tab CAT_MODE_CWR = (''CWR'', MOD_CW)"
| "mode_tab CAT_MODE_RTTY = (''RTTY'', MOD_FSK)"
| "mode_tab CAT_MODE_RTTYR = (''RTTYR'', MOD_FSK)"
| "mode_tab CAT_MODE_AM = (''AM'', MOD_VOICE)"
| "mode_tab CAT_MODE_AMS = (''AMS'', MOD_VOICE)"
| "mode_tab CAT_MODE_FM = (''FM'', MOD_VOICE)"
| "mode_tab CAT_MODE_WFM = (''WFM'', MOD_VOICE)"
| "mode_tab CAT_MODE_PKTLSB = (''PKTLSB'', MOD_DIGITAL)"
| "mode_tab CAT_MODE_PKTUSB = (''PKTUSB'', MOD_DIGITAL)"
| "mode_tab CAT_MODE_PKTAM = (''PKTAM'', MOD_DIGITAL)"
| "mode_tab CAT_MODE_PKTFM = (''PKTFM'', MOD_DIGITAL)"
| "mode_tab CAT_MODE_FAX = (''FAX'', MOD_DIGITAL)"
| "mode_tab CAT_MODE_PSK = (''PSK'', -1)"
| "mode_tab CAT_MODE_PSKR = (''PSKR'', -1)"
| "mode_tab CAT_MODE_OTHER = (''OTHER'', -1)"

definition cat_mode_token :: "cat_mode \<Rightarrow> string" where
  "cat_mode_token m = fst (mode_tab m)"

text \<open>The modes the loop runs over, in the order of the enum; the argument may be a null pointer.\<close>

definition token_modes :: "cat_mode list" where
  "token_modes = [CAT_MODE_LSB, CAT_MODE_USB, CAT_MODE_CW, CAT_MODE_CWR, CAT_MODE_RTTY, CAT_MODE_RTTYR, CAT_MODE_AM,
     CAT_MODE_AMS, CAT_MODE_FM, CAT_MODE_WFM, CAT_MODE_PKTLSB, CAT_MODE_PKTUSB, CAT_MODE_PKTAM, CAT_MODE_PKTFM,
     CAT_MODE_FAX, CAT_MODE_PSK, CAT_MODE_PSKR]"

definition cat_mode_from_token :: "string option \<Rightarrow> cat_mode" where
  "cat_mode_from_token token =
     (case token of None \<Rightarrow> CAT_MODE_NONE
      | Some s \<Rightarrow>
          if s = [] then CAT_MODE_NONE
          else case find (\<lambda>m. strcaseeq s (fst (mode_tab m))) token_modes of Some m \<Rightarrow> m | None \<Rightarrow> CAT_MODE_OTHER)"

definition cat_mode_to_keyer :: "cat_mode \<Rightarrow> int" where
  "cat_mode_to_keyer m = snd (mode_tab m)"

definition cat_mode_with_data :: "cat_mode \<Rightarrow> bool \<Rightarrow> cat_mode" where
  "cat_mode_with_data base data =
     (if \<not> data then base
      else case base of
        CAT_MODE_LSB \<Rightarrow> CAT_MODE_PKTLSB
      | CAT_MODE_USB \<Rightarrow> CAT_MODE_PKTUSB
      | CAT_MODE_AM \<Rightarrow> CAT_MODE_PKTAM
      | CAT_MODE_FM \<Rightarrow> CAT_MODE_PKTFM
      | _ \<Rightarrow> base)"

definition mode_without_data :: "cat_mode \<Rightarrow> cat_mode \<times> bool" where
  "mode_without_data m =
     (case m of
        CAT_MODE_PKTLSB \<Rightarrow> (CAT_MODE_LSB, True)
      | CAT_MODE_PKTUSB \<Rightarrow> (CAT_MODE_USB, True)
      | CAT_MODE_PKTAM \<Rightarrow> (CAT_MODE_AM, True)
      | CAT_MODE_PKTFM \<Rightarrow> (CAT_MODE_FM, True)
      | _ \<Rightarrow> (m, False))"

section \<open>The state\<close>

record 'a cat_item =
  it_val :: 'a
  it_t :: u64
  it_valid :: bool

record cat_vfo_state =
  v_freq :: "u32 cat_item"
  v_mode :: "cat_mode cat_item"
  v_data :: "bool cat_item"

text \<open>\<^verbatim>\<open>vfo[CAT_VFO_SEL]\<close> and \<^verbatim>\<open>vfo[CAT_VFO_UNSEL]\<close> are two fields.\<close>

record cat_state =
  vfo_sel :: cat_vfo_state
  vfo_unsel :: cat_vfo_state
  st_split :: "bool cat_item"
  st_vfo_ab :: "bool cat_item"
  st_changes :: u32

abbreviation (input) "CAT_VFO_SEL \<equiv> (0 :: int)"
abbreviation (input) "CAT_VFO_UNSEL \<equiv> (1 :: int)"

definition valid_vfo :: "int \<Rightarrow> bool" where
  "valid_vfo vfo \<longleftrightarrow> vfo = CAT_VFO_SEL \<or> vfo = CAT_VFO_UNSEL"

definition get_vfo :: "cat_state \<Rightarrow> int \<Rightarrow> cat_vfo_state" where
  "get_vfo st vfo = (if vfo = CAT_VFO_SEL then vfo_sel st else vfo_unsel st)"

definition put_vfo :: "int \<Rightarrow> cat_vfo_state \<Rightarrow> cat_state \<Rightarrow> cat_state" where
  "put_vfo vfo v st = (if vfo = CAT_VFO_SEL then st\<lparr>vfo_sel := v\<rparr> else st\<lparr>vfo_unsel := v\<rparr>)"

text \<open>\<^verbatim>\<open>item_set\<close>, \<^verbatim>\<open>item_invalidate\<close>: the item and by how much \<^verbatim>\<open>changes\<close> goes up.\<close>

definition item_set :: "'a cat_item \<Rightarrow> 'a \<Rightarrow> u64 \<Rightarrow> 'a cat_item \<times> u32" where
  "item_set it v t = (it\<lparr>it_val := v, it_t := t, it_valid := True\<rparr>, if \<not> it_valid it \<or> it_val it \<noteq> v then 1 else 0)"

definition item_invalidate :: "'a cat_item \<Rightarrow> 'a cat_item \<times> u32" where
  "item_invalidate it = (it\<lparr>it_valid := False\<rparr>, if it_valid it then 1 else 0)"

definition add_changes :: "u32 \<Rightarrow> cat_state \<Rightarrow> cat_state" where
  "add_changes n st = st\<lparr>st_changes := st_changes st + n\<rparr>"

definition empty_item :: "'a \<Rightarrow> 'a cat_item" where
  "empty_item z = \<lparr>it_val = z, it_t = 0, it_valid = False\<rparr>"

definition empty_vfo :: cat_vfo_state where
  "empty_vfo = \<lparr>v_freq = empty_item 0, v_mode = empty_item CAT_MODE_NONE, v_data = empty_item False\<rparr>"

definition cat_state_init :: cat_state where
  "cat_state_init = \<lparr>vfo_sel = empty_vfo, vfo_unsel = empty_vfo, st_split = empty_item False,
     st_vfo_ab = empty_item False, st_changes = 0\<rparr>"

definition cat_state_set_freq :: "cat_state \<Rightarrow> int \<Rightarrow> u32 \<Rightarrow> u64 \<Rightarrow> cat_state" where
  "cat_state_set_freq st vfo hz t =
     (if valid_vfo vfo
      then let v = get_vfo st vfo; (it, n) = item_set (v_freq v) hz t
           in add_changes n (put_vfo vfo (v\<lparr>v_freq := it\<rparr>) st)
      else st)"

definition cat_state_set_mode :: "cat_state \<Rightarrow> int \<Rightarrow> cat_mode \<Rightarrow> u64 \<Rightarrow> cat_state" where
  "cat_state_set_mode st vfo mode t =
     (if \<not> valid_vfo vfo \<or> mode = CAT_MODE_NONE then st
      else
        let v = get_vfo st vfo;
            (base, data) = mode_without_data mode;
            (v1, n1) = (if \<not> it_valid (v_mode v) \<or> it_val (v_mode v) \<noteq> base
                        then let (d, n) = item_invalidate (v_data v) in (v\<lparr>v_data := d\<rparr>, n) else (v, 0));
            (m, n2) = item_set (v_mode v1) base t;
            v2 = v1\<lparr>v_mode := m\<rparr>;
            (v3, n3) = (if data then let (d, n) = item_set (v_data v2) True t in (v2\<lparr>v_data := d\<rparr>, n) else (v2, 0))
        in add_changes (n1 + n2 + n3) (put_vfo vfo v3 st))"

definition cat_state_set_data :: "cat_state \<Rightarrow> int \<Rightarrow> bool \<Rightarrow> u64 \<Rightarrow> cat_state" where
  "cat_state_set_data st vfo data t =
     (if valid_vfo vfo
      then let v = get_vfo st vfo; (it, n) = item_set (v_data v) data t
           in add_changes n (put_vfo vfo (v\<lparr>v_data := it\<rparr>) st)
      else st)"

definition cat_state_set_split :: "cat_state \<Rightarrow> bool \<Rightarrow> u64 \<Rightarrow> cat_state" where
  "cat_state_set_split st split t =
     (let (it, n) = item_set (st_split st) split t in add_changes n (st\<lparr>st_split := it\<rparr>))"

text \<open>The \<^verbatim>\<open>memcmp\<close> compares the whole slots, times included.\<close>

definition swap_vfos :: "cat_state \<Rightarrow> cat_state" where
  "swap_vfos st =
     add_changes (if vfo_sel st \<noteq> vfo_unsel st then 1 else 0)
       (st\<lparr>vfo_sel := vfo_unsel st, vfo_unsel := vfo_sel st\<rparr>)"

definition invalidate_vfo :: "cat_vfo_state \<Rightarrow> cat_vfo_state \<times> u32" where
  "invalidate_vfo v =
     (let (f, n1) = item_invalidate (v_freq v); (m, n2) = item_invalidate (v_mode v); (d, n3) = item_invalidate (v_data v)
      in (v\<lparr>v_freq := f, v_mode := m, v_data := d\<rparr>, n1 + n2 + n3))"

definition cat_state_select_vfo :: "cat_state \<Rightarrow> bool \<Rightarrow> u64 \<Rightarrow> cat_state" where
  "cat_state_select_vfo st ab t =
     (let st1 = (if it_valid (st_vfo_ab st)
                 then (if it_val (st_vfo_ab st) \<noteq> ab then swap_vfos st else st)
                 else let (v0, n0) = invalidate_vfo (vfo_sel st); (v1, n1) = invalidate_vfo (vfo_unsel st)
                      in add_changes (n0 + n1) (st\<lparr>vfo_sel := v0, vfo_unsel := v1\<rparr>));
          (it, n) = item_set (st_vfo_ab st1) ab t
      in add_changes n (st1\<lparr>st_vfo_ab := it\<rparr>))"

definition cat_state_exchange_vfos :: "cat_state \<Rightarrow> u64 \<Rightarrow> cat_state" where
  "cat_state_exchange_vfos st t = swap_vfos st"

definition cat_state_equalize_vfos :: "cat_state \<Rightarrow> u64 \<Rightarrow> cat_state" where
  "cat_state_equalize_vfos st t =
     add_changes (if vfo_sel st \<noteq> vfo_unsel st then 1 else 0) (st\<lparr>vfo_unsel := vfo_sel st\<rparr>)"

definition cat_state_mode :: "cat_state \<Rightarrow> int \<Rightarrow> cat_mode" where
  "cat_state_mode st vfo =
     (if \<not> valid_vfo vfo \<or> \<not> it_valid (v_mode (get_vfo st vfo)) then CAT_MODE_NONE
      else let v = get_vfo st vfo in cat_mode_with_data (it_val (v_mode v)) (it_valid (v_data v) \<and> it_val (v_data v)))"

definition cat_state_rx_freq :: "cat_state \<Rightarrow> u32" where
  "cat_state_rx_freq st = (let f = v_freq (vfo_sel st) in if it_valid f then it_val f else 0)"

definition cat_state_tx_freq :: "cat_state \<Rightarrow> u32" where
  "cat_state_tx_freq st =
     (if it_valid (st_split st) \<and> it_val (st_split st)
      then (let f = v_freq (vfo_unsel st) in if it_valid f then it_val f else 0)
      else cat_state_rx_freq st)"

text \<open>\<^verbatim>\<open>struct mhc_radio_info\<close>; \<^verbatim>\<open>mode_str\<close> has 8 bytes with the terminating zero.\<close>

record radio_info =
  ri_radio :: byte
  ri_mode :: int
  ri_mode_str :: string
  ri_rxFreq :: u32
  ri_txFreq :: u32
  ri_operFreq :: u32
  ri_vfoAFreq :: u32
  ri_vfoBFreq :: u32
  ri_subRxFreq :: u32
  ri_subTxFreq :: u32

definition cat_state_to_radio_info :: "cat_state \<Rightarrow> byte \<Rightarrow> int \<times> radio_info" where
  "cat_state_to_radio_info st radio =
     (let sel = v_freq (vfo_sel st); unsel = v_freq (vfo_unsel st);
          sel_hz = (if it_valid sel then it_val sel else 0);
          unsel_hz = (if it_valid unsel then it_val unsel else 0);
          mode = cat_state_mode st CAT_VFO_SEL;
          b = it_valid (st_vfo_ab st) \<and> it_val (st_vfo_ab st);
          info = \<lparr>ri_radio = radio, ri_mode = cat_mode_to_keyer mode, ri_mode_str = take 7 (cat_mode_token mode),
                  ri_rxFreq = sel_hz, ri_txFreq = cat_state_tx_freq st, ri_operFreq = sel_hz,
                  ri_vfoAFreq = (if b then unsel_hz else sel_hz), ri_vfoBFreq = (if b then sel_hz else unsel_hz),
                  ri_subRxFreq = 0, ri_subTxFreq = 0\<rparr>
      in (if ri_mode info \<ge> 0 \<or> sel_hz \<noteq> 0 then 0 else -1, info))"

section \<open>Steps\<close>

text \<open>What the decoders do to the state.\<close>

datatype cat_op = SetFreq int u32 | SetMode int cat_mode | SetData int bool | SetSplit bool | SelectVfo bool
  | ExchangeVfos | EqualizeVfos

fun cat_apply :: "cat_op \<times> u64 \<Rightarrow> cat_state \<Rightarrow> cat_state" where
  "cat_apply (SetFreq vfo hz, t) st = cat_state_set_freq st vfo hz t"
| "cat_apply (SetMode vfo m, t) st = cat_state_set_mode st vfo m t"
| "cat_apply (SetData vfo d, t) st = cat_state_set_data st vfo d t"
| "cat_apply (SetSplit s, t) st = cat_state_set_split st s t"
| "cat_apply (SelectVfo ab, t) st = cat_state_select_vfo st ab t"
| "cat_apply (ExchangeVfos, t) st = cat_state_exchange_vfos st t"
| "cat_apply (EqualizeVfos, t) st = cat_state_equalize_vfos st t"

lemmas cat_op_defs = cat_state_set_freq_def cat_state_set_mode_def cat_state_set_data_def cat_state_set_split_def
  cat_state_select_vfo_def cat_state_exchange_vfos_def cat_state_equalize_vfos_def swap_vfos_def invalidate_vfo_def
  item_set_def item_invalidate_def add_changes_def get_vfo_def put_vfo_def valid_vfo_def

section \<open>Base modes only\<close>

definition base_mode :: "cat_mode \<Rightarrow> bool" where
  "base_mode m \<longleftrightarrow> m \<notin> {CAT_MODE_PKTLSB, CAT_MODE_PKTUSB, CAT_MODE_PKTAM, CAT_MODE_PKTFM}"

definition vfo_ok :: "cat_vfo_state \<Rightarrow> bool" where
  "vfo_ok v \<longleftrightarrow> base_mode (it_val (v_mode v)) \<and> (it_valid (v_mode v) \<longrightarrow> it_val (v_mode v) \<noteq> CAT_MODE_NONE)"

definition cat_ok :: "cat_state \<Rightarrow> bool" where
  "cat_ok st \<longleftrightarrow> vfo_ok (vfo_sel st) \<and> vfo_ok (vfo_unsel st)"

lemma cat_ok_init [simp]: "cat_ok cat_state_init"
  by (simp add: cat_ok_def cat_state_init_def vfo_ok_def empty_vfo_def empty_item_def base_mode_def)

lemma without_data_base: "base_mode (fst (mode_without_data m)) \<and> (m \<noteq> CAT_MODE_NONE \<longrightarrow> fst (mode_without_data m) \<noteq> CAT_MODE_NONE)"
  by (cases m) (simp_all add: mode_without_data_def base_mode_def)

lemma with_without: "cat_mode_with_data (fst (mode_without_data m)) (snd (mode_without_data m)) = m"
  by (cases m) (simp_all add: mode_without_data_def cat_mode_with_data_def)

lemma with_data_False [simp]: "cat_mode_with_data m False = m"
  by (simp add: cat_mode_with_data_def)

lemma set_mode_vfo:
  assumes "valid_vfo vfo" and "mode \<noteq> CAT_MODE_NONE"
  shows "v_mode (get_vfo (cat_state_set_mode st vfo mode t) vfo) = \<lparr>it_val = fst (mode_without_data mode), it_t = t, it_valid = True\<rparr>"
    and "v_freq (get_vfo (cat_state_set_mode st vfo mode t) vfo) = v_freq (get_vfo st vfo)"
    and "v_data (get_vfo (cat_state_set_mode st vfo mode t) vfo) =
      (let v = get_vfo st vfo;
           d = (if \<not> it_valid (v_mode v) \<or> it_val (v_mode v) \<noteq> fst (mode_without_data mode)
                then (v_data v)\<lparr>it_valid := False\<rparr> else v_data v)
       in if snd (mode_without_data mode) then d\<lparr>it_val := True, it_t := t, it_valid := True\<rparr> else d)"
    and "get_vfo (cat_state_set_mode st vfo mode t) (1 - vfo) = get_vfo st (1 - vfo)"
    and "st_split (cat_state_set_mode st vfo mode t) = st_split st \<and> st_vfo_ab (cat_state_set_mode st vfo mode t) = st_vfo_ab st"
  using assms by (auto simp: cat_op_defs Let_def split_def)

lemma cat_apply_ok [invs]: "cat_ok st \<Longrightarrow> cat_ok (cat_apply op st)"
proof (induction op st rule: cat_apply.induct)
  case (2 vfo m t st)
  have m: "m \<noteq> CAT_MODE_NONE \<Longrightarrow> valid_vfo vfo \<Longrightarrow> vfo_ok (get_vfo (cat_state_set_mode st vfo m t) vfo)"
    using set_mode_vfo(1) [of vfo m st t] without_data_base [of m] by (simp add: vfo_ok_def)
  show ?case
  proof (cases "valid_vfo vfo \<and> m \<noteq> CAT_MODE_NONE")
    case True
    then show ?thesis
      using m set_mode_vfo(4) [of vfo m st t] 2 by (auto simp: cat_ok_def get_vfo_def valid_vfo_def split: if_splits)
  next
    case False
    with 2 show ?thesis by (auto simp: cat_state_set_mode_def)
  qed
qed (auto simp: cat_ok_def vfo_ok_def cat_op_defs Let_def split_def)

section \<open>What a client of the state sees\<close>

definition seen :: "'a cat_item \<Rightarrow> 'a option" where
  "seen it = (if it_valid it then Some (it_val it) else None)"

definition seen_vfo :: "cat_vfo_state \<Rightarrow> u32 option \<times> cat_mode option \<times> bool option" where
  "seen_vfo v = (seen (v_freq v), seen (v_mode v), seen (v_data v))"

definition observe :: "cat_state \<Rightarrow> (u32 option \<times> cat_mode option \<times> bool option) \<times>
    (u32 option \<times> cat_mode option \<times> bool option) \<times> bool option \<times> bool option" where
  "observe st = (seen_vfo (vfo_sel st), seen_vfo (vfo_unsel st), seen (st_split st), seen (st_vfo_ab st))"

lemmas observe_defs = observe_def seen_vfo_def seen_def

lemma add_changes_sel [simp]:
  "observe (add_changes n st) = observe st" "st_changes (add_changes n st) = st_changes st + n"
  "vfo_sel (add_changes n st) = vfo_sel st" "vfo_unsel (add_changes n st) = vfo_unsel st"
  "st_vfo_ab (add_changes n st) = st_vfo_ab st" "st_split (add_changes n st) = st_split st"
  by (simp_all add: add_changes_def observe_defs)

lemma put_vfo_changes [simp]: "st_changes (put_vfo vfo v st) = st_changes st"
  by (simp add: put_vfo_def)

text \<open>A run of operations.\<close>

definition cat_run :: "(cat_op \<times> u64) list \<Rightarrow> cat_state \<Rightarrow> cat_state" where
  "cat_run ops st = fold cat_apply ops st"

lemma cat_run_ok: "cat_ok st \<Longrightarrow> cat_ok (cat_run ops st)"
  unfolding cat_run_def by (induction ops arbitrary: st) (simp_all add: cat_apply_ok)

lemma item_set_seen: "snd (item_set it v t) = 0 \<Longrightarrow> seen (fst (item_set it v t)) = seen it"
  by (auto simp: item_set_def seen_def split: if_splits)

lemma item_invalidate_seen: "snd (item_invalidate it) = 0 \<Longrightarrow> seen (fst (item_invalidate it)) = seen it"
  by (auto simp: item_invalidate_def seen_def split: if_splits)

lemma put_same_seen: "seen_vfo v = seen_vfo (get_vfo st vfo) \<Longrightarrow> observe (put_vfo vfo v st) = observe st"
  by (auto simp: observe_def put_vfo_def get_vfo_def)

lemma item_bit: "snd (item_set it v t) \<in> {0, 1}" "snd (item_invalidate it) \<in> {0, 1}"
  by (simp_all add: item_set_def item_invalidate_def)

lemma bits_sum_0:
  fixes a b c :: u32
  assumes "a \<in> {0, 1}" "b \<in> {0, 1}" "c \<in> {0, 1}"
  shows "a + b + c = 0 \<longleftrightarrow> a = 0 \<and> b = 0 \<and> c = 0"
  using assms by auto

lemma changes_set_mode:
  "st_changes (cat_state_set_mode st vfo m t) = st_changes st \<Longrightarrow> observe (cat_state_set_mode st vfo m t) = observe st"
proof -
  assume ch: "st_changes (cat_state_set_mode st vfo m t) = st_changes st"
  show ?thesis
  proof (cases "valid_vfo vfo \<and> m \<noteq> CAT_MODE_NONE")
    case True
    let ?v = "get_vfo st vfo" and ?base = "fst (mode_without_data m)" and ?data = "snd (mode_without_data m)"
    let ?inv = "\<not> it_valid (v_mode ?v) \<or> it_val (v_mode ?v) \<noteq> ?base"
    define n1 where "n1 = (if ?inv then snd (item_invalidate (v_data ?v)) else 0)"
    define v1 where "v1 = (if ?inv then ?v\<lparr>v_data := fst (item_invalidate (v_data ?v))\<rparr> else ?v)"
    define v2 where "v2 = v1\<lparr>v_mode := fst (item_set (v_mode v1) ?base t)\<rparr>"
    define n2 where "n2 = snd (item_set (v_mode v1) ?base t)"
    define v3 where "v3 = (if ?data then v2\<lparr>v_data := fst (item_set (v_data v2) True t)\<rparr> else v2)"
    define n3 where "n3 = (if ?data then snd (item_set (v_data v2) True t) else 0)"
    have eq: "cat_state_set_mode st vfo m t = add_changes (n1 + n2 + n3) (put_vfo vfo v3 st)"
      using True by (simp add: cat_state_set_mode_def n1_def v1_def n2_def v2_def n3_def v3_def Let_def split_def)
    have "n1 + n2 + n3 = 0" using ch by (simp add: eq)
    moreover have "n1 \<in> {0, 1}" "n2 \<in> {0, 1}" "n3 \<in> {0, 1}"
      by (simp_all add: n1_def n2_def n3_def item_set_def item_invalidate_def)
    ultimately have z: "n1 = 0" "n2 = 0" "n3 = 0" using bits_sum_0 by blast+
    have "v_mode v1 = v_mode ?v" "seen (v_data v1) = seen (v_data ?v)" "v_freq v1 = v_freq ?v"
      using z(1) item_invalidate_seen by (auto simp: v1_def n1_def split: if_splits)
    moreover have "seen (v_mode v2) = seen (v_mode v1)" "v_data v2 = v_data v1" "v_freq v2 = v_freq v1"
      using z(2) item_set_seen by (auto simp: v2_def n2_def)
    moreover have "v_mode v3 = v_mode v2" "seen (v_data v3) = seen (v_data v2)" "v_freq v3 = v_freq v2"
      using z(3) item_set_seen by (auto simp: v3_def n3_def split: if_splits)
    ultimately have "seen_vfo v3 = seen_vfo ?v" by (simp add: seen_vfo_def)
    then show ?thesis by (simp add: eq put_same_seen)
  qed (auto simp: cat_state_set_mode_def)
qed

lemma changes_select_vfo:
  "st_changes (cat_state_select_vfo st ab t) = st_changes st \<Longrightarrow> observe (cat_state_select_vfo st ab t) = observe st"
proof (cases "it_valid (st_vfo_ab st) \<and> it_val (st_vfo_ab st) = ab")
  case False
  define inv where "inv v = snd (invalidate_vfo v)" for v
  assume "st_changes (cat_state_select_vfo st ab t) = st_changes st"
  then have "(if it_valid (st_vfo_ab st) then (if vfo_sel st \<noteq> vfo_unsel st then 1 else 0)
      else snd (invalidate_vfo (vfo_sel st)) + snd (invalidate_vfo (vfo_unsel st))) + (1 :: u32) = 0"
    using False by (auto simp: cat_state_select_vfo_def swap_vfos_def item_set_def Let_def split_def add_changes_def add.assoc split: if_splits)
  moreover have "snd (invalidate_vfo v) \<in> {0, 1, 2, 3}" for v
    by (simp add: invalidate_vfo_def item_invalidate_def Let_def)
  from this [of "vfo_sel st"] this [of "vfo_unsel st"] calculation show ?thesis
    by (auto split: if_splits)
qed (auto simp: cat_state_select_vfo_def item_set_def Let_def split_def add_changes_def observe_defs)

lemma changes_apply: "st_changes (cat_apply op st) = st_changes st \<Longrightarrow> observe (cat_apply op st) = observe st"
proof (induction op st rule: cat_apply.induct)
  case (2 vfo m t st)
  then show ?case using changes_set_mode by simp
next
  case (5 ab t st)
  then show ?case using changes_select_vfo by simp
qed (auto simp: cat_op_defs observe_defs Let_def split_def split: if_splits)

section \<open>Properties\<close>

text \<open>Whatever the decoders do, a stored mode is a base mode, never one with the data flag folded
  in, and a valid mode is never the mode "none".\<close>

theorem stored_modes_base:
  "cat_ok (cat_run ops cat_state_init)"
  by (simp add: cat_run_ok)

text \<open>Claim C18. The change counter is sound: an operation that does not advance it leaves every value that
  can be seen, frequencies, modes, data flags, split and the selected VFO, and its validity, as it
  was. (Only times may differ.)\<close>

theorem changes_sound:
  assumes "st_changes (cat_apply op st) = st_changes st"
  shows "observe (cat_apply op st) = observe st"
  using changes_apply [OF assms] .

theorem changes_sound_witness:
  "observe (cat_apply (SetFreq 0 14025000, 9) (cat_run [(SetFreq 0 14025000, 1)] cat_state_init)) =
   observe (cat_run [(SetFreq 0 14025000, 1)] cat_state_init)"
proof -
  have "st_changes (cat_apply (SetFreq 0 14025000, 9) (cat_run [(SetFreq 0 14025000, 1)] cat_state_init)) =
      st_changes (cat_run [(SetFreq 0 14025000, 1)] cat_state_init)"
    by (simp add: cat_run_def cat_op_defs cat_state_init_def empty_vfo_def empty_item_def Let_def split_def)
  from changes_sound [OF this] show ?thesis .
qed

text \<open>Setting the mode of a slot is what reading it gives back, with one exception: a base mode
  that was the base mode already keeps a data flag that is known to be on. The other slot, the
  frequencies, split and the selection stay as they are.\<close>

theorem set_mode_reads_back:
  assumes "valid_vfo vfo" and "mode \<noteq> CAT_MODE_NONE"
  shows "cat_state_mode (cat_state_set_mode st vfo mode t) vfo =
      (if seen (v_mode (get_vfo st vfo)) = Some mode \<and> seen (v_data (get_vfo st vfo)) = Some True
       then cat_mode_with_data mode True else mode) \<and>
    seen (v_freq (get_vfo (cat_state_set_mode st vfo mode t) vfo)) = seen (v_freq (get_vfo st vfo)) \<and>
    get_vfo (cat_state_set_mode st vfo mode t) (1 - vfo) = get_vfo st (1 - vfo) \<and>
    st_split (cat_state_set_mode st vfo mode t) = st_split st"
proof -
  note s = set_mode_vfo [OF assms, of st t]
  have "cat_state_mode (cat_state_set_mode st vfo mode t) vfo =
      (if seen (v_mode (get_vfo st vfo)) = Some mode \<and> seen (v_data (get_vfo st vfo)) = Some True
       then cat_mode_with_data mode True else mode)"
  proof (cases "snd (mode_without_data mode)")
    case True
    have "cat_mode_with_data (fst (mode_without_data mode)) True = mode" using with_without [of mode] True by simp
    moreover have "cat_mode_with_data mode True = mode"
      using True by (cases mode) (simp_all add: mode_without_data_def cat_mode_with_data_def)
    ultimately show ?thesis using assms(1) s(1,3) True by (simp add: cat_state_mode_def Let_def)
  next
    case False
    then have b: "fst (mode_without_data mode) = mode" by (cases mode) (simp_all add: mode_without_data_def)
    show ?thesis
      using assms(1) s(1,3) False b by (simp add: cat_state_mode_def Let_def seen_def)
  qed
  with s show ?thesis by simp
qed

theorem set_mode_reads_back_witness:
  "cat_state_mode (cat_state_set_mode cat_state_init CAT_VFO_UNSEL CAT_MODE_PKTUSB 5) CAT_VFO_UNSEL = CAT_MODE_PKTUSB"
  using set_mode_reads_back [of CAT_VFO_UNSEL CAT_MODE_PKTUSB cat_state_init 5]
  by (simp add: valid_vfo_def cat_mode_with_data_def)

text \<open>Once the selected VFO is known, the slots follow the VFOs: selecting the other VFO
  exchanges the slots, selecting back restores what was seen, and selecting the same VFO again
  changes nothing; exchanging the VFOs twice is the identity on what is seen.\<close>

theorem select_vfo_tracks:
  assumes "it_valid (st_vfo_ab st)"
  shows "(it_val (st_vfo_ab st) = ab \<longrightarrow> observe (cat_state_select_vfo st ab t) = observe st) \<and>
    (it_val (st_vfo_ab st) \<noteq> ab \<longrightarrow>
      vfo_sel (cat_state_select_vfo st ab t) = vfo_unsel st \<and> vfo_unsel (cat_state_select_vfo st ab t) = vfo_sel st \<and>
      observe (cat_state_select_vfo (cat_state_select_vfo st ab t) (\<not> ab) t') = observe st) \<and>
    observe (cat_state_exchange_vfos (cat_state_exchange_vfos st t) t') = observe st"
  using assms by (auto simp: cat_op_defs observe_defs Let_def split_def)

theorem select_vfo_tracks_witness:
  "observe (cat_state_select_vfo (cat_state_select_vfo (cat_state_select_vfo cat_state_init False 1) True 2) False 3) =
   observe (cat_state_select_vfo cat_state_init False 1)"
proof -
  have "it_valid (st_vfo_ab (cat_state_select_vfo cat_state_init False 1))"
    "it_val (st_vfo_ab (cat_state_select_vfo cat_state_init False 1)) \<noteq> True"
    by (simp_all add: cat_state_select_vfo_def item_set_def Let_def split_def)
  from select_vfo_tracks [OF this(1), of True 2 3] this(2) show ?thesis by simp
qed

text \<open>Every mode name reads back as its mode, in any case of letters, and no other name does: the
  empty name is "none", an unknown one is "other".\<close>

theorem mode_token_roundtrip:
  "cat_mode_from_token (Some (cat_mode_token m)) = m \<and> cat_mode_from_token None = CAT_MODE_NONE \<and>
   (strcaseeq s t \<longrightarrow> cat_mode_from_token (Some s) = cat_mode_from_token (Some t))"
proof -
  have "cat_mode_from_token (Some (cat_mode_token m)) = m"
    by (cases m) (simp_all add: cat_mode_from_token_def cat_mode_token_def token_modes_def strcaseeq_def)
  moreover have "strcaseeq s t \<Longrightarrow> (s = []) = (t = [])" by (auto simp: strcaseeq_def)
  ultimately show ?thesis by (auto simp: cat_mode_from_token_def strcaseeq_def)
qed

theorem mode_token_roundtrip_witness:
  "cat_mode_from_token (Some ''pktUsb'') = cat_mode_from_token (Some ''PKTUSB'')"
proof -
  have "strcaseeq ''pktUsb'' ''PKTUSB''" by (simp add: strcaseeq_def)
  with mode_token_roundtrip [of CAT_MODE_LSB "''pktUsb''" "''PKTUSB''"] show ?thesis by blast
qed

text \<open>The summary given to the keyer agrees with the state: receive and operating frequency are
  the selected VFO's, transmit follows split, VFO A and B are the slots in the order of the
  selection, the mode name is never cut, and the call fails exactly when neither a keyer mode
  nor the receive frequency is known.\<close>

theorem radio_info_consistent:
  "(let info = snd (cat_state_to_radio_info st radio) in
      ri_rxFreq info = cat_state_rx_freq st \<and> ri_operFreq info = cat_state_rx_freq st \<and> ri_txFreq info = cat_state_tx_freq st \<and>
      ri_mode_str info = cat_mode_token (cat_state_mode st CAT_VFO_SEL) \<and>
      {ri_vfoAFreq info, ri_vfoBFreq info} =
        {cat_state_rx_freq st, case seen (v_freq (vfo_unsel st)) of Some f \<Rightarrow> f | None \<Rightarrow> 0} \<and>
      (seen (st_vfo_ab st) = Some True \<longrightarrow> ri_vfoBFreq info = ri_rxFreq info) \<and>
      (seen (st_vfo_ab st) \<noteq> Some True \<longrightarrow> ri_vfoAFreq info = ri_rxFreq info)) \<and>
   (fst (cat_state_to_radio_info st radio) = 0 \<longleftrightarrow>
      cat_mode_to_keyer (cat_state_mode st CAT_VFO_SEL) \<noteq> -1 \<or> cat_state_rx_freq st \<noteq> 0)"
proof -
  have tok: "length (cat_mode_token m) \<le> 7" for m by (cases m) (simp_all add: cat_mode_token_def)
  have key: "cat_mode_to_keyer m \<ge> 0 \<longleftrightarrow> cat_mode_to_keyer m \<noteq> -1" for m
    by (cases m) (simp_all add: cat_mode_to_keyer_def)
  show ?thesis
    using tok by (auto simp: cat_state_to_radio_info_def Let_def cat_state_rx_freq_def seen_def key insert_commute)
qed

theorem radio_info_consistent_witness:
  "ri_vfoBFreq (snd (cat_state_to_radio_info (cat_run [(SelectVfo True, 1), (SetFreq 0 7030000, 2)] cat_state_init) 1)) = 7030000"
  using radio_info_consistent [of "cat_run [(SelectVfo True, 1), (SetFreq 0 7030000, 2)] cat_state_init" 1]
  by (simp add: cat_run_def cat_op_defs cat_state_init_def empty_vfo_def empty_item_def Let_def split_def cat_state_rx_freq_def seen_def)

end
