(* ===== verification/CatFrame.thy ===== *)
theory CatFrame
  imports CatState
begin

unbundle bit_operations_syntax

text \<open>
  \<^verbatim>\<open>src/cat.h\<close>: the types the native CAT decoders share, directions, frame kinds, the frame a
  decoder reports and its counters; and the interface that the native CAT session uses of a
  decoder (\<open>cat_decoder\<close>), interpreted for the CI-V, the ASCII and the binary decoder.
\<close>

datatype cat_dir = CAT_DIR_HOST | CAT_DIR_OWN | CAT_DIR_RADIO

abbreviation (input) "CAT_MAX_CLIENTS \<equiv> (9 :: int)"

datatype cat_frame_kind = CAT_FRAME_CMD | CAT_FRAME_ECHO | CAT_FRAME_REPLY | CAT_FRAME_ACK | CAT_FRAME_NAK
  | CAT_FRAME_UNSOLICITED | CAT_FRAME_UNMATCHED | CAT_FRAME_FOREIGN | CAT_FRAME_BAD | CAT_FRAME_JAM
  | CAT_FRAME_DROPPED | CAT_FRAME_ERROR

text \<open>The length is that of the list.\<close>

record cat_frame =
  fr_kind :: cat_frame_kind
  fr_dir :: cat_dir
  fr_t :: u64
  fr_buf :: "byte list"
  fr_applied :: bool
  fr_text :: bool
  fr_own :: bool
  fr_client :: int

record cat_stats =
  cs_frames :: u32
  cs_replies :: u32
  cs_applied :: u32
  cs_unmatched :: u32
  cs_bad :: u32
  cs_jams :: u32
  cs_dropped :: u32
  cs_foreign :: u32
  cs_errors :: u32
  cs_own :: u32

definition no_stats :: cat_stats where
  "no_stats = \<lparr>cs_frames = 0, cs_replies = 0, cs_applied = 0, cs_unmatched = 0, cs_bad = 0, cs_jams = 0,
     cs_dropped = 0, cs_foreign = 0, cs_errors = 0, cs_own = 0\<rparr>"

abbreviation (input) "CAT_PENDING_CLIENT \<equiv> (1 :: u32)"
abbreviation (input) "CAT_PENDING_OWN \<equiv> (2 :: u32)"

definition valid_client :: "int \<Rightarrow> bool" where
  "valid_client client \<longleftrightarrow> \<not> (client < 1 \<or> client > CAT_MAX_CLIENTS)"

section \<open>The interface of a decoder\<close>

text \<open>
  What the CAT session relies on: bytes may arrive in any pieces, the state kept is always
  well formed, and discarding a client makes it not busy without touching the radio state. The
  decoders with framed answers (\<open>cat_decoder\<close>) also leave the other clients alone; with answers in
  the order of the commands, the next one becomes due instead.
\<close>

locale cat_decoder_base =
  fixes ok :: "'d \<Rightarrow> bool"
    and feed :: "'d \<Rightarrow> cat_dir \<Rightarrow> int \<Rightarrow> byte list \<Rightarrow> u64 \<Rightarrow> 'd"
    and radio :: "'d \<Rightarrow> cat_state"
    and busy :: "'d \<Rightarrow> int \<Rightarrow> u64 \<Rightarrow> bool"
    and discard :: "'d \<Rightarrow> int \<Rightarrow> 'd"
  assumes feed_ok: "ok d \<Longrightarrow> ok (feed d dir c bs t)"
    and discard_ok: "ok d \<Longrightarrow> ok (discard d c)"
    and ok_radio: "ok d \<Longrightarrow> cat_ok (radio d)"
    and feed_Nil: "feed d dir c [] t = d"
    and feed_append: "feed d dir c (xs @ ys) t = feed (feed d dir c xs t) dir c ys t"
    and discard_idle: "ok d \<Longrightarrow> \<not> busy (discard d c) c t"
    and discard_radio: "radio (discard d c) = radio d"
begin

text \<open>A stream cut into pieces in any way is the stream.\<close>

lemma feed_pieces: "fold (\<lambda>bs d. feed d dir c bs t) bss d = feed d dir c (concat bss) t"
  by (induction bss arbitrary: d) (simp_all add: feed_append feed_Nil)

text \<open>A session: pieces of any streams at any times, and discards.\<close>

primrec session :: "((cat_dir \<times> int \<times> byte list \<times> u64) + int) list \<Rightarrow> 'd \<Rightarrow> 'd" where
  "session [] d = d"
| "session (e # es) d = session es (case e of Inl (dir, c, bs, t) \<Rightarrow> feed d dir c bs t | Inr c \<Rightarrow> discard d c)"

lemma session_ok: "ok d \<Longrightarrow> ok (session es d)"
  by (induction es arbitrary: d) (auto simp: feed_ok discard_ok split: sum.split)

lemma session_radio: "ok d \<Longrightarrow> cat_ok (radio (session es d))"
  by (rule ok_radio) (rule session_ok)

end

locale cat_decoder = cat_decoder_base +
  assumes discard_other: "ok d \<Longrightarrow> c' \<noteq> c \<Longrightarrow> busy (discard d c) c' t = busy d c' t"
begin

lemma discard_twice_idle: "ok d \<Longrightarrow> c \<noteq> c' \<Longrightarrow> \<not> busy (discard (discard d c) c') c t \<and> \<not> busy (discard (discard d c) c') c' t"
  using discard_idle discard_other discard_ok by simp

text \<open>Discarding a list of clients silences them and no other.\<close>

lemma discard_all_busy:
  "ok d \<Longrightarrow> busy (fold (\<lambda>c d. discard d c) cs d) c t = (c \<notin> set cs \<and> busy d c t)"
proof (induction cs arbitrary: d)
  case (Cons x cs)
  then show ?case using discard_ok discard_idle discard_other by (cases "c = x") simp_all
qed simp

end

end
