(* ===== verification/CatCiv.thy ===== *)
theory CatCiv
  imports CatFrame
begin

text \<open>
  \<^verbatim>\<open>src/cat_civ.c\<close>, \<^verbatim>\<open>src/cat_civ.h\<close>: the Icom CI-V framer and decoder. Byte arrays with a length
  are lists; the pending commands are a list of at most eight. The frame callback is a log of the
  frames reported; it may be absent.
\<close>

section \<open>State\<close>

abbreviation (input) "CIV_PRE \<equiv> (0xfe :: byte)"
abbreviation (input) "CIV_EOM \<equiv> (0xfd :: byte)"
abbreviation (input) "CIV_COL \<equiv> (0xfc :: byte)"
abbreviation (input) "CIV_OK \<equiv> (0xfb :: byte)"
abbreviation (input) "CIV_NG \<equiv> (0xfa :: byte)"
abbreviation (input) "CIV_BCAST \<equiv> (0 :: byte)"
abbreviation (input) "CIV_HDR_LEN \<equiv> (5 :: nat)"
abbreviation (input) "CIV_MIN_LEN \<equiv> (6 :: nat)"
abbreviation (input) "CIV_MAX_FRAME \<equiv> (64 :: nat)"
abbreviation (input) "PEND_MAX \<equiv> (8 :: nat)"
abbreviation (input) "PEND_TIMEOUT_MS \<equiv> (2000 :: u64)"
abbreviation (input) "CIV_COLLISION_MS \<equiv> (150 :: u64)"

datatype rx_state = RX_IDLE | RX_PRE | RX_IN | RX_SKIP

record civ_rx =
  rx_buf :: "byte list"
  rx_state :: rx_state
  rx_t :: u64

text \<open>Framers: \<open>0..8\<close> the clients, \<open>9\<close> mhuxd's own queries, \<open>10\<close> the radio.\<close>

abbreviation (input) "RX_OWN \<equiv> (9 :: nat)"
abbreviation (input) "RX_RADIO \<equiv> (10 :: nat)"

record civ_pending =
  cp_buf :: "byte list"
  cp_t :: u64
  cp_from_host :: bool
  cp_echoed :: bool
  cp_own :: bool
  cp_client :: int
  cp_lost :: bool
  cp_resends :: byte

record civ_cfg =
  radio_addr :: byte
  freq_len :: byte

record civ =
  civ_cfg :: civ_cfg
  civ_st :: cat_state
  civ_cb :: bool
  civ_rx :: "nat \<Rightarrow> civ_rx"
  civ_pend :: "civ_pending list"
  civ_last :: "byte list"
  civ_last_dir :: cat_dir
  civ_last_client :: int
  civ_stats :: cat_stats
  civ_log :: "cat_frame list"

definition F_TO :: "byte list \<Rightarrow> byte" where "F_TO f = f ! 2"
definition F_FROM :: "byte list \<Rightarrow> byte" where "F_FROM f = f ! 3"
definition F_CMD :: "byte list \<Rightarrow> byte" where "F_CMD f = f ! 4"

text \<open>\<^verbatim>\<open>F_DATA\<close> with \<^verbatim>\<open>F_DLEN\<close> bytes: between the header and the end of the frame.\<close>

definition F_DATA :: "byte list \<Rightarrow> byte list" where
  "F_DATA f = take (length f - CIV_MIN_LEN) (drop CIV_HDR_LEN f)"

text \<open>No configuration is \<open>None\<close>. The state belongs to the caller.\<close>

definition cat_civ_create :: "civ_cfg option \<Rightarrow> cat_state \<Rightarrow> civ" where
  "cat_civ_create cfg st =
     (let c = (case cfg of None \<Rightarrow> \<lparr>radio_addr = 0, freq_len = 0\<rparr> | Some c \<Rightarrow> c);
          c' = (if freq_len c = 0 then c\<lparr>freq_len := 5\<rparr> else c)
      in \<lparr>civ_cfg = c', civ_st = st, civ_cb = False, civ_rx = (\<lambda>_. \<lparr>rx_buf = [], rx_state = RX_IDLE, rx_t = 0\<rparr>),
          civ_pend = [], civ_last = [], civ_last_dir = CAT_DIR_HOST, civ_last_client = 0, civ_stats = no_stats, civ_log = []\<rparr>)"

definition cat_civ_set_frame_cb :: "civ \<Rightarrow> bool \<Rightarrow> civ" where
  "cat_civ_set_frame_cb civ cb = civ\<lparr>civ_cb := cb\<rparr>"

definition cat_civ_radio_addr :: "civ \<Rightarrow> byte" where
  "cat_civ_radio_addr civ = radio_addr (civ_cfg civ)"

definition cat_civ_get_stats :: "civ \<Rightarrow> cat_stats" where
  "cat_civ_get_stats civ = civ_stats civ"

definition count_kind :: "cat_frame_kind \<Rightarrow> cat_stats \<Rightarrow> cat_stats" where
  "count_kind kind s =
     (case kind of
        CAT_FRAME_REPLY \<Rightarrow> s\<lparr>cs_replies := cs_replies s + 1\<rparr>
      | CAT_FRAME_UNMATCHED \<Rightarrow> s\<lparr>cs_unmatched := cs_unmatched s + 1\<rparr>
      | CAT_FRAME_BAD \<Rightarrow> s\<lparr>cs_bad := cs_bad s + 1\<rparr>
      | CAT_FRAME_JAM \<Rightarrow> s\<lparr>cs_jams := cs_jams s + 1\<rparr>
      | CAT_FRAME_DROPPED \<Rightarrow> s\<lparr>cs_dropped := cs_dropped s + 1\<rparr>
      | CAT_FRAME_FOREIGN \<Rightarrow> s\<lparr>cs_foreign := cs_foreign s + 1\<rparr>
      | _ \<Rightarrow> s)"

definition civ_emit :: "cat_frame_kind \<Rightarrow> cat_dir \<Rightarrow> byte list \<Rightarrow> bool \<Rightarrow> bool \<Rightarrow> int \<Rightarrow> u64 \<Rightarrow> civ \<Rightarrow> civ" where
  "civ_emit kind dir buf applied own client t civ =
     (let s1 = count_kind kind (civ_stats civ);
          s2 = (if applied then s1\<lparr>cs_applied := cs_applied s1 + 1\<rparr> else s1);
          s3 = (if own \<and> dir = CAT_DIR_RADIO then s2\<lparr>cs_own := cs_own s2 + 1\<rparr> else s2);
          civ1 = civ\<lparr>civ_stats := s3\<rparr>
      in if civ_cb civ1
         then civ1\<lparr>civ_log := civ_log civ1 @ [\<lparr>fr_kind = kind, fr_dir = dir, fr_t = t, fr_buf = buf,
                fr_applied = applied, fr_text = False, fr_own = own, fr_client = client\<rparr>]\<rparr>
         else civ1)"

section \<open>Field decoding\<close>

fun bcd_loop :: "byte list \<Rightarrow> u64 \<Rightarrow> u64 \<Rightarrow> u64 option" where
  "bcd_loop [] f mul = Some f"
| "bcd_loop (b # bs) f mul =
     (let lo = b AND 0x0f; hi = drop_bit 4 b
      in if lo > 9 \<or> hi > 9 then None
         else bcd_loop bs (f + (ucast lo + ucast hi * 10) * mul) (mul * 100))"

definition civ_dec_freq :: "byte \<Rightarrow> byte list \<Rightarrow> u32 option" where
  "civ_dec_freq flen p =
     (if length p \<noteq> unat flen then None
      else case bcd_loop p 0 1 of None \<Rightarrow> None
        | Some f \<Rightarrow> if f = 0 \<or> f > 0xffffffff then None else Some (ucast f))"

definition civ_dec_mode :: "byte \<Rightarrow> cat_mode option" where
  "civ_dec_mode b =
     (if b = 0x00 then Some CAT_MODE_LSB
      else if b = 0x01 then Some CAT_MODE_USB
      else if b = 0x02 then Some CAT_MODE_AM
      else if b = 0x03 then Some CAT_MODE_CW
      else if b = 0x04 then Some CAT_MODE_RTTY
      else if b = 0x05 then Some CAT_MODE_FM
      else if b = 0x06 then Some CAT_MODE_WFM
      else if b = 0x07 then Some CAT_MODE_CWR
      else if b = 0x08 then Some CAT_MODE_RTTYR
      else if b = 0x11 \<or> b = 0x14 \<or> b = 0x15 then Some CAT_MODE_AMS
      else if b = 0x12 then Some CAT_MODE_PSK
      else if b = 0x13 then Some CAT_MODE_PSKR
      else if b = 0x16 \<or> b = 0x17 \<or> b = 0x18 \<or> b = 0x19 \<or> b = 0x20 \<or> b = 0x21 \<or> b = 0x22 \<or> b = 0x23
      then Some CAT_MODE_OTHER
      else None)"

definition civ_dec_data :: "byte \<Rightarrow> bool option" where
  "civ_dec_data b = (if b > 3 then None else Some (b \<noteq> 0))"

section \<open>Frames that carry state\<close>

text \<open>The result is the C result (1, 0 or -1) and the state.\<close>

type_synonym applied = "int \<times> cat_state"

definition apply_freq :: "byte \<Rightarrow> cat_state \<Rightarrow> int \<Rightarrow> byte list \<Rightarrow> u64 \<Rightarrow> applied" where
  "apply_freq flen st vfo p t =
     (case civ_dec_freq flen p of None \<Rightarrow> (-1, st) | Some hz \<Rightarrow> (1, cat_state_set_freq st vfo hz t))"

definition apply_mode :: "cat_state \<Rightarrow> int \<Rightarrow> byte list \<Rightarrow> u64 \<Rightarrow> applied" where
  "apply_mode st vfo p t =
     (if length p < 1 \<or> length p > 2 then (-1, st)
      else case civ_dec_mode (p ! 0) of None \<Rightarrow> (-1, st) | Some m \<Rightarrow> (1, cat_state_set_mode st vfo m t))"

definition apply_25 :: "byte \<Rightarrow> cat_state \<Rightarrow> byte list \<Rightarrow> u64 \<Rightarrow> applied" where
  "apply_25 flen st p t =
     (if length p < 1 \<or> p ! 0 > 1 then (-1, st) else apply_freq flen st (uint (p ! 0)) (drop 1 p) t)"

definition apply_26 :: "cat_state \<Rightarrow> byte list \<Rightarrow> u64 \<Rightarrow> applied" where
  "apply_26 st p t =
     (if length p < 2 \<or> length p > 4 \<or> p ! 0 > 1 then (-1, st)
      else case civ_dec_mode (p ! 1) of None \<Rightarrow> (-1, st)
        | Some m \<Rightarrow>
            (case (if length p \<ge> 3 then civ_dec_data (p ! 2) else Some False) of None \<Rightarrow> (-1, st)
             | Some d \<Rightarrow> (1, cat_state_set_data (cat_state_set_mode st (uint (p ! 0)) m t) (uint (p ! 0)) d t)))"

definition apply_1a06 :: "cat_state \<Rightarrow> byte list \<Rightarrow> u64 \<Rightarrow> applied" where
  "apply_1a06 st p t =
     (if length p < 2 \<or> length p > 3 then (-1, st)
      else case civ_dec_data (p ! 1) of None \<Rightarrow> (-1, st) | Some d \<Rightarrow> (1, cat_state_set_data st CAT_VFO_SEL d t))"

definition apply_0f :: "cat_state \<Rightarrow> byte list \<Rightarrow> u64 \<Rightarrow> applied" where
  "apply_0f st p t =
     (if length p \<noteq> 1 then (-1, st)
      else if p ! 0 \<le> 1 then (1, cat_state_set_split st (p ! 0 \<noteq> 0) t)
      else (if p ! 0 \<ge> 0x10 \<and> p ! 0 \<le> 0x12 then 0 else -1, st))"

definition apply_07 :: "cat_state \<Rightarrow> byte list \<Rightarrow> u64 \<Rightarrow> applied" where
  "apply_07 st p t =
     (if length p \<noteq> 1 then (-1, st)
      else if p ! 0 = 0x00 then (1, cat_state_select_vfo st False t)
      else if p ! 0 = 0x01 then (1, cat_state_select_vfo st True t)
      else if p ! 0 = 0xa0 then (1, cat_state_equalize_vfos st t)
      else if p ! 0 = 0xb0 then (1, cat_state_exchange_vfos st t)
      else (0, st))"

definition apply_reply :: "byte \<Rightarrow> cat_state \<Rightarrow> byte list \<Rightarrow> u64 \<Rightarrow> applied" where
  "apply_reply flen st f t =
     (let p = F_DATA f; c = F_CMD f in
      if c = 0x03 then apply_freq flen st CAT_VFO_SEL p t
      else if c = 0x04 then apply_mode st CAT_VFO_SEL p t
      else if c = 0x0f then apply_0f st p t
      else if c = 0x25 then apply_25 flen st p t
      else if c = 0x26 then apply_26 st p t
      else if c = 0x1a then (if length p \<ge> 1 \<and> p ! 0 = 0x06 then apply_1a06 st p t else (0, st))
      else (0, st))"

definition apply_unsolicited :: "byte \<Rightarrow> cat_state \<Rightarrow> byte list \<Rightarrow> u64 \<Rightarrow> applied" where
  "apply_unsolicited flen st f t =
     (let p = F_DATA f; c = F_CMD f in
      if c = 0x00 then apply_freq flen st CAT_VFO_SEL p t
      else if c = 0x01 then apply_mode st CAT_VFO_SEL p t
      else (0, st))"

definition apply_set :: "byte \<Rightarrow> cat_state \<Rightarrow> byte list \<Rightarrow> u64 \<Rightarrow> applied" where
  "apply_set flen st f t =
     (let p = F_DATA f; c = F_CMD f in
      if c = 0x05 then apply_freq flen st CAT_VFO_SEL p t
      else if c = 0x06 then apply_mode st CAT_VFO_SEL p t
      else if c = 0x07 then apply_07 st p t
      else if c = 0x0f then apply_0f st p t
      else if c = 0x25 then apply_25 flen st p t
      else if c = 0x26 then apply_26 st p t
      else if c = 0x1a then (if length p \<ge> 1 \<and> p ! 0 = 0x06 then apply_1a06 st p t else (0, st))
      else (0, st))"

definition has_sub :: "byte \<Rightarrow> bool" where
  "has_sub c = (c \<in> set [0x13, 0x14, 0x15, 0x16, 0x19, 0x1a, 0x1b, 0x1c, 0x1e, 0x21, 0x25, 0x26, 0x27])"

definition is_query :: "byte list \<Rightarrow> int" where
  "is_query f =
     (let n = length f - CIV_MIN_LEN; c = F_CMD f in
      if c = 0x03 \<or> c = 0x04 \<or> c = 0x0f then (if n = 0 then 1 else 0)
      else if c = 0x05 \<or> c = 0x06 \<or> c = 0x07 then 0
      else if c = 0x25 \<or> c = 0x26 then (if n = 1 then 1 else 0)
      else if c = 0x1a then (if n \<ge> 1 \<and> F_DATA f ! 0 = 0x06 then (if n = 1 then 1 else 0) else -1)
      else -1)"

section \<open>Pending commands\<close>

definition pend_expire :: "u64 \<Rightarrow> civ \<Rightarrow> civ" where
  "pend_expire t civ = civ\<lparr>civ_pend := dropWhile (\<lambda>p. cp_t p + PEND_TIMEOUT_MS < t) (civ_pend civ)\<rparr>"

definition pend_add :: "byte list \<Rightarrow> cat_dir \<Rightarrow> int \<Rightarrow> u64 \<Rightarrow> civ \<Rightarrow> civ" where
  "pend_add f dir client t civ =
     (let ps = (if length (civ_pend civ) = PEND_MAX then remove_nth 0 (civ_pend civ) else civ_pend civ)
      in civ\<lparr>civ_pend := ps @ [\<lparr>cp_buf = f, cp_t = t, cp_from_host = (dir \<noteq> CAT_DIR_RADIO), cp_echoed = (dir = CAT_DIR_RADIO),
             cp_own = (dir = CAT_DIR_OWN), cp_client = (if dir = CAT_DIR_HOST then client else 0),
             cp_lost = False, cp_resends = 0\<rparr>]\<rparr>)"

definition pend_consume :: "nat \<Rightarrow> civ \<Rightarrow> civ" where
  "pend_consume i civ =
     (let ctrl = F_FROM (cp_buf (civ_pend civ ! i)); client = cp_client (civ_pend civ ! i)
      in civ\<lparr>civ_pend := remove_down (\<lambda>p. F_FROM (cp_buf p) = ctrl \<and> cp_client p = client) i (civ_pend civ)\<rparr>)"

definition answers_query :: "byte list \<Rightarrow> byte list \<Rightarrow> bool" where
  "answers_query r q =
     (\<not> (F_FROM q \<noteq> F_TO r \<or> F_CMD q \<noteq> F_CMD r) \<and>
      \<not> (has_sub (F_CMD r) \<and> (length q - CIV_MIN_LEN < 1 \<or> length r - CIV_MIN_LEN < 1 \<or> F_DATA q ! 0 \<noteq> F_DATA r ! 0)) \<and>
      is_query q \<noteq> 0)"

definition pend_find_query :: "civ \<Rightarrow> byte list \<Rightarrow> nat option" where
  "pend_find_query civ r = find_index (\<lambda>p. answers_query r (cp_buf p)) (civ_pend civ)"

definition pend_find_ack :: "civ \<Rightarrow> byte \<Rightarrow> bool \<Rightarrow> nat option" where
  "pend_find_ack civ ctrl acc =
     find_index (\<lambda>p. F_FROM (cp_buf p) = ctrl \<and> \<not> (acc \<and> is_query (cp_buf p) = 1)) (civ_pend civ)"

definition pend_find_echo :: "civ \<Rightarrow> byte list \<Rightarrow> nat option" where
  "pend_find_echo civ f = find_index (\<lambda>p. cp_from_host p \<and> \<not> cp_echoed p \<and> cp_buf p = f) (civ_pend civ)"

section \<open>Frame classification\<close>

definition set_addr :: "byte \<Rightarrow> civ \<Rightarrow> civ" where
  "set_addr a civ = civ\<lparr>civ_cfg := (civ_cfg civ)\<lparr>radio_addr := a\<rparr>\<rparr>"

definition learn_addr :: "cat_dir \<Rightarrow> byte list \<Rightarrow> u64 \<Rightarrow> civ \<Rightarrow> civ" where
  "learn_addr dir f t civ =
     (let l = civ_last civ in
      if dir \<noteq> CAT_DIR_RADIO then civ
      else if F_TO f = CIV_BCAST \<or> F_CMD f = CIV_OK \<or> F_CMD f = CIV_NG then set_addr (F_FROM f) civ
      else if l \<noteq> [] \<and> F_TO l = F_FROM f \<and> F_FROM l = F_TO f \<and> F_CMD l = F_CMD f
      then pend_add l (civ_last_dir civ) (civ_last_client civ) t (set_addr (F_FROM f) civ)
      else civ)"

definition process_radio_frame :: "byte list \<Rightarrow> u64 \<Rightarrow> civ \<Rightarrow> civ" where
  "process_radio_frame f t civ =
     (let ra = radio_addr (civ_cfg civ); flen = freq_len (civ_cfg civ); dir = CAT_DIR_RADIO in
      if F_FROM f = ra \<and> F_TO f \<noteq> ra then
        (if F_TO f = CIV_BCAST then
           let (r, st) = apply_unsolicited flen (civ_st civ) f t
           in civ_emit (if r < 0 then CAT_FRAME_BAD else CAT_FRAME_UNSOLICITED) dir f (r > 0) False 0 t (civ\<lparr>civ_st := st\<rparr>)
         else if F_CMD f = CIV_OK \<or> F_CMD f = CIV_NG then
           let acc = (F_CMD f = CIV_OK); kind = (if acc then CAT_FRAME_ACK else CAT_FRAME_NAK) in
           (case pend_find_ack civ (F_TO f) acc of
              None \<Rightarrow> civ_emit kind dir f False False 0 t civ
            | Some i \<Rightarrow>
                let p = civ_pend civ ! i;
                    (r, st) = (if acc \<and> is_query (cp_buf p) = 0 then apply_set flen (civ_st civ) (cp_buf p) t else (0, civ_st civ))
                in civ_emit kind dir f (r > 0) (cp_own p) (cp_client p) t (pend_consume i (civ\<lparr>civ_st := st\<rparr>)))
         else
           (case pend_find_query civ f of
              None \<Rightarrow> civ_emit CAT_FRAME_UNMATCHED dir f False False 0 t civ
            | Some i \<Rightarrow>
                let p = civ_pend civ ! i; civ1 = pend_consume i civ;
                    (r, st) = apply_reply flen (civ_st civ1) f t
                in civ_emit (if r < 0 then CAT_FRAME_BAD else CAT_FRAME_REPLY) dir f (r > 0) (cp_own p) (cp_client p) t (civ1\<lparr>civ_st := st\<rparr>)))
      else if F_TO f = ra \<and> F_FROM f \<noteq> ra \<and> F_FROM f \<noteq> CIV_BCAST then
        (case pend_find_echo civ f of
           Some i \<Rightarrow>
             let p = civ_pend civ ! i
             in civ_emit CAT_FRAME_ECHO dir f False (cp_own p) (cp_client p) t
                  (civ\<lparr>civ_pend := (civ_pend civ)[i := p\<lparr>cp_echoed := True\<rparr>]\<rparr>)
         | None \<Rightarrow> civ_emit CAT_FRAME_CMD dir f False False 0 t (pend_add f CAT_DIR_RADIO 0 t civ))
      else civ_emit CAT_FRAME_FOREIGN dir f False False 0 t civ)"

definition process_frame :: "cat_dir \<Rightarrow> int \<Rightarrow> byte list \<Rightarrow> u64 \<Rightarrow> civ \<Rightarrow> civ" where
  "process_frame dir client f t civ =
     (let own = (dir = CAT_DIR_OWN);
          civ1 = pend_expire t (civ\<lparr>civ_stats := (civ_stats civ)\<lparr>cs_frames := cs_frames (civ_stats civ) + 1\<rparr>\<rparr>);
          civ2 = (if radio_addr (civ_cfg civ1) = 0 then learn_addr dir f t civ1 else civ1);
          civ3 =
            (if radio_addr (civ_cfg civ2) = 0 then civ_emit CAT_FRAME_FOREIGN dir f False own client t civ2
             else if dir = CAT_DIR_RADIO then process_radio_frame f t civ2
             else if F_TO f = radio_addr (civ_cfg civ2) \<and> F_FROM f \<noteq> CIV_BCAST
             then civ_emit CAT_FRAME_CMD dir f False own client t (pend_add f dir client t civ2)
             else civ_emit CAT_FRAME_FOREIGN dir f False own client t civ2)
      in civ3\<lparr>civ_last := f, civ_last_dir := dir, civ_last_client := client\<rparr>)"

section \<open>Framer\<close>

definition set_rx :: "nat \<Rightarrow> civ_rx \<Rightarrow> civ \<Rightarrow> civ" where
  "set_rx k rx civ = civ\<lparr>civ_rx := (civ_rx civ)(k := rx)\<rparr>"

definition rx_drop :: "cat_dir \<Rightarrow> int \<Rightarrow> nat \<Rightarrow> u64 \<Rightarrow> civ \<Rightarrow> civ" where
  "rx_drop dir client k t civ =
     (let rx = civ_rx civ k;
          civ1 = (if length (rx_buf rx) > 2
                  then civ_emit CAT_FRAME_DROPPED dir (rx_buf rx) False (dir = CAT_DIR_OWN) client t civ else civ)
      in set_rx k ((civ_rx civ1 k)\<lparr>rx_buf := []\<rparr>) civ1)"

definition mark_lost :: "u64 \<Rightarrow> civ \<Rightarrow> civ" where
  "mark_lost t civ =
     civ\<lparr>civ_pend := map (\<lambda>p. if cp_from_host p \<and> \<not> cp_echoed p \<and> cp_t p + CIV_COLLISION_MS \<ge> t
                              then p\<lparr>cp_lost := True\<rparr> else p) (civ_pend civ)\<rparr>"

definition set_rx_state :: "nat \<Rightarrow> rx_state \<Rightarrow> civ \<Rightarrow> civ" where
  "set_rx_state k s civ = set_rx k ((civ_rx civ k)\<lparr>rx_state := s\<rparr>) civ"

definition rx_jam :: "cat_dir \<Rightarrow> int \<Rightarrow> nat \<Rightarrow> u64 \<Rightarrow> civ \<Rightarrow> civ" where
  "rx_jam dir client k t civ =
     (let civ1 = (if dir = CAT_DIR_RADIO then mark_lost t civ else civ);
          civ2 = rx_drop dir client k t civ1;
          civ3 = civ_emit CAT_FRAME_JAM dir [CIV_COL] False (dir = CAT_DIR_OWN) client t civ2
      in set_rx_state k RX_IDLE civ3)"

definition rx_byte :: "cat_dir \<Rightarrow> int \<Rightarrow> nat \<Rightarrow> u64 \<Rightarrow> byte \<Rightarrow> civ \<Rightarrow> civ" where
  "rx_byte dir client k t b civ0 =
     (let civ = set_rx k ((civ_rx civ0 k)\<lparr>rx_t := t\<rparr>) civ0; rx = civ_rx civ k in
      if b = CIV_COL then rx_jam dir client k t civ
      else case rx_state rx of
        RX_IDLE \<Rightarrow> (if b = CIV_PRE then set_rx_state k RX_PRE civ else civ)
      | RX_PRE \<Rightarrow>
          (if b = CIV_PRE then set_rx k (rx\<lparr>rx_buf := [CIV_PRE, CIV_PRE], rx_state := RX_IN\<rparr>) civ
           else set_rx_state k RX_IDLE civ)
      | RX_IN \<Rightarrow>
          (if b = CIV_PRE then
             (if length (rx_buf rx) > 2 then set_rx_state k RX_PRE (rx_drop dir client k t civ) else civ)
           else if b = CIV_EOM then
             set_rx_state k RX_IDLE
               (if length (rx_buf rx) + 1 \<ge> CIV_MIN_LEN
                then let civ1 = set_rx k (rx\<lparr>rx_buf := rx_buf rx @ [b]\<rparr>) civ;
                         civ2 = process_frame dir client (rx_buf rx @ [b]) t civ1
                     in set_rx k ((civ_rx civ2 k)\<lparr>rx_buf := []\<rparr>) civ2
                else rx_drop dir client k t civ)
           else if length (rx_buf rx) + 1 < CIV_MAX_FRAME then set_rx k (rx\<lparr>rx_buf := rx_buf rx @ [b]\<rparr>) civ
           else set_rx_state k RX_SKIP (rx_drop dir client k t civ))
      | RX_SKIP \<Rightarrow>
          (if b = CIV_EOM then set_rx_state k RX_IDLE civ
           else if b = CIV_PRE then set_rx_state k RX_PRE civ else civ))"

definition rx_partial :: "civ_rx \<Rightarrow> u64 \<Rightarrow> bool" where
  "rx_partial rx t \<longleftrightarrow> rx_state rx \<noteq> RX_IDLE \<and> rx_t rx + PEND_TIMEOUT_MS \<ge> t"

definition cat_civ_pending :: "civ \<Rightarrow> u64 \<Rightarrow> u32" where
  "cat_civ_pending civ t =
     (let r = fold (\<lambda>c r. if rx_partial (civ_rx civ c) t then r OR CAT_PENDING_CLIENT else r) [0..<9] 0
      in fold (\<lambda>p r. if cp_t p + PEND_TIMEOUT_MS \<ge> t then r OR (if cp_own p then CAT_PENDING_OWN else CAT_PENDING_CLIENT) else r)
           (civ_pend civ) r)"

definition cat_civ_client_busy :: "civ \<Rightarrow> int \<Rightarrow> u64 \<Rightarrow> bool" where
  "cat_civ_client_busy civ client t =
     (if \<not> valid_client client then False
      else if rx_partial (civ_rx civ (nat (client - 1))) t then True
      else list_ex (\<lambda>p. cp_client p = client \<and> cp_t p + PEND_TIMEOUT_MS \<ge> t) (civ_pend civ))"

definition cat_civ_client_discard :: "civ \<Rightarrow> int \<Rightarrow> civ" where
  "cat_civ_client_discard civ client =
     (if \<not> valid_client client then civ
      else let k = nat (client - 1);
               civ1 = set_rx k ((civ_rx civ k)\<lparr>rx_buf := [], rx_state := RX_IDLE\<rparr>) civ
           in if civ_pend civ1 = [] then civ1
              else civ1\<lparr>civ_pend := remove_down (\<lambda>p. cp_client p = client) (length (civ_pend civ1) - 1) (civ_pend civ1)\<rparr>)"

definition cat_civ_lost :: "civ \<Rightarrow> int" where
  "cat_civ_lost civ = fold (\<lambda>p n. n + (if cp_lost p then 1 else 0)) (civ_pend civ) 0"

text \<open>The scan of \<^verbatim>\<open>cat_civ_resend\<close>: the pending commands, and the one that is sent again.\<close>

fun resend_scan :: "int \<Rightarrow> u64 \<Rightarrow> civ_pending list \<Rightarrow> civ_pending list \<times> civ_pending option" where
  "resend_scan m t [] = ([], None)"
| "resend_scan m t (p # ps) =
     (if \<not> cp_lost p then let r = resend_scan m t ps in (p # fst r, snd r)
      else let p1 = p\<lparr>cp_lost := False\<rparr> in
        if uint (cp_resends p1) \<ge> m then let r = resend_scan m t ps in (p1 # fst r, snd r)
        else let p2 = p1\<lparr>cp_resends := cp_resends p1 + 1, cp_t := t\<rparr> in (p2 # ps, Some p2))"

definition cat_civ_resend :: "civ \<Rightarrow> int \<Rightarrow> u64 \<Rightarrow> (byte list \<times> int \<times> bool) option \<times> civ" where
  "cat_civ_resend civ m t =
     (let (ps, sent) = resend_scan m t (civ_pend civ)
      in (map_option (\<lambda>p. (cp_buf p, cp_client p, cp_own p)) sent, civ\<lparr>civ_pend := ps\<rparr>))"

definition cat_civ_feed :: "civ \<Rightarrow> cat_dir \<Rightarrow> int \<Rightarrow> byte list \<Rightarrow> u64 \<Rightarrow> civ" where
  "cat_civ_feed civ dir client bs t =
     (case dir of
        CAT_DIR_HOST \<Rightarrow> (if \<not> valid_client client then civ
                         else fold (rx_byte dir client (nat (client - 1)) t) bs civ)
      | CAT_DIR_OWN \<Rightarrow> fold (rx_byte dir 0 RX_OWN t) bs civ
      | CAT_DIR_RADIO \<Rightarrow> fold (rx_byte dir 0 RX_RADIO t) bs civ)"

end
