(* ===== verification/CatCivInv.thy ===== *)
theory CatCivInv
  imports CatCiv
begin

text \<open>
  The CI-V decoder: what each operation leaves alone, the well-formedness of its state
  (\<open>civ_ok\<close>), what a step may report and change (\<open>civ_reports\<close>), and the interpretation of the
  decoder interface \<open>cat_decoder\<close>.
\<close>

section \<open>Frames on the wire\<close>

text \<open>A complete frame: preamble, a body without reserved bytes, end of message.\<close>

definition clean :: "byte list \<Rightarrow> bool" where
  "clean bs \<longleftrightarrow> (\<forall>b \<in> set bs. b \<noteq> CIV_PRE \<and> b \<noteq> CIV_EOM \<and> b \<noteq> CIV_COL)"

definition civ_frame :: "byte list \<Rightarrow> byte list" where
  "civ_frame body = CIV_PRE # CIV_PRE # body @ [CIV_EOM]"

definition wf_frame :: "byte list \<Rightarrow> bool" where
  "wf_frame f \<longleftrightarrow> hd f = CIV_PRE \<and> hd (tl f) = CIV_PRE \<and> last f = CIV_EOM \<and> clean (butlast (tl (tl f))) \<and>
     CIV_MIN_LEN \<le> length f \<and> length f \<le> CIV_MAX_FRAME"

lemma clean_simps [simp]:
  "clean []"
  "clean (b # bs) \<longleftrightarrow> b \<noteq> CIV_PRE \<and> b \<noteq> CIV_EOM \<and> b \<noteq> CIV_COL \<and> clean bs"
  "clean (xs @ ys) \<longleftrightarrow> clean xs \<and> clean ys"
  by (auto simp: clean_def)

lemma wf_civ_frame: "wf_frame (civ_frame body) \<longleftrightarrow> clean body \<and> 3 \<le> length body \<and> length body \<le> 61"
  by (auto simp: wf_frame_def civ_frame_def)

section \<open>What an operation leaves alone\<close>

lemma civ_emit_frames [simp, frames]:
  "civ_cfg (civ_emit k d b a own c t civ) = civ_cfg civ"
  "civ_st (civ_emit k d b a own c t civ) = civ_st civ"
  "civ_cb (civ_emit k d b a own c t civ) = civ_cb civ"
  "civ_rx (civ_emit k d b a own c t civ) = civ_rx civ"
  "civ_pend (civ_emit k d b a own c t civ) = civ_pend civ"
  "civ_last (civ_emit k d b a own c t civ) = civ_last civ"
  "civ_last_dir (civ_emit k d b a own c t civ) = civ_last_dir civ"
  "civ_last_client (civ_emit k d b a own c t civ) = civ_last_client civ"
  by (simp_all add: civ_emit_def Let_def)

text \<open>The report itself.\<close>

definition report :: "cat_frame_kind \<Rightarrow> cat_dir \<Rightarrow> byte list \<Rightarrow> bool \<Rightarrow> bool \<Rightarrow> int \<Rightarrow> u64 \<Rightarrow> cat_frame" where
  "report kind dir buf applied own client t =
     \<lparr>fr_kind = kind, fr_dir = dir, fr_t = t, fr_buf = buf, fr_applied = applied, fr_text = False, fr_own = own, fr_client = client\<rparr>"

lemma report_simps [simp]:
  "fr_kind (report k d b a own c t) = k" "fr_dir (report k d b a own c t) = d" "fr_t (report k d b a own c t) = t"
  "fr_buf (report k d b a own c t) = b" "fr_applied (report k d b a own c t) = a" "fr_text (report k d b a own c t) = False"
  "fr_own (report k d b a own c t) = own" "fr_client (report k d b a own c t) = c"
  by (simp_all add: report_def)

lemma civ_emit_log [simp]:
  "civ_log (civ_emit k d b a own c t civ) = (if civ_cb civ then civ_log civ @ [report k d b a own c t] else civ_log civ)"
  by (simp add: civ_emit_def Let_def report_def)

lemma pend_frames [simp, frames]:
  "civ_cfg (pend_expire t civ) = civ_cfg civ" "civ_st (pend_expire t civ) = civ_st civ" "civ_cb (pend_expire t civ) = civ_cb civ"
  "civ_rx (pend_expire t civ) = civ_rx civ" "civ_last (pend_expire t civ) = civ_last civ"
  "civ_last_dir (pend_expire t civ) = civ_last_dir civ" "civ_last_client (pend_expire t civ) = civ_last_client civ"
  "civ_stats (pend_expire t civ) = civ_stats civ" "civ_log (pend_expire t civ) = civ_log civ"
  "civ_cfg (pend_add f dir c t civ) = civ_cfg civ" "civ_st (pend_add f dir c t civ) = civ_st civ"
  "civ_cb (pend_add f dir c t civ) = civ_cb civ" "civ_rx (pend_add f dir c t civ) = civ_rx civ"
  "civ_last (pend_add f dir c t civ) = civ_last civ" "civ_last_dir (pend_add f dir c t civ) = civ_last_dir civ"
  "civ_last_client (pend_add f dir c t civ) = civ_last_client civ" "civ_stats (pend_add f dir c t civ) = civ_stats civ"
  "civ_log (pend_add f dir c t civ) = civ_log civ"
  "civ_cfg (pend_consume i civ) = civ_cfg civ" "civ_st (pend_consume i civ) = civ_st civ"
  "civ_cb (pend_consume i civ) = civ_cb civ" "civ_rx (pend_consume i civ) = civ_rx civ"
  "civ_last (pend_consume i civ) = civ_last civ" "civ_last_dir (pend_consume i civ) = civ_last_dir civ"
  "civ_last_client (pend_consume i civ) = civ_last_client civ" "civ_stats (pend_consume i civ) = civ_stats civ"
  "civ_log (pend_consume i civ) = civ_log civ"
  by (simp_all add: pend_expire_def pend_add_def pend_consume_def Let_def)

lemma set_addr_frames [simp, frames]:
  "civ_st (set_addr a civ) = civ_st civ" "civ_cb (set_addr a civ) = civ_cb civ" "civ_rx (set_addr a civ) = civ_rx civ"
  "civ_pend (set_addr a civ) = civ_pend civ" "civ_last (set_addr a civ) = civ_last civ"
  "civ_last_dir (set_addr a civ) = civ_last_dir civ" "civ_last_client (set_addr a civ) = civ_last_client civ"
  "civ_stats (set_addr a civ) = civ_stats civ" "civ_log (set_addr a civ) = civ_log civ"
  by (simp_all add: set_addr_def)

lemma learn_frames [simp, frames]:
  "civ_st (learn_addr dir f t civ) = civ_st civ" "civ_cb (learn_addr dir f t civ) = civ_cb civ"
  "civ_rx (learn_addr dir f t civ) = civ_rx civ" "civ_last (learn_addr dir f t civ) = civ_last civ"
  "civ_last_dir (learn_addr dir f t civ) = civ_last_dir civ" "civ_last_client (learn_addr dir f t civ) = civ_last_client civ"
  "civ_stats (learn_addr dir f t civ) = civ_stats civ" "civ_log (learn_addr dir f t civ) = civ_log civ"
  by (simp_all add: learn_addr_def Let_def)

lemma set_rx_frames [simp, frames]:
  "civ_cfg (set_rx k r civ) = civ_cfg civ" "civ_st (set_rx k r civ) = civ_st civ" "civ_cb (set_rx k r civ) = civ_cb civ"
  "civ_rx (set_rx k r civ) = (civ_rx civ)(k := r)" "civ_pend (set_rx k r civ) = civ_pend civ"
  "civ_last (set_rx k r civ) = civ_last civ" "civ_last_dir (set_rx k r civ) = civ_last_dir civ"
  "civ_last_client (set_rx k r civ) = civ_last_client civ" "civ_stats (set_rx k r civ) = civ_stats civ"
  "civ_log (set_rx k r civ) = civ_log civ"
  by (simp_all add: set_rx_def)

lemma set_rx_state_rx: "set_rx_state k s civ = set_rx k ((civ_rx civ k)\<lparr>rx_state := s\<rparr>) civ"
  by (rule set_rx_state_def)

lemma mark_lost_frames [simp, frames]:
  "civ_cfg (mark_lost t civ) = civ_cfg civ" "civ_st (mark_lost t civ) = civ_st civ" "civ_cb (mark_lost t civ) = civ_cb civ"
  "civ_rx (mark_lost t civ) = civ_rx civ" "civ_last (mark_lost t civ) = civ_last civ"
  "civ_last_dir (mark_lost t civ) = civ_last_dir civ" "civ_last_client (mark_lost t civ) = civ_last_client civ"
  "civ_stats (mark_lost t civ) = civ_stats civ" "civ_log (mark_lost t civ) = civ_log civ"
  by (simp_all add: mark_lost_def)

section \<open>Pending commands\<close>

definition same_ctrl :: "civ_pending \<Rightarrow> civ_pending \<Rightarrow> bool" where
  "same_ctrl q p \<longleftrightarrow> F_FROM (cp_buf p) = F_FROM (cp_buf q) \<and> cp_client p = cp_client q"

lemma pend_consume_pend:
  "i < length (civ_pend civ) \<Longrightarrow>
   civ_pend (pend_consume i civ) = filter (\<lambda>p. \<not> same_ctrl (civ_pend civ ! i) p) (take (Suc i) (civ_pend civ)) @ drop (Suc i) (civ_pend civ)"
  by (simp add: pend_consume_def Let_def remove_down_filter same_ctrl_def)

lemma pend_consume_set: "i < length (civ_pend civ) \<Longrightarrow> set (civ_pend (pend_consume i civ)) \<subseteq> set (civ_pend civ)"
  by (auto simp: pend_consume_pend dest: in_set_takeD in_set_dropD)

lemma pend_consume_length: "i < length (civ_pend civ) \<Longrightarrow> length (civ_pend (pend_consume i civ)) \<le> length (civ_pend civ)"
proof -
  assume i: "i < length (civ_pend civ)"
  have "length (filter (\<lambda>p. \<not> same_ctrl (civ_pend civ ! i) p) (take (Suc i) (civ_pend civ))) \<le> length (take (Suc i) (civ_pend civ))"
    by (rule length_filter_le)
  with i show ?thesis by (simp add: pend_consume_pend)
qed

section \<open>What a frame does to the radio state\<close>

text \<open>A decoder of a frame reports 1 and has applied operations on the state, or has left it alone.\<close>

definition applies :: "u64 \<Rightarrow> cat_state \<Rightarrow> applied \<Rightarrow> bool" where
  "applies t st r \<longleftrightarrow> (fst r = 1 \<and> (\<exists>ops. snd r = cat_run (map (\<lambda>x. (x, t)) ops) st)) \<or> (fst r \<in> {0, -1} \<and> snd r = st)"

lemma appliesI1: "applies t st (1, cat_apply (op, t) st)"
proof -
  have "cat_apply (op, t) st = cat_run (map (\<lambda>x. (x, t)) [op]) st" by (simp add: cat_run_def)
  then show ?thesis unfolding applies_def by (metis fst_conv snd_conv)
qed

lemma appliesI2: "applies t st (1, cat_apply (op2, t) (cat_apply (op1, t) st))"
proof -
  have "cat_apply (op2, t) (cat_apply (op1, t) st) = cat_run (map (\<lambda>x. (x, t)) [op1, op2]) st" by (simp add: cat_run_def)
  then show ?thesis unfolding applies_def by (metis fst_conv snd_conv)
qed

lemma appliesI0 [intro]: "applies t st (0, st)" "applies t st (-1, st)"
  by (simp_all add: applies_def)

lemmas applies_ops [intro] = appliesI1 [of t st "SetFreq v x", simplified] appliesI1 [of t st "SetMode v m", simplified]
  appliesI1 [of t st "SetData v b", simplified] appliesI1 [of t st "SetSplit b", simplified]
  appliesI1 [of t st "SelectVfo b", simplified] appliesI1 [of t st ExchangeVfos, simplified]
  appliesI1 [of t st EqualizeVfos, simplified] appliesI2 [of t st "SetData v b" "SetMode w m", simplified] for t st v w x m b

lemma applies_freq [intro]: "applies t st (apply_freq flen st vfo p t)"
  by (auto simp: apply_freq_def split: option.split)

lemma applies_mode [intro]: "applies t st (apply_mode st vfo p t)"
  by (auto simp: apply_mode_def split: option.split)

lemma applies_25 [intro]: "applies t st (apply_25 flen st p t)"
  by (auto simp: apply_25_def)

lemma applies_26 [intro]: "applies t st (apply_26 st p t)"
  by (auto simp: apply_26_def split: option.split)

lemma applies_1a06 [intro]: "applies t st (apply_1a06 st p t)"
  by (auto simp: apply_1a06_def split: option.split)

lemma applies_0f [intro]: "applies t st (apply_0f st p t)"
  by (auto simp: apply_0f_def)

lemma applies_07 [intro]: "applies t st (apply_07 st p t)"
  by (auto simp: apply_07_def)

lemma applies_reply [intro]: "applies t st (apply_reply flen st f t)"
  unfolding apply_reply_def Let_def by (auto simp only: split: if_split)

lemma applies_unsolicited [intro]: "applies t st (apply_unsolicited flen st f t)"
  unfolding apply_unsolicited_def Let_def by (auto simp only: split: if_split)

lemma applies_set [intro]: "applies t st (apply_set flen st f t)"
  unfolding apply_set_def Let_def by (auto simp only: split: if_split)

lemma applies_ok: "applies t st r \<Longrightarrow> cat_ok st \<Longrightarrow> cat_ok (snd r)"
  by (auto simp: applies_def cat_run_ok)

lemma applies_not: "applies t st r \<Longrightarrow> \<not> fst r > 0 \<Longrightarrow> snd r = st"
  by (auto simp: applies_def)

section \<open>Well-formed states\<close>

text \<open>Where bytes come from: a client, mhuxd itself, or the radio.\<close>

definition src_ok :: "cat_dir \<Rightarrow> int \<Rightarrow> bool" where
  "src_ok dir client \<longleftrightarrow> 0 \<le> client \<and> client \<le> CAT_MAX_CLIENTS \<and> (dir \<noteq> CAT_DIR_HOST \<longrightarrow> client = 0)"

definition pend_ok :: "civ_pending \<Rightarrow> bool" where
  "pend_ok p \<longleftrightarrow> wf_frame (cp_buf p) \<and> 0 \<le> cp_client p \<and> cp_client p \<le> CAT_MAX_CLIENTS \<and>
     (cp_own p \<longrightarrow> cp_client p = 0 \<and> cp_from_host p) \<and> (cp_lost p \<longrightarrow> cp_from_host p) \<and>
     (\<not> cp_from_host p \<longrightarrow> cp_echoed p \<and> cp_client p = 0)"

definition rx_ok :: "civ_rx \<Rightarrow> bool" where
  "rx_ok r \<longleftrightarrow> (if rx_state r = RX_IN then (\<exists>body. rx_buf r = CIV_PRE # CIV_PRE # body \<and> clean body \<and> length body \<le> 61)
               else rx_buf r = [])"

text \<open>What a report may look like.\<close>

definition report_ok :: "cat_frame \<Rightarrow> bool" where
  "report_ok e \<longleftrightarrow>
     (if fr_kind e = CAT_FRAME_JAM then fr_buf e = [CIV_COL]
      else if fr_kind e = CAT_FRAME_DROPPED then 3 \<le> length (fr_buf e) \<and> length (fr_buf e) < CIV_MAX_FRAME
      else wf_frame (fr_buf e)) \<and>
     (fr_applied e \<longrightarrow> fr_dir e = CAT_DIR_RADIO \<and> fr_kind e \<in> {CAT_FRAME_ACK, CAT_FRAME_REPLY, CAT_FRAME_UNSOLICITED}) \<and>
     0 \<le> fr_client e \<and> fr_client e \<le> CAT_MAX_CLIENTS \<and> (fr_own e \<longrightarrow> fr_client e = 0) \<and> \<not> fr_text e"

definition civ_ok :: "civ \<Rightarrow> bool" where
  "civ_ok d \<longleftrightarrow> cat_ok (civ_st d) \<and> length (civ_pend d) \<le> PEND_MAX \<and> (\<forall>p \<in> set (civ_pend d). pend_ok p) \<and>
     (civ_last d = [] \<or> wf_frame (civ_last d) \<and> src_ok (civ_last_dir d) (civ_last_client d)) \<and>
     (\<forall>k. rx_ok (civ_rx d k)) \<and> (\<forall>e \<in> set (civ_log d). report_ok e)"

lemma civ_ok_create: "cat_ok st \<Longrightarrow> civ_ok (cat_civ_create cfg st)"
  by (simp add: civ_ok_def cat_civ_create_def Let_def rx_ok_def)

lemma civ_ok_set_frame_cb [invs]: "civ_ok d \<Longrightarrow> civ_ok (cat_civ_set_frame_cb d cb)"
  by (simp add: civ_ok_def cat_civ_set_frame_cb_def)

lemma civ_okD:
  assumes "civ_ok d"
  shows "cat_ok (civ_st d)" "length (civ_pend d) \<le> PEND_MAX" "\<And>p. p \<in> set (civ_pend d) \<Longrightarrow> pend_ok p" "\<And>k. rx_ok (civ_rx d k)"
  using assms by (simp_all add: civ_ok_def)

lemma civ_ok_emit [invs]: "civ_ok d \<Longrightarrow> report_ok (report k dir b a own c t) \<Longrightarrow> civ_ok (civ_emit k dir b a own c t d)"
  by (auto simp: civ_ok_def)

lemma civ_ok_st [invs]: "civ_ok d \<Longrightarrow> cat_ok st \<Longrightarrow> civ_ok (d\<lparr>civ_st := st\<rparr>)"
  by (simp add: civ_ok_def)

lemma civ_ok_stats [invs]: "civ_ok (d\<lparr>civ_stats := s\<rparr>) = civ_ok d"
  by (simp add: civ_ok_def)

lemma civ_ok_pend: "civ_ok d \<Longrightarrow> length ps \<le> PEND_MAX \<Longrightarrow> (\<And>p. p \<in> set ps \<Longrightarrow> pend_ok p) \<Longrightarrow> civ_ok (d\<lparr>civ_pend := ps\<rparr>)"
  by (simp add: civ_ok_def)

lemma civ_ok_expire [invs]: "civ_ok d \<Longrightarrow> civ_ok (pend_expire t d)"
  unfolding pend_expire_def
  by (rule civ_ok_pend) (auto dest: civ_okD set_dropWhileD intro: order_trans [OF length_dropWhile_le])

lemma civ_ok_add [invs]:
  assumes "civ_ok d" "wf_frame f" "src_ok dir c"
  shows "civ_ok (pend_add f dir c t d)"
  unfolding pend_add_def Let_def
proof (rule civ_ok_pend [OF assms(1)], goal_cases)
  case 1
  then show ?case using civ_okD(2) [OF assms(1)] length_remove_nth_le [of 0 "civ_pend d"] by auto
next
  case (2 p)
  then show ?case using civ_okD(3) [OF assms(1)] assms(2,3)
    by (cases dir) (auto simp: pend_ok_def src_ok_def split: if_splits dest: set_remove_nthD)
qed

lemma civ_ok_consume [invs]:
  assumes "civ_ok d" "i < length (civ_pend d)"
  shows "civ_ok (pend_consume i d)"
proof -
  have "pend_consume i d = d\<lparr>civ_pend := civ_pend (pend_consume i d)\<rparr>" by (simp add: pend_consume_def Let_def)
  moreover have "civ_ok (d\<lparr>civ_pend := civ_pend (pend_consume i d)\<rparr>)"
    using assms(1) pend_consume_set [OF assms(2)] pend_consume_length [OF assms(2)] civ_okD(2) [OF assms(1)]
    by (intro civ_ok_pend) (auto intro: civ_okD(3))
  ultimately show ?thesis by (rule ssubst)
qed

lemma civ_ok_set_addr [invs]: "civ_ok (set_addr a d) = civ_ok d"
  by (simp add: civ_ok_def)

lemma civ_ok_set_rx [invs]: "civ_ok d \<Longrightarrow> rx_ok r \<Longrightarrow> civ_ok (set_rx k r d)"
  by (simp add: civ_ok_def)

lemma civ_ok_learn [invs]: "civ_ok d \<Longrightarrow> civ_ok (learn_addr dir f t d)"
proof -
  assume ok: "civ_ok d"
  have "civ_last d \<noteq> [] \<Longrightarrow> civ_ok (pend_add (civ_last d) (civ_last_dir d) (civ_last_client d) t (set_addr (F_FROM f) d))"
    using ok by (intro civ_ok_add) (auto simp: civ_ok_set_addr civ_ok_def)
  with ok show ?thesis by (simp add: learn_addr_def Let_def civ_ok_set_addr)
qed

lemma pend_ok_nth: "civ_ok d \<Longrightarrow> i < length (civ_pend d) \<Longrightarrow> pend_ok (civ_pend d ! i)"
  using civ_okD(3) nth_mem by blast

lemma report_ok_wf:
  "wf_frame f \<Longrightarrow> k \<notin> {CAT_FRAME_JAM, CAT_FRAME_DROPPED} \<Longrightarrow> 0 \<le> c \<Longrightarrow> c \<le> CAT_MAX_CLIENTS \<Longrightarrow> (own \<Longrightarrow> c = 0) \<Longrightarrow>
   (a \<Longrightarrow> dir = CAT_DIR_RADIO \<and> k \<in> {CAT_FRAME_ACK, CAT_FRAME_REPLY, CAT_FRAME_UNSOLICITED}) \<Longrightarrow>
   report_ok (report k dir f a own c t)"
  by (auto simp: report_ok_def)

lemma civ_ok_echoed [invs]:
  assumes ok: "civ_ok d" and i: "i < length (civ_pend d)"
  shows "civ_ok (d\<lparr>civ_pend := (civ_pend d)[i := (civ_pend d ! i)\<lparr>cp_echoed := True\<rparr>]\<rparr>)"
proof (rule civ_ok_pend [OF ok])
  show "length ((civ_pend d)[i := (civ_pend d ! i)\<lparr>cp_echoed := True\<rparr>]) \<le> PEND_MAX" using civ_okD(2) [OF ok] by simp
  fix p assume "p \<in> set ((civ_pend d)[i := (civ_pend d ! i)\<lparr>cp_echoed := True\<rparr>])"
  then have "p \<in> set (civ_pend d) \<or> p = (civ_pend d ! i)\<lparr>cp_echoed := True\<rparr>"
    using set_update_subset_insert by fast
  moreover have "pend_ok ((civ_pend d ! i)\<lparr>cp_echoed := True\<rparr>)" using pend_ok_nth [OF ok i] by (simp add: pend_ok_def)
  ultimately show "pend_ok p" using civ_okD(3) [OF ok] by blast
qed

text \<open>The ways a frame on the radio stream is taken.\<close>

lemma radio_frame_cases [case_names uns ack ack_none reply unmatched echo cmd foreign]:
  assumes "\<And>r. applies t (civ_st d) r \<Longrightarrow>
      P (civ_emit (if fst r < 0 then CAT_FRAME_BAD else CAT_FRAME_UNSOLICITED) CAT_DIR_RADIO f (fst r > 0) False 0 t (d\<lparr>civ_st := snd r\<rparr>))"
    and "\<And>i r acc. i < length (civ_pend d) \<Longrightarrow> applies t (civ_st d) r \<Longrightarrow> (\<not> acc \<Longrightarrow> r = (0, civ_st d)) \<Longrightarrow>
      P (civ_emit (if acc then CAT_FRAME_ACK else CAT_FRAME_NAK) CAT_DIR_RADIO f (fst r > 0)
          (cp_own (civ_pend d ! i)) (cp_client (civ_pend d ! i)) t ((pend_consume i d)\<lparr>civ_st := snd r\<rparr>))"
    and "\<And>acc. P (civ_emit (if acc then CAT_FRAME_ACK else CAT_FRAME_NAK) CAT_DIR_RADIO f False False 0 t d)"
    and "\<And>i r. i < length (civ_pend d) \<Longrightarrow> applies t (civ_st d) r \<Longrightarrow>
      P (civ_emit (if fst r < 0 then CAT_FRAME_BAD else CAT_FRAME_REPLY) CAT_DIR_RADIO f (fst r > 0)
          (cp_own (civ_pend d ! i)) (cp_client (civ_pend d ! i)) t ((pend_consume i d)\<lparr>civ_st := snd r\<rparr>))"
    and "P (civ_emit CAT_FRAME_UNMATCHED CAT_DIR_RADIO f False False 0 t d)"
    and "\<And>i. i < length (civ_pend d) \<Longrightarrow>
      P (civ_emit CAT_FRAME_ECHO CAT_DIR_RADIO f False (cp_own (civ_pend d ! i)) (cp_client (civ_pend d ! i)) t
          (d\<lparr>civ_pend := (civ_pend d)[i := (civ_pend d ! i)\<lparr>cp_echoed := True\<rparr>]\<rparr>))"
    and "P (civ_emit CAT_FRAME_CMD CAT_DIR_RADIO f False False 0 t (pend_add f CAT_DIR_RADIO 0 t d))"
    and "P (civ_emit CAT_FRAME_FOREIGN CAT_DIR_RADIO f False False 0 t d)"
  shows "P (process_radio_frame f t d)"
proof -
  have bound: "pend_find_ack d x acc = Some i \<Longrightarrow> i < length (civ_pend d)" "pend_find_query d g = Some i \<Longrightarrow> i < length (civ_pend d)"
    "pend_find_echo d g = Some i \<Longrightarrow> i < length (civ_pend d)" for x acc g i
    unfolding pend_find_ack_def pend_find_query_def pend_find_echo_def by (rule find_index_bound, assumption)+
  have swap: "pend_consume i (d\<lparr>civ_st := st'\<rparr>) = (pend_consume i d)\<lparr>civ_st := st'\<rparr>" for i st'
    by (simp add: pend_consume_def Let_def)
  have ifI: "(c \<Longrightarrow> P a) \<Longrightarrow> (\<not> c \<Longrightarrow> P b) \<Longrightarrow> P (if c then a else b)" for c a b by simp
  have optI: "(x = None \<Longrightarrow> P a) \<Longrightarrow> (\<And>i. x = Some i \<Longrightarrow> P (g i)) \<Longrightarrow> P (case x of None \<Rightarrow> a | Some i \<Rightarrow> g i)"
    for x :: "nat option" and a g by (cases x) simp_all
  have ack: "P (civ_emit (if acc then CAT_FRAME_ACK else CAT_FRAME_NAK) CAT_DIR_RADIO f (fst r > 0)
          (cp_own (civ_pend d ! i)) (cp_client (civ_pend d ! i)) t ((pend_consume i d)\<lparr>civ_st := snd r\<rparr>))"
    if "pend_find_ack d x acc' = Some i" "r = (if acc \<and> b then apply_set flen (civ_st d) g t else (0, civ_st d))" for x acc acc' i r b flen g
    using that by (intro assms(2) bound(1) [OF that(1)]) auto
  show ?thesis
    unfolding process_radio_frame_def Let_def split_def swap pend_frames
    by (intro ifI optI)
      (rule assms(1) [OF applies_unsolicited] assms(3) ack [OF _ refl] assms(5) assms(4) [OF bound(2) applies_reply]
        assms(7) assms(6) [OF bound(3)] assms(8); assumption?)+
qed

lemma civ_ok_radio_frame [invs]:
  assumes ok: "civ_ok d" and wf: "wf_frame f"
  shows "civ_ok (process_radio_frame f t d)"
proof -
  have p: "i < length (civ_pend d) \<Longrightarrow> (cp_own (civ_pend d ! i) \<longrightarrow> cp_client (civ_pend d ! i) = 0) \<and>
      0 \<le> cp_client (civ_pend d ! i) \<and> cp_client (civ_pend d ! i) \<le> CAT_MAX_CLIENTS" for i
    using pend_ok_nth [OF ok] by (auto simp: pend_ok_def)
  note st = applies_ok [OF _ civ_okD(1) [OF ok]]
  show ?thesis
    by (rule radio_frame_cases)
      (use ok wf p st in \<open>auto simp: src_ok_def intro!: civ_ok_emit civ_ok_st civ_ok_consume civ_ok_echoed civ_ok_add report_ok_wf\<close>)
qed

lemma civ_ok_process_frame [invs]:
  assumes ok: "civ_ok d" and wf: "wf_frame f" and src: "src_ok dir c"
  shows "civ_ok (process_frame dir c f t d)"
proof -
  have last: "civ_ok e \<Longrightarrow> civ_ok (e\<lparr>civ_last := f, civ_last_dir := dir, civ_last_client := c\<rparr>)" for e
    using wf src by (simp add: civ_ok_def)
  define d1 where "d1 = pend_expire t (d\<lparr>civ_stats := (civ_stats d)\<lparr>cs_frames := cs_frames (civ_stats d) + 1\<rparr>\<rparr>)"
  define d2 where "d2 = (if radio_addr (civ_cfg d1) = 0 then learn_addr dir f t d1 else d1)"
  have ok2: "civ_ok d2" using ok by (simp add: d1_def d2_def civ_ok_stats civ_ok_expire civ_ok_learn)
  have rep: "k \<notin> {CAT_FRAME_JAM, CAT_FRAME_DROPPED} \<Longrightarrow> report_ok (report k dir f False (dir = CAT_DIR_OWN) c t)" for k
    using wf src by (intro report_ok_wf) (auto simp: src_ok_def)
  show ?thesis
    unfolding process_frame_def Let_def d1_def [symmetric] d2_def [symmetric]
    using ok2 wf src rep by (intro last) (auto intro!: civ_ok_emit civ_ok_radio_frame civ_ok_add)
qed

section \<open>Frame processing does not look at the framers\<close>

lemma rx_apart:
  "civ_emit k dir b a own c t (d\<lparr>civ_rx := R\<rparr>) = (civ_emit k dir b a own c t d)\<lparr>civ_rx := R\<rparr>"
  "pend_expire t (d\<lparr>civ_rx := R\<rparr>) = (pend_expire t d)\<lparr>civ_rx := R\<rparr>"
  "pend_add f dir c t (d\<lparr>civ_rx := R\<rparr>) = (pend_add f dir c t d)\<lparr>civ_rx := R\<rparr>"
  "pend_consume i (d\<lparr>civ_rx := R\<rparr>) = (pend_consume i d)\<lparr>civ_rx := R\<rparr>"
  "set_addr a' (d\<lparr>civ_rx := R\<rparr>) = (set_addr a' d)\<lparr>civ_rx := R\<rparr>"
  "pend_find_query (d\<lparr>civ_rx := R\<rparr>) f = pend_find_query d f"
  "pend_find_ack (d\<lparr>civ_rx := R\<rparr>) x acc = pend_find_ack d x acc"
  "pend_find_echo (d\<lparr>civ_rx := R\<rparr>) f = pend_find_echo d f"
  by (simp_all add: civ_emit_def pend_expire_def pend_add_def pend_consume_def set_addr_def pend_find_query_def
      pend_find_ack_def pend_find_echo_def Let_def)

lemma rx_apart_learn: "learn_addr dir f t (d\<lparr>civ_rx := R\<rparr>) = (learn_addr dir f t d)\<lparr>civ_rx := R\<rparr>"
  by (simp add: learn_addr_def Let_def rx_apart)

lemma civ_upd_swap:
  "(d\<lparr>civ_rx := R\<rparr>)\<lparr>civ_st := st\<rparr> = (d\<lparr>civ_st := st\<rparr>)\<lparr>civ_rx := R\<rparr>"
  "(d\<lparr>civ_rx := R\<rparr>)\<lparr>civ_pend := ps\<rparr> = (d\<lparr>civ_pend := ps\<rparr>)\<lparr>civ_rx := R\<rparr>"
  "(d\<lparr>civ_rx := R\<rparr>)\<lparr>civ_stats := s\<rparr> = (d\<lparr>civ_stats := s\<rparr>)\<lparr>civ_rx := R\<rparr>"
  by simp_all

lemma civ_sel_rx:
  "civ_cfg (d\<lparr>civ_rx := R\<rparr>) = civ_cfg d" "civ_st (d\<lparr>civ_rx := R\<rparr>) = civ_st d" "civ_pend (d\<lparr>civ_rx := R\<rparr>) = civ_pend d"
  by simp_all

lemma rx_apart_radio: "process_radio_frame f t (d\<lparr>civ_rx := R\<rparr>) = (process_radio_frame f t d)\<lparr>civ_rx := R\<rparr>"
  unfolding process_radio_frame_def Let_def split_def
  by (simp only: if_distrib [of "\<lambda>x. x\<lparr>civ_rx := R\<rparr>"] option.case_distrib [of "\<lambda>x. x\<lparr>civ_rx := R\<rparr>"]
      civ_sel_rx rx_apart civ_upd_swap cong: if_cong option.case_cong)

lemma rx_apart_frame: "process_frame dir c f t (d\<lparr>civ_rx := R\<rparr>) = (process_frame dir c f t d)\<lparr>civ_rx := R\<rparr>"
  by (simp add: process_frame_def Let_def civ_upd_swap rx_apart rx_apart_learn rx_apart_radio)

lemma process_radio_frame_rx [simp, frames]: "civ_rx (process_radio_frame f t d) = civ_rx d"
  by (simp add: process_radio_frame_def Let_def split_def split: option.split)

lemma process_frame_rx [simp, frames]: "civ_rx (process_frame dir c f t d) = civ_rx d"
  by (simp add: process_frame_def Let_def)

lemma process_frame_set_rx:
  "set_rx k r (process_frame dir c f t (set_rx k r' d)) = set_rx k r (process_frame dir c f t d)"
  by (simp add: set_rx_def rx_apart_frame)

section \<open>The framer\<close>

lemma civ_ok_mark_lost [invs]: "civ_ok d \<Longrightarrow> civ_ok (mark_lost t d)"
  unfolding mark_lost_def
  by (rule civ_ok_pend) (auto simp: pend_ok_def dest: civ_okD(2) civ_okD(3))

lemma rx_okE:
  assumes "rx_ok r" "rx_state r = RX_IN"
  obtains body where "rx_buf r = CIV_PRE # CIV_PRE # body" "clean body" "length body \<le> 61"
  using assms by (auto simp: rx_ok_def)

lemma rx_ok_idle: "rx_ok r \<Longrightarrow> rx_state r \<noteq> RX_IN \<Longrightarrow> rx_buf r = []"
  by (simp add: rx_ok_def)

lemma rx_ok_len: "rx_ok r \<Longrightarrow> length (rx_buf r) < CIV_MAX_FRAME"
  by (cases "rx_state r = RX_IN") (auto simp: rx_ok_idle elim: rx_okE)

text \<open>The framer after dropping what it had, whatever state follows.\<close>

lemma civ_ok_drop:
  assumes ok: "civ_ok d" and src: "src_ok dir c" and s: "s \<noteq> RX_IN"
  shows "civ_ok (set_rx_state k s (rx_drop dir c k t d))"
proof -
  have rep: "report_ok (report CAT_FRAME_DROPPED dir (rx_buf (civ_rx d k)) False (dir = CAT_DIR_OWN) c t)"
    if "length (rx_buf (civ_rx d k)) > 2"
    using that src rx_ok_len [OF civ_okD(4) [OF ok], of k] by (auto simp: report_ok_def src_ok_def)
  define e where "e = (if length (rx_buf (civ_rx d k)) > 2
      then civ_emit CAT_FRAME_DROPPED dir (rx_buf (civ_rx d k)) False (dir = CAT_DIR_OWN) c t d else d)"
  have "civ_ok e" unfolding e_def using ok rep by (simp add: civ_ok_emit)
  moreover have "set_rx_state k s (rx_drop dir c k t d) = set_rx k ((civ_rx e k)\<lparr>rx_buf := [], rx_state := s\<rparr>) e"
    by (simp add: rx_drop_def Let_def set_rx_state_def e_def [symmetric])
  ultimately show ?thesis using s by (simp add: civ_ok_set_rx rx_ok_def)
qed

lemma rx_drop_rx [simp]: "civ_rx (rx_drop dir c k t d) = (civ_rx d)(k := (civ_rx d k)\<lparr>rx_buf := []\<rparr>)"
  by (simp add: rx_drop_def Let_def)

lemma civ_ok_jam:
  assumes ok: "civ_ok d" and src: "src_ok dir c"
  shows "civ_ok (rx_jam dir c k t d)"
proof -
  define d1 where "d1 = (if dir = CAT_DIR_RADIO then mark_lost t d else d)"
  have ok1: "civ_ok d1" using ok by (simp add: d1_def civ_ok_mark_lost)
  have "set_rx_state k RX_IDLE (civ_emit CAT_FRAME_JAM dir [CIV_COL] False (dir = CAT_DIR_OWN) c t (rx_drop dir c k t d1)) =
      civ_emit CAT_FRAME_JAM dir [CIV_COL] False (dir = CAT_DIR_OWN) c t (set_rx_state k RX_IDLE (rx_drop dir c k t d1))"
    by (simp add: set_rx_state_def set_rx_def civ_emit_def Let_def)
  moreover have "report_ok (report CAT_FRAME_JAM dir [CIV_COL] False (dir = CAT_DIR_OWN) c t)"
    using src by (auto simp: report_ok_def src_ok_def)
  ultimately show ?thesis
    using civ_ok_drop [OF ok1 src, of RX_IDLE k t] unfolding rx_jam_def Let_def d1_def [symmetric]
    by (simp add: civ_ok_emit)
qed

text \<open>A byte inside a frame.\<close>

lemma rx_byte_in:
  assumes "b \<noteq> CIV_COL" and "rx_state (civ_rx (set_rx k ((civ_rx d0 k)\<lparr>rx_t := t\<rparr>) d0) k) = RX_IN"
  shows "rx_byte dir c k t b d0 =
    (let d = set_rx k ((civ_rx d0 k)\<lparr>rx_t := t\<rparr>) d0; buf = rx_buf (civ_rx d k) in
     if b = CIV_PRE then (if length buf > 2 then set_rx_state k RX_PRE (rx_drop dir c k t d) else d)
     else if b = CIV_EOM then
       (if length buf + 1 \<ge> CIV_MIN_LEN
        then set_rx k \<lparr>rx_buf = [], rx_state = RX_IDLE, rx_t = t\<rparr> (process_frame dir c (buf @ [CIV_EOM]) t d)
        else set_rx_state k RX_IDLE (rx_drop dir c k t d))
     else if length buf + 1 < CIV_MAX_FRAME then set_rx k ((civ_rx d k)\<lparr>rx_buf := buf @ [b]\<rparr>) d
     else set_rx_state k RX_SKIP (rx_drop dir c k t d))"
proof -
  have idle: "set_rx_state k s (set_rx k r e) = set_rx k (r\<lparr>rx_state := s\<rparr>) e" for s r e
    by (simp add: set_rx_state_def set_rx_def)
  have r: "(civ_rx d0 k)\<lparr>rx_t := t, rx_buf := [], rx_state := RX_IDLE\<rparr> = \<lparr>rx_buf = [], rx_state = RX_IDLE, rx_t = t\<rparr>"
    by (cases "civ_rx d0 k") simp
  show ?thesis
    using assms by (simp add: rx_byte_def Let_def idle process_frame_set_rx r)
qed

lemma civ_ok_rx_byte [invs]:
  assumes ok0: "civ_ok d0" and src: "src_ok dir c"
  shows "civ_ok (rx_byte dir c k t b d0)"
proof -
  define d where "d = set_rx k ((civ_rx d0 k)\<lparr>rx_t := t\<rparr>) d0"
  have ok: "civ_ok d" unfolding d_def using ok0 civ_okD(4) [OF ok0, of k] by (intro civ_ok_set_rx) (auto simp: rx_ok_def)
  have rx: "rx_ok (civ_rx d k)" using ok by (rule civ_okD)
  have st: "civ_ok (set_rx_state k s d)" if "s \<noteq> RX_IN" "rx_state (civ_rx d k) \<noteq> RX_IN" for s
    unfolding set_rx_state_def using that rx_ok_idle [OF rx] by (intro civ_ok_set_rx ok) (simp add: rx_ok_def)
  note unf = rx_byte_def Let_def d_def [symmetric]
  show ?thesis
  proof (cases "b = CIV_COL")
    case True
    then show ?thesis unfolding unf by (simp add: civ_ok_jam ok src)
  next
    case ncol: False
    show ?thesis
    proof (cases "rx_state (civ_rx d k)")
      case RX_IDLE
      with ncol show ?thesis unfolding unf by (simp add: st ok)
    next
      case RX_PRE
      with ncol show ?thesis unfolding unf by (auto simp: st ok rx_ok_def intro!: civ_ok_set_rx)
    next
      case RX_SKIP
      with ncol show ?thesis unfolding unf by (simp add: st ok)
    next
      case RX_IN
      then obtain body where body: "rx_buf (civ_rx d k) = CIV_PRE # CIV_PRE # body" "clean body" "length body \<le> 61"
        using rx rx_okE by blast
      have eom: "civ_ok (set_rx k \<lparr>rx_buf = [], rx_state = RX_IDLE, rx_t = t\<rparr> (process_frame dir c (rx_buf (civ_rx d k) @ [CIV_EOM]) t d))"
        if "length (rx_buf (civ_rx d k)) + 1 \<ge> CIV_MIN_LEN"
        using body that by (intro civ_ok_set_rx civ_ok_process_frame ok src) (simp_all add: wf_frame_def rx_ok_def)
      have app: "civ_ok (set_rx k ((civ_rx d k)\<lparr>rx_buf := rx_buf (civ_rx d k) @ [b]\<rparr>) d)"
        if "b \<noteq> CIV_PRE" "b \<noteq> CIV_EOM" "length (rx_buf (civ_rx d k)) + 1 < CIV_MAX_FRAME"
        using body that ncol RX_IN by (intro civ_ok_set_rx ok) (simp add: rx_ok_def)
      show ?thesis unfolding rx_byte_in [OF ncol RX_IN [unfolded d_def]] d_def [symmetric]
        using RX_IN by (auto simp: Let_def ok src civ_ok_drop eom app)
    qed
  qed
qed

section \<open>What a step reports and changes\<close>

text \<open>The counters after a report, and after a report of the framer or of a frame.\<close>

definition tally :: "cat_frame \<Rightarrow> cat_stats \<Rightarrow> cat_stats" where
  "tally e s =
     (let s1 = count_kind (fr_kind e) s;
          s2 = (if fr_applied e then s1\<lparr>cs_applied := cs_applied s1 + 1\<rparr> else s1)
      in (if fr_own e \<and> fr_dir e = CAT_DIR_RADIO then s2\<lparr>cs_own := cs_own s2 + 1\<rparr> else s2))"

definition account :: "cat_frame \<Rightarrow> cat_stats \<Rightarrow> cat_stats" where
  "account e s = (if fr_kind e \<in> {CAT_FRAME_JAM, CAT_FRAME_DROPPED} then tally e s
                  else tally e (s\<lparr>cs_frames := cs_frames s + 1\<rparr>))"

lemma civ_emit_stats [simp]: "civ_stats (civ_emit k d b a own c t civ) = tally (report k d b a own c t) (civ_stats civ)"
  by (simp add: civ_emit_def Let_def tally_def)

text \<open>The step from \<open>d\<close> to \<open>d'\<close> makes the reports \<open>es\<close>, counts them, and changes the radio state only in a reported way.\<close>

definition civ_reports :: "civ \<Rightarrow> civ \<Rightarrow> cat_frame list \<Rightarrow> bool" where
  "civ_reports d d' es \<longleftrightarrow>
     civ_cb d' = civ_cb d \<and> civ_log d' = (if civ_cb d then civ_log d @ es else civ_log d) \<and>
     civ_stats d' = fold account es (civ_stats d) \<and>
     (\<exists>ops. civ_st d' = cat_run ops (civ_st d)) \<and> (\<not> list_ex fr_applied es \<longrightarrow> civ_st d' = civ_st d)"

lemma civ_reports_refl: "civ_reports d d []"
proof -
  have "civ_st d = cat_run [] (civ_st d)" by (simp add: cat_run_def)
  then show ?thesis unfolding civ_reports_def by auto
qed

lemma civ_reports_trans: "civ_reports d d1 es1 \<Longrightarrow> civ_reports d1 d2 es2 \<Longrightarrow> civ_reports d d2 (es1 @ es2)"
proof -
  assume a: "civ_reports d d1 es1" "civ_reports d1 d2 es2"
  then obtain o1 o2 where "civ_st d1 = cat_run o1 (civ_st d)" "civ_st d2 = cat_run o2 (civ_st d1)"
    unfolding civ_reports_def by blast
  then have "civ_st d2 = cat_run (o1 @ o2) (civ_st d)" by (simp add: cat_run_def)
  with a show ?thesis unfolding civ_reports_def by auto
qed

text \<open>A step that touches none of the fields a report is about.\<close>

definition civ_same :: "civ \<Rightarrow> civ \<Rightarrow> bool" where
  "civ_same d d' \<longleftrightarrow> civ_cb d' = civ_cb d \<and> civ_log d' = civ_log d \<and> civ_stats d' = civ_stats d \<and> civ_st d' = civ_st d"

lemma civ_reports_same: "civ_same d d' \<Longrightarrow> civ_reports d' d2 es \<Longrightarrow> civ_same d2 d3 \<Longrightarrow> civ_reports d d3 es"
  by (simp add: civ_reports_def civ_same_def)

lemma civ_same_refl [simp]: "civ_same d d"
  by (simp add: civ_same_def)

text \<open>Processing a frame makes one report.\<close>

definition report_step :: "civ \<Rightarrow> civ \<Rightarrow> cat_frame_kind \<Rightarrow> bool \<Rightarrow> bool" where
  "report_step d d' k a \<longleftrightarrow> k \<notin> {CAT_FRAME_JAM, CAT_FRAME_DROPPED} \<and>
     civ_cb d' = civ_cb d \<and> civ_log d' = civ_log d \<and> civ_stats d' = civ_stats d \<and>
     (\<exists>ops. civ_st d' = cat_run ops (civ_st d)) \<and> (\<not> a \<longrightarrow> civ_st d' = civ_st d)"

lemma radio_frame_report:
  "\<exists>k a own c d'. process_radio_frame f t d = civ_emit k CAT_DIR_RADIO f a own c t d' \<and> report_step d d' k a"
proof -
  have id: "\<exists>ops. civ_st d = cat_run ops (civ_st d)" by (rule exI [of _ "[]"]) (simp add: cat_run_def)
  have run: "\<exists>ops. snd r = cat_run ops (civ_st d)" if "applies t (civ_st d) r" for r
    using that id unfolding applies_def by metis
  have I: "report_step d d' k a \<Longrightarrow> \<exists>k' a' own' c' e. civ_emit k CAT_DIR_RADIO f a own c t d' = civ_emit k' CAT_DIR_RADIO f a' own' c' t e \<and> report_step d e k' a'"
    for k a own c d' by blast
  show ?thesis
    by (rule radio_frame_cases; rule I; use id run applies_not in \<open>auto simp: report_step_def\<close>)
qed

lemma civ_reports_emit:
  assumes "civ_cb d' = civ_cb d" "civ_log d' = civ_log d" "\<exists>ops. civ_st d' = cat_run ops (civ_st d)" "\<not> a \<longrightarrow> civ_st d' = civ_st d"
    and "civ_stats d' = (if k \<in> {CAT_FRAME_JAM, CAT_FRAME_DROPPED} then civ_stats d
                        else (civ_stats d)\<lparr>cs_frames := cs_frames (civ_stats d) + 1\<rparr>)"
  shows "civ_reports d (civ_emit k dir b a own c t d') [report k dir b a own c t]"
  using assms by (auto simp: civ_reports_def account_def)

lemma civ_reports_frame:
  "\<exists>k a own c'. civ_reports d (process_frame dir c f t d) [report k dir f a own c' t] \<and>
     k \<notin> {CAT_FRAME_JAM, CAT_FRAME_DROPPED} \<and> (a \<longrightarrow> dir = CAT_DIR_RADIO)"
proof -
  define d1 where "d1 = pend_expire t (d\<lparr>civ_stats := (civ_stats d)\<lparr>cs_frames := cs_frames (civ_stats d) + 1\<rparr>\<rparr>)"
  define d2 where "d2 = (if radio_addr (civ_cfg d1) = 0 then learn_addr dir f t d1 else d1)"
  have d2: "civ_cb d2 = civ_cb d" "civ_log d2 = civ_log d" "civ_st d2 = civ_st d"
    "civ_stats d2 = (civ_stats d)\<lparr>cs_frames := cs_frames (civ_stats d) + 1\<rparr>"
    by (simp_all add: d1_def d2_def)
  have id: "\<exists>ops. civ_st d = cat_run ops (civ_st d)" by (rule exI [of _ "[]"]) (simp add: cat_run_def)
  have last: "civ_reports d e es \<Longrightarrow> civ_reports d (e\<lparr>civ_last := f, civ_last_dir := dir, civ_last_client := c\<rparr>) es" for e es
    by (simp add: civ_reports_def)
  have emit: "civ_reports d (civ_emit k dir f False own c t e) [report k dir f False own c t]"
    if "k \<notin> {CAT_FRAME_JAM, CAT_FRAME_DROPPED}" "e = d2 \<or> e = pend_add f dir c t d2" for k own e
    using that d2 id by (intro civ_reports_emit) auto
  obtain k a own c' d' where r: "process_radio_frame f t d2 = civ_emit k CAT_DIR_RADIO f a own c' t d'" "report_step d2 d' k a"
    using radio_frame_report by metis
  have rad: "civ_reports d (process_radio_frame f t d2) [report k CAT_DIR_RADIO f a own c' t]"
    using r(2) d2 unfolding r(1) by (intro civ_reports_emit) (auto simp: report_step_def)
  let ?own = "dir = CAT_DIR_OWN"
  note unf = process_frame_def Let_def d1_def [symmetric] d2_def [symmetric]
  consider (foreign) "radio_addr (civ_cfg d2) = 0 \<or> (dir \<noteq> CAT_DIR_RADIO \<and> \<not> (F_TO f = radio_addr (civ_cfg d2) \<and> F_FROM f \<noteq> CIV_BCAST))"
    | (radio) "radio_addr (civ_cfg d2) \<noteq> 0" "dir = CAT_DIR_RADIO"
    | (cmd) "radio_addr (civ_cfg d2) \<noteq> 0" "dir \<noteq> CAT_DIR_RADIO" "F_TO f = radio_addr (civ_cfg d2) \<and> F_FROM f \<noteq> CIV_BCAST"
    by blast
  then show ?thesis
  proof cases
    case foreign
    then have "process_frame dir c f t d =
        (civ_emit CAT_FRAME_FOREIGN dir f False ?own c t d2)\<lparr>civ_last := f, civ_last_dir := dir, civ_last_client := c\<rparr>"
      unfolding unf by auto
    with last [OF emit [of CAT_FRAME_FOREIGN d2 ?own]] show ?thesis by (metis insertE emptyE cat_frame_kind.distinct)
  next
    case radio
    then have "process_frame dir c f t d = (process_radio_frame f t d2)\<lparr>civ_last := f, civ_last_dir := dir, civ_last_client := c\<rparr>"
      unfolding unf by simp
    with last [OF rad] r(2) radio show ?thesis unfolding report_step_def by metis
  next
    case cmd
    then have "process_frame dir c f t d = (civ_emit CAT_FRAME_CMD dir f False ?own c t (pend_add f dir c t d2))
        \<lparr>civ_last := f, civ_last_dir := dir, civ_last_client := c\<rparr>"
      unfolding unf by simp
    with last [OF emit [of CAT_FRAME_CMD "pend_add f dir c t d2" ?own]] show ?thesis by (metis insertE emptyE cat_frame_kind.distinct)
  qed
qed

text \<open>What the framer itself reports.\<close>

lemma civ_same_ext: "civ_same d d' \<Longrightarrow> civ_reports d d' []"
  using civ_reports_same [of d d' d' "[]" d'] civ_reports_refl by simp

lemma civ_same_set_rx [simp]: "civ_same d (set_rx k r d)" "civ_same d (set_rx_state k s d)" "civ_same d (mark_lost t d)"
  by (simp_all add: civ_same_def set_rx_state_def)

lemma rx_drop_ext: "\<exists>es. civ_reports d (rx_drop dir c k t d) es \<and> (\<forall>e \<in> set es. \<not> fr_applied e)"
proof -
  have id: "\<exists>ops. civ_st d = cat_run ops (civ_st d)" by (rule exI [of _ "[]"]) (simp add: cat_run_def)
  have "civ_reports d (civ_emit CAT_FRAME_DROPPED dir (rx_buf (civ_rx d k)) False own c t d)
      [report CAT_FRAME_DROPPED dir (rx_buf (civ_rx d k)) False own c t]" for own
    by (rule civ_reports_emit) (use id in auto)
  then have "civ_reports d (set_rx k r (civ_emit CAT_FRAME_DROPPED dir (rx_buf (civ_rx d k)) False own c t d))
      [report CAT_FRAME_DROPPED dir (rx_buf (civ_rx d k)) False own c t]" for own r
    by (rule civ_reports_same [OF civ_same_refl]) simp
  moreover have "civ_reports d (set_rx k r d) []" for r by (rule civ_same_ext) simp
  ultimately show ?thesis
    unfolding rx_drop_def Let_def
    by (cases "length (rx_buf (civ_rx d k)) > 2") (force, force)
qed

text \<open>Reports of a piece: which may be marked applied.\<close>

definition quiet :: "cat_dir \<Rightarrow> cat_frame list \<Rightarrow> bool" where
  "quiet dir es \<longleftrightarrow> (dir \<noteq> CAT_DIR_RADIO \<longrightarrow> \<not> list_ex fr_applied es)"

lemma rx_jam_ext: "\<exists>es. civ_reports d (rx_jam dir c k t d) es \<and> quiet dir es"
proof -
  define d1 where "d1 = (if dir = CAT_DIR_RADIO then mark_lost t d else d)"
  have id: "\<exists>ops. civ_st d = cat_run ops (civ_st d)" for d by (rule exI [of _ "[]"]) (simp add: cat_run_def)
  have "civ_same d d1" by (simp add: d1_def)
  obtain es where es: "civ_reports d1 (rx_drop dir c k t d1) es" "\<forall>e \<in> set es. \<not> fr_applied e" using rx_drop_ext by blast
  have "civ_reports e (civ_emit CAT_FRAME_JAM dir [CIV_COL] False own c t e) [report CAT_FRAME_JAM dir [CIV_COL] False own c t]" for e own
    by (rule civ_reports_emit) (use id in auto)
  from civ_reports_trans [OF es(1) this]
  have "civ_reports d (rx_jam dir c k t d) (es @ [report CAT_FRAME_JAM dir [CIV_COL] False (dir = CAT_DIR_OWN) c t])"
    unfolding rx_jam_def Let_def d1_def [symmetric] by (rule civ_reports_same [OF \<open>civ_same d d1\<close>]) simp
  moreover have "quiet dir (es @ [report CAT_FRAME_JAM dir [CIV_COL] False (dir = CAT_DIR_OWN) c t])"
    using es(2) by (auto simp: quiet_def list_ex_iff)
  ultimately show ?thesis by blast
qed

lemma rx_byte_ext: "\<exists>es. civ_reports d0 (rx_byte dir c k t b d0) es \<and> quiet dir es"
proof -
  define d where "d = set_rx k ((civ_rx d0 k)\<lparr>rx_t := t\<rparr>) d0"
  have d: "civ_same d0 d" by (simp add: d_def)
  have same: "civ_same d e \<Longrightarrow> \<exists>es. civ_reports d0 e es \<and> quiet dir es" for e
    using civ_reports_same [OF d civ_same_ext civ_same_refl] by (auto simp: quiet_def intro!: exI [of _ "[]"])
  have after: "\<exists>es. civ_reports d0 e' es \<and> quiet dir es" if "\<exists>es. civ_reports d e es \<and> quiet dir es" "civ_same e e'" for e e'
    using that civ_reports_same [OF d] by blast
  have drop: "\<exists>es. civ_reports d0 (set_rx_state k s (rx_drop dir c k t d)) es \<and> quiet dir es" for s
    by (rule after) (use rx_drop_ext [of d dir c k t] in \<open>auto simp: quiet_def list_ex_iff\<close>)
  have frame: "\<exists>es. civ_reports d0 (set_rx k r (process_frame dir c f t d)) es \<and> quiet dir es" for r f
    by (rule after) (use civ_reports_frame [of d dir c f t] in \<open>auto simp: quiet_def list_ex_iff\<close>)
  note unf = rx_byte_def Let_def d_def [symmetric]
  show ?thesis
  proof (cases "b \<noteq> CIV_COL \<and> rx_state (civ_rx d k) = RX_IN")
    case True
    then show ?thesis
      using rx_byte_in [where b = b and k = k and ?d0.0 = d0 and t = t and dir = dir and c = c] by (auto simp: d_def [symmetric] Let_def same drop frame)
  next
    case False
    then show ?thesis unfolding unf
      using rx_jam_ext [of d dir c k t] after [OF _ civ_same_refl] by (auto simp: same split: rx_state.split)
  qed
qed

end
