(* ===== verification/Bcd.thy ===== *)
theory Bcd
  imports Prelude
begin

text \<open>
  Packed decimal codes, as the CI-V and the binary Yaesu protocols carry frequencies: the digits
  and the number of a byte string, and the code of a number.
\<close>

unbundle bit_operations_syntax

text \<open>Two decimal digits per byte, least significant byte first, as the CI-V manual has it.\<close>

fun civ_bcd :: "nat \<Rightarrow> nat \<Rightarrow> byte list" where
  "civ_bcd 0 hz = []"
| "civ_bcd (Suc n) hz = of_nat (hz mod 10 + 16 * (hz div 10 mod 10)) # civ_bcd n (hz div 100)"

definition bcd_val :: "byte \<Rightarrow> nat" where
  "bcd_val b = unat b mod 16 + 10 * (unat b div 16)"

definition bcd_digits :: "byte \<Rightarrow> bool" where
  "bcd_digits b \<longleftrightarrow> unat b mod 16 \<le> 9 \<and> unat b div 16 \<le> 9"

fun bcd_num :: "byte list \<Rightarrow> nat" where
  "bcd_num [] = 0"
| "bcd_num (b # bs) = bcd_val b + 100 * bcd_num bs"

lemma nibbles: "unat (b AND 0x0f :: byte) = unat b mod 16" "unat (drop_bit 4 b :: byte) = unat b div 16"
proof -
  have "b AND 0x0f = take_bit 4 b" by (simp add: take_bit_eq_mask mask_eq_exp_minus_1)
  then show "unat (b AND 0x0f :: byte) = unat b mod 16" by (simp only: unsigned_take_bit_eq) (simp add: take_bit_eq_mod)
  show "unat (drop_bit 4 b :: byte) = unat b div 16" by (simp add: drop_bit_eq_div unat_div_distrib)
qed

lemma bcd_digits_word: "bcd_digits b \<longleftrightarrow> \<not> (b AND 0x0f > 9 \<or> drop_bit 4 b > 9)"
  by (auto simp: bcd_digits_def word_less_nat_alt nibbles)

lemma bcd_val_less: "bcd_digits b \<Longrightarrow> bcd_val b < 100"
  by (simp add: bcd_digits_def bcd_val_def)

lemma bcd_num_less: "list_all bcd_digits bs \<Longrightarrow> bcd_num bs < 100 ^ length bs"
proof (induction bs)
  case (Cons b bs)
  then have "bcd_num bs + 1 \<le> 100 ^ length bs" "bcd_val b < 100" by (simp_all add: bcd_val_less)
  then show ?case by simp
qed simp

lemma bcd_num_code:
  "list_all bcd_digits (civ_bcd n hz) \<and> length (civ_bcd n hz) = n \<and> (hz < 100 ^ n \<longrightarrow> bcd_num (civ_bcd n hz) = hz)"
proof (induction n arbitrary: hz)
  case (Suc n)
  let ?v = "hz mod 10 + 16 * (hz div 10 mod 10)"
  have "x mod 10 \<le> 9" for x :: nat using mod_less_divisor [of 10 x] by linarith
  then have le: "hz mod 10 \<le> 9" "hz div 10 mod 10 \<le> 9" by blast+
  then have v: "?v < 256" "?v mod 16 = hz mod 10" "?v div 16 = hz div 10 mod 10" by auto
  have "x < 256 \<Longrightarrow> unat (of_nat x :: byte) = x" for x by (simp add: unsigned_of_nat take_bit_nat_eq_self)
  then have u: "unat (of_nat ?v :: byte) = ?v" using v(1) by blast
  have d: "bcd_digits (of_nat ?v)" and w: "bcd_val (of_nat ?v) = hz mod 10 + 10 * (hz div 10 mod 10)"
    unfolding bcd_digits_def bcd_val_def u v using le by simp_all
  have "hz mod 10 + 10 * (hz div 10 mod 10) = hz mod 100" by (simp add: mod_mult2_eq [of hz 10 10, simplified])
  moreover have "hz < 100 ^ Suc n \<Longrightarrow> hz div 100 < 100 ^ n" by (simp add: div_less_iff_less_mult mult.commute)
  ultimately show ?case using Suc [of "hz div 100"] d w by auto
qed simp

lemma digit_split:
  fixes a b c :: nat
  assumes "a \<le> 9" "b \<le> 9"
  shows "(a + 10 * b + 100 * c) mod 10 = a" "(a + 10 * b + 100 * c) div 10 mod 10 = b" "(a + 10 * b + 100 * c) div 100 = c"
proof -
  have e: "a + 10 * b + 100 * c = a + (b + c * 10) * 10" by simp
  have d: "(a + 10 * b + 100 * c) div 10 = b + c * 10" unfolding e using assms by simp
  show "(a + 10 * b + 100 * c) mod 10 = a" unfolding e mod_mult_self1 using assms by simp
  show "(a + 10 * b + 100 * c) div 10 mod 10 = b" unfolding d using assms by simp
  have "(a + 10 * b + 100 * c) div 100 = (a + 10 * b + 100 * c) div 10 div 10" by (simp add: div_mult2_eq [symmetric])
  then show "(a + 10 * b + 100 * c) div 100 = c" unfolding d using assms by simp
qed

lemma bcd_code_num: "list_all bcd_digits bs \<Longrightarrow> civ_bcd (length bs) (bcd_num bs) = bs"
proof (induction bs)
  case (Cons b bs)
  have d: "unat b mod 16 \<le> 9" "unat b div 16 \<le> 9" using Cons by (simp_all add: bcd_digits_def)
  let ?n = "bcd_num (b # bs)"
  have n: "?n mod 10 = unat b mod 16" "?n div 10 mod 10 = unat b div 16" "?n div 100 = bcd_num bs"
    using digit_split [OF d] by (simp_all add: bcd_val_def)
  have "?n mod 10 + 16 * (?n div 10 mod 10) = unat b" unfolding n by simp
  then have "of_nat (?n mod 10 + 16 * (?n div 10 mod 10)) = b" by (simp only: of_nat_unat) simp
  with Cons n show ?case by (simp only: list.size civ_bcd.simps add_0_right add_Suc_right) simp
qed simp

end
