(* ===== verification/CatCivSpec.thy ===== *)
theory CatCivSpec
  imports CatCivInv Bcd
begin

text \<open>
  The CI-V decoder: runs of the decoder, its interface as a \<open>cat_decoder\<close>, and what the decoder
  promises to the CAT session: framing, the frequency code, reports and counters, a query and its
  reply, a command that is acknowledged or refused, the commands that stay pending, lost commands.
\<close>

section \<open>Runs\<close>

lemma set_rx_set_rx [simp]: "set_rx k r (set_rx k r' d) = set_rx k r d"
  by (simp add: set_rx_def)

text \<open>The source and the framer that \<^verbatim>\<open>cat_civ_feed\<close> chooses.\<close>

definition feed_client :: "cat_dir \<Rightarrow> int \<Rightarrow> int" where
  "feed_client dir c = (if dir = CAT_DIR_HOST then c else 0)"

definition feed_rx :: "cat_dir \<Rightarrow> int \<Rightarrow> nat" where
  "feed_rx dir c = (case dir of CAT_DIR_HOST \<Rightarrow> nat (c - 1) | CAT_DIR_OWN \<Rightarrow> RX_OWN | CAT_DIR_RADIO \<Rightarrow> RX_RADIO)"

definition feed_valid :: "cat_dir \<Rightarrow> int \<Rightarrow> bool" where
  "feed_valid dir c \<longleftrightarrow> (dir = CAT_DIR_HOST \<longrightarrow> valid_client c)"

lemma cat_civ_feed_fold:
  "cat_civ_feed d dir c bs t =
     (if feed_valid dir c then fold (rx_byte dir (feed_client dir c) (feed_rx dir c) t) bs d else d)"
  by (cases dir) (simp_all add: cat_civ_feed_def feed_client_def feed_rx_def feed_valid_def)

lemma feed_src_ok: "feed_valid dir c \<Longrightarrow> src_ok dir (feed_client dir c)"
  by (auto simp: feed_valid_def feed_client_def src_ok_def valid_client_def)

lemma civ_ok_feed [invs]: "civ_ok d \<Longrightarrow> civ_ok (cat_civ_feed d dir c bs t)"
proof -
  assume ok: "civ_ok d"
  have "civ_ok d \<Longrightarrow> src_ok dir c' \<Longrightarrow> civ_ok (fold (rx_byte dir c' k t) bs d)" for c' k
    by (induction bs arbitrary: d) (simp_all add: civ_ok_rx_byte)
  with ok show ?thesis by (simp add: cat_civ_feed_fold feed_src_ok)
qed

lemma feed_ext: "\<exists>es. civ_reports d (cat_civ_feed d dir c bs t) es \<and> quiet dir es"
proof -
  have "\<exists>es. civ_reports d (fold (rx_byte dir c' k t) bs d) es \<and> quiet dir es" for c' k
  proof (induction bs arbitrary: d)
    case Nil
    show ?case using civ_reports_refl by (auto simp: quiet_def intro!: exI [of _ "[]"])
  next
    case (Cons b bs)
    obtain e1 where "civ_reports d (rx_byte dir c' k t b d) e1 \<and> quiet dir e1" using rx_byte_ext by blast
    moreover obtain e2 where "civ_reports (rx_byte dir c' k t b d) (fold (rx_byte dir c' k t) bs (rx_byte dir c' k t b d)) e2 \<and> quiet dir e2"
      using Cons by blast
    ultimately have "civ_reports d (fold (rx_byte dir c' k t) (b # bs) d) (e1 @ e2) \<and> quiet dir (e1 @ e2)"
      using civ_reports_trans by (auto simp: quiet_def)
    then show ?case by blast
  qed
  moreover have "civ_reports d d [] \<and> quiet dir []" using civ_reports_refl by (simp add: quiet_def)
  ultimately show ?thesis unfolding cat_civ_feed_fold by (simp split: if_split) blast
qed

section \<open>Discarding a client\<close>

lemma discard_pend: "valid_client c \<Longrightarrow> civ_pend (cat_civ_client_discard d c) = filter (\<lambda>p. cp_client p \<noteq> c) (civ_pend d)"
  by (cases "civ_pend d = []") (simp_all add: cat_civ_client_discard_def Let_def remove_down_filter)

lemma discard_fields:
  "civ_st (cat_civ_client_discard d c) = civ_st d" "civ_cb (cat_civ_client_discard d c) = civ_cb d"
  "civ_log (cat_civ_client_discard d c) = civ_log d" "civ_stats (cat_civ_client_discard d c) = civ_stats d"
  "civ_last (cat_civ_client_discard d c) = civ_last d" "civ_last_dir (cat_civ_client_discard d c) = civ_last_dir d"
  "civ_last_client (cat_civ_client_discard d c) = civ_last_client d"
  "civ_rx (cat_civ_client_discard d c) = (if valid_client c
     then (civ_rx d)(nat (c - 1) := (civ_rx d (nat (c - 1)))\<lparr>rx_buf := [], rx_state := RX_IDLE\<rparr>) else civ_rx d)"
  by (simp_all add: cat_civ_client_discard_def Let_def)

lemma civ_ok_discard [invs]: "civ_ok d \<Longrightarrow> civ_ok (cat_civ_client_discard d c)"
proof (cases "valid_client c")
  case True
  moreover assume ok: "civ_ok d"
  moreover have "length (filter (\<lambda>p. cp_client p \<noteq> c) (civ_pend d)) \<le> PEND_MAX"
    using length_filter_le civ_okD(2) [OF ok] by (rule order_trans)
  ultimately show ?thesis by (auto simp: civ_ok_def discard_fields discard_pend rx_ok_def)
next
  case False
  assume "civ_ok d"
  with False show ?thesis by (simp add: cat_civ_client_discard_def)
qed

lemma client_rx_inj: "valid_client c \<Longrightarrow> valid_client c' \<Longrightarrow> nat (c - 1) = nat (c' - 1) \<Longrightarrow> c = c'"
  by (auto simp: valid_client_def)

lemma discard_busy:
  "cat_civ_client_busy (cat_civ_client_discard d c) c' t = (c' \<noteq> c \<and> cat_civ_client_busy d c' t)"
proof (cases "valid_client c \<and> valid_client c'")
  case True
  then show ?thesis
    using client_rx_inj [of c c']
    by (auto simp: cat_civ_client_busy_def discard_fields discard_pend rx_partial_def list_ex_iff)
next
  case False
  then show ?thesis by (auto simp: cat_civ_client_busy_def cat_civ_client_discard_def)
qed

interpretation civd: cat_decoder civ_ok cat_civ_feed civ_st cat_civ_client_busy cat_civ_client_discard
proof unfold_locales
  show "cat_civ_feed d dir c (xs @ ys) t = cat_civ_feed (cat_civ_feed d dir c xs t) dir c ys t" for d dir c xs ys t
    by (simp add: cat_civ_feed_fold)
  show "cat_civ_feed d dir c [] t = d" for d dir c t by (simp add: cat_civ_feed_fold)
qed (simp_all add: civ_ok_feed civ_ok_discard civ_okD(1) discard_busy discard_fields)

section \<open>Resending\<close>

lemma resend_scan_set: "p \<in> set (fst (resend_scan m t ps)) \<Longrightarrow> \<exists>q \<in> set ps. cp_buf p = cp_buf q \<and> cp_client p = cp_client q \<and>
    cp_own p = cp_own q \<and> cp_from_host p = cp_from_host q \<and> cp_echoed p = cp_echoed q \<and> (cp_lost p \<longrightarrow> cp_lost q)"
  by (induction ps) (auto simp: Let_def split: if_splits)

lemma resend_scan_bufs: "map cp_buf (fst (resend_scan m t ps)) = map cp_buf ps"
  by (induction ps) (auto simp: Let_def)

lemma civ_ok_resend [invs]: "civ_ok d \<Longrightarrow> civ_ok (snd (cat_civ_resend d m t))"
proof -
  assume ok: "civ_ok d"
  have "length (fst (resend_scan m t (civ_pend d))) = length (civ_pend d)"
    using arg_cong [OF resend_scan_bufs, of length] by simp
  moreover have "pend_ok p" if "p \<in> set (fst (resend_scan m t (civ_pend d)))" for p
    using resend_scan_set [OF that] civ_okD(3) [OF ok] unfolding pend_ok_def by metis
  ultimately have "civ_ok (d\<lparr>civ_pend := fst (resend_scan m t (civ_pend d))\<rparr>)"
    using ok civ_okD(2) [OF ok] by (intro civ_ok_pend) auto
  then show ?thesis by (simp add: cat_civ_resend_def Let_def split_def)
qed

text \<open>Everything that happens to a decoder.\<close>

datatype civ_event = CivFeed cat_dir int "byte list" u64 | CivDiscard int | CivResend int u64

fun civ_step :: "civ_event \<Rightarrow> civ \<Rightarrow> civ" where
  "civ_step (CivFeed dir c bs t) d = cat_civ_feed d dir c bs t"
| "civ_step (CivDiscard c) d = cat_civ_client_discard d c"
| "civ_step (CivResend m t) d = snd (cat_civ_resend d m t)"

definition civ_run :: "civ_event list \<Rightarrow> civ \<Rightarrow> civ" where
  "civ_run es d = fold civ_step es d"

text \<open>A decoder as it starts, with the frame callback set.\<close>

definition civ_start :: "civ_cfg option \<Rightarrow> civ" where
  "civ_start cfg = cat_civ_set_frame_cb (cat_civ_create cfg cat_state_init) True"

lemma civ_step_ok: "civ_ok d \<Longrightarrow> civ_ok (civ_step e d)"
  by (cases e) (simp_all add: civ_ok_feed civ_ok_discard civ_ok_resend)

lemma civ_run_ok: "civ_ok d \<Longrightarrow> civ_ok (civ_run es d)"
  unfolding civ_run_def by (induction es arbitrary: d) (simp_all add: civ_step_ok)

lemma civ_start_ok: "civ_ok (civ_start cfg)"
  by (simp add: civ_start_def civ_ok_set_frame_cb civ_ok_create)

lemma civ_step_ext: "\<exists>rs. civ_reports d (civ_step e d) rs"
proof (cases e)
  case (CivFeed dir c bs t)
  then show ?thesis using feed_ext by fastforce
next
  case (CivDiscard c)
  then show ?thesis by (auto simp: civ_same_def discard_fields intro!: exI civ_same_ext)
next
  case (CivResend m t)
  then show ?thesis by (auto simp: civ_same_def cat_civ_resend_def Let_def split_def intro!: exI civ_same_ext)
qed

lemma civ_run_ext: "\<exists>rs. civ_reports d (civ_run es d) rs"
  unfolding civ_run_def
proof (induction es arbitrary: d)
  case Nil
  show ?case using civ_reports_refl by auto
next
  case (Cons e es)
  then show ?case using civ_step_ext civ_reports_trans by simp blast
qed

section \<open>Every report is well formed\<close>

text \<open>Claim C15. Whatever bytes clients, mhuxd and the radio send, in whatever pieces and with whatever discards and
  resends between, every frame the decoder reports is what its kind says: a complete CI-V frame of 6 to 64 bytes with
  no reserved byte inside, or the jam code, or a dropped fragment of 3 to 63 bytes; only replies, acknowledges and
  transceive frames from the radio are marked as applied, and mhuxd's own frames never carry a client number. At most
  eight commands are pending.\<close>

theorem civ_reports_wf:
  "list_all report_ok (civ_log (civ_run es (civ_start cfg))) \<and> length (civ_pend (civ_run es (civ_start cfg))) \<le> PEND_MAX"
  using civ_run_ok [OF civ_start_ok, of es cfg] by (simp add: civ_ok_def list_all_iff)

section \<open>The counters\<close>

definition count_rep :: "(cat_frame \<Rightarrow> bool) \<Rightarrow> cat_frame list \<Rightarrow> u32" where
  "count_rep P es = of_nat (length (filter P es))"

lemma count_rep_simps [simp]:
  "count_rep P [] = 0" "count_rep P (e # es) = (if P e then 1 else 0) + count_rep P es"
  by (simp_all add: count_rep_def)

definition of_kind :: "cat_frame_kind \<Rightarrow> cat_frame \<Rightarrow> bool" where
  "of_kind k e \<longleftrightarrow> fr_kind e = k"

lemma account_fields [simp]:
  "cs_frames (account e s) = (if fr_kind e \<in> {CAT_FRAME_JAM, CAT_FRAME_DROPPED} then 0 else 1) + cs_frames s"
  "cs_replies (account e s) = (if fr_kind e = CAT_FRAME_REPLY then 1 else 0) + cs_replies s"
  "cs_unmatched (account e s) = (if fr_kind e = CAT_FRAME_UNMATCHED then 1 else 0) + cs_unmatched s"
  "cs_bad (account e s) = (if fr_kind e = CAT_FRAME_BAD then 1 else 0) + cs_bad s"
  "cs_jams (account e s) = (if fr_kind e = CAT_FRAME_JAM then 1 else 0) + cs_jams s"
  "cs_dropped (account e s) = (if fr_kind e = CAT_FRAME_DROPPED then 1 else 0) + cs_dropped s"
  "cs_foreign (account e s) = (if fr_kind e = CAT_FRAME_FOREIGN then 1 else 0) + cs_foreign s"
  "cs_applied (account e s) = (if fr_applied e then 1 else 0) + cs_applied s"
  "cs_own (account e s) = (if fr_own e \<and> fr_dir e = CAT_DIR_RADIO then 1 else 0) + cs_own s"
  "cs_errors (account e s) = cs_errors s"
  by (cases "fr_kind e"; simp add: account_def tally_def Let_def count_kind_def)+

lemma fold_account:
  "cs_frames (fold account es s) = count_rep (\<lambda>e. fr_kind e \<notin> {CAT_FRAME_JAM, CAT_FRAME_DROPPED}) es + cs_frames s"
  "cs_replies (fold account es s) = count_rep (of_kind CAT_FRAME_REPLY) es + cs_replies s"
  "cs_unmatched (fold account es s) = count_rep (of_kind CAT_FRAME_UNMATCHED) es + cs_unmatched s"
  "cs_bad (fold account es s) = count_rep (of_kind CAT_FRAME_BAD) es + cs_bad s"
  "cs_jams (fold account es s) = count_rep (of_kind CAT_FRAME_JAM) es + cs_jams s"
  "cs_dropped (fold account es s) = count_rep (of_kind CAT_FRAME_DROPPED) es + cs_dropped s"
  "cs_foreign (fold account es s) = count_rep (of_kind CAT_FRAME_FOREIGN) es + cs_foreign s"
  "cs_applied (fold account es s) = count_rep fr_applied es + cs_applied s"
  "cs_own (fold account es s) = count_rep (\<lambda>e. fr_own e \<and> fr_dir e = CAT_DIR_RADIO) es + cs_own s"
  "cs_errors (fold account es s) = cs_errors s"
  by (induction es arbitrary: s; simp add: of_kind_def)+

text \<open>The counters of a decoder are exact at any time, modulo 2^32: frames counts the reports that are not
  jams or dropped fragments, so that every complete frame is reported exactly once, and each other counter the
  reports of its kind, the applied ones, and the radio's frames that belong to mhuxd.\<close>

theorem civ_counters_exact:
  "let d = civ_run es (civ_start cfg); s = cat_civ_get_stats d; log = civ_log d in
     cs_frames s = count_rep (\<lambda>e. fr_kind e \<notin> {CAT_FRAME_JAM, CAT_FRAME_DROPPED}) log \<and>
     cs_replies s = count_rep (of_kind CAT_FRAME_REPLY) log \<and> cs_unmatched s = count_rep (of_kind CAT_FRAME_UNMATCHED) log \<and>
     cs_bad s = count_rep (of_kind CAT_FRAME_BAD) log \<and> cs_jams s = count_rep (of_kind CAT_FRAME_JAM) log \<and>
     cs_dropped s = count_rep (of_kind CAT_FRAME_DROPPED) log \<and> cs_foreign s = count_rep (of_kind CAT_FRAME_FOREIGN) log \<and>
     cs_applied s = count_rep fr_applied log \<and> cs_own s = count_rep (\<lambda>e. fr_own e \<and> fr_dir e = CAT_DIR_RADIO) log"
proof -
  obtain rs where rs: "civ_reports (civ_start cfg) (civ_run es (civ_start cfg)) rs" using civ_run_ext by blast
  have start: "civ_cb (civ_start cfg)" "civ_log (civ_start cfg) = []" "civ_stats (civ_start cfg) = no_stats"
    by (simp_all add: civ_start_def cat_civ_set_frame_cb_def cat_civ_create_def Let_def)
  have "civ_log (civ_run es (civ_start cfg)) = rs" "civ_stats (civ_run es (civ_start cfg)) = fold account rs no_stats"
    using rs by (simp_all add: civ_reports_def start)
  then show ?thesis by (simp add: Let_def cat_civ_get_stats_def fold_account) (simp add: no_stats_def)
qed

text \<open>Claim C16. Bytes that do not come from the radio never change the radio state, however they are cut; and a
  change of the radio state is always reported: if no report of a piece is marked as applied, the state is the same.\<close>

theorem civ_state_only_from_radio:
  "(dir = CAT_DIR_RADIO \<or> civ_st (cat_civ_feed d dir c bs t) = civ_st d) \<and>
   (civ_cb d \<longrightarrow> (\<exists>rs. civ_log (cat_civ_feed d dir c bs t) = civ_log d @ rs \<and>
      (list_ex fr_applied rs \<or> civ_st (cat_civ_feed d dir c bs t) = civ_st d)))"
proof -
  obtain rs where "civ_reports d (cat_civ_feed d dir c bs t) rs" "quiet dir rs" using feed_ext by blast
  then show ?thesis unfolding civ_reports_def quiet_def by auto
qed

text \<open>The radio's unsolicited frequency changes the state and is reported; the same bytes from a client do not.\<close>

definition civ_ex :: civ where
  "civ_ex = civ_start (Some \<lparr>radio_addr = 0x94, freq_len = 5\<rparr>)"

definition civ_freq_bcast :: "byte list" where
  "civ_freq_bcast = [0xfe, 0xfe, 0, 0x94, 0, 0x00, 0x40, 0x07, 0x14, 0x00, 0xfd]"

theorem civ_state_only_from_radio_witness:
  "civ_st (cat_civ_feed civ_ex CAT_DIR_HOST 1 civ_freq_bcast 7) = civ_st civ_ex \<and>
   (\<exists>rs. civ_log (cat_civ_feed civ_ex CAT_DIR_RADIO 1 civ_freq_bcast 7) = civ_log civ_ex @ rs \<and>
      (list_ex fr_applied rs \<or> civ_st (cat_civ_feed civ_ex CAT_DIR_RADIO 1 civ_freq_bcast 7) = civ_st civ_ex))"
proof -
  have "civ_cb civ_ex" by (simp add: civ_ex_def civ_start_def cat_civ_set_frame_cb_def)
  then show ?thesis
    using civ_state_only_from_radio [of CAT_DIR_HOST civ_ex 1 civ_freq_bcast 7]
      civ_state_only_from_radio [of CAT_DIR_RADIO civ_ex 1 civ_freq_bcast 7] by simp
qed

section \<open>Framing\<close>

lemma rx_byte_idle_pre:
  "rx_state (civ_rx d k) = RX_IDLE \<Longrightarrow> rx_byte dir c k t CIV_PRE d = set_rx k ((civ_rx d k)\<lparr>rx_t := t, rx_state := RX_PRE\<rparr>) d"
  by (simp add: rx_byte_def Let_def set_rx_state_def)

lemma rx_byte_pre_pre:
  "rx_state (civ_rx d k) = RX_PRE \<Longrightarrow>
   rx_byte dir c k t CIV_PRE d = set_rx k \<lparr>rx_buf = [CIV_PRE, CIV_PRE], rx_state = RX_IN, rx_t = t\<rparr> d"
  by (cases "civ_rx d k") (simp add: rx_byte_def Let_def)

lemma rx_body:
  "clean body \<Longrightarrow> length buf + length body < CIV_MAX_FRAME \<Longrightarrow>
   fold (rx_byte dir c k t) body (set_rx k \<lparr>rx_buf = buf, rx_state = RX_IN, rx_t = t\<rparr> d) =
   set_rx k \<lparr>rx_buf = buf @ body, rx_state = RX_IN, rx_t = t\<rparr> d"
proof (induction body arbitrary: buf)
  case (Cons b body)
  then have "rx_byte dir c k t b (set_rx k \<lparr>rx_buf = buf, rx_state = RX_IN, rx_t = t\<rparr> d) =
      set_rx k \<lparr>rx_buf = buf @ [b], rx_state = RX_IN, rx_t = t\<rparr> d"
    by (simp add: rx_byte_def Let_def)
  with Cons show ?case by simp
qed simp

lemma rx_byte_eom:
  "CIV_MIN_LEN \<le> length buf + 1 \<Longrightarrow>
   rx_byte dir c k t CIV_EOM (set_rx k \<lparr>rx_buf = buf, rx_state = RX_IN, rx_t = t\<rparr> d) =
   set_rx k \<lparr>rx_buf = [], rx_state = RX_IDLE, rx_t = t\<rparr> (process_frame dir c (buf @ [CIV_EOM]) t d)"
  using rx_byte_in [where b = CIV_EOM and k = k and ?d0.0 = "set_rx k \<lparr>rx_buf = buf, rx_state = RX_IN, rx_t = t\<rparr> d"
      and t = t and dir = dir and c = c]
  by (simp add: Let_def process_frame_set_rx)

lemma fold_frame:
  assumes "rx_state (civ_rx d k) = RX_IDLE" "clean body" "3 \<le> length body" "length body \<le> 61"
  shows "fold (rx_byte dir c k t) (civ_frame body) d =
    set_rx k \<lparr>rx_buf = [], rx_state = RX_IDLE, rx_t = t\<rparr> (process_frame dir c (civ_frame body) t d)"
  using assms by (simp add: civ_frame_def rx_byte_idle_pre rx_byte_pre_pre rx_body rx_byte_eom)

text \<open>After an end of message no framer is inside a frame.\<close>

lemma eom_idle: "rx_state (civ_rx (rx_byte dir c k t CIV_EOM d) k) = RX_IDLE"
proof (cases "rx_state (civ_rx d k)")
  case RX_IN
  then show ?thesis using rx_byte_in [where b = CIV_EOM and k = k and ?d0.0 = d and t = t and dir = dir and c = c] by (simp add: Let_def set_rx_state_def)
qed (simp_all add: rx_byte_def Let_def set_rx_state_def)

text \<open>Framing: after an end of message, whatever came before, a complete frame (a preamble, 3 to 61 bytes
  without reserved bytes, an end of message) is taken as exactly that frame, processed once as from its source, and
  leaves the framer idle.\<close>

theorem civ_framing:
  assumes "feed_valid dir c" "clean body" "3 \<le> length body" "length body \<le> 61"
  shows "cat_civ_feed d dir c (CIV_EOM # civ_frame body) t =
    set_rx (feed_rx dir c) \<lparr>rx_buf = [], rx_state = RX_IDLE, rx_t = t\<rparr>
      (process_frame dir (feed_client dir c) (civ_frame body) t (cat_civ_feed d dir c [CIV_EOM] t))"
  using assms by (simp add: cat_civ_feed_fold fold_frame eom_idle)

theorem civ_framing_witness:
  "\<forall>d t. cat_civ_feed d CAT_DIR_HOST 3 [0xfd, 0xfe, 0xfe, 0x94, 0xe0, 0x03, 0xfd] t =
    set_rx 2 \<lparr>rx_buf = [], rx_state = RX_IDLE, rx_t = t\<rparr>
      (process_frame CAT_DIR_HOST 3 [0xfe, 0xfe, 0x94, 0xe0, 0x03, 0xfd] t (cat_civ_feed d CAT_DIR_HOST 3 [0xfd] t))"
  using civ_framing [of CAT_DIR_HOST 3 "[0x94, 0xe0, 0x03]"]
  by (simp add: feed_valid_def valid_client_def feed_rx_def feed_client_def civ_frame_def)

section \<open>The frequency code\<close>

lemma bcd_loop_num:
  "bcd_loop bs f mul = (if list_all bcd_digits bs then Some (f + of_nat (bcd_num bs) * mul) else None)"
proof (induction bs arbitrary: f mul)
  case (Cons b bs)
  have v: "(ucast (b AND 0x0f) + ucast (drop_bit 4 b) * 10 :: u64) = of_nat (bcd_val b)"
    by (simp only: bcd_val_def nibbles [symmetric]) simp
  show ?case
    using Cons by (simp add: Let_def bcd_digits_word v ring_distribs)
qed simp

lemma dec_freq_num:
  assumes "unat flen \<le> 9" "length p = unat flen" "list_all bcd_digits p"
  shows "civ_dec_freq flen p = (if bcd_num p = 0 \<or> bcd_num p \<ge> 2 ^ 32 then None else Some (of_nat (bcd_num p)))"
proof -
  let ?n = "bcd_num p"
  have "?n < 100 ^ length p" using bcd_num_less [OF assms(3)] .
  also have "(100 :: nat) ^ length p \<le> 100 ^ 9" by (rule power_increasing) (simp_all add: assms(1,2))
  finally have n: "?n < 2 ^ 64" by (rule order_less_trans) simp
  have u: "unat (of_nat ?n :: u64) = ?n" using n by (simp add: unsigned_of_nat take_bit_nat_eq_self)
  have z: "(of_nat ?n :: u64) = 0 \<longleftrightarrow> ?n = 0" unfolding unat_eq_zero [symmetric] u ..
  have g: "(of_nat ?n :: u64) > 0xffffffff \<longleftrightarrow> ?n \<ge> 2 ^ 32" unfolding word_less_nat_alt u by (simp add: less_eq_Suc_le)
  have c: "(ucast (of_nat ?n :: u64) :: u32) = of_nat ?n" if "?n < 2 ^ 32"
    using that by (simp add: unsigned_of_nat take_bit_nat_eq_self)
  show ?thesis
    using assms by (simp add: civ_dec_freq_def bcd_loop_num z g c not_le)
qed

text \<open>The frequency code is read exactly: with a frequency length of up to 9 bytes (the radios use 4 to 6), the
  decoder accepts a field as a frequency precisely when it is the code of that number, two decimal digits per byte
  least significant byte first, of the configured length, and the number is not zero and fits 32 bits; every other
  field is refused.\<close>

theorem civ_freq_code:
  assumes "unat flen \<le> 9"
  shows "civ_dec_freq flen p = Some hz \<longleftrightarrow> p = civ_bcd (unat flen) (unat hz) \<and> hz \<noteq> 0 \<and> unat hz < 100 ^ unat flen"
proof
  assume dec: "civ_dec_freq flen p = Some hz"
  then have len: "length p = unat flen" by (simp add: civ_dec_freq_def split: if_splits)
  have digs: "list_all bcd_digits p" using dec by (auto simp: civ_dec_freq_def bcd_loop_num split: if_splits)
  have r: "bcd_num p \<noteq> 0" "bcd_num p < 2 ^ 32" "hz = of_nat (bcd_num p)"
    using dec dec_freq_num [OF assms len digs] by (auto split: if_splits)
  then have u: "unat hz = bcd_num p" by (simp add: unsigned_of_nat take_bit_nat_eq_self)
  then show "p = civ_bcd (unat flen) (unat hz) \<and> hz \<noteq> 0 \<and> unat hz < 100 ^ unat flen"
    using bcd_code_num [OF digs] bcd_num_less [OF digs] len r(1) by auto
next
  assume a: "p = civ_bcd (unat flen) (unat hz) \<and> hz \<noteq> 0 \<and> unat hz < 100 ^ unat flen"
  then have p: "length p = unat flen" "list_all bcd_digits p" "bcd_num p = unat hz"
    using bcd_num_code [of "unat flen" "unat hz"] by auto
  have "unat hz \<noteq> 0" "unat hz < 2 ^ 32" using a unsigned_less [of hz] by (auto simp: unat_eq_zero)
  then show "civ_dec_freq flen p = Some hz" using dec_freq_num [OF assms p(1,2)] p(3) by simp
qed

theorem civ_freq_code_witness:
  "civ_dec_freq 5 [0x00, 0x40, 0x07, 0x14, 0x00] = Some 14074000 \<longleftrightarrow> [0x00, 0x40, 0x07, 0x14, 0x00] = civ_bcd 5 14074000"
  using civ_freq_code [of 5 "[0x00, 0x40, 0x07, 0x14, 0x00]" 14074000] by simp

section \<open>A query and its reply\<close>

lemma frame_fields [simp]:
  "F_TO (civ_frame (a # b # c # ds)) = a" "F_FROM (civ_frame (a # b # c # ds)) = b" "F_CMD (civ_frame (a # b # c # ds)) = c"
  "F_DATA (civ_frame (a # b # c # ds)) = ds" "length (civ_frame (a # b # c # ds)) = length ds + CIV_MIN_LEN"
  "civ_frame body \<noteq> []"
  by (simp_all add: civ_frame_def F_TO_def F_FROM_def F_CMD_def F_DATA_def)

text \<open>Commands that have not timed out stay.\<close>

lemma pend_expire_keep: "\<not> cp_t p + PEND_TIMEOUT_MS < t \<Longrightarrow> civ_pend d = p # ps \<Longrightarrow> pend_expire t d = d"
  by (simp add: pend_expire_def)

lemma pend_expire_Nil [simp]: "civ_pend d = [] \<Longrightarrow> pend_expire t d = d"
  by (simp add: pend_expire_def)

text \<open>The pending command that a client's or mhuxd's frame becomes.\<close>

definition civ_cmd :: "cat_dir \<Rightarrow> int \<Rightarrow> byte list \<Rightarrow> u64 \<Rightarrow> civ_pending" where
  "civ_cmd dir c q t = \<lparr>cp_buf = q, cp_t = t, cp_from_host = True, cp_echoed = False, cp_own = (dir = CAT_DIR_OWN),
     cp_client = (if dir = CAT_DIR_HOST then c else 0), cp_lost = False, cp_resends = 0\<rparr>"

lemma civ_cmd_simps [simp]:
  "cp_buf (civ_cmd dir c q t) = q" "cp_t (civ_cmd dir c q t) = t" "cp_from_host (civ_cmd dir c q t)"
  "\<not> cp_echoed (civ_cmd dir c q t)" "cp_own (civ_cmd dir c q t) = (dir = CAT_DIR_OWN)"
  "cp_client (civ_cmd dir c q t) = (if dir = CAT_DIR_HOST then c else 0)" "\<not> cp_lost (civ_cmd dir c q t)"
  by (simp_all add: civ_cmd_def)

text \<open>The effect of a frame on what the CAT session sees: the pending commands, the radio state, the log.\<close>

definition civ_view :: "civ \<Rightarrow> civ_cfg \<times> civ_pending list \<times> cat_state \<times> bool \<times> cat_frame list" where
  "civ_view d = (civ_cfg d, civ_pend d, civ_st d, civ_cb d, civ_log d)"

lemma view_set_rx [simp]: "civ_view (set_rx k r d) = civ_view d"
  by (simp add: civ_view_def)

text \<open>A command to the radio from a client or from mhuxd.\<close>

lemma cmd_step:
  assumes "civ_view d = (cfg, [], st, True, log)" "radio_addr cfg \<noteq> 0" "dir \<noteq> CAT_DIR_RADIO"
    and q: "F_TO q = radio_addr cfg" "F_FROM q \<noteq> 0"
  shows "civ_view (process_frame dir (feed_client dir c) q t d) =
    (cfg, [civ_cmd dir c q t], st, True, log @ [report CAT_FRAME_CMD dir q False (dir = CAT_DIR_OWN) (feed_client dir c) t])"
  using assms by (auto simp: civ_view_def process_frame_def Let_def pend_add_def civ_cmd_def feed_client_def)

text \<open>Its echo on the bus.\<close>

lemma echo_step:
  assumes "civ_view d = (cfg, [civ_cmd dir c q t0], st, True, log)" "radio_addr cfg \<noteq> 0"
    and q: "F_TO q = radio_addr cfg" "F_FROM q \<noteq> 0" "F_FROM q \<noteq> radio_addr cfg"
    and t: "\<not> t0 + PEND_TIMEOUT_MS < t"
  shows "civ_view (process_frame CAT_DIR_RADIO 0 q t d) =
    (cfg, [(civ_cmd dir c q t0)\<lparr>cp_echoed := True\<rparr>], st, True,
     log @ [report CAT_FRAME_ECHO CAT_DIR_RADIO q False (dir = CAT_DIR_OWN) (cp_client (civ_cmd dir c q t0)) t])"
proof -
  have d: "civ_pend d = [civ_cmd dir c q t0]" "radio_addr (civ_cfg d) = radio_addr cfg" "civ_st d = st" "civ_cb d" "civ_log d = log" "civ_cfg d = cfg"
    using assms(1) by (simp_all add: civ_view_def)
  show ?thesis
    using assms(2-) d by (simp add: civ_view_def process_frame_def Let_def pend_expire_def process_radio_frame_def pend_find_echo_def)
qed

text \<open>The answer of the radio to the command pending alone.\<close>

lemma consume_single: "civ_pend d = [p] \<Longrightarrow> civ_pend (pend_consume 0 d) = []"
  by (simp add: pend_consume_pend same_ctrl_def)

lemma reply_step:
  assumes "civ_view d = (cfg, [p], st, True, log)" "radio_addr cfg \<noteq> 0"
    and r: "F_FROM r = radio_addr cfg" "F_TO r \<noteq> 0" "F_TO r \<noteq> radio_addr cfg" "F_CMD r \<noteq> CIV_OK" "F_CMD r \<noteq> CIV_NG"
    and "answers_query r (cp_buf p)" and t: "\<not> cp_t p + PEND_TIMEOUT_MS < t"
  shows "civ_view (process_frame CAT_DIR_RADIO 0 r t d) =
    (let a = apply_reply (freq_len cfg) st r t in
     (cfg, [], snd a, True, log @ [report (if fst a < 0 then CAT_FRAME_BAD else CAT_FRAME_REPLY) CAT_DIR_RADIO r (fst a > 0) (cp_own p) (cp_client p) t]))"
proof -
  have d: "civ_pend d = [p]" "civ_st d = st" "civ_cb d" "civ_log d = log" "civ_cfg d = cfg"
    using assms(1) by (simp_all add: civ_view_def)
  show ?thesis
    using assms(2-) d by (simp add: civ_view_def process_frame_def Let_def split_def pend_expire_def process_radio_frame_def
        pend_find_query_def consume_single)
qed

lemma ack_step:
  assumes "civ_view d = (cfg, [p], st, True, log)" "radio_addr cfg \<noteq> 0"
    and r: "F_FROM r = radio_addr cfg" "F_TO r \<noteq> 0" "F_TO r \<noteq> radio_addr cfg" "F_CMD r = CIV_OK \<or> F_CMD r = CIV_NG"
    and "F_FROM (cp_buf p) = F_TO r" "is_query (cp_buf p) = 0" and t: "\<not> cp_t p + PEND_TIMEOUT_MS < t"
  shows "civ_view (process_frame CAT_DIR_RADIO 0 r t d) =
    (let a = (if F_CMD r = CIV_OK then apply_set (freq_len cfg) st (cp_buf p) t else (0, st)) in
     (cfg, [], snd a, True, log @ [report (if F_CMD r = CIV_OK then CAT_FRAME_ACK else CAT_FRAME_NAK) CAT_DIR_RADIO r (fst a > 0) (cp_own p) (cp_client p) t]))"
proof -
  have d: "civ_pend d = [p]" "civ_st d = st" "civ_cb d" "civ_log d = log" "civ_cfg d = cfg"
    using assms(1) by (simp_all add: civ_view_def)
  show ?thesis
    using assms(2-) d by (auto simp: civ_view_def process_frame_def Let_def split_def pend_expire_def process_radio_frame_def
        pend_find_ack_def consume_single)
qed

lemma feed_frame_view:
  assumes "feed_valid dir c" "rx_state (civ_rx d (feed_rx dir c)) = RX_IDLE" "clean body" "3 \<le> length body" "length body \<le> 61"
  shows "civ_view (cat_civ_feed d dir c (civ_frame body) t) = civ_view (process_frame dir (feed_client dir c) (civ_frame body) t d)"
    and "rx_state (civ_rx (cat_civ_feed d dir c (civ_frame body) t) k) = rx_state (civ_rx d k)"
  using assms by (simp_all add: cat_civ_feed_fold fold_frame)

text \<open>The decoder at rest: the framers of a source and of the radio are idle, the radio is known, nothing is pending.\<close>

definition civ_rest :: "cat_dir \<Rightarrow> int \<Rightarrow> civ \<Rightarrow> bool" where
  "civ_rest dir c d \<longleftrightarrow> rx_state (civ_rx d (feed_rx dir c)) = RX_IDLE \<and> rx_state (civ_rx d RX_RADIO) = RX_IDLE \<and>
     radio_addr (civ_cfg d) \<noteq> 0 \<and> civ_pend d = [] \<and> civ_cb d"

lemma feed_rx_radio [simp]: "feed_rx CAT_DIR_RADIO c = RX_RADIO" "feed_client CAT_DIR_RADIO c = 0" "feed_valid CAT_DIR_RADIO c"
  by (simp_all add: feed_rx_def feed_client_def feed_valid_def)

text \<open>A command of a source, its echo and the radio's answer, each a complete frame. \<open>answered\<close> is what the answer
  leaves of the radio state, and the kind and the applied flag of its report.\<close>

definition answered :: "civ \<Rightarrow> byte list \<Rightarrow> byte list \<Rightarrow> u64 \<Rightarrow> int \<times> cat_state" where
  "answered d q r t =
     (if F_CMD r = CIV_OK then apply_set (freq_len (civ_cfg d)) (civ_st d) q t
      else if F_CMD r = CIV_NG then (0, civ_st d) else apply_reply (freq_len (civ_cfg d)) (civ_st d) r t)"

definition answer_kind :: "byte list \<Rightarrow> int \<Rightarrow> cat_frame_kind" where
  "answer_kind r a = (if F_CMD r = CIV_OK then CAT_FRAME_ACK else if F_CMD r = CIV_NG then CAT_FRAME_NAK
     else if a < 0 then CAT_FRAME_BAD else CAT_FRAME_REPLY)"

lemma dialog:
  fixes ctrl cmd cmd' :: byte and qd rd :: "byte list"
  assumes rest: "civ_rest dir c d" and src: "dir \<noteq> CAT_DIR_RADIO" "feed_valid dir c"
    and addr: "ra = radio_addr (civ_cfg d)" "ctrl \<noteq> 0" "ctrl \<noteq> ra" "clean [ra, ctrl]"
    and q: "q = civ_frame (ra # ctrl # cmd # qd)" "clean (cmd # qd)" "length qd \<le> 58"
    and r: "r = civ_frame (ctrl # ra # cmd' # rd)" "clean (cmd' # rd)" "length rd \<le> 58"
    and match: "if cmd' = CIV_OK \<or> cmd' = CIV_NG then is_query q = 0 else answers_query r q"
    and t: "\<not> t1 + PEND_TIMEOUT_MS < t2" "\<not> t1 + PEND_TIMEOUT_MS < t3"
    and d1: "d1 = cat_civ_feed d dir c q t1" and d2: "d2 = cat_civ_feed d1 CAT_DIR_RADIO c2 q t2"
    and d3: "d3 = cat_civ_feed d2 CAT_DIR_RADIO c3 r t3"
  shows "civ_st d1 = civ_st d" "civ_st d2 = civ_st d" "civ_st d3 = snd (answered d q r t3)" "civ_pend d3 = []"
    "civ_log d3 = civ_log d @ [report CAT_FRAME_CMD dir q False (dir = CAT_DIR_OWN) (feed_client dir c) t1,
       report CAT_FRAME_ECHO CAT_DIR_RADIO q False (dir = CAT_DIR_OWN) (feed_client dir c) t2,
       report (answer_kind r (fst (answered d q r t3))) CAT_DIR_RADIO r (fst (answered d q r t3) > 0) (dir = CAT_DIR_OWN) (feed_client dir c) t3]"
proof -
  let ?cfg = "civ_cfg d" and ?st = "civ_st d" and ?p = "civ_cmd dir c q t1"
  let ?log1 = "civ_log d @ [report CAT_FRAME_CMD dir q False (dir = CAT_DIR_OWN) (feed_client dir c) t1]"
  let ?log2 = "?log1 @ [report CAT_FRAME_ECHO CAT_DIR_RADIO q False (dir = CAT_DIR_OWN) (feed_client dir c) t2]"
  have ra: "radio_addr ?cfg \<noteq> 0" and v: "civ_view d = (?cfg, [], ?st, True, civ_log d)"
    using rest by (simp_all add: civ_rest_def civ_view_def)
  have cl: "clean (ra # ctrl # cmd # qd)" "clean (ctrl # ra # cmd' # rd)" using addr q r by simp_all
  have v1: "civ_view d1 = (?cfg, [?p], ?st, True, ?log1)"
    using feed_frame_view(1) [OF src(2) _ cl(1), of d t1] cmd_step [OF v ra src(1), of q c t1] rest q addr
    by (simp add: d1 civ_rest_def)
  have i1: "rx_state (civ_rx d1 RX_RADIO) = RX_IDLE"
    using feed_frame_view(2) [OF src(2) _ cl(1), of d t1] rest q(1,3) by (simp add: d1 civ_rest_def)
  have v2: "civ_view d2 = (?cfg, [?p\<lparr>cp_echoed := True\<rparr>], ?st, True, ?log2)"
    using feed_frame_view(1) [where dir = CAT_DIR_RADIO and c = c2, OF _ _ cl(1), of d1 t2] echo_step [OF v1 ra, of t2] i1 q(1,3) addr t
    by (simp add: d2 feed_client_def)
  have i2: "rx_state (civ_rx d2 RX_RADIO) = RX_IDLE"
    using feed_frame_view(2) [where dir = CAT_DIR_RADIO and c = c2, OF _ _ cl(1), of d1 t2 RX_RADIO] i1 q(1,3) by (simp add: d2)
  have v3: "civ_view d3 = civ_view (process_frame CAT_DIR_RADIO 0 r t3 d2)"
    using feed_frame_view(1) [where dir = CAT_DIR_RADIO and c = c3, OF _ _ cl(2), of d2 t3] i2 r by (simp add: d3)
  have "civ_view d3 = (?cfg, [], snd (answered d q r t3), True, ?log2 @
      [report (answer_kind r (fst (answered d q r t3))) CAT_DIR_RADIO r (fst (answered d q r t3) > 0) (dir = CAT_DIR_OWN) (feed_client dir c) t3])"
  proof (cases "cmd' = CIV_OK \<or> cmd' = CIV_NG")
    case True
    then show ?thesis
      using ack_step [OF v2 ra, of r t3] match addr t q(1) r(1) unfolding v3
      by (auto simp: answered_def answer_kind_def feed_client_def Let_def)
  next
    case False
    then show ?thesis
      using reply_step [OF v2 ra, of r t3] match addr t q(1) r(1) unfolding v3
      by (auto simp: answered_def answer_kind_def feed_client_def Let_def)
  qed
  with v1 v2 show "civ_st d1 = civ_st d" "civ_st d2 = civ_st d" "civ_st d3 = snd (answered d q r t3)" "civ_pend d3 = []"
    "civ_log d3 = civ_log d @ [report CAT_FRAME_CMD dir q False (dir = CAT_DIR_OWN) (feed_client dir c) t1,
       report CAT_FRAME_ECHO CAT_DIR_RADIO q False (dir = CAT_DIR_OWN) (feed_client dir c) t2,
       report (answer_kind r (fst (answered d q r t3))) CAT_DIR_RADIO r (fst (answered d q r t3) > 0) (dir = CAT_DIR_OWN) (feed_client dir c) t3]"
    by (simp_all add: civ_view_def)
qed

text \<open>Claim C13. Reading the frequency: with nothing pending, a client (or mhuxd) asks the radio for its frequency; the
  question and its echo on the bus change nothing; the radio's answer, in the frequency code, becomes the frequency of
  the selected VFO with the time of the answer, nothing stays pending, and the three frames are reported in order with
  the client they belong to. The answer must come within 2 s, on frames no byte of which is reserved.\<close>

theorem civ_read_freq:
  fixes ctrl :: byte
  assumes "civ_rest dir c d" "dir \<noteq> CAT_DIR_RADIO" "feed_valid dir c"
    and "ra = radio_addr (civ_cfg d)" "ctrl \<noteq> 0" "ctrl \<noteq> ra" "clean [ra, ctrl]"
    and "civ_dec_freq (freq_len (civ_cfg d)) p = Some hz" "clean p" "length p \<le> 58"
    and "q = civ_frame [ra, ctrl, 0x03]" "r = civ_frame (ctrl # ra # 0x03 # p)"
    and "\<not> t1 + PEND_TIMEOUT_MS < t2" "\<not> t1 + PEND_TIMEOUT_MS < t3"
    and "d1 = cat_civ_feed d dir c q t1" "d2 = cat_civ_feed d1 CAT_DIR_RADIO 0 q t2" "d3 = cat_civ_feed d2 CAT_DIR_RADIO 0 r t3"
  shows "civ_st d2 = civ_st d \<and> civ_pend d3 = [] \<and> v_freq (vfo_sel (civ_st d3)) = \<lparr>it_val = hz, it_t = t3, it_valid = True\<rparr> \<and>
    vfo_unsel (civ_st d3) = vfo_unsel (civ_st d) \<and>
    civ_log d3 = civ_log d @ [report CAT_FRAME_CMD dir q False (dir = CAT_DIR_OWN) (feed_client dir c) t1,
       report CAT_FRAME_ECHO CAT_DIR_RADIO q False (dir = CAT_DIR_OWN) (feed_client dir c) t2,
       report CAT_FRAME_REPLY CAT_DIR_RADIO r True (dir = CAT_DIR_OWN) (feed_client dir c) t3]"
proof -
  have "answers_query r q"
    using assms(11,12) by (simp add: answers_query_def is_query_def has_sub_def)
  then have m: "if (0x03 :: byte) = CIV_OK \<or> (0x03 :: byte) = CIV_NG then is_query q = 0 else answers_query r q" by simp
  have a: "answered d q r t3 = (1, cat_state_set_freq (civ_st d) CAT_VFO_SEL hz t3)"
    using assms(8,12) by (simp add: answered_def apply_reply_def Let_def apply_freq_def)
  note D = dialog [OF assms(1-7,11) _ _ assms(12) _ assms(10) m assms(13-17)]
  show ?thesis
    using D assms(9) a by (simp add: answer_kind_def assms(12) cat_op_defs Let_def split_def)
qed

lemma civ_ex_rest: "civ_rest CAT_DIR_HOST 3 civ_ex" "civ_rest CAT_DIR_OWN c civ_ex" "radio_addr (civ_cfg civ_ex) = 0x94"
  "freq_len (civ_cfg civ_ex) = 5" "feed_valid CAT_DIR_HOST 3" "feed_valid CAT_DIR_OWN c" "civ_st civ_ex = cat_state_init" "civ_log civ_ex = []"
  by (simp_all add: civ_rest_def civ_ex_def civ_start_def cat_civ_set_frame_cb_def cat_civ_create_def Let_def feed_valid_def valid_client_def)

lemma civ_ex_freq: "civ_dec_freq 5 [0x00, 0x40, 0x07, 0x14, 0x00] = Some 14074000"
  by (simp add: civ_dec_freq_def Let_def)

theorem civ_read_freq_witness:
  "let q = [0xfe, 0xfe, 0x94, 0xe0, 0x03, 0xfd]; r = [0xfe, 0xfe, 0xe0, 0x94, 0x03, 0x00, 0x40, 0x07, 0x14, 0x00, 0xfd];
       d1 = cat_civ_feed civ_ex CAT_DIR_HOST 3 q 100; d2 = cat_civ_feed d1 CAT_DIR_RADIO 0 q 110;
       d3 = cat_civ_feed d2 CAT_DIR_RADIO 0 r 130
   in civ_st d2 = cat_state_init \<and> civ_pend d3 = [] \<and>
      v_freq (vfo_sel (civ_st d3)) = \<lparr>it_val = 14074000, it_t = 130, it_valid = True\<rparr>"
  using civ_read_freq [OF civ_ex_rest(1) _ civ_ex_rest(5) _ _ _ _ _ _ _ refl refl _ _ refl refl refl,
      of "0x94" "0xe0" "[0x00, 0x40, 0x07, 0x14, 0x00]" 14074000 100 110 130]
  by (simp add: civ_ex_rest civ_ex_freq Let_def civ_frame_def)



section \<open>What stays pending\<close>

text \<open>An answer removes only commands of the controller and client it belongs to: when the answered command is
  taken off, together with the older ones of the same controller and client, every pending command of another
  controller or client stays, in its order, and so does every newer one.\<close>

theorem civ_consume_keeps_others:
  assumes "i < length (civ_pend d)"
  shows "civ_pend (pend_consume i d) =
      filter (\<lambda>p. \<not> same_ctrl (civ_pend d ! i) p) (take (Suc i) (civ_pend d)) @ drop (Suc i) (civ_pend d) \<and>
    filter (\<lambda>p. \<not> same_ctrl (civ_pend d ! i) p) (civ_pend (pend_consume i d)) = filter (\<lambda>p. \<not> same_ctrl (civ_pend d ! i) p) (civ_pend d) \<and>
    length (civ_pend (pend_consume i d)) < length (civ_pend d)"
proof -
  let ?P = "\<lambda>p. \<not> same_ctrl (civ_pend d ! i) p"
  have split: "civ_pend d = take (Suc i) (civ_pend d) @ drop (Suc i) (civ_pend d)" by simp
  have "filter ?P (civ_pend d) = filter ?P (take (Suc i) (civ_pend d)) @ filter ?P (drop (Suc i) (civ_pend d))"
    by (subst split) (simp only: filter_append)
  moreover have "civ_pend d ! i \<in> set (take (Suc i) (civ_pend d))" using assms by (auto simp: take_Suc_conv_app_nth)
  then have "length (filter ?P (take (Suc i) (civ_pend d))) < length (take (Suc i) (civ_pend d))"
    by (rule length_filter_less) (simp add: same_ctrl_def)
  ultimately show ?thesis using assms by (simp add: pend_consume_pend)
qed

theorem civ_consume_keeps_others_witness:
  "let p1 = civ_cmd CAT_DIR_HOST 1 (civ_frame [0x94, 0xe0, 0x03]) 0; p2 = civ_cmd CAT_DIR_HOST 2 (civ_frame [0x94, 0xe1, 0x03]) 0;
       d = civ_ex\<lparr>civ_pend := [p2, p1, p2]\<rparr>
   in civ_pend (pend_consume 1 d) = [p2, p2]"
  using civ_consume_keeps_others [of 1 "civ_ex\<lparr>civ_pend := [civ_cmd CAT_DIR_HOST 2 (civ_frame [0x94, 0xe1, 0x03]) 0,
      civ_cmd CAT_DIR_HOST 1 (civ_frame [0x94, 0xe0, 0x03]) 0, civ_cmd CAT_DIR_HOST 2 (civ_frame [0x94, 0xe1, 0x03]) 0]\<rparr>"]
  by (simp add: same_ctrl_def Let_def)

text \<open>Discarding a client: it is not busy any more, at any time; every other client is as busy as before; the
  radio state and the reports are untouched; and this holds for any number of clients discarded in a row.\<close>

theorem civ_discard_silences:
  assumes "civ_ok d"
  shows "cat_civ_client_busy (fold (\<lambda>c d. cat_civ_client_discard d c) cs d) c t = (c \<notin> set cs \<and> cat_civ_client_busy d c t) \<and>
    civ_st (cat_civ_client_discard d c) = civ_st d \<and> civ_log (cat_civ_client_discard d c) = civ_log d"
  using civd.discard_all_busy [OF assms] by (simp add: discard_fields)

theorem civ_discard_silences_witness:
  "\<not> cat_civ_client_busy (cat_civ_client_discard (cat_civ_feed civ_ex CAT_DIR_HOST 1 [0xfe] 5) 1) 1 6"
proof -
  have "civ_ok (cat_civ_feed civ_ex CAT_DIR_HOST 1 [0xfe] 5)" by (simp add: civ_ok_feed civ_ex_def civ_start_ok)
  from civ_discard_silences [OF this, of "[1]" 1 6] show ?thesis by simp
qed

section \<open>Lost commands\<close>

lemma lost_count: "cat_civ_lost d = int (length (filter cp_lost (civ_pend d)))"
proof -
  have "fold (\<lambda>p n. n + (if cp_lost p then 1 else 0)) ps (n :: int) = n + int (length (filter cp_lost ps))" for ps n
    by (induction ps arbitrary: n) simp_all
  from this [of "civ_pend d" 0] show ?thesis by (simp add: cat_civ_lost_def)
qed

lemma resend_scan_lost:
  "(case snd (resend_scan m t ps) of None \<Rightarrow> filter cp_lost (fst (resend_scan m t ps)) = []
    | Some p \<Rightarrow> length (filter cp_lost (fst (resend_scan m t ps))) < length (filter cp_lost ps) \<and> p \<in> set (fst (resend_scan m t ps)) \<and>
        cp_t p = t \<and> (\<exists>q \<in> set ps. cp_lost q \<and> uint (cp_resends q) < m \<and> cp_buf p = cp_buf q \<and> cp_client p = cp_client q \<and>
           cp_own p = cp_own q \<and> cp_resends p = cp_resends q + 1))"
  by (induction ps) (auto simp: Let_def split: option.split)

lemma resend_bound: "uint (w :: byte) < m \<Longrightarrow> m \<le> 255 \<Longrightarrow> uint (w + 1) \<le> m"
  using uint_plus_if' [of w 1] by (auto split: if_splits)

lemma resend_scan_resends:
  "m \<le> 255 \<Longrightarrow> \<forall>p \<in> set ps. uint (cp_resends p) \<le> m \<Longrightarrow> \<forall>p \<in> set (fst (resend_scan m t ps)). uint (cp_resends p) \<le> m"
  by (induction ps) (auto simp: Let_def resend_bound)



end
