(* ===== verification/CatAscii.thy ===== *)
theory CatAscii
  imports CatFrame
begin

text \<open>
  \<^verbatim>\<open>src/cat_ascii.c\<close>, \<^verbatim>\<open>src/cat_ascii.h\<close>: the decoder of the Kenwood-style ASCII protocols
  (Kenwood, Elecraft, Yaesu, Flex). A frame is the list of its bytes; commands work on the frame
  without its \<^verbatim>\<open>;\<close>. A VFO is \<open>False\<close> (A) or \<open>True\<close> (B). The pending commands are a list of
  at most eight; the frame callback is a log of the frames reported; it may be absent.
\<close>

section \<open>Characters\<close>

abbreviation (input) "CH_SEMI \<equiv> (0x3b :: byte)"
abbreviation (input) "CH_QUEST \<equiv> (0x3f :: byte)"
abbreviation (input) "CH_DOLLAR \<equiv> (0x24 :: byte)"
abbreviation (input) "CH_0 \<equiv> (0x30 :: byte)"
abbreviation (input) "CH_1 \<equiv> (0x31 :: byte)"
abbreviation (input) "CH_2 \<equiv> (0x32 :: byte)"
abbreviation (input) "CH_3 \<equiv> (0x33 :: byte)"
abbreviation (input) "CH_4 \<equiv> (0x34 :: byte)"
abbreviation (input) "CH_5 \<equiv> (0x35 :: byte)"
abbreviation (input) "CH_6 \<equiv> (0x36 :: byte)"
abbreviation (input) "CH_7 \<equiv> (0x37 :: byte)"
abbreviation (input) "CH_8 \<equiv> (0x38 :: byte)"
abbreviation (input) "CH_9 \<equiv> (0x39 :: byte)"
abbreviation (input) "CH_A \<equiv> (0x41 :: byte)"
abbreviation (input) "CH_B \<equiv> (0x42 :: byte)"
abbreviation (input) "CH_C \<equiv> (0x43 :: byte)"
abbreviation (input) "CH_D \<equiv> (0x44 :: byte)"
abbreviation (input) "CH_E \<equiv> (0x45 :: byte)"
abbreviation (input) "CH_F \<equiv> (0x46 :: byte)"
abbreviation (input) "CH_G \<equiv> (0x47 :: byte)"
abbreviation (input) "CH_H \<equiv> (0x48 :: byte)"
abbreviation (input) "CH_I \<equiv> (0x49 :: byte)"
abbreviation (input) "CH_J \<equiv> (0x4a :: byte)"
abbreviation (input) "CH_K \<equiv> (0x4b :: byte)"
abbreviation (input) "CH_L \<equiv> (0x4c :: byte)"
abbreviation (input) "CH_M \<equiv> (0x4d :: byte)"
abbreviation (input) "CH_N \<equiv> (0x4e :: byte)"
abbreviation (input) "CH_O \<equiv> (0x4f :: byte)"
abbreviation (input) "CH_P \<equiv> (0x50 :: byte)"
abbreviation (input) "CH_R \<equiv> (0x52 :: byte)"
abbreviation (input) "CH_S \<equiv> (0x53 :: byte)"
abbreviation (input) "CH_T \<equiv> (0x54 :: byte)"
abbreviation (input) "CH_V \<equiv> (0x56 :: byte)"
abbreviation (input) "CH_Z \<equiv> (0x5a :: byte)"

section \<open>State\<close>

abbreviation (input) "ASCII_MAX_FRAME \<equiv> (64 :: nat)"
abbreviation (input) "ASC_PEND_MAX \<equiv> (8 :: nat)"
abbreviation (input) "ASC_TIMEOUT_MS \<equiv> (2000 :: u64)"
abbreviation (input) "CAT_ASCII_SET_WAIT_MS \<equiv> (200 :: u64)"
abbreviation (input) "IF_LEN_KENWOOD \<equiv> (37 :: nat)"
abbreviation (input) "VFO_A \<equiv> False"
abbreviation (input) "VFO_B \<equiv> True"

datatype cat_ascii_dialect = CAT_ASCII_KENWOOD | CAT_ASCII_ELECRAFT | CAT_ASCII_YAESU | CAT_ASCII_FLEX

record ascii_rx =
  arx_buf :: "byte list"
  arx_t :: u64

record ascii_pending =
  ap_prefix :: "byte list"
  ap_frame :: "byte list"
  ap_t :: u64
  ap_own :: bool
  ap_client :: int
  ap_query :: bool

record cat_ascii_cfg =
  asc_dialect :: cat_ascii_dialect
  asc_no_data :: bool

text \<open>Framers: \<open>0..8\<close> the clients, \<open>9\<close> mhuxd's own queries, \<open>10\<close> the radio. \<open>None\<close> is the unknown transmit VFO.\<close>

abbreviation (input) "ARX_OWN \<equiv> (9 :: nat)"
abbreviation (input) "ARX_RADIO \<equiv> (10 :: nat)"

record cat_ascii =
  asc_cfg :: cat_ascii_cfg
  asc_st :: cat_state
  asc_cb :: bool
  asc_rx :: "nat \<Rightarrow> ascii_rx"
  asc_pend :: "ascii_pending list"
  k3_md :: "bool \<Rightarrow> byte"
  k3_dt :: "bool \<Rightarrow> byte"
  tx_ab :: "bool option"
  asc_stats :: cat_stats
  asc_log :: "cat_frame list"

definition dialect_names :: "(string \<times> cat_ascii_dialect) list" where
  "dialect_names = [(''kenwood'', CAT_ASCII_KENWOOD), (''elecraft'', CAT_ASCII_ELECRAFT), (''yaesu'', CAT_ASCII_YAESU),
     (''flex'', CAT_ASCII_FLEX)]"

definition cat_ascii_dialect_str :: "cat_ascii_dialect \<Rightarrow> string" where
  "cat_ascii_dialect_str d =
     (case d of CAT_ASCII_KENWOOD \<Rightarrow> ''kenwood'' | CAT_ASCII_ELECRAFT \<Rightarrow> ''elecraft'' | CAT_ASCII_YAESU \<Rightarrow> ''yaesu''
      | CAT_ASCII_FLEX \<Rightarrow> ''flex'')"

text \<open>No string, or an unknown one, is no dialect.\<close>

definition cat_ascii_dialect_from_str :: "string option \<Rightarrow> cat_ascii_dialect option" where
  "cat_ascii_dialect_from_str s = (case s of None \<Rightarrow> None | Some n \<Rightarrow> map_of dialect_names n)"

definition cat_ascii_create :: "cat_ascii_cfg option \<Rightarrow> cat_state \<Rightarrow> cat_ascii" where
  "cat_ascii_create cfg st =
     \<lparr>asc_cfg = (case cfg of None \<Rightarrow> \<lparr>asc_dialect = CAT_ASCII_KENWOOD, asc_no_data = False\<rparr> | Some c \<Rightarrow> c), asc_st = st,
      asc_cb = False, asc_rx = (\<lambda>_. \<lparr>arx_buf = [], arx_t = 0\<rparr>), asc_pend = [], k3_md = (\<lambda>_. 0), k3_dt = (\<lambda>_. 0),
      tx_ab = None, asc_stats = no_stats, asc_log = []\<rparr>"

definition cat_ascii_set_frame_cb :: "cat_ascii \<Rightarrow> bool \<Rightarrow> cat_ascii" where
  "cat_ascii_set_frame_cb a cb = a\<lparr>asc_cb := cb\<rparr>"

definition cat_ascii_get_stats :: "cat_ascii \<Rightarrow> cat_stats" where
  "cat_ascii_get_stats a = asc_stats a"

definition asc_count :: "cat_frame_kind \<Rightarrow> cat_stats \<Rightarrow> cat_stats" where
  "asc_count kind s =
     (case kind of
        CAT_FRAME_REPLY \<Rightarrow> s\<lparr>cs_replies := cs_replies s + 1\<rparr>
      | CAT_FRAME_BAD \<Rightarrow> s\<lparr>cs_bad := cs_bad s + 1\<rparr>
      | CAT_FRAME_DROPPED \<Rightarrow> s\<lparr>cs_dropped := cs_dropped s + 1\<rparr>
      | CAT_FRAME_ERROR \<Rightarrow> s\<lparr>cs_errors := cs_errors s + 1\<rparr>
      | _ \<Rightarrow> s)"

definition asc_emit :: "cat_frame_kind \<Rightarrow> cat_dir \<Rightarrow> byte list \<Rightarrow> bool \<Rightarrow> bool \<Rightarrow> int \<Rightarrow> u64 \<Rightarrow> cat_ascii \<Rightarrow> cat_ascii" where
  "asc_emit kind dir buf applied own client t a =
     (let s1 = asc_count kind (asc_stats a);
          s2 = (if applied then s1\<lparr>cs_applied := cs_applied s1 + 1\<rparr> else s1);
          s3 = (if own \<and> dir = CAT_DIR_RADIO then s2\<lparr>cs_own := cs_own s2 + 1\<rparr> else s2);
          a1 = a\<lparr>asc_stats := s3\<rparr>
      in if asc_cb a1
         then a1\<lparr>asc_log := asc_log a1 @ [\<lparr>fr_kind = kind, fr_dir = dir, fr_t = t, fr_buf = buf, fr_applied = applied,
                fr_text = True, fr_own = own, fr_client = client\<rparr>]\<rparr>
         else a1)"

section \<open>Field decoding\<close>

definition is_digit :: "byte \<Rightarrow> bool" where
  "is_digit c \<longleftrightarrow> \<not> (c < CH_0 \<or> c > CH_9)"

fun digits_loop :: "byte list \<Rightarrow> u64 \<Rightarrow> u64 option" where
  "digits_loop [] f = Some f"
| "digits_loop (c # cs) f = (if \<not> is_digit c then None else digits_loop cs (f * 10 + ucast (c - CH_0)))"

definition dec_freq :: "byte list \<Rightarrow> u32 option" where
  "dec_freq p =
     (if length p < 8 \<or> length p > 11 then None
      else case digits_loop p 0 of None \<Rightarrow> None
        | Some f \<Rightarrow> if f = 0 \<or> f > 0xffffffff then None else Some (ucast f))"

definition dec_bool :: "byte \<Rightarrow> bool option" where
  "dec_bool c = (if c \<noteq> CH_0 \<and> c \<noteq> CH_1 then None else Some (c = CH_1))"

text \<open>A mode and its data flag: 0, 1, or -1 when a command of its own tells.\<close>

type_synonym mode_data = "(cat_mode \<times> int) option"

definition dec_mode_kenwood :: "bool \<Rightarrow> byte \<Rightarrow> bool \<Rightarrow> mode_data" where
  "dec_mode_kenwood no_data c data_codes =
     (let d = (if no_data \<or> data_codes then 0 else -1 :: int) in
      if c = CH_1 then Some (CAT_MODE_LSB, d)
      else if c = CH_2 then Some (CAT_MODE_USB, d)
      else if c = CH_3 then Some (CAT_MODE_CW, d)
      else if c = CH_4 then Some (CAT_MODE_FM, d)
      else if c = CH_5 then Some (CAT_MODE_AM, d)
      else if c = CH_6 then Some (CAT_MODE_RTTY, d)
      else if c = CH_7 then Some (CAT_MODE_CWR, d)
      else if c = CH_9 then Some (CAT_MODE_RTTYR, d)
      else if c = CH_A then Some (CAT_MODE_PSK, 0)
      else if c = CH_B then Some (CAT_MODE_PSKR, 0)
      else if c = CH_C \<or> c = CH_G \<or> c = CH_K then Some (CAT_MODE_PKTLSB, 1)
      else if c = CH_D \<or> c = CH_H \<or> c = CH_L then Some (CAT_MODE_PKTUSB, 1)
      else if c = CH_E \<or> c = CH_I \<or> c = CH_M then Some (CAT_MODE_PKTFM, 1)
      else if c = CH_F \<or> c = CH_J \<or> c = CH_N then Some (CAT_MODE_PKTAM, 1)
      else None)"

definition dec_mode_flex :: "byte \<Rightarrow> mode_data" where
  "dec_mode_flex c =
     (if c = CH_1 then Some (CAT_MODE_LSB, 0)
      else if c = CH_2 then Some (CAT_MODE_USB, 0)
      else if c = CH_3 then Some (CAT_MODE_CW, 0)
      else if c = CH_4 then Some (CAT_MODE_FM, 0)
      else if c = CH_5 then Some (CAT_MODE_AM, 0)
      else if c = CH_6 then Some (CAT_MODE_PKTLSB, 1)
      else if c = CH_7 then Some (CAT_MODE_CWR, 0)
      else if c = CH_9 then Some (CAT_MODE_PKTUSB, 1)
      else None)"

fun zz_loop :: "byte list \<Rightarrow> int \<Rightarrow> int option" where
  "zz_loop [] v = Some v"
| "zz_loop (c # cs) v = (if \<not> is_digit c then None else zz_loop cs (v * 10 + uint c - 0x30))"

definition dec_mode_zz :: "byte list \<Rightarrow> mode_data" where
  "dec_mode_zz p =
     (if length p < 1 \<or> length p > 2 then None
      else case zz_loop p 0 of None \<Rightarrow> None
        | Some v \<Rightarrow>
            if v = 0 then Some (CAT_MODE_LSB, 0)
            else if v = 1 then Some (CAT_MODE_USB, 0)
            else if v = 3 then Some (CAT_MODE_CWR, 0)
            else if v = 4 then Some (CAT_MODE_CW, 0)
            else if v = 5 then Some (CAT_MODE_FM, 0)
            else if v = 6 then Some (CAT_MODE_AM, 0)
            else if v = 7 then Some (CAT_MODE_PKTUSB, 1)
            else if v = 9 then Some (CAT_MODE_PKTLSB, 1)
            else if v = 10 then Some (CAT_MODE_AMS, 0)
            else if v = 2 \<or> v = 8 \<or> v = 11 then Some (CAT_MODE_OTHER, 0)
            else None)"

definition dec_mode_yaesu :: "byte \<Rightarrow> mode_data" where
  "dec_mode_yaesu c =
     (if c = CH_1 then Some (CAT_MODE_LSB, 0)
      else if c = CH_2 then Some (CAT_MODE_USB, 0)
      else if c = CH_3 then Some (CAT_MODE_CW, 0)
      else if c = CH_4 then Some (CAT_MODE_FM, 0)
      else if c = CH_5 then Some (CAT_MODE_AM, 0)
      else if c = CH_6 then Some (CAT_MODE_RTTY, 0)
      else if c = CH_7 then Some (CAT_MODE_CWR, 0)
      else if c = CH_8 then Some (CAT_MODE_PKTLSB, 1)
      else if c = CH_9 then Some (CAT_MODE_RTTYR, 0)
      else if c = CH_A then Some (CAT_MODE_PKTFM, 1)
      else if c = CH_B then Some (CAT_MODE_FM, 0)
      else if c = CH_C then Some (CAT_MODE_PKTUSB, 1)
      else if c = CH_D then Some (CAT_MODE_AM, 0)
      else if c = CH_E then Some (CAT_MODE_OTHER, 0)
      else if c = CH_F then Some (CAT_MODE_PKTFM, 1)
      else None)"

definition k3_data_mode :: "byte \<Rightarrow> byte \<Rightarrow> cat_mode" where
  "k3_data_mode md dt =
     (if dt = CH_1 then CAT_MODE_PKTLSB
      else if dt = CH_2 then (if md = CH_9 then CAT_MODE_RTTYR else CAT_MODE_RTTY)
      else CAT_MODE_PKTUSB)"

section \<open>State updates\<close>

text \<open>The selected VFO that the state holds (its value also when it is not valid yet).\<close>

definition cur_ab :: "cat_ascii \<Rightarrow> bool" where
  "cur_ab a = it_val (st_vfo_ab (asc_st a))"

definition slot_of :: "cat_ascii \<Rightarrow> bool \<Rightarrow> int" where
  "slot_of a ab = (if ab = cur_ab a then CAT_VFO_SEL else CAT_VFO_UNSEL)"

definition set_freq :: "bool \<Rightarrow> u32 \<Rightarrow> u64 \<Rightarrow> cat_ascii \<Rightarrow> cat_ascii" where
  "set_freq ab hz t a = a\<lparr>asc_st := cat_state_set_freq (asc_st a) (slot_of a ab) hz t\<rparr>"

definition set_mode :: "int \<Rightarrow> cat_mode \<Rightarrow> int \<Rightarrow> u64 \<Rightarrow> cat_ascii \<Rightarrow> cat_ascii" where
  "set_mode slot mode data t a =
     (let st1 = cat_state_set_mode (asc_st a) slot mode t
      in a\<lparr>asc_st := (if data = 0 \<and> cat_mode_with_data mode True \<noteq> mode then cat_state_set_data st1 slot False t else st1)\<rparr>)"

definition update_split :: "u64 \<Rightarrow> cat_ascii \<Rightarrow> cat_ascii" where
  "update_split t a =
     (case tx_ab a of None \<Rightarrow> a | Some tx \<Rightarrow> a\<lparr>asc_st := cat_state_set_split (asc_st a) (tx \<noteq> cur_ab a) t\<rparr>)"

definition set_split :: "bool \<Rightarrow> u64 \<Rightarrow> cat_ascii \<Rightarrow> cat_ascii" where
  "set_split split t a =
     (let a1 = a\<lparr>asc_st := cat_state_set_split (asc_st a) split t\<rparr>
      in a1\<lparr>tx_ab := Some (if split then \<not> cur_ab a1 else cur_ab a1)\<rparr>)"

definition select_rx :: "bool \<Rightarrow> u64 \<Rightarrow> cat_ascii \<Rightarrow> cat_ascii" where
  "select_rx ab t a = update_split t (a\<lparr>asc_st := cat_state_select_vfo (asc_st a) ab t\<rparr>)"

definition k3_apply :: "bool \<Rightarrow> u64 \<Rightarrow> cat_ascii \<Rightarrow> cat_ascii" where
  "k3_apply ab t a =
     (let md = k3_md a ab in
      if md = 0 then a
      else if md = CH_6 \<or> md = CH_9 then set_mode (slot_of a ab) (k3_data_mode md (k3_dt a ab)) 1 t a
      else case dec_mode_kenwood (asc_no_data (asc_cfg a)) md False of
          Some (mode, _) \<Rightarrow> set_mode (slot_of a ab) mode 0 t a
        | None \<Rightarrow> a)"

text \<open>A command returns the C result (1, 0 or -1) and the decoder.\<close>

definition apply_mode_code :: "bool \<Rightarrow> byte \<Rightarrow> bool \<Rightarrow> u64 \<Rightarrow> cat_ascii \<Rightarrow> int \<times> cat_ascii" where
  "apply_mode_code ab c data_codes t a =
     (case asc_dialect (asc_cfg a) of
        CAT_ASCII_ELECRAFT \<Rightarrow>
          (if c < CH_1 \<or> c > CH_9 \<or> c = CH_8 then (-1, a)
           else (1, k3_apply ab t (a\<lparr>k3_md := (k3_md a)(ab := c)\<rparr>)))
      | d \<Rightarrow>
          (case (if d = CAT_ASCII_FLEX then dec_mode_flex c
                 else if d = CAT_ASCII_YAESU then dec_mode_yaesu c
                 else dec_mode_kenwood (asc_no_data (asc_cfg a)) c data_codes) of
             None \<Rightarrow> (-1, a)
           | Some (mode, data) \<Rightarrow> (1, set_mode (slot_of a ab) mode data t a)))"

section \<open>Commands\<close>

definition cmd_freq :: "bool \<Rightarrow> byte list \<Rightarrow> u64 \<Rightarrow> cat_ascii \<Rightarrow> int \<times> cat_ascii" where
  "cmd_freq ab p t a =
     (if p = [] then (0, a) else case dec_freq p of None \<Rightarrow> (-1, a) | Some hz \<Rightarrow> (1, set_freq ab hz t a))"

definition cmd_if_kenwood :: "byte list \<Rightarrow> u64 \<Rightarrow> cat_ascii \<Rightarrow> int \<times> cat_ascii" where
  "cmd_if_kenwood s t a =
     (if length s = 2 then (0, a)
      else if length s \<noteq> IF_LEN_KENWOOD then (-1, a)
      else case (dec_freq (take 11 (drop 2 s)), dec_bool (s ! 28), dec_bool (s ! 32)) of
          (Some hz, Some tx, Some split) \<Rightarrow>
            (if s ! 30 < CH_0 \<or> s ! 30 > CH_2 then (-1, a)
             else if \<not> (tx \<and> split) then
               let a1 = (if s ! 30 \<noteq> CH_2 then a\<lparr>asc_st := cat_state_select_vfo (asc_st a) (s ! 30 = CH_1) t\<rparr> else a);
                   a2 = set_freq (cur_ab a1) hz t a1;
                   (r, a3) = apply_mode_code (cur_ab a2) (s ! 29) False t a2
               in if r < 0 then (-1, a3) else (1, set_split split t a3)
             else (1, set_split split t a))
        | _ \<Rightarrow> (-1, a))"

definition cmd_if_yaesu :: "bool \<Rightarrow> byte list \<Rightarrow> u64 \<Rightarrow> cat_ascii \<Rightarrow> int \<times> cat_ascii" where
  "cmd_if_yaesu ab s t a =
     (let n = length s in
      if n = 2 then (0, a)
      else if n \<notin> {26, 29, 27, 40} then (-1, a)
      else let w = (if n = 26 \<or> n = 29 then 8 else 9 :: nat) in
        case dec_freq (take w (drop 5 s)) of None \<Rightarrow> (-1, a)
        | Some hz \<Rightarrow>
            let a1 = set_freq ab hz t a; (r, a2) = apply_mode_code ab (s ! (5 + w + 7)) False t a1
            in if r < 0 then (-1, a2) else (1, a2))"

definition cmd_md :: "byte list \<Rightarrow> u64 \<Rightarrow> cat_ascii \<Rightarrow> int \<times> cat_ascii" where
  "cmd_md s t a =
     (let n = length s; ab = cur_ab a; d = asc_dialect (asc_cfg a) in
      if d = CAT_ASCII_YAESU then
        (if n = 3 \<or> n = 2 then (0, a)
         else if n \<noteq> 4 \<or> (s ! 2 \<noteq> CH_0 \<and> s ! 2 \<noteq> CH_1) then (-1, a)
         else apply_mode_code (s ! 2 = CH_1) (s ! 3) False t a)
      else if d = CAT_ASCII_ELECRAFT \<and> n \<ge> 3 \<and> s ! 2 = CH_DOLLAR then
        (if n = 3 then (0, a) else if n = 4 then apply_mode_code VFO_B (s ! 3) False t a else (-1, a))
      else if n = 2 then (0, a)
      else if n = 3 then apply_mode_code ab (s ! 2) False t a else (-1, a))"

definition cmd_data :: "byte list \<Rightarrow> u64 \<Rightarrow> cat_ascii \<Rightarrow> int \<times> cat_ascii" where
  "cmd_data s t a =
     (let n = length s; d = asc_dialect (asc_cfg a) in
      if d = CAT_ASCII_ELECRAFT then
        let vfo_b = (n \<ge> 3 \<and> s ! 2 = CH_DOLLAR); p = (if vfo_b then 3 else 2); ab = (if vfo_b then VFO_B else cur_ab a) in
        (if s ! 1 \<noteq> CH_T \<or> n = p then (0, a)
         else if n \<noteq> p + 1 \<or> s ! p < CH_0 \<or> s ! p > CH_3 then (-1, a)
         else (1, k3_apply ab t (a\<lparr>k3_dt := (k3_dt a)(ab := s ! p)\<rparr>)))
      else if d \<noteq> CAT_ASCII_KENWOOD then (0, a)
      else if n = 2 then (0, a)
      else if n \<noteq> 3 then (-1, a)
      else case dec_bool (s ! 2) of None \<Rightarrow> (-1, a)
        | Some v \<Rightarrow> (1, a\<lparr>asc_st := cat_state_set_data (asc_st a) CAT_VFO_SEL v t\<rparr>))"

definition cmd_vfo :: "byte list \<Rightarrow> u64 \<Rightarrow> cat_ascii \<Rightarrow> int \<times> cat_ascii" where
  "cmd_vfo s t a =
     (let n = length s in
      if n = 2 then (0, a)
      else if n \<noteq> 3 \<or> s ! 2 < CH_0 \<or> s ! 2 > CH_3 then (-1, a)
      else if s ! 2 > CH_1 then (0, a)
      else if take 2 s = [CH_F, CH_T] then (1, update_split t (a\<lparr>tx_ab := Some (s ! 2 = CH_1)\<rparr>))
      else (1, select_rx (s ! 2 = CH_1) t a))"

definition cmd_split :: "byte \<Rightarrow> u64 \<Rightarrow> cat_ascii \<Rightarrow> int \<times> cat_ascii" where
  "cmd_split c t a = (if c < CH_0 \<or> c > CH_2 then (-1, a) else (1, set_split (c \<noteq> CH_0) t a))"

definition cmd_om :: "byte list \<Rightarrow> u64 \<Rightarrow> cat_ascii \<Rightarrow> int \<times> cat_ascii" where
  "cmd_om s t a =
     (let n = length s in
      if n = 3 \<or> n = 2 then (0, a)
      else if n \<noteq> 4 \<or> (s ! 2 \<noteq> CH_0 \<and> s ! 2 \<noteq> CH_1) then (-1, a)
      else apply_mode_code (s ! 2 = CH_1) (s ! 3) True t a)"

definition cmd_sf :: "byte list \<Rightarrow> u64 \<Rightarrow> cat_ascii \<Rightarrow> int \<times> cat_ascii" where
  "cmd_sf s t a =
     (let n = length s in
      if n = 3 \<or> n = 2 then (0, a)
      else if n \<noteq> 15 \<or> (s ! 2 \<noteq> CH_0 \<and> s ! 2 \<noteq> CH_1) then (-1, a)
      else case dec_freq (take 11 (drop 3 s)) of None \<Rightarrow> (-1, a)
        | Some hz \<Rightarrow> apply_mode_code (s ! 2 = CH_1) (s ! 14) True t (set_freq (s ! 2 = CH_1) hz t a))"

definition cmd_zz :: "byte list \<Rightarrow> u64 \<Rightarrow> cat_ascii \<Rightarrow> int \<times> cat_ascii" where
  "cmd_zz s t a =
     (let n = length s; c4 = take 4 s in
      if n = 4 then (0, a)
      else if c4 = [CH_Z, CH_Z, CH_F, CH_A] \<or> c4 = [CH_Z, CH_Z, CH_F, CH_B] then cmd_freq (s ! 3 \<noteq> CH_A) (drop 4 s) t a
      else if c4 = [CH_Z, CH_Z, CH_M, CH_D] \<or> c4 = [CH_Z, CH_Z, CH_M, CH_E] then
        (case dec_mode_zz (drop 4 s) of None \<Rightarrow> (-1, a)
         | Some (mode, data) \<Rightarrow> (1, set_mode (slot_of a (s ! 3 \<noteq> CH_D)) mode data t a))
      else if c4 = [CH_Z, CH_Z, CH_S, CH_P] then (if n = 5 then cmd_split (s ! 4) t a else (-1, a))
      else (0, a))"

definition apply_frame :: "byte list \<Rightarrow> bool \<Rightarrow> u64 \<Rightarrow> cat_ascii \<Rightarrow> int \<times> cat_ascii" where
  "apply_frame s is_set t a =
     (let n = length s; d = asc_dialect (asc_cfg a); yaesu = (d = CAT_ASCII_YAESU); c2 = take 2 s in
      if n < 2 then (0, a)
      else if c2 = [CH_F, CH_A] \<or> c2 = [CH_F, CH_B] then cmd_freq (s ! 1 \<noteq> CH_A) (drop 2 s) t a
      else if c2 = [CH_M, CH_D] then cmd_md s t a
      else if c2 = [CH_D, CH_A] \<or> c2 = [CH_D, CH_T] then cmd_data s t a
      else if d = CAT_ASCII_FLEX \<and> n \<ge> 4 \<and> c2 = [CH_Z, CH_Z]
      then (if is_set \<and> take 4 s = [CH_Z, CH_Z, CH_S, CH_P] then (0, a) else cmd_zz s t a)
      else if is_set then (0, a)
      else if c2 = [CH_I, CH_F] then (if yaesu then cmd_if_yaesu VFO_A s t a else cmd_if_kenwood s t a)
      else if yaesu \<and> c2 = [CH_O, CH_I] then cmd_if_yaesu VFO_B s t a
      else if c2 = [CH_F, CH_T] \<or> (\<not> yaesu \<and> c2 = [CH_F, CH_R]) \<or> (yaesu \<and> c2 = [CH_V, CH_S]) then cmd_vfo s t a
      else if yaesu \<and> c2 = [CH_S, CH_T] then (if n = 2 then (0, a) else if n = 3 then cmd_split (s ! 2) t a else (-1, a))
      else if d = CAT_ASCII_KENWOOD \<and> c2 = [CH_O, CH_M] then cmd_om s t a
      else if d = CAT_ASCII_KENWOOD \<and> c2 = [CH_S, CH_F] then cmd_sf s t a
      else (0, a))"

section \<open>Pending commands\<close>

definition prefix_of :: "byte list \<Rightarrow> byte list" where
  "prefix_of s =
     (let n = length s in
      take (if n \<ge> 4 \<and> take 2 s = [CH_Z, CH_Z] then 4 else if n \<ge> 2 then 2 else n) s)"

definition pend_live :: "ascii_pending \<Rightarrow> u64 \<Rightarrow> bool" where
  "pend_live p t \<longleftrightarrow> ap_t p + (if ap_query p then ASC_TIMEOUT_MS else CAT_ASCII_SET_WAIT_MS) \<ge> t"

text \<open>Removal of the entries with a property, from the last to the first.\<close>

definition remove_all_down :: "('a \<Rightarrow> bool) \<Rightarrow> 'a list \<Rightarrow> 'a list" where
  "remove_all_down P xs = (if xs = [] then [] else remove_down P (length xs - 1) xs)"

definition asc_pend_add :: "byte list \<Rightarrow> byte list \<Rightarrow> bool \<Rightarrow> int \<Rightarrow> u64 \<Rightarrow> cat_ascii \<Rightarrow> cat_ascii" where
  "asc_pend_add buf prefix own client t a =
     (let ps = remove_all_down (\<lambda>p. \<not> pend_live p t) (asc_pend a);
          ps1 = (if length ps = ASC_PEND_MAX then remove_nth 0 ps else ps)
      in a\<lparr>asc_pend := ps1 @ [\<lparr>ap_prefix = prefix, ap_frame = buf, ap_t = t, ap_own = own, ap_client = client,
             ap_query = (length buf = length prefix + 1)\<rparr>]\<rparr>)"

text \<open>
  \<open>None\<close> stands for the null pointer of an error reply, \<open>Some (prefix, buf)\<close> for a frame. The
  result is whether a command was taken, its own flag and its client, and the decoder.
\<close>

definition asc_pend_take :: "(byte list \<times> byte list) option \<Rightarrow> u64 \<Rightarrow> cat_ascii \<Rightarrow> (bool \<times> bool \<times> int) \<times> cat_ascii" where
  "asc_pend_take f t a =
     (let ps = asc_pend a;
          fits = (\<lambda>p. case f of None \<Rightarrow> True | Some (prefix, _) \<Rightarrow> ap_prefix p = prefix);
          repeated = (\<lambda>p. case f of None \<Rightarrow> False | Some (_, buf) \<Rightarrow> \<not> ap_own p \<and> ap_frame p = buf);
          taken = (\<lambda>i. ((True, ap_own (ps ! i), ap_client (ps ! i)), a\<lparr>asc_pend := remove_nth i ps\<rparr>))
      in case find_index (\<lambda>p. ap_query p \<and> pend_live p t \<and> fits p) ps of
           Some i \<Rightarrow> taken i
         | None \<Rightarrow>
             (case find_index (\<lambda>p. pend_live p t \<and> fits p) ps of
                None \<Rightarrow> ((False, False, 0), a)
              | Some i \<Rightarrow>
                  if repeated (ps ! i) then ((False, False, 0), a\<lparr>asc_pend := remove_nth i ps\<rparr>) else taken i))"

text \<open>A frame with its \<^verbatim>\<open>;\<close>.\<close>

definition asc_process_frame :: "cat_dir \<Rightarrow> int \<Rightarrow> byte list \<Rightarrow> u64 \<Rightarrow> cat_ascii \<Rightarrow> cat_ascii" where
  "asc_process_frame dir client buf t a =
     (let s = take (length buf - 1) buf;
          a1 = a\<lparr>asc_stats := (asc_stats a)\<lparr>cs_frames := cs_frames (asc_stats a) + 1\<rparr>\<rparr>;
          a2 = (if \<not> it_valid (st_vfo_ab (asc_st a1)) then a1\<lparr>asc_st := cat_state_select_vfo (asc_st a1) VFO_A t\<rparr> else a1);
          prefix = prefix_of s
      in if dir \<noteq> CAT_DIR_RADIO then
           let own = (dir = CAT_DIR_OWN);
               a3 = (if s \<noteq> [] then asc_pend_add buf prefix own client t a2 else a2);
               (r, a4) = apply_frame s True t a3
           in asc_emit CAT_FRAME_CMD dir buf (r > 0) own client t a4
         else if length s = 1 \<and> (s ! 0 = CH_QUEST \<or> s ! 0 = CH_E \<or> s ! 0 = CH_O) then
           let ((_, own, c), a3) = asc_pend_take None t a2
           in asc_emit CAT_FRAME_ERROR dir buf False own c t a3
         else
           let ((reply, own, c), a3) = (if s \<noteq> [] then asc_pend_take (Some (prefix, buf)) t a2 else ((False, False, 0), a2));
               (r, a4) = apply_frame s False t a3
           in asc_emit (if r < 0 then CAT_FRAME_BAD else if reply then CAT_FRAME_REPLY else CAT_FRAME_UNSOLICITED)
                dir buf (r > 0) own c t a4)"

section \<open>Framer\<close>

definition asc_set_rx :: "nat \<Rightarrow> ascii_rx \<Rightarrow> cat_ascii \<Rightarrow> cat_ascii" where
  "asc_set_rx k rx a = a\<lparr>asc_rx := (asc_rx a)(k := rx)\<rparr>"

definition asc_rx_byte :: "cat_dir \<Rightarrow> int \<Rightarrow> nat \<Rightarrow> u64 \<Rightarrow> byte \<Rightarrow> cat_ascii \<Rightarrow> cat_ascii" where
  "asc_rx_byte dir client k t b a0 =
     (let rx = (asc_rx a0 k)\<lparr>arx_t := t\<rparr>; a = asc_set_rx k rx a0; buf = arx_buf rx in
      if b = CH_SEMI then
        asc_set_rx k (rx\<lparr>arx_buf := []\<rparr>)
          (asc_process_frame dir client (buf @ [b]) t (asc_set_rx k (rx\<lparr>arx_buf := buf @ [b]\<rparr>) a))
      else if buf = [] \<and> (b = 0x0d \<or> b = 0x0a \<or> b = 0x20 \<or> b = 0) then a
      else if b < 0x20 \<or> b \<ge> 0x7f \<or> length buf + 1 \<ge> ASCII_MAX_FRAME then
        asc_set_rx k (rx\<lparr>arx_buf := []\<rparr>)
          (asc_emit CAT_FRAME_DROPPED dir (buf @ [b]) False (dir = CAT_DIR_OWN) client t
            (asc_set_rx k (rx\<lparr>arx_buf := buf @ [b]\<rparr>) a))
      else asc_set_rx k (rx\<lparr>arx_buf := buf @ [b]\<rparr>) a)"

definition asc_rx_partial :: "ascii_rx \<Rightarrow> u64 \<Rightarrow> bool" where
  "asc_rx_partial rx t \<longleftrightarrow> arx_buf rx \<noteq> [] \<and> arx_t rx + ASC_TIMEOUT_MS \<ge> t"

definition cat_ascii_pending :: "cat_ascii \<Rightarrow> u64 \<Rightarrow> u32" where
  "cat_ascii_pending a t =
     (let r = fold (\<lambda>c r. if asc_rx_partial (asc_rx a c) t then r OR CAT_PENDING_CLIENT else r) [0..<9] 0
      in fold (\<lambda>p r. if pend_live p t then r OR (if ap_own p then CAT_PENDING_OWN else CAT_PENDING_CLIENT) else r) (asc_pend a) r)"

definition cat_ascii_client_busy :: "cat_ascii \<Rightarrow> int \<Rightarrow> u64 \<Rightarrow> bool" where
  "cat_ascii_client_busy a client t =
     (if \<not> valid_client client then False
      else if asc_rx_partial (asc_rx a (nat (client - 1))) t then True
      else list_ex (\<lambda>p. ap_client p = client \<and> pend_live p t) (asc_pend a))"

definition cat_ascii_client_discard :: "cat_ascii \<Rightarrow> int \<Rightarrow> cat_ascii" where
  "cat_ascii_client_discard a client =
     (if \<not> valid_client client then a
      else let k = nat (client - 1); a1 = asc_set_rx k ((asc_rx a k)\<lparr>arx_buf := []\<rparr>) a
           in a1\<lparr>asc_pend := remove_all_down (\<lambda>p. ap_client p = client) (asc_pend a1)\<rparr>)"

definition cat_ascii_feed :: "cat_ascii \<Rightarrow> cat_dir \<Rightarrow> int \<Rightarrow> byte list \<Rightarrow> u64 \<Rightarrow> cat_ascii" where
  "cat_ascii_feed a dir client bs t =
     (case dir of
        CAT_DIR_HOST \<Rightarrow> (if \<not> valid_client client then a
                         else fold (asc_rx_byte dir client (nat (client - 1)) t) bs a)
      | CAT_DIR_OWN \<Rightarrow> fold (asc_rx_byte dir 0 ARX_OWN t) bs a
      | CAT_DIR_RADIO \<Rightarrow> fold (asc_rx_byte dir 0 ARX_RADIO t) bs a)"

end
