(* ===== verification/CatAsciiInv.thy ===== *)
theory CatAsciiInv
  imports CatAscii
begin

text \<open>
  The ASCII decoder: the radio state operations a command performs (\<open>acts\<close>), the well-formedness
  of the decoder's state (\<open>asc_ok\<close>), and the interpretation of the decoder interface.
\<close>

section \<open>What a command does\<close>

text \<open>
  \<open>acts P t a a'\<close>: from \<open>a\<close> to \<open>a'\<close> only the radio state and what the decoder knows of the radio
  change, the radio state by operations at time \<open>t\<close> that satisfy \<open>P\<close>.
\<close>

definition acts :: "(cat_op \<Rightarrow> bool) \<Rightarrow> u64 \<Rightarrow> cat_ascii \<Rightarrow> cat_ascii \<Rightarrow> bool" where
  "acts P t a a' \<longleftrightarrow>
     a' = a\<lparr>asc_st := asc_st a', k3_md := k3_md a', k3_dt := k3_dt a', tx_ab := tx_ab a'\<rparr> \<and>
     (\<exists>ops. list_all P ops \<and> asc_st a' = cat_run (map (\<lambda>x. (x, t)) ops) (asc_st a))"

lemma acts_refl [simp, intro]: "acts P t a a"
  unfolding acts_def by (auto simp: cat_run_def intro!: exI [of _ "[]"])

lemma acts_trans: "acts P t a b \<Longrightarrow> acts P t b c \<Longrightarrow> acts P t a c"
proof -
  assume ab: "acts P t a b" and bc: "acts P t b c"
  obtain o1 where o1: "list_all P o1" "asc_st b = cat_run (map (\<lambda>x. (x, t)) o1) (asc_st a)" using ab acts_def by blast
  obtain o2 where o2: "list_all P o2" "asc_st c = cat_run (map (\<lambda>x. (x, t)) o2) (asc_st b)" using bc acts_def by blast
  have "asc_st c = cat_run (map (\<lambda>x. (x, t)) (o1 @ o2)) (asc_st a)" using o1 o2 by (simp add: cat_run_def)
  moreover have "list_all P (o1 @ o2)" using o1 o2 by simp
  moreover have "c = a\<lparr>asc_st := asc_st c, k3_md := k3_md c, k3_dt := k3_dt c, tx_ab := tx_ab c\<rparr>"
  proof -
    have "b = a\<lparr>asc_st := asc_st b, k3_md := k3_md b, k3_dt := k3_dt b, tx_ab := tx_ab b\<rparr>" using ab acts_def by blast
    moreover have "c = b\<lparr>asc_st := asc_st c, k3_md := k3_md c, k3_dt := k3_dt c, tx_ab := tx_ab c\<rparr>" using bc acts_def by blast
    ultimately show ?thesis by (cases a, cases b, cases c) simp
  qed
  ultimately show ?thesis unfolding acts_def by blast
qed

lemma acts_op: "P op \<Longrightarrow> acts P t a (a\<lparr>asc_st := cat_apply (op, t) (asc_st a)\<rparr>)"
  unfolding acts_def by (rule conjI, simp, rule exI [of _ "[op]"]) (simp add: cat_run_def)

lemma acts_known: "acts P t a (a\<lparr>k3_md := m\<rparr>)" "acts P t a (a\<lparr>k3_dt := m\<rparr>)" "acts P t a (a\<lparr>tx_ab := x\<rparr>)"
  unfolding acts_def by (auto simp: cat_run_def intro!: exI [of _ "[]"])

lemma acts_mono: "acts P t a b \<Longrightarrow> (\<And>x. P x \<Longrightarrow> Q x) \<Longrightarrow> acts Q t a b"
  unfolding acts_def by (metis (mono_tags, lifting) list.pred_mono_strong)

lemma acts_fields:
  assumes "acts P t a b"
  shows "asc_cfg b = asc_cfg a" "asc_cb b = asc_cb a" "asc_rx b = asc_rx a" "asc_pend b = asc_pend a"
    "asc_stats b = asc_stats a" "asc_log b = asc_log a"
  using assms unfolding acts_def by (metis (no_types, lifting) cat_ascii.select_convs cat_ascii.surjective cat_ascii.update_convs)+

lemma acts_ok: "acts P t a b \<Longrightarrow> cat_ok (asc_st a) \<Longrightarrow> cat_ok (asc_st b)"
  by (auto simp: acts_def cat_run_ok)

text \<open>What a client's frame may do: frequency, mode, data mode.\<close>

fun client_op :: "cat_op \<Rightarrow> bool" where
  "client_op (SetFreq v hz) = True"
| "client_op (SetMode v m) = True"
| "client_op (SetData v d) = True"
| "client_op _ = False"

lemma acts_client: "acts client_op t a b \<Longrightarrow> acts (\<lambda>_. True) t a b"
  by (erule acts_mono) simp

lemma client_op_keeps: "client_op op \<Longrightarrow> st_split (cat_apply (op, t) st) = st_split st \<and> st_vfo_ab (cat_apply (op, t) st) = st_vfo_ab st"
  by (cases op) (auto simp: cat_op_defs Let_def split_def)

lemma acts_client_keeps:
  assumes "acts client_op t a b"
  shows "st_split (asc_st b) = st_split (asc_st a)" "st_vfo_ab (asc_st b) = st_vfo_ab (asc_st a)"
proof -
  have "list_all client_op ops \<Longrightarrow> st_split (cat_run (map (\<lambda>x. (x, t)) ops) st) = st_split st \<and>
      st_vfo_ab (cat_run (map (\<lambda>x. (x, t)) ops) st) = st_vfo_ab st" for ops st
    by (induction ops arbitrary: st) (simp_all add: cat_run_def client_op_keeps)
  with assms show "st_split (asc_st b) = st_split (asc_st a)" "st_vfo_ab (asc_st b) = st_vfo_ab (asc_st a)"
    unfolding acts_def by metis+
qed

section \<open>The commands\<close>

lemma acts_set_freq: "acts client_op t a (set_freq ab hz t a)"
  unfolding set_freq_def using acts_op [of client_op "SetFreq (slot_of a ab) hz" t a] by simp

lemma acts_set_mode: "acts client_op t a (set_mode slot mode data t a)"
proof -
  let ?a1 = "a\<lparr>asc_st := cat_state_set_mode (asc_st a) slot mode t\<rparr>"
  have 1: "acts client_op t a ?a1" using acts_op [of client_op "SetMode slot mode" t a] by simp
  have "acts client_op t ?a1 (?a1\<lparr>asc_st := cat_state_set_data (asc_st ?a1) slot False t\<rparr>)"
    using acts_op [of client_op "SetData slot False" t ?a1] by simp
  from acts_trans [OF 1 this] 1 show ?thesis unfolding set_mode_def Let_def by simp
qed

lemma acts_k3_apply: "acts client_op t a (k3_apply ab t a)"
  unfolding k3_apply_def Let_def by (auto intro: acts_set_mode split: option.split)

lemma acts_mode_code: "acts client_op t a (snd (apply_mode_code ab c dc t a))"
  unfolding apply_mode_code_def
  by (auto intro: acts_set_mode acts_trans [OF acts_known(1) acts_k3_apply] split: cat_ascii_dialect.split option.split)

lemma acts_cmd_freq: "acts client_op t a (snd (cmd_freq ab p t a))"
  unfolding cmd_freq_def by (auto intro: acts_set_freq split: option.split)

lemma acts_cmd_md: "acts client_op t a (snd (cmd_md s t a))"
  unfolding cmd_md_def Let_def by (auto intro: acts_mode_code)

lemma acts_cmd_data: "acts client_op t a (snd (cmd_data s t a))"
proof -
  have k3: "acts client_op t a (k3_apply ab t (a\<lparr>k3_dt := m\<rparr>))" for ab m
    by (rule acts_trans [OF acts_known(2) acts_k3_apply])
  have "acts client_op t a (a\<lparr>asc_st := cat_state_set_data (asc_st a) CAT_VFO_SEL v t\<rparr>)" for v
    using acts_op [of client_op "SetData CAT_VFO_SEL v" t a] by simp
  with k3 show ?thesis unfolding cmd_data_def Let_def by (simp split: option.split)
qed

lemma acts_update_split: "acts (\<lambda>_. True) t a (update_split t a)"
  unfolding update_split_def using acts_op [of "\<lambda>_. True" "SetSplit s" t a for s] by (auto split: option.split)

lemma acts_set_split: "acts (\<lambda>_. True) t a (set_split s t a)"
  unfolding set_split_def Let_def
  using acts_trans [OF acts_op [of "\<lambda>_. True" "SetSplit s" t a] acts_known(3)] by simp

lemma acts_select: "acts (\<lambda>_. True) t a (a\<lparr>asc_st := cat_state_select_vfo (asc_st a) ab t\<rparr>)"
  using acts_op [of "\<lambda>_. True" "SelectVfo ab" t a] by simp

lemma acts_select_rx: "acts (\<lambda>_. True) t a (select_rx ab t a)"
  unfolding select_rx_def by (rule acts_trans [OF acts_select acts_update_split])

lemma acts_cmd_split: "acts (\<lambda>_. True) t a (snd (cmd_split c t a))"
  unfolding cmd_split_def by (auto intro: acts_set_split)

lemma acts_cmd_zz: "acts (\<lambda>_. True) t a (snd (cmd_zz s t a))"
  "take 4 s \<noteq> [CH_Z, CH_Z, CH_S, CH_P] \<Longrightarrow> acts client_op t a (snd (cmd_zz s t a))"
  unfolding cmd_zz_def Let_def
  by (auto intro: acts_client acts_cmd_freq acts_set_mode acts_cmd_split split: option.split)

lemma acts_snd:
  "(c \<Longrightarrow> acts P t a (snd x)) \<Longrightarrow> (\<not> c \<Longrightarrow> acts P t a (snd y)) \<Longrightarrow> acts P t a (snd (if c then x else y))"
  "(m = None \<Longrightarrow> acts P t a (snd x)) \<Longrightarrow> (\<And>i. m = Some i \<Longrightarrow> acts P t a (snd (g i))) \<Longrightarrow>
   acts P t a (snd (case m of None \<Rightarrow> x | Some i \<Rightarrow> g i))"
  "acts P t a b \<Longrightarrow> acts P t a (snd (r, b))"
  by (auto split: option.split)

lemma acts_if_kenwood: "acts (\<lambda>_. True) t a (snd (cmd_if_kenwood s t a))"
proof -
  have *: "acts (\<lambda>_. True) t a (snd (apply_mode_code ab c dc t (set_freq ab' hz t a1)))" if "acts (\<lambda>_. True) t a a1" for ab c dc ab' hz a1
    using acts_trans [OF acts_trans [OF that acts_client [OF acts_set_freq]] acts_client [OF acts_mode_code]] .
  have 1: "acts (\<lambda>_. True) t a (if x then a\<lparr>asc_st := cat_state_select_vfo (asc_st a) ab t\<rparr> else a)" for x ab
    by (simp add: acts_select)
  show ?thesis
    unfolding cmd_if_kenwood_def Let_def split_def prod.case
    by (intro acts_snd acts_refl * 1 acts_set_split acts_trans [OF * acts_set_split])
qed

lemma acts_if_yaesu: "acts (\<lambda>_. True) t a (snd (cmd_if_yaesu ab s t a))"
  unfolding cmd_if_yaesu_def Let_def split_def
  by (auto intro!: acts_trans [OF acts_client [OF acts_set_freq] acts_client [OF acts_mode_code]] split: option.split)

lemma acts_vfo: "acts (\<lambda>_. True) t a (snd (cmd_vfo s t a))"
  unfolding cmd_vfo_def Let_def by (auto intro: acts_select_rx acts_trans [OF acts_known(3) acts_update_split])

lemma acts_om: "acts (\<lambda>_. True) t a (snd (cmd_om s t a))"
  unfolding cmd_om_def Let_def by (auto intro: acts_client acts_mode_code)

lemma acts_sf: "acts (\<lambda>_. True) t a (snd (cmd_sf s t a))"
  unfolding cmd_sf_def Let_def
  by (auto intro: acts_client acts_trans [OF acts_client [OF acts_set_freq] acts_client [OF acts_mode_code]] split: option.split)

lemma acts_frame_client: "acts client_op t a (snd (apply_frame s True t a))"
  unfolding apply_frame_def Let_def
  by (intro acts_snd acts_refl acts_cmd_freq acts_cmd_md acts_cmd_data acts_cmd_zz(2)) simp_all

lemma acts_frame: "acts (\<lambda>_. True) t a (snd (apply_frame s x t a))"
  unfolding apply_frame_def Let_def
  by (intro acts_snd acts_refl acts_client [OF acts_cmd_freq] acts_client [OF acts_cmd_md] acts_client [OF acts_cmd_data]
      acts_cmd_zz(1) acts_if_yaesu acts_if_kenwood acts_vfo acts_cmd_split acts_om acts_sf)

section \<open>What an operation leaves alone\<close>

lemma asc_emit_frames [simp, frames]:
  "asc_cfg (asc_emit k d b x own c t a) = asc_cfg a" "asc_st (asc_emit k d b x own c t a) = asc_st a"
  "asc_cb (asc_emit k d b x own c t a) = asc_cb a" "asc_rx (asc_emit k d b x own c t a) = asc_rx a"
  "asc_pend (asc_emit k d b x own c t a) = asc_pend a" "tx_ab (asc_emit k d b x own c t a) = tx_ab a"
  by (simp_all add: asc_emit_def Let_def)

text \<open>The report itself.\<close>

definition asc_report :: "cat_frame_kind \<Rightarrow> cat_dir \<Rightarrow> byte list \<Rightarrow> bool \<Rightarrow> bool \<Rightarrow> int \<Rightarrow> u64 \<Rightarrow> cat_frame" where
  "asc_report kind dir buf applied own client t =
     \<lparr>fr_kind = kind, fr_dir = dir, fr_t = t, fr_buf = buf, fr_applied = applied, fr_text = True, fr_own = own, fr_client = client\<rparr>"

lemma asc_report_simps [simp]:
  "fr_kind (asc_report k d b a own c t) = k" "fr_dir (asc_report k d b a own c t) = d" "fr_t (asc_report k d b a own c t) = t"
  "fr_buf (asc_report k d b a own c t) = b" "fr_applied (asc_report k d b a own c t) = a" "fr_text (asc_report k d b a own c t)"
  "fr_own (asc_report k d b a own c t) = own" "fr_client (asc_report k d b a own c t) = c"
  by (simp_all add: asc_report_def)

lemma asc_emit_log [simp]:
  "asc_log (asc_emit k d b x own c t a) = (if asc_cb a then asc_log a @ [asc_report k d b x own c t] else asc_log a)"
  by (simp add: asc_emit_def Let_def asc_report_def)

lemma asc_set_rx_frames [simp, frames]:
  "asc_cfg (asc_set_rx k r a) = asc_cfg a" "asc_st (asc_set_rx k r a) = asc_st a" "asc_cb (asc_set_rx k r a) = asc_cb a"
  "asc_rx (asc_set_rx k r a) = (asc_rx a)(k := r)" "asc_pend (asc_set_rx k r a) = asc_pend a"
  "asc_stats (asc_set_rx k r a) = asc_stats a" "asc_log (asc_set_rx k r a) = asc_log a" "tx_ab (asc_set_rx k r a) = tx_ab a"
  by (simp_all add: asc_set_rx_def)

lemma asc_set_rx_set_rx [simp]: "asc_set_rx k r (asc_set_rx k r' a) = asc_set_rx k r a"
  by (simp add: asc_set_rx_def)

lemma remove_all_down_filter [simp]: "remove_all_down P xs = filter (\<lambda>x. \<not> P x) xs"
  by (simp add: remove_all_down_def remove_down_filter)

section \<open>Well-formed states\<close>

text \<open>A byte a frame may hold before its end.\<close>

definition printable :: "byte \<Rightarrow> bool" where
  "printable b \<longleftrightarrow> \<not> (b < 0x20 \<or> b \<ge> 0x7f) \<and> b \<noteq> CH_SEMI"

definition asc_frame_ok :: "byte list \<Rightarrow> bool" where
  "asc_frame_ok f \<longleftrightarrow> (\<exists>s. f = s @ [CH_SEMI] \<and> list_all printable s \<and> length s < ASCII_MAX_FRAME)"

definition asc_src_ok :: "cat_dir \<Rightarrow> int \<Rightarrow> bool" where
  "asc_src_ok dir client \<longleftrightarrow> 0 \<le> client \<and> client \<le> CAT_MAX_CLIENTS \<and> (dir \<noteq> CAT_DIR_HOST \<longrightarrow> client = 0)"

definition asc_pend_ok :: "ascii_pending \<Rightarrow> bool" where
  "asc_pend_ok p \<longleftrightarrow> asc_frame_ok (ap_frame p) \<and> ap_prefix p = prefix_of (butlast (ap_frame p)) \<and>
     ap_query p = (length (ap_frame p) = length (ap_prefix p) + 1) \<and>
     0 \<le> ap_client p \<and> ap_client p \<le> CAT_MAX_CLIENTS \<and> (ap_own p \<longrightarrow> ap_client p = 0)"

definition asc_rx_ok :: "ascii_rx \<Rightarrow> bool" where
  "asc_rx_ok r \<longleftrightarrow> list_all printable (arx_buf r) \<and> length (arx_buf r) < ASCII_MAX_FRAME"

definition asc_report_ok :: "cat_frame \<Rightarrow> bool" where
  "asc_report_ok e \<longleftrightarrow>
     (if fr_kind e = CAT_FRAME_DROPPED then 0 < length (fr_buf e) \<and> length (fr_buf e) \<le> ASCII_MAX_FRAME else asc_frame_ok (fr_buf e)) \<and>
     fr_kind e \<in> {CAT_FRAME_CMD, CAT_FRAME_ERROR, CAT_FRAME_BAD, CAT_FRAME_REPLY, CAT_FRAME_UNSOLICITED, CAT_FRAME_DROPPED} \<and>
     (fr_applied e \<longrightarrow> fr_kind e \<in> {CAT_FRAME_CMD, CAT_FRAME_REPLY, CAT_FRAME_UNSOLICITED}) \<and>
     (fr_kind e = CAT_FRAME_CMD \<longrightarrow> fr_dir e \<noteq> CAT_DIR_RADIO) \<and>
     0 \<le> fr_client e \<and> fr_client e \<le> CAT_MAX_CLIENTS \<and> (fr_own e \<longrightarrow> fr_client e = 0) \<and> fr_text e"

definition asc_ok0 :: "cat_ascii \<Rightarrow> bool" where
  "asc_ok0 a \<longleftrightarrow> cat_ok (asc_st a) \<and> length (asc_pend a) \<le> ASC_PEND_MAX \<and> (\<forall>p \<in> set (asc_pend a). asc_pend_ok p) \<and>
     (\<forall>e \<in> set (asc_log a). asc_report_ok e)"

text \<open>The framers are apart: a frame is processed while its framer still holds it.\<close>

definition asc_ok :: "cat_ascii \<Rightarrow> bool" where
  "asc_ok a \<longleftrightarrow> asc_ok0 a \<and> (\<forall>k. asc_rx_ok (asc_rx a k))"

lemma asc_ok0D:
  assumes "asc_ok0 a"
  shows "cat_ok (asc_st a)" "length (asc_pend a) \<le> ASC_PEND_MAX" "\<And>p. p \<in> set (asc_pend a) \<Longrightarrow> asc_pend_ok p"
  using assms by (simp_all add: asc_ok0_def)

lemma asc_ok0_create: "cat_ok st \<Longrightarrow> asc_ok0 (cat_ascii_create cfg st)"
  by (simp add: asc_ok0_def cat_ascii_create_def)

lemma asc_ok0_set_frame_cb [invs]: "asc_ok0 a \<Longrightarrow> asc_ok0 (cat_ascii_set_frame_cb a cb)"
  by (simp add: asc_ok0_def cat_ascii_set_frame_cb_def)

lemma asc_ok0_emit [invs]: "asc_ok0 a \<Longrightarrow> asc_report_ok (asc_report k dir b x own c t) \<Longrightarrow> asc_ok0 (asc_emit k dir b x own c t a)"
  by (auto simp: asc_ok0_def)

lemma asc_ok0_set_rx [simp]: "asc_ok0 (asc_set_rx k r a) = asc_ok0 a"
  by (simp add: asc_ok0_def)

lemma asc_ok0_acts [invs]: "asc_ok0 a \<Longrightarrow> acts P t a b \<Longrightarrow> asc_ok0 b"
  using acts_fields [of P t a b] acts_ok [of P t a b] by (auto simp: asc_ok0_def)

lemma asc_ok0_pend: "asc_ok0 a \<Longrightarrow> length ps \<le> ASC_PEND_MAX \<Longrightarrow> (\<And>p. p \<in> set ps \<Longrightarrow> asc_pend_ok p) \<Longrightarrow> asc_ok0 (a\<lparr>asc_pend := ps\<rparr>)"
  by (simp add: asc_ok0_def)

lemma length_filter_remove: "length (if length (filter P ps) = n then remove_nth 0 (filter P ps) else filter P ps) \<le> n - 1"
  if "length ps \<le> n" "n > 0"
proof (cases "length (filter P ps) = n")
  case True
  with that show ?thesis by simp
next
  case False
  moreover have "length (filter P ps) \<le> n" using length_filter_le that(1) by (rule order_trans)
  ultimately show ?thesis by simp
qed

lemma asc_ok0_add [invs]:
  assumes ok: "asc_ok0 a" and f: "asc_frame_ok buf" and p: "prefix = prefix_of (butlast buf)"
    and c: "0 \<le> c" "c \<le> CAT_MAX_CLIENTS" "own \<Longrightarrow> c = 0"
  shows "asc_ok0 (asc_pend_add buf prefix own c t a)"
proof -
  define ps where "ps = filter (\<lambda>p. pend_live p t) (asc_pend a)"
  define ps1 where "ps1 = (if length ps = ASC_PEND_MAX then remove_nth 0 ps else ps)"
  have len: "length ps1 \<le> ASC_PEND_MAX - 1"
    unfolding ps1_def ps_def by (rule length_filter_remove) (simp_all add: asc_ok0D(2) [OF ok])
  have sub: "set ps1 \<subseteq> set (asc_pend a)"
    unfolding ps1_def ps_def using set_remove_nth by (auto split: if_splits) fastforce
  have "asc_pend_add buf prefix own c t a = a\<lparr>asc_pend := ps1 @ [\<lparr>ap_prefix = prefix, ap_frame = buf, ap_t = t, ap_own = own,
      ap_client = c, ap_query = (length buf = length prefix + 1)\<rparr>]\<rparr>"
    by (simp add: asc_pend_add_def Let_def ps1_def ps_def)
  moreover have "asc_ok0 \<dots>"
    using ok sub len f p c by (intro asc_ok0_pend) (auto simp: asc_pend_ok_def dest: asc_ok0D(3))
  ultimately show ?thesis by simp
qed

text \<open>A radio frame takes a pending command, or removes the set it repeats, or leaves the pending commands alone.\<close>

lemma asc_pend_take_cases [case_names none repeated taken]:
  assumes "P ((False, False, 0), a)"
    and "\<And>i. i < length (asc_pend a) \<Longrightarrow> P ((False, False, 0), a\<lparr>asc_pend := remove_nth i (asc_pend a)\<rparr>)"
    and "\<And>i. i < length (asc_pend a) \<Longrightarrow> pend_live (asc_pend a ! i) t \<Longrightarrow>
      P ((True, ap_own (asc_pend a ! i), ap_client (asc_pend a ! i)), a\<lparr>asc_pend := remove_nth i (asc_pend a)\<rparr>)"
  shows "P (asc_pend_take f t a)"
proof -
  have ifI: "(c \<Longrightarrow> P x) \<Longrightarrow> (\<not> c \<Longrightarrow> P y) \<Longrightarrow> P (if c then x else y)" for c x y by simp
  have optI: "(m = None \<Longrightarrow> P x) \<Longrightarrow> (\<And>i. m = Some i \<Longrightarrow> P (g i)) \<Longrightarrow> P (case m of None \<Rightarrow> x | Some i \<Rightarrow> g i)"
    for m :: "nat option" and x g by (cases m) simp_all
  have q: "find_index Q (asc_pend a) = Some i \<Longrightarrow> i < length (asc_pend a) \<and> Q (asc_pend a ! i)" for Q i
    using find_index_SomeD by fastforce
  show ?thesis
    unfolding asc_pend_take_def Let_def
    by (intro ifI optI assms; drule q; simp)
qed

lemma acts_frame_fields:
  "asc_rx (snd (apply_frame s x t a)) = asc_rx a" "asc_pend (snd (apply_frame s x t a)) = asc_pend a"
  "asc_log (snd (apply_frame s x t a)) = asc_log a" "asc_cb (snd (apply_frame s x t a)) = asc_cb a"
  "asc_stats (snd (apply_frame s x t a)) = asc_stats a" "asc_cfg (snd (apply_frame s x t a)) = asc_cfg a"
  using acts_fields [OF acts_frame, of s x t a] by simp_all

lemma asc_pend_add_fields [simp, frames]:
  "asc_rx (asc_pend_add buf p own c t a) = asc_rx a" "asc_st (asc_pend_add buf p own c t a) = asc_st a"
  "asc_log (asc_pend_add buf p own c t a) = asc_log a" "asc_cb (asc_pend_add buf p own c t a) = asc_cb a"
  "asc_stats (asc_pend_add buf p own c t a) = asc_stats a" "asc_cfg (asc_pend_add buf p own c t a) = asc_cfg a"
  "tx_ab (asc_pend_add buf p own c t a) = tx_ab a"
  by (simp_all add: asc_pend_add_def Let_def)

text \<open>The parts of \<^verbatim>\<open>process_frame\<close>: the counter and the default VFO, a frame to the radio, one from the radio.\<close>

definition frame_start :: "u64 \<Rightarrow> cat_ascii \<Rightarrow> cat_ascii" where
  "frame_start t a =
     (let a1 = a\<lparr>asc_stats := (asc_stats a)\<lparr>cs_frames := cs_frames (asc_stats a) + 1\<rparr>\<rparr>
      in if \<not> it_valid (st_vfo_ab (asc_st a1)) then a1\<lparr>asc_st := cat_state_select_vfo (asc_st a1) VFO_A t\<rparr> else a1)"

lemma frame_start_fields [simp]:
  "asc_rx (frame_start t a) = asc_rx a" "asc_pend (frame_start t a) = asc_pend a" "asc_log (frame_start t a) = asc_log a"
  "asc_cb (frame_start t a) = asc_cb a" "asc_cfg (frame_start t a) = asc_cfg a" "tx_ab (frame_start t a) = tx_ab a"
  by (simp_all add: frame_start_def Let_def)

lemma asc_ok0_start [invs]: "asc_ok0 a \<Longrightarrow> asc_ok0 (frame_start t a)"
  using cat_apply_ok [of "asc_st a" "(SelectVfo VFO_A, t)"] by (auto simp: asc_ok0_def frame_start_def Let_def)

definition host_frame :: "cat_dir \<Rightarrow> int \<Rightarrow> byte list \<Rightarrow> byte list \<Rightarrow> u64 \<Rightarrow> cat_ascii \<Rightarrow> cat_ascii" where
  "host_frame dir client s buf t a =
     (let a3 = (if s \<noteq> [] then asc_pend_add buf (prefix_of s) (dir = CAT_DIR_OWN) client t a else a); r = apply_frame s True t a3
      in asc_emit CAT_FRAME_CMD dir buf (fst r > 0) (dir = CAT_DIR_OWN) client t (snd r))"

definition is_error :: "byte list \<Rightarrow> bool" where
  "is_error s \<longleftrightarrow> length s = 1 \<and> (s ! 0 = CH_QUEST \<or> s ! 0 = CH_E \<or> s ! 0 = CH_O)"

text \<open>With what a pending command gave.\<close>

definition radio_frame :: "byte list \<Rightarrow> byte list \<Rightarrow> u64 \<Rightarrow> (bool \<times> bool \<times> int) \<times> cat_ascii \<Rightarrow> cat_ascii" where
  "radio_frame s buf t q =
     (case q of ((reply, own, c), a) \<Rightarrow>
        if is_error s then asc_emit CAT_FRAME_ERROR CAT_DIR_RADIO buf False own c t a
        else let r = apply_frame s False t a
             in asc_emit (if fst r < 0 then CAT_FRAME_BAD else if reply then CAT_FRAME_REPLY else CAT_FRAME_UNSOLICITED)
                  CAT_DIR_RADIO buf (fst r > 0) own c t (snd r))"

definition radio_take :: "byte list \<Rightarrow> byte list \<Rightarrow> u64 \<Rightarrow> cat_ascii \<Rightarrow> (bool \<times> bool \<times> int) \<times> cat_ascii" where
  "radio_take s buf t a =
     (if is_error s then asc_pend_take None t a
      else if s \<noteq> [] then asc_pend_take (Some (prefix_of s, buf)) t a else ((False, False, 0), a))"

lemma asc_process_frame_parts:
  "asc_process_frame dir client (s @ [CH_SEMI]) t a =
     (if dir \<noteq> CAT_DIR_RADIO then host_frame dir client s (s @ [CH_SEMI]) t (frame_start t a)
      else radio_frame s (s @ [CH_SEMI]) t (radio_take s (s @ [CH_SEMI]) t (frame_start t a)))"
proof -
  have s: "take (length (s @ [CH_SEMI]) - 1) (s @ [CH_SEMI]) = s" by simp
  show ?thesis
    unfolding asc_process_frame_def Let_def s is_error_def [symmetric]
    by (cases "is_error s"; cases "it_valid (st_vfo_ab (asc_st a))")
      (simp_all add: Let_def host_frame_def radio_frame_def radio_take_def frame_start_def split_def)
qed

text \<open>What a frame from the radio finds pending.\<close>

lemma radio_take_cases [case_names none repeated taken]:
  assumes "P ((False, False, 0), a)"
    and "\<And>i. i < length (asc_pend a) \<Longrightarrow> P ((False, False, 0), a\<lparr>asc_pend := remove_nth i (asc_pend a)\<rparr>)"
    and "\<And>i. i < length (asc_pend a) \<Longrightarrow> pend_live (asc_pend a ! i) t \<Longrightarrow>
      P ((True, ap_own (asc_pend a ! i), ap_client (asc_pend a ! i)), a\<lparr>asc_pend := remove_nth i (asc_pend a)\<rparr>)"
  shows "P (radio_take s buf t a)"
proof -
  have "P (asc_pend_take f t a)" for f using assms by (rule asc_pend_take_cases)
  with assms(1) show ?thesis unfolding radio_take_def by simp
qed

section \<open>Well-formedness is kept\<close>

lemma asc_frame_okI: "list_all printable s \<Longrightarrow> length s < ASCII_MAX_FRAME \<Longrightarrow> asc_frame_ok (s @ [CH_SEMI])"
  by (auto simp: asc_frame_ok_def)

lemma report_okI:
  "asc_frame_ok f \<Longrightarrow> k \<in> {CAT_FRAME_CMD, CAT_FRAME_ERROR, CAT_FRAME_BAD, CAT_FRAME_REPLY, CAT_FRAME_UNSOLICITED} \<Longrightarrow>
   (x \<Longrightarrow> k \<in> {CAT_FRAME_CMD, CAT_FRAME_REPLY, CAT_FRAME_UNSOLICITED}) \<Longrightarrow> (k = CAT_FRAME_CMD \<Longrightarrow> dir \<noteq> CAT_DIR_RADIO) \<Longrightarrow>
   0 \<le> c \<Longrightarrow> c \<le> CAT_MAX_CLIENTS \<Longrightarrow> (own \<Longrightarrow> c = 0) \<Longrightarrow> asc_report_ok (asc_report k dir f x own c t)"
  by (auto simp: asc_report_ok_def)

lemma asc_ok0_apply [invs]: "asc_ok0 a \<Longrightarrow> asc_ok0 (snd (apply_frame s x t a))"
  using acts_frame by (rule asc_ok0_acts [rotated])

lemma asc_ok0_host [invs]:
  assumes "asc_ok0 a" "list_all printable s" "length s < ASCII_MAX_FRAME" "asc_src_ok dir c" "dir \<noteq> CAT_DIR_RADIO"
  shows "asc_ok0 (host_frame dir c s (s @ [CH_SEMI]) t a)"
proof -
  have f: "asc_frame_ok (s @ [CH_SEMI])" using assms by (simp add: asc_frame_okI)
  have c: "0 \<le> c" "c \<le> CAT_MAX_CLIENTS" "dir = CAT_DIR_OWN \<Longrightarrow> c = 0" using assms(4) by (auto simp: asc_src_ok_def)
  have "asc_ok0 (if s \<noteq> [] then asc_pend_add (s @ [CH_SEMI]) (prefix_of s) (dir = CAT_DIR_OWN) c t a else a)"
    using assms(1) f c by (simp add: asc_ok0_add)
  then show ?thesis
    unfolding host_frame_def Let_def using f c assms(5) by (intro asc_ok0_emit asc_ok0_apply report_okI) auto
qed

lemma asc_ok0_radio [invs]:
  assumes ok: "asc_ok0 a" and s: "list_all printable s" "length s < ASCII_MAX_FRAME"
  shows "asc_ok0 (radio_frame s (s @ [CH_SEMI]) t (radio_take s (s @ [CH_SEMI]) t a))"
proof -
  have f: "asc_frame_ok (s @ [CH_SEMI])" using s by (simp add: asc_frame_okI)
  have frame: "asc_ok0 (radio_frame s (s @ [CH_SEMI]) t ((r, own, c), b))"
    if "asc_ok0 b" "0 \<le> c" "c \<le> CAT_MAX_CLIENTS" "own \<Longrightarrow> c = 0" for r own c b
    unfolding radio_frame_def prod.case Let_def using f that
    by (auto intro!: asc_ok0_emit asc_ok0_apply report_okI)
  have rem: "asc_ok0 (a\<lparr>asc_pend := remove_nth i (asc_pend a)\<rparr>)" for i
    using asc_ok0D(2) [OF ok] length_remove_nth_le [of i "asc_pend a"]
    by (intro asc_ok0_pend [OF ok]) (auto dest: set_remove_nthD intro: asc_ok0D(3) [OF ok])
  have p: "i < length (asc_pend a) \<Longrightarrow> asc_pend_ok (asc_pend a ! i)" for i using asc_ok0D(3) [OF ok] by simp
  show ?thesis
  proof (rule radio_take_cases)
    fix i assume "i < length (asc_pend a)" "pend_live (asc_pend a ! i) t"
    then show "asc_ok0 (radio_frame s (s @ [CH_SEMI]) t
        ((True, ap_own (asc_pend a ! i), ap_client (asc_pend a ! i)), a\<lparr>asc_pend := remove_nth i (asc_pend a)\<rparr>))"
      using p [of i] rem by (intro frame) (auto simp: asc_pend_ok_def)
  qed (simp_all add: frame ok rem)
qed

lemma asc_ok0_process [invs]:
  "asc_ok0 a \<Longrightarrow> list_all printable s \<Longrightarrow> length s < ASCII_MAX_FRAME \<Longrightarrow> asc_src_ok dir c \<Longrightarrow> asc_ok0 (asc_process_frame dir c (s @ [CH_SEMI]) t a)"
  unfolding asc_process_frame_parts by (simp add: asc_ok0_start asc_ok0_host asc_ok0_radio)

lemma host_frame_rx [simp]: "asc_rx (host_frame dir c s buf t a) = asc_rx a"
  by (simp add: host_frame_def Let_def acts_frame_fields)

lemma radio_frame_rx [simp]: "asc_rx (radio_frame s buf t q) = asc_rx (snd q)"
  by (cases q) (auto simp: radio_frame_def Let_def acts_frame_fields)

lemma radio_take_rx [simp]: "asc_rx (snd (radio_take s buf t a)) = asc_rx a"
  by (rule radio_take_cases) simp_all

lemma asc_process_rx [simp]: "asc_rx (asc_process_frame dir c (s @ [CH_SEMI]) t a) = asc_rx a"
  by (simp add: asc_process_frame_parts)

text \<open>What one byte does.\<close>

lemma asc_ok_rx_byte [invs]:
  assumes ok: "asc_ok a" and src: "asc_src_ok dir c"
  shows "asc_ok (asc_rx_byte dir c k t b a)"
proof -
  have ok0: "asc_ok0 a" and rx: "\<And>j. asc_rx_ok (asc_rx a j)" using ok by (simp_all add: asc_ok_def)
  let ?buf = "arx_buf (asc_rx a k)"
  have b: "list_all printable ?buf" "length ?buf < ASCII_MAX_FRAME" using rx [of k] by (simp_all add: asc_rx_ok_def)
  have drop: "asc_report_ok (asc_report CAT_FRAME_DROPPED dir (?buf @ [b]) False (dir = CAT_DIR_OWN) c t)"
    using b(2) src by (auto simp: asc_report_ok_def asc_src_ok_def)
  have proc: "asc_ok0 (asc_process_frame dir c (?buf @ [CH_SEMI]) t a')" if "asc_ok0 a'" for a'
    using that b src by (rule asc_ok0_process)
  show ?thesis
    unfolding asc_rx_byte_def Let_def
    using rx b by (simp add: asc_ok_def ok0 drop proc asc_ok0_emit asc_rx_ok_def printable_def)
qed

section \<open>The interface of the decoder\<close>

definition asc_feed_client :: "cat_dir \<Rightarrow> int \<Rightarrow> int" where
  "asc_feed_client dir c = (if dir = CAT_DIR_HOST then c else 0)"

definition asc_feed_rx :: "cat_dir \<Rightarrow> int \<Rightarrow> nat" where
  "asc_feed_rx dir c = (case dir of CAT_DIR_HOST \<Rightarrow> nat (c - 1) | CAT_DIR_OWN \<Rightarrow> ARX_OWN | CAT_DIR_RADIO \<Rightarrow> ARX_RADIO)"

definition asc_feed_valid :: "cat_dir \<Rightarrow> int \<Rightarrow> bool" where
  "asc_feed_valid dir c \<longleftrightarrow> (dir = CAT_DIR_HOST \<longrightarrow> valid_client c)"

lemma cat_ascii_feed_fold:
  "cat_ascii_feed a dir c bs t =
     (if asc_feed_valid dir c then fold (asc_rx_byte dir (asc_feed_client dir c) (asc_feed_rx dir c) t) bs a else a)"
  by (cases dir) (simp_all add: cat_ascii_feed_def asc_feed_client_def asc_feed_rx_def asc_feed_valid_def)

lemma asc_feed_src_ok: "asc_feed_valid dir c \<Longrightarrow> asc_src_ok dir (asc_feed_client dir c)"
  by (auto simp: asc_feed_valid_def asc_feed_client_def asc_src_ok_def valid_client_def)

lemma asc_ok_feed [invs]: "asc_ok a \<Longrightarrow> asc_ok (cat_ascii_feed a dir c bs t)"
proof -
  assume ok: "asc_ok a"
  have "asc_ok a \<Longrightarrow> asc_src_ok dir c' \<Longrightarrow> asc_ok (fold (asc_rx_byte dir c' k t) bs a)" for c' k
    by (induction bs arbitrary: a) (simp_all add: asc_ok_rx_byte)
  with ok show ?thesis by (simp add: cat_ascii_feed_fold asc_feed_src_ok)
qed

lemma asc_discard_fields:
  "asc_st (cat_ascii_client_discard a c) = asc_st a" "asc_log (cat_ascii_client_discard a c) = asc_log a"
  "asc_pend (cat_ascii_client_discard a c) = (if valid_client c then filter (\<lambda>p. ap_client p \<noteq> c) (asc_pend a) else asc_pend a)"
  "asc_rx (cat_ascii_client_discard a c) = (if valid_client c
     then (asc_rx a)(nat (c - 1) := (asc_rx a (nat (c - 1)))\<lparr>arx_buf := []\<rparr>) else asc_rx a)"
  by (simp_all add: cat_ascii_client_discard_def Let_def)

lemma asc_ok_discard [invs]: "asc_ok a \<Longrightarrow> asc_ok (cat_ascii_client_discard a c)"
proof -
  assume ok: "asc_ok a"
  then have "length (filter (\<lambda>p. ap_client p \<noteq> c) (asc_pend a)) \<le> ASC_PEND_MAX"
    by (intro order_trans [OF length_filter_le]) (simp add: asc_ok_def asc_ok0_def)
  with ok show ?thesis by (auto simp: asc_ok_def asc_ok0_def asc_discard_fields asc_rx_ok_def)
qed

lemma asc_discard_busy:
  "cat_ascii_client_busy (cat_ascii_client_discard a c) c' t = (c' \<noteq> c \<and> cat_ascii_client_busy a c' t)"
proof (cases "valid_client c \<and> valid_client c'")
  case True
  moreover have "nat (c - 1) = nat (c' - 1) \<Longrightarrow> c = c'" using True by (auto simp: valid_client_def)
  ultimately show ?thesis
    by (auto simp: cat_ascii_client_busy_def asc_discard_fields asc_rx_partial_def list_ex_iff)
next
  case False
  then show ?thesis by (auto simp: cat_ascii_client_busy_def cat_ascii_client_discard_def)
qed

interpretation ascd: cat_decoder asc_ok cat_ascii_feed asc_st cat_ascii_client_busy cat_ascii_client_discard
proof unfold_locales
  show "cat_ascii_feed a dir c (xs @ ys) t = cat_ascii_feed (cat_ascii_feed a dir c xs t) dir c ys t" for a dir c xs ys t
    by (simp add: cat_ascii_feed_fold)
  show "cat_ascii_feed a dir c [] t = a" for a dir c t by (simp add: cat_ascii_feed_fold)
  show "asc_ok a \<Longrightarrow> cat_ok (asc_st a)" for a by (simp add: asc_ok_def asc_ok0_def)
qed (simp_all add: asc_ok_feed asc_ok_discard asc_discard_busy asc_discard_fields)

end
