(* ===== verification/CatAsciiSpec.thy ===== *)
theory CatAsciiSpec
  imports CatAsciiInv
begin

text \<open>
  What the ASCII decoder promises: well-formed reports, what client frames may change, framing, the
  decimal frequency code, a query and its answer, answers in the order of the queries.
\<close>

definition asc_start :: "cat_ascii_cfg option \<Rightarrow> cat_ascii" where
  "asc_start cfg = cat_ascii_set_frame_cb (cat_ascii_create cfg cat_state_init) True"

lemma asc_start_ok: "asc_ok (asc_start cfg)"
  by (simp add: asc_start_def cat_ascii_create_def cat_ascii_set_frame_cb_def asc_ok_def asc_ok0_def asc_rx_ok_def)

text \<open>Whatever bytes clients, mhuxd and the radio send to the ASCII decoder, in whatever pieces and with
  whatever discards between, every frame it reports is what its kind says: at most 63 printable characters and a
  semicolon, or a dropped fragment of at most 64 bytes; only commands and valid frames of the radio are marked as
  applied, commands never come from the radio, and mhuxd's own frames carry no client number. At most eight commands
  are pending, each a complete frame with the prefix of that frame.\<close>

theorem asc_reports_wf:
  "list_all asc_report_ok (asc_log (ascd.session es (asc_start cfg))) \<and>
   list_all asc_pend_ok (asc_pend (ascd.session es (asc_start cfg))) \<and>
   length (asc_pend (ascd.session es (asc_start cfg))) \<le> ASC_PEND_MAX"
  using ascd.session_ok [OF asc_start_ok, of es cfg] by (simp add: asc_ok_def asc_ok0_def list_all_iff)

section \<open>What client frames may change\<close>

lemma tx_client [simp]:
  "tx_ab (set_freq ab hz t a) = tx_ab a" "tx_ab (set_mode slot m d t a) = tx_ab a" "tx_ab (k3_apply ab t a) = tx_ab a"
  by (simp_all add: set_freq_def set_mode_def Let_def k3_apply_def split: option.split)

lemma tx_mode_code [simp]: "tx_ab (snd (apply_mode_code ab c dc t a)) = tx_ab a"
  by (simp add: apply_mode_code_def split: cat_ascii_dialect.split option.split)

lemma tx_cmds [simp]:
  "tx_ab (snd (cmd_freq ab p t a)) = tx_ab a" "tx_ab (snd (cmd_md s t a)) = tx_ab a" "tx_ab (snd (cmd_data s t a)) = tx_ab a"
  "take 4 s \<noteq> [CH_Z, CH_Z, CH_S, CH_P] \<Longrightarrow> tx_ab (snd (cmd_zz s t a)) = tx_ab a"
  by (simp_all add: cmd_freq_def cmd_md_def cmd_data_def cmd_zz_def Let_def split: option.split)

lemma tx_frame_client: "tx_ab (snd (apply_frame s True t a)) = tx_ab a"
  by (simp add: apply_frame_def Let_def)

text \<open>The VFO selection and split the decoder holds, and a frame that leaves them alone.\<close>

definition vfo_split :: "cat_ascii \<Rightarrow> bool cat_item \<times> bool cat_item \<times> bool option" where
  "vfo_split a = (st_vfo_ab (asc_st a), st_split (asc_st a), tx_ab a)"

lemma vfo_split_set_rx [simp]: "vfo_split (asc_set_rx k r a) = vfo_split a"
  by (simp add: vfo_split_def)

lemma vfo_split_emit [simp]: "vfo_split (asc_emit k d b x own c t a) = vfo_split a"
  by (simp add: vfo_split_def)

lemma vfo_split_apply: "vfo_split (snd (apply_frame s True t a)) = vfo_split a"
  using acts_client_keeps [OF acts_frame_client, of s t a] by (simp add: vfo_split_def tx_frame_client)

lemma vfo_split_host: "vfo_split (host_frame dir c s buf t a) = vfo_split a"
  by (simp add: host_frame_def Let_def vfo_split_apply) (simp add: vfo_split_def)

lemma vfo_split_rx_byte:
  assumes "dir \<noteq> CAT_DIR_RADIO" "it_valid (st_vfo_ab (asc_st a))"
  shows "vfo_split (asc_rx_byte dir c k t b a) = vfo_split a"
proof -
  have s: "frame_start t a' = a'\<lparr>asc_stats := (asc_stats a')\<lparr>cs_frames := cs_frames (asc_stats a') + 1\<rparr>\<rparr>"
    if "it_valid (st_vfo_ab (asc_st a'))" for a'
    using that by (simp add: frame_start_def Let_def)
  have "vfo_split (asc_process_frame dir c (buf @ [CH_SEMI]) t a') = vfo_split a'"
    if "it_valid (st_vfo_ab (asc_st a'))" for a' buf
    using assms(1) that by (simp add: asc_process_frame_parts vfo_split_host s) (simp add: vfo_split_def)
  then show ?thesis
    using assms(2) by (simp add: asc_rx_byte_def Let_def)
qed

text \<open>Client frames (and mhuxd's own queries) set frequency, mode and data mode only: once the selected VFO is
  known, no bytes that do not come from the radio change which VFO is selected, the split flag or the transmit VFO.\<close>

theorem asc_client_limits:
  assumes "dir \<noteq> CAT_DIR_RADIO" "it_valid (st_vfo_ab (asc_st a))"
  shows "vfo_split (cat_ascii_feed a dir c bs t) = vfo_split a"
proof -
  have "it_valid (st_vfo_ab (asc_st a)) \<Longrightarrow> vfo_split (fold (asc_rx_byte dir c' k t) bs a) = vfo_split a" for c' k
  proof (induction bs arbitrary: a)
    case (Cons b bs)
    then have v: "vfo_split (asc_rx_byte dir c' k t b a) = vfo_split a" using vfo_split_rx_byte [OF assms(1)] by blast
    with Cons have "it_valid (st_vfo_ab (asc_st (asc_rx_byte dir c' k t b a)))" by (simp add: vfo_split_def)
    with Cons v show ?case by simp
  qed simp
  with assms(2) show ?thesis by (simp add: cat_ascii_feed_fold)
qed

definition asc_ex :: cat_ascii where
  "asc_ex = (asc_start None)\<lparr>asc_st := cat_state_select_vfo cat_state_init False 0\<rparr>"

lemma asc_ex_simps [simp]:
  "asc_pend asc_ex = []" "asc_cb asc_ex" "asc_log asc_ex = []" "arx_buf (asc_rx asc_ex k) = []"
  "it_valid (st_vfo_ab (asc_st asc_ex))" "\<not> it_val (st_vfo_ab (asc_st asc_ex))"
  by (simp_all add: asc_ex_def asc_start_def cat_ascii_create_def cat_ascii_set_frame_cb_def cat_state_select_vfo_def Let_def
      item_set_def add_changes_def split_def)

text \<open>\<^verbatim>\<open>FR1;FT1;\<close> from a client.\<close>

theorem asc_client_limits_witness:
  "vfo_split (cat_ascii_feed asc_ex CAT_DIR_HOST 1 [CH_F, CH_R, CH_1, CH_SEMI, CH_F, CH_T, CH_1, CH_SEMI] 5) = vfo_split asc_ex"
  by (rule asc_client_limits) simp_all

section \<open>The frequency code\<close>

text \<open>A number in \<open>n\<close> decimal digits.\<close>

fun asc_digits :: "nat \<Rightarrow> nat \<Rightarrow> byte list" where
  "asc_digits 0 v = []"
| "asc_digits (Suc n) v = asc_digits n (v div 10) @ [of_nat (48 + v mod 10)]"

definition dec_num :: "byte list \<Rightarrow> nat" where
  "dec_num p = foldl (\<lambda>v c. v * 10 + unat (c - CH_0)) 0 p"

lemma dec_num_snoc [simp]: "dec_num [] = 0" "dec_num (p @ [c]) = dec_num p * 10 + unat (c - CH_0)"
  by (simp_all add: dec_num_def)

lemma digits_loop_num:
  "digits_loop p f = (if list_all is_digit p then Some (of_nat (foldl (\<lambda>v c. v * 10 + unat (c - CH_0)) 0 p) + f * 10 ^ length p) else None)"
proof (induction p arbitrary: f)
  case (Cons c p)
  have acc: "foldl (\<lambda>v c. v * 10 + unat (c - CH_0)) x p = foldl (\<lambda>v c. v * 10 + unat (c - CH_0)) 0 p + x * 10 ^ length p" for x
  proof (induction p arbitrary: x)
    case (Cons d p)
    show ?case using Cons [of "x * 10 + unat (d - CH_0)"] Cons [of "unat (d - CH_0)"] by (simp add: algebra_simps)
  qed simp
  show ?case
    using Cons [of "f * 10 + ucast (c - CH_0)"] acc [of "unat (c - CH_0)"] by (simp add: algebra_simps)
qed simp

lemma digit_unat: "is_digit c \<Longrightarrow> unat (c - CH_0) \<le> 9 \<and> of_nat (48 + unat (c - CH_0)) = c"
proof -
  assume "is_digit c"
  then have c: "48 \<le> unat c" "unat c \<le> 57" by (simp_all add: is_digit_def word_less_nat_alt not_less)
  then have "unat (c - CH_0) = unat c - 48" by (simp add: unat_sub_if')
  then show ?thesis using c by simp
qed

lemma digit_code: "d < 10 \<Longrightarrow> is_digit (of_nat (48 + d)) \<and> unat ((of_nat (48 + d) :: byte) - CH_0) = d"
proof -
  assume d: "d < 10"
  have u: "x < 256 \<Longrightarrow> unat (of_nat x :: byte) = x" for x by (simp add: unsigned_of_nat take_bit_nat_eq_self)
  have "unat (of_nat (48 + d) :: byte) = 48 + d" by (rule u) (use d in simp)
  then show ?thesis using d by (simp add: is_digit_def word_less_nat_alt unat_sub_if' del: of_nat_add)
qed

lemma digits_num: "list_all is_digit (asc_digits n v) \<and> length (asc_digits n v) = n \<and> (v < 10 ^ n \<longrightarrow> dec_num (asc_digits n v) = v)"
proof (induction n arbitrary: v)
  case (Suc n)
  have "v mod 10 < 10" by simp
  from digit_code [OF this] Suc [of "v div 10"] show ?case
    by (auto simp del: of_nat_add simp: div_less_iff_less_mult mult.commute)
qed simp

lemma num_digits: "list_all is_digit p \<Longrightarrow> asc_digits (length p) (dec_num p) = p \<and> dec_num p < 10 ^ length p"
proof (induction p rule: rev_induct)
  case (snoc c p)
  then have d: "unat (c - CH_0) \<le> 9" "of_nat (48 + unat (c - CH_0)) = c" using digit_unat by simp_all
  have n: "dec_num (p @ [c]) div 10 = dec_num p" "dec_num (p @ [c]) mod 10 = unat (c - CH_0)" using d(1) by simp_all
  have "dec_num p + 1 \<le> 10 ^ length p" using snoc by simp
  then have "(dec_num p + 1) * 10 \<le> 10 ^ length p * 10" by (rule mult_le_mono1)
  then show ?case using snoc d n by (simp del: dec_num_snoc of_nat_add)
qed simp

lemma dec_freq_digits:
  assumes "length p \<le> 11" "8 \<le> length p" "list_all is_digit p"
  shows "dec_freq p = (if dec_num p = 0 \<or> dec_num p \<ge> 2 ^ 32 then None else Some (of_nat (dec_num p)))"
proof -
  let ?n = "dec_num p"
  have "?n < 10 ^ length p" using num_digits [OF assms(3)] by simp
  also have "(10 :: nat) ^ length p \<le> 10 ^ 11" by (rule power_increasing) (simp_all add: assms(1))
  finally have n: "?n < 2 ^ 64" by (rule order_less_trans) simp
  have u: "unat (of_nat ?n :: u64) = ?n" using n by (simp add: unsigned_of_nat take_bit_nat_eq_self)
  have z: "(of_nat ?n :: u64) = 0 \<longleftrightarrow> ?n = 0" unfolding unat_eq_zero [symmetric] u ..
  have g: "(of_nat ?n :: u64) > 0xffffffff \<longleftrightarrow> ?n \<ge> 2 ^ 32" unfolding word_less_nat_alt u by (simp add: less_eq_Suc_le)
  have c: "(ucast (of_nat ?n :: u64) :: u32) = of_nat ?n" if "?n < 2 ^ 32"
    using that by (simp add: unsigned_of_nat take_bit_nat_eq_self)
  show ?thesis
    using assms by (simp add: dec_freq_def digits_loop_num dec_num_def [symmetric] z g c not_le)
qed

text \<open>A frequency parameter is read exactly: it is accepted precisely when it has 8 to 11 characters that are
  the decimal digits of a number that is not zero and fits 32 bits, and then it is read as that number.\<close>

theorem asc_freq_code:
  "dec_freq p = Some hz \<longleftrightarrow> 8 \<le> length p \<and> length p \<le> 11 \<and> p = asc_digits (length p) (unat hz) \<and> hz \<noteq> 0 \<and> unat hz < 10 ^ length p"
proof
  assume dec: "dec_freq p = Some hz"
  then have len: "8 \<le> length p" "length p \<le> 11" by (simp_all add: dec_freq_def split: if_splits)
  have digs: "list_all is_digit p" using dec by (auto simp: dec_freq_def digits_loop_num split: if_splits)
  have r: "dec_num p \<noteq> 0" "dec_num p < 2 ^ 32" "hz = of_nat (dec_num p)"
    using dec dec_freq_digits [OF len(2,1) digs] by (auto split: if_splits)
  then have "unat hz = dec_num p" by (simp add: unsigned_of_nat take_bit_nat_eq_self)
  with num_digits [OF digs] len r(1)
  show "8 \<le> length p \<and> length p \<le> 11 \<and> p = asc_digits (length p) (unat hz) \<and> hz \<noteq> 0 \<and> unat hz < 10 ^ length p" by auto
next
  assume a: "8 \<le> length p \<and> length p \<le> 11 \<and> p = asc_digits (length p) (unat hz) \<and> hz \<noteq> 0 \<and> unat hz < 10 ^ length p"
  then have p: "list_all is_digit p" "dec_num p = unat hz" using digits_num [of "length p" "unat hz"] by auto
  have "unat hz \<noteq> 0" "unat hz < 2 ^ 32" using a unsigned_less [of hz] by (auto simp: unat_eq_zero)
  then show "dec_freq p = Some hz" using dec_freq_digits [OF _ _ p(1)] a p(2) by simp
qed

section \<open>Framing\<close>

text \<open>The bytes of a frame before its end: printable, not starting with a space.\<close>

definition asc_text :: "byte list \<Rightarrow> bool" where
  "asc_text s \<longleftrightarrow> list_all printable s \<and> length s < ASCII_MAX_FRAME \<and> (s = [] \<or> hd s \<noteq> 0x20)"

lemma asc_rx_text:
  "list_all printable s \<Longrightarrow> length (buf @ s) < ASCII_MAX_FRAME \<Longrightarrow> buf \<noteq> [] \<or> s = [] \<or> hd s \<noteq> 0x20 \<Longrightarrow> arx_buf (asc_rx a k) = buf \<Longrightarrow>
   \<exists>r. fold (asc_rx_byte dir c k t) s a = asc_set_rx k r a \<and> arx_buf r = buf @ s"
proof (induction s arbitrary: buf a)
  case Nil
  have "a = asc_set_rx k (asc_rx a k) a" by (simp add: asc_set_rx_def)
  with Nil show ?case by fastforce
next
  case (Cons b s)
  define r where "r = (asc_rx a k)\<lparr>arx_t := t, arx_buf := buf @ [b]\<rparr>"
  have b: "printable b" "b \<noteq> 0x20 \<or> buf \<noteq> []" using Cons.prems by auto
  have "asc_rx_byte dir c k t b a = asc_set_rx k r a"
  proof -
    have "\<not> b < 0x20" "\<not> b \<ge> 0x7f" "b \<noteq> CH_SEMI" using b(1) by (auto simp: printable_def)
    moreover have "b \<noteq> 0x0d" "b \<noteq> 0x0a" "b \<noteq> 0" using \<open>\<not> b < 0x20\<close> by auto
    ultimately show ?thesis
      using Cons.prems(2,4) b(2) by (cases "asc_rx a k") (auto simp: asc_rx_byte_def Let_def r_def)
  qed
  moreover have "\<exists>r'. fold (asc_rx_byte dir c k t) s (asc_set_rx k r a) = asc_set_rx k r' (asc_set_rx k r a) \<and> arx_buf r' = (buf @ [b]) @ s"
    using Cons.prems by (intro Cons.IH) (auto simp: r_def)
  ultimately show ?case by simp
qed

text \<open>A complete frame: the framer is idle again, and elsewhere the decoder is as after processing the frame.\<close>

lemma asc_fold_frame:
  assumes "asc_text s" "arx_buf (asc_rx a k) = []"
  shows "\<exists>r r'. fold (asc_rx_byte dir c k t) (s @ [CH_SEMI]) a =
    asc_set_rx k r (asc_process_frame dir c (s @ [CH_SEMI]) t (asc_set_rx k r' a)) \<and> arx_buf r = []"
proof -
  obtain r where r: "fold (asc_rx_byte dir c k t) s a = asc_set_rx k r a" "arx_buf r = s"
    using asc_rx_text [of s "[]" a k dir c t] assms by (auto simp: asc_text_def)
  then have "fold (asc_rx_byte dir c k t) (s @ [CH_SEMI]) a =
      asc_set_rx k (r\<lparr>arx_t := t, arx_buf := []\<rparr>)
        (asc_process_frame dir c (s @ [CH_SEMI]) t (asc_set_rx k (r\<lparr>arx_t := t, arx_buf := s @ [CH_SEMI]\<rparr>) a))"
    by (simp add: asc_rx_byte_def Let_def)
  moreover have "arx_buf (r\<lparr>arx_t := t, arx_buf := []\<rparr>) = []" by simp
  ultimately show ?thesis by blast
qed

section \<open>Answers in the order of the queries\<close>

text \<open>A pending query for a prefix that is still waiting at a time.\<close>

definition waits_for :: "byte list \<Rightarrow> u64 \<Rightarrow> ascii_pending \<Rightarrow> bool" where
  "waits_for prefix t p \<longleftrightarrow> ap_query p \<and> ap_prefix p = prefix \<and> pend_live p t"

lemma take_waiting:
  assumes "asc_pend a = p # ps" "waits_for prefix t p"
  shows "asc_pend_take (Some (prefix, buf)) t a = ((True, ap_own p, ap_client p), a\<lparr>asc_pend := ps\<rparr>)"
  using assms by (simp add: asc_pend_take_def Let_def waits_for_def)

lemma radio_reply:
  assumes "asc_pend a = p # ps" "waits_for (prefix_of s) t p" "s \<noteq> []" "\<not> is_error s"
  shows "asc_pend (asc_process_frame CAT_DIR_RADIO 0 (s @ [CH_SEMI]) t a) = ps \<and>
    asc_cb (asc_process_frame CAT_DIR_RADIO 0 (s @ [CH_SEMI]) t a) = asc_cb a \<and>
    (asc_cb a \<longrightarrow> (\<exists>k x. asc_log (asc_process_frame CAT_DIR_RADIO 0 (s @ [CH_SEMI]) t a) =
       asc_log a @ [asc_report k CAT_DIR_RADIO (s @ [CH_SEMI]) x (ap_own p) (ap_client p) t] \<and>
       k \<in> {CAT_FRAME_REPLY, CAT_FRAME_BAD}))"
proof -
  have "radio_take s (s @ [CH_SEMI]) t (frame_start t a) = ((True, ap_own p, ap_client p), (frame_start t a)\<lparr>asc_pend := ps\<rparr>)"
    unfolding radio_take_def using take_waiting [of "frame_start t a" p ps] assms by simp
  then show ?thesis
    using assms(4) by (cases "fst (apply_frame s False t ((frame_start t a)\<lparr>asc_pend := ps\<rparr>)) < 0")
      (auto simp: asc_process_frame_parts radio_frame_def Let_def acts_frame_fields)
qed

text \<open>Claim C20. Answers are given to the queries in the order they were asked: when the oldest pending commands are live
  queries for the same value (of any clients, and of mhuxd), then answers to it that arrive in one stream of bytes are
  reported for the clients of these queries in their order, each query is answered once, and the others stay pending.\<close>

theorem asc_answers_in_order:
  assumes "arx_buf (asc_rx a ARX_RADIO) = []" "asc_cb a" "asc_pend a = qs @ ps" "list_all (waits_for prefix t) qs"
    and "length ss = length qs" "list_all (\<lambda>s. s \<noteq> [] \<and> asc_text s \<and> prefix_of s = prefix \<and> \<not> is_error s) ss"
    and "a' = cat_ascii_feed a CAT_DIR_RADIO 0 (concat (map (\<lambda>s. s @ [CH_SEMI]) ss)) t"
  shows "asc_pend a' = ps \<and> (\<exists>new. asc_log a' = asc_log a @ new \<and>
    map (\<lambda>e. (fr_buf e, fr_own e, fr_client e)) new = map2 (\<lambda>s q. (s @ [CH_SEMI], ap_own q, ap_client q)) ss qs \<and>
    list_all (\<lambda>e. fr_kind e \<in> {CAT_FRAME_REPLY, CAT_FRAME_BAD}) new)"
proof -
  define f where "f = asc_rx_byte CAT_DIR_RADIO 0 ARX_RADIO t"
  have fold: "cat_ascii_feed a CAT_DIR_RADIO 0 bs t = fold f bs a" for bs a
    by (simp add: cat_ascii_feed_def f_def)
  have "asc_pend (fold f (concat (map (\<lambda>s. s @ [CH_SEMI]) ss)) a) = ps \<and>
      (\<exists>new. asc_log (fold f (concat (map (\<lambda>s. s @ [CH_SEMI]) ss)) a) = asc_log a @ new \<and>
        map (\<lambda>e. (fr_buf e, fr_own e, fr_client e)) new = map2 (\<lambda>s q. (s @ [CH_SEMI], ap_own q, ap_client q)) ss qs \<and>
        list_all (\<lambda>e. fr_kind e \<in> {CAT_FRAME_REPLY, CAT_FRAME_BAD}) new)"
    using assms(5,1-4,6)
  proof (induction ss qs arbitrary: a rule: list_induct2)
    case Nil
    then show ?case by simp
  next
    case (Cons s ss q qs)
    obtain r r' where fr: "fold f (s @ [CH_SEMI]) a = asc_set_rx ARX_RADIO r
        (asc_process_frame CAT_DIR_RADIO 0 (s @ [CH_SEMI]) t (asc_set_rx ARX_RADIO r' a))" "arx_buf r = []"
      using asc_fold_frame [of s a ARX_RADIO CAT_DIR_RADIO 0 t] Cons.prems by (auto simp: f_def)
    let ?b = "asc_set_rx ARX_RADIO r (asc_process_frame CAT_DIR_RADIO 0 (s @ [CH_SEMI]) t (asc_set_rx ARX_RADIO r' a))"
    have R: "asc_pend ?b = qs @ ps" "asc_cb ?b" "\<exists>k x. asc_log ?b = asc_log a @ [asc_report k CAT_DIR_RADIO (s @ [CH_SEMI]) x (ap_own q) (ap_client q) t] \<and>
        k \<in> {CAT_FRAME_REPLY, CAT_FRAME_BAD}"
      using radio_reply [of "asc_set_rx ARX_RADIO r' a" q "qs @ ps" s t] Cons.prems by simp_all
    have "asc_pend (fold f (concat (map (\<lambda>s. s @ [CH_SEMI]) ss)) ?b) = ps \<and>
        (\<exists>new. asc_log (fold f (concat (map (\<lambda>s. s @ [CH_SEMI]) ss)) ?b) = asc_log ?b @ new \<and>
          map (\<lambda>e. (fr_buf e, fr_own e, fr_client e)) new = map2 (\<lambda>s q. (s @ [CH_SEMI], ap_own q, ap_client q)) ss qs \<and>
          list_all (\<lambda>e. fr_kind e \<in> {CAT_FRAME_REPLY, CAT_FRAME_BAD}) new)"
      using Cons.prems R fr(2) by (intro Cons.IH) auto
    then show ?case using R(3) fr(1) by fastforce
  qed
  then show ?thesis unfolding assms(7) fold .
qed

definition asc_query_ex :: "int \<Rightarrow> ascii_pending" where
  "asc_query_ex c = \<lparr>ap_prefix = [CH_F, CH_A], ap_frame = [CH_F, CH_A, CH_SEMI], ap_t = 100, ap_own = False, ap_client = c, ap_query = True\<rparr>"

text \<open>Clients 4 and 2 asked for VFO A; two answers \<^verbatim>\<open>FA00014074000;\<close> come in one read.\<close>

theorem asc_answers_in_order_witness:
  "let s = [CH_F, CH_A, CH_0, CH_0, CH_0, CH_1, CH_4, CH_0, CH_7, CH_4, CH_0, CH_0, CH_0];
       a' = cat_ascii_feed (asc_ex\<lparr>asc_pend := [asc_query_ex 4, asc_query_ex 2]\<rparr>) CAT_DIR_RADIO 0 (s @ [CH_SEMI] @ s @ [CH_SEMI]) 200
   in asc_pend a' = [] \<and> map fr_client (asc_log a') = [4, 2]"
proof -
  let ?s = "[CH_F, CH_A, CH_0, CH_0, CH_0, CH_1, CH_4, CH_0, CH_7, CH_4, CH_0, CH_0, CH_0]"
  let ?a = "asc_ex\<lparr>asc_pend := [asc_query_ex 4, asc_query_ex 2]\<rparr>"
  let ?a' = "cat_ascii_feed ?a CAT_DIR_RADIO 0 (concat (map (\<lambda>s. s @ [CH_SEMI]) [?s, ?s])) 200"
  have "asc_pend ?a' = [] \<and> (\<exists>new. asc_log ?a' = asc_log ?a @ new \<and>
      map (\<lambda>e. (fr_buf e, fr_own e, fr_client e)) new =
        map2 (\<lambda>s q. (s @ [CH_SEMI], ap_own q, ap_client q)) [?s, ?s] [asc_query_ex 4, asc_query_ex 2] \<and>
      list_all (\<lambda>e. fr_kind e \<in> {CAT_FRAME_REPLY, CAT_FRAME_BAD}) new)"
    by (rule asc_answers_in_order [where prefix = "[CH_F, CH_A]" and t = 200 and ps = "[]"])
      (simp_all add: asc_query_ex_def waits_for_def pend_live_def asc_text_def printable_def prefix_of_def is_error_def)
  then obtain new where "asc_pend ?a' = []" "asc_log ?a' = new" "map (\<lambda>e. (fr_buf e, fr_own e, fr_client e)) new =
      map2 (\<lambda>s q. (s @ [CH_SEMI], ap_own q, ap_client q)) [?s, ?s] [asc_query_ex 4, asc_query_ex 2]" by auto
  moreover from this(3) have "map (\<lambda>x. snd (snd x)) (map (\<lambda>e. (fr_buf e, fr_own e, fr_client e)) new) = [4, 2]"
    by (simp add: asc_query_ex_def)
  then have "map fr_client new = [4, 2]" by (simp add: comp_def)
  ultimately show ?thesis by (simp add: Let_def)
qed

section \<open>A query and its answer\<close>

lemma asc_feed_frame:
  assumes "asc_text s" "arx_buf (asc_rx a (asc_feed_rx dir c)) = []" "asc_feed_valid dir c"
  shows "\<exists>r r'. cat_ascii_feed a dir c (s @ [CH_SEMI]) t = asc_set_rx (asc_feed_rx dir c) r
    (asc_process_frame dir (asc_feed_client dir c) (s @ [CH_SEMI]) t (asc_set_rx (asc_feed_rx dir c) r' a)) \<and> arx_buf r = []"
  using asc_fold_frame [OF assms(1,2), of dir "asc_feed_client dir c" t] assms(3) unfolding cat_ascii_feed_fold by simp

text \<open>The query of a client.\<close>

lemma asc_query_step:
  assumes "x = CH_A \<or> x = CH_B" "asc_pend a = []" "asc_cb a" "dir \<noteq> CAT_DIR_RADIO"
  shows "asc_pend (asc_process_frame dir c ([CH_F, x] @ [CH_SEMI]) t a) = [\<lparr>ap_prefix = [CH_F, x], ap_frame = [CH_F, x, CH_SEMI], ap_t = t,
      ap_own = (dir = CAT_DIR_OWN), ap_client = c, ap_query = True\<rparr>]"
    "asc_log (asc_process_frame dir c ([CH_F, x] @ [CH_SEMI]) t a) =
      asc_log a @ [asc_report CAT_FRAME_CMD dir [CH_F, x, CH_SEMI] False (dir = CAT_DIR_OWN) c t]"
    "asc_cb (asc_process_frame dir c ([CH_F, x] @ [CH_SEMI]) t a)"
  using assms unfolding asc_process_frame_parts
  by (auto simp: host_frame_def Let_def prefix_of_def apply_frame_def cmd_freq_def asc_pend_add_def)



section \<open>A bad frame that is not ignored\<close>

text \<open>
  \<^verbatim>\<open>IF\<close> of 37 characters with a valid frequency and the mode code 0: the result is -1, so the frame is
  reported as bad, but the frequency has been taken over.
\<close>

definition if_bad :: "byte list" where
  "if_bad = [CH_I, CH_F, CH_0, CH_0, CH_0, CH_1, CH_4, CH_0, CH_7, CH_4, CH_0, CH_0, CH_0] @ replicate 24 CH_0"

lemma bad_frame_applies:
  "fst (cmd_if_kenwood if_bad 7 asc_ex) = -1 \<and>
   v_freq (vfo_sel (asc_st (snd (cmd_if_kenwood if_bad 7 asc_ex)))) = \<lparr>it_val = 14074000, it_t = 7, it_valid = True\<rparr>"
proof -
  have f: "dec_freq (take 11 (drop 2 if_bad)) = Some 14074000" by (simp add: if_bad_def dec_freq_def is_digit_def)
  have n: "length if_bad = 37" "if_bad ! 28 = CH_0" "if_bad ! 29 = CH_0" "if_bad ! 30 = CH_0" "if_bad ! 32 = CH_0"
    by (simp_all add: if_bad_def nth_append)
  have c: "asc_cfg asc_ex = \<lparr>asc_dialect = CAT_ASCII_KENWOOD, asc_no_data = False\<rparr>"
    by (simp add: asc_ex_def asc_start_def cat_ascii_create_def cat_ascii_set_frame_cb_def)
  show ?thesis
    unfolding cmd_if_kenwood_def n f
    by (simp add: dec_bool_def Let_def split_def set_freq_def apply_mode_code_def c dec_mode_kenwood_def)
      (simp add: slot_of_def cur_ab_def cat_op_defs Let_def split_def)
qed

end
