(* ===== verification/CatYbin.thy ===== *)
theory CatYbin
  imports CatFrame
begin

text \<open>
  \<^verbatim>\<open>src/cat_ybin.c\<close>, \<^verbatim>\<open>src/cat_ybin.h\<close>: the decoder of the binary CAT protocol of the older Yaesu
  radios. Commands have five bytes, the opcode last; answers have no markers, their lengths come
  from the tables here. The functions that decode a command or an answer get the model and change
  the radio state only, so they take and return that; a VFO is \<open>Some False\<close> (A), \<open>Some True\<close> (B) or
  \<open>None\<close> (the selected one, \<^verbatim>\<open>-1\<close>). The pending commands are a list of at most eight, oldest first;
  the lengths of buffers are those of the lists; \<^verbatim>\<open>got\<close> counts up to a length of at most \<^verbatim>\<open>0x7fff\<close>.
  The frame callback is a log of the frames reported; it may be absent.
\<close>

unbundle bit_operations_syntax

section \<open>Models\<close>

abbreviation (input) "YBIN_CMD_LEN \<equiv> (5 :: nat)"
abbreviation (input) "YBIN_MAX_FRAME \<equiv> (80 :: nat)"
abbreviation (input) "YB_PEND_MAX \<equiv> (8 :: nat)"
abbreviation (input) "GIVEUP_MS \<equiv> (200 :: u64)"
abbreviation (input) "VAR \<equiv> (0x8000 :: u32)"
abbreviation (input) "LEN_MASK \<equiv> (0x7fff :: u32)"
abbreviation (input) "YBIN_CMD_GAP_MS \<equiv> (300 :: u64)"
abbreviation (input) "YBIN_HOLD_MS \<equiv> (100 :: u64)"
abbreviation (input) "YBIN_ANSWER_MS \<equiv> (1000 :: u64)"
abbreviation (input) "YBIN_BYTE_GAP_MS \<equiv> (100 :: u32)"

datatype ybin_family = FAM_757 | FAM_817 | FAM_847 | FAM_900 | FAM_920 | FAM_990 | FAM_1000 | FAM_MP

datatype cat_ybin_model = CAT_YBIN_FT757GX2 | CAT_YBIN_FT817 | CAT_YBIN_FT857 | CAT_YBIN_FT897 | CAT_YBIN_FT847
  | CAT_YBIN_FT840 | CAT_YBIN_FT890 | CAT_YBIN_FT900 | CAT_YBIN_FT920 | CAT_YBIN_FT990 | CAT_YBIN_FT1000 | CAT_YBIN_FT1000MP

record ybin_model =
  ym_id :: string
  ym_name :: string
  ym_fam :: ybin_family
  ym_dump_len :: u32
  ym_hold_ms :: u64

fun models :: "cat_ybin_model \<Rightarrow> ybin_model" where
  "models CAT_YBIN_FT757GX2 = \<lparr>ym_id = ''ft757gx2'', ym_name = ''FT-757GXII'', ym_fam = FAM_757, ym_dump_len = 0, ym_hold_ms = 150\<rparr>"
| "models CAT_YBIN_FT817 = \<lparr>ym_id = ''ft817'', ym_name = ''FT-817'', ym_fam = FAM_817, ym_dump_len = 0, ym_hold_ms = 0\<rparr>"
| "models CAT_YBIN_FT857 = \<lparr>ym_id = ''ft857'', ym_name = ''FT-857'', ym_fam = FAM_817, ym_dump_len = 0, ym_hold_ms = 0\<rparr>"
| "models CAT_YBIN_FT897 = \<lparr>ym_id = ''ft897'', ym_name = ''FT-897'', ym_fam = FAM_817, ym_dump_len = 0, ym_hold_ms = 0\<rparr>"
| "models CAT_YBIN_FT847 = \<lparr>ym_id = ''ft847'', ym_name = ''FT-847'', ym_fam = FAM_847, ym_dump_len = 0, ym_hold_ms = 0\<rparr>"
| "models CAT_YBIN_FT840 = \<lparr>ym_id = ''ft840'', ym_name = ''FT-840'', ym_fam = FAM_900, ym_dump_len = 649, ym_hold_ms = 0\<rparr>"
| "models CAT_YBIN_FT890 = \<lparr>ym_id = ''ft890'', ym_name = ''FT-890'', ym_fam = FAM_900, ym_dump_len = 649, ym_hold_ms = 0\<rparr>"
| "models CAT_YBIN_FT900 = \<lparr>ym_id = ''ft900'', ym_name = ''FT-900'', ym_fam = FAM_900, ym_dump_len = 1941, ym_hold_ms = 0\<rparr>"
| "models CAT_YBIN_FT920 = \<lparr>ym_id = ''ft920'', ym_name = ''FT-920'', ym_fam = FAM_920, ym_dump_len = 0, ym_hold_ms = 0\<rparr>"
| "models CAT_YBIN_FT990 = \<lparr>ym_id = ''ft990'', ym_name = ''FT-990'', ym_fam = FAM_990, ym_dump_len = 1508, ym_hold_ms = 0\<rparr>"
| "models CAT_YBIN_FT1000 = \<lparr>ym_id = ''ft1000'', ym_name = ''FT-1000'', ym_fam = FAM_1000, ym_dump_len = 1636, ym_hold_ms = 0\<rparr>"
| "models CAT_YBIN_FT1000MP = \<lparr>ym_id = ''ft1000mp'', ym_name = ''FT-1000MP'', ym_fam = FAM_MP, ym_dump_len = 1863, ym_hold_ms = 0\<rparr>"

text \<open>The models in the order of the enum.\<close>

definition ybin_models :: "cat_ybin_model list" where
  "ybin_models = [CAT_YBIN_FT757GX2, CAT_YBIN_FT817, CAT_YBIN_FT857, CAT_YBIN_FT897, CAT_YBIN_FT847, CAT_YBIN_FT840,
     CAT_YBIN_FT890, CAT_YBIN_FT900, CAT_YBIN_FT920, CAT_YBIN_FT990, CAT_YBIN_FT1000, CAT_YBIN_FT1000MP]"

text \<open>\<open>None\<close> is a number that is no model.\<close>

definition cat_ybin_model_str :: "cat_ybin_model option \<Rightarrow> string" where
  "cat_ybin_model_str model = (case model of None \<Rightarrow> ''?'' | Some m \<Rightarrow> ym_id (models m))"

definition cat_ybin_model_name :: "cat_ybin_model option \<Rightarrow> string" where
  "cat_ybin_model_name model = (case model of None \<Rightarrow> ''?'' | Some m \<Rightarrow> ym_name (models m))"

definition cat_ybin_model_from_str :: "string option \<Rightarrow> cat_ybin_model option" where
  "cat_ybin_model_from_str s = (case s of None \<Rightarrow> None | Some n \<Rightarrow> find (\<lambda>m. n = ym_id (models m)) ybin_models)"

section \<open>State\<close>

record ybin_rx =
  yrx_buf :: "byte list"
  yrx_t :: u64

record ybin_pending =
  yp_cmd :: "byte list"
  yp_len :: nat
  yp_var :: bool
  yp_own :: bool
  yp_client :: int
  yp_got :: nat
  yp_t :: u64
  yp_last :: u64

text \<open>
  Framers: \<open>0..8\<close> the clients, \<open>9\<close> mhuxd's own queries. \<^verbatim>\<open>hold\<close>: \<open>0\<close> mhuxd's own, \<open>1..9\<close> the clients.
\<close>

abbreviation (input) "YRX_OWN \<equiv> (9 :: nat)"

record cat_ybin =
  yb_model :: cat_ybin_model
  yb_st :: cat_state
  yb_cb :: bool
  yb_rx :: "nat \<Rightarrow> ybin_rx"
  yb_pend :: "ybin_pending list"
  yb_ans :: "byte list"
  yb_hold :: "nat \<Rightarrow> u64"
  yb_pacing :: u32
  yb_stats :: cat_stats
  yb_log :: "cat_frame list"

definition fam_of :: "cat_ybin_model \<Rightarrow> ybin_family" where
  "fam_of m = ym_fam (models m)"

definition cat_ybin_create :: "cat_ybin_model option \<Rightarrow> cat_state \<Rightarrow> cat_ybin option" where
  "cat_ybin_create cfg st =
     (case cfg of
        None \<Rightarrow> None
      | Some m \<Rightarrow> Some \<lparr>yb_model = m, yb_st = st, yb_cb = False, yb_rx = (\<lambda>_. \<lparr>yrx_buf = [], yrx_t = 0\<rparr>), yb_pend = [],
          yb_ans = [], yb_hold = (\<lambda>_. 0), yb_pacing = 0, yb_stats = no_stats, yb_log = []\<rparr>)"

definition cat_ybin_set_frame_cb :: "cat_ybin \<Rightarrow> bool \<Rightarrow> cat_ybin" where
  "cat_ybin_set_frame_cb y cb = y\<lparr>yb_cb := cb\<rparr>"

definition cat_ybin_get_stats :: "cat_ybin \<Rightarrow> cat_stats" where
  "cat_ybin_get_stats y = yb_stats y"

definition yb_count :: "cat_frame_kind \<Rightarrow> cat_stats \<Rightarrow> cat_stats" where
  "yb_count kind s =
     (case kind of
        CAT_FRAME_REPLY \<Rightarrow> s\<lparr>cs_replies := cs_replies s + 1\<rparr>
      | CAT_FRAME_BAD \<Rightarrow> s\<lparr>cs_bad := cs_bad s + 1\<rparr>
      | CAT_FRAME_DROPPED \<Rightarrow> s\<lparr>cs_dropped := cs_dropped s + 1\<rparr>
      | CAT_FRAME_UNMATCHED \<Rightarrow> s\<lparr>cs_unmatched := cs_unmatched s + 1\<rparr>
      | _ \<Rightarrow> s)"

definition yb_emit :: "cat_frame_kind \<Rightarrow> cat_dir \<Rightarrow> byte list \<Rightarrow> bool \<Rightarrow> bool \<Rightarrow> int \<Rightarrow> u64 \<Rightarrow> cat_ybin \<Rightarrow> cat_ybin" where
  "yb_emit kind dir buf applied own client t y =
     (let s0 = (yb_stats y)\<lparr>cs_frames := cs_frames (yb_stats y) + 1\<rparr>;
          s1 = yb_count kind s0;
          s2 = (if applied then s1\<lparr>cs_applied := cs_applied s1 + 1\<rparr> else s1);
          s3 = (if own \<and> dir = CAT_DIR_RADIO then s2\<lparr>cs_own := cs_own s2 + 1\<rparr> else s2);
          y1 = y\<lparr>yb_stats := s3\<rparr>
      in if yb_cb y1
         then y1\<lparr>yb_log := yb_log y1 @ [\<lparr>fr_kind = kind, fr_dir = dir, fr_t = t, fr_buf = buf, fr_applied = applied,
                fr_text = False, fr_own = own, fr_client = client\<rparr>]\<rparr>
         else y1)"

section \<open>Answer lengths\<close>

text \<open>The table of the status data: memory, current data, both VFOs, one memory.\<close>

definition status_lens :: "ybin_family \<Rightarrow> u32 list" where
  "status_lens fam =
     (case fam of
        FAM_900 \<Rightarrow> [0, 1, 19, 18, 19]
      | FAM_920 \<Rightarrow> [0, 1, 28, 28, 14]
      | FAM_990 \<Rightarrow> [0, 1, 32, 32, 16]
      | FAM_1000 \<Rightarrow> [0, 1, 16, 32, 16]
      | FAM_MP \<Rightarrow> [0, 1, 16, 32, 16]
      | _ \<Rightarrow> [])"

definition answer_len :: "cat_ybin_model \<Rightarrow> byte list \<Rightarrow> u32" where
  "answer_len m c =
     (let op = c ! 4; u = c ! 3; fam = fam_of m;
          dump = (if ym_dump_len (models m) \<noteq> 0 then ym_dump_len (models m) OR VAR else LEN_MASK OR VAR)
      in if fam = FAM_757 then
           (if op = 0x10 then (if u = 0x01 then 1 else 75) else if op = 0x0e then 75 else 0)
         else if fam = FAM_817 then
           (if op = 0x03 then 5 else if op = 0xbb then 2 else if op = 0xbd then 2 else if op = 0xff then 0 else 1)
         else if fam = FAM_847 then
           (if op = 0x03 \<or> op = 0x13 \<or> op = 0x23 then 5 else if op = 0xe7 \<or> op = 0xf7 then 1 else 0)
         else if op = 0x10 then
           (if u > 4 then 0 else if u = 0 then dump else status_lens fam ! unat u)
         else if op = 0xfa then
           (if fam = FAM_MP then (if u AND 1 \<noteq> 0 then 6 else 5)
            else if fam = FAM_920 then 8 OR (if u = 1 then 0 else VAR)
            else 5)
         else if op = 0xf7 \<and> fam \<noteq> FAM_920 then 5
         else 0)"

definition has_pacing :: "cat_ybin_model \<Rightarrow> bool" where
  "has_pacing m \<longleftrightarrow> fam_of m \<noteq> FAM_817 \<and> fam_of m \<noteq> FAM_847"

section \<open>Field decoding\<close>

text \<open>The loop of \<^verbatim>\<open>dec_bcd\<close> over the bytes, most significant first.\<close>

fun yb_bcd_loop :: "byte list \<Rightarrow> u32 \<Rightarrow> u32 option" where
  "yb_bcd_loop [] r = Some r"
| "yb_bcd_loop (b # bs) r =
     (if drop_bit 4 b > 9 \<or> b AND 0x0f > 9 then None
      else yb_bcd_loop bs (r * 100 + ucast (drop_bit 4 b) * 10 + ucast (b AND 0x0f)))"

definition dec_bcd :: "byte list \<Rightarrow> nat \<Rightarrow> bool \<Rightarrow> u32 option" where
  "dec_bcd p n be = yb_bcd_loop (if be then take n p else rev (take n p)) 0"

definition dec_be :: "byte list \<Rightarrow> nat \<Rightarrow> u32" where
  "dec_be p n = fold (\<lambda>b r. push_bit 8 r OR ucast b) (take n p) 0"

definition mode_817 :: "byte \<Rightarrow> cat_mode" where
  "mode_817 c =
     (let k = c AND 0x7f in
      if k = 0x00 then CAT_MODE_LSB else if k = 0x01 then CAT_MODE_USB else if k = 0x02 then CAT_MODE_CW
      else if k = 0x03 then CAT_MODE_CWR else if k = 0x04 then CAT_MODE_AM else if k = 0x06 then CAT_MODE_WFM
      else if k = 0x08 then CAT_MODE_FM else if k = 0x0a then CAT_MODE_PKTUSB else if k = 0x0c then CAT_MODE_PKTFM
      else CAT_MODE_NONE)"

definition modeset_1000 :: "byte \<Rightarrow> cat_mode" where
  "modeset_1000 c =
     (let k = c AND 0x7f in
      if k = 0x00 then CAT_MODE_LSB else if k = 0x01 then CAT_MODE_USB else if k = 0x02 then CAT_MODE_CW
      else if k = 0x03 then CAT_MODE_CWR else if k = 0x04 then CAT_MODE_AM else if k = 0x05 then CAT_MODE_AMS
      else if k = 0x06 \<or> k = 0x07 then CAT_MODE_FM else if k = 0x08 then CAT_MODE_RTTY else if k = 0x09 then CAT_MODE_RTTYR
      else if k = 0x0a then CAT_MODE_PKTLSB else if k = 0x0b then CAT_MODE_PKTFM else CAT_MODE_NONE)"

definition modeset_920 :: "byte \<Rightarrow> cat_mode" where
  "modeset_920 c =
     (let k = c AND 0x7f in
      if k = 0x00 then CAT_MODE_LSB else if k = 0x01 then CAT_MODE_USB else if k = 0x02 then CAT_MODE_CW
      else if k = 0x03 then CAT_MODE_CWR else if k = 0x04 \<or> k = 0x05 then CAT_MODE_AM
      else if k = 0x06 \<or> k = 0x07 then CAT_MODE_FM else if k = 0x08 then CAT_MODE_PKTLSB
      else if k = 0x0a then CAT_MODE_PKTUSB else if k = 0x0b then CAT_MODE_PKTFM else CAT_MODE_NONE)"

definition modeset_900 :: "byte \<Rightarrow> cat_mode" where
  "modeset_900 c =
     (if c = 0x00 then CAT_MODE_LSB else if c = 0x01 then CAT_MODE_USB else if c = 0x02 \<or> c = 0x03 then CAT_MODE_CW
      else if c = 0x04 \<or> c = 0x05 then CAT_MODE_AM else if c = 0x06 then CAT_MODE_FM else CAT_MODE_NONE)"

definition mode_757 :: "byte \<Rightarrow> cat_mode" where
  "mode_757 c =
     (if c = 0x00 then CAT_MODE_LSB else if c = 0x01 then CAT_MODE_USB else if c = 0x02 \<or> c = 0x03 then CAT_MODE_CW
      else if c = 0x04 then CAT_MODE_AM else if c = 0x05 then CAT_MODE_FM else CAT_MODE_NONE)"

definition rec_mode :: "ybin_family \<Rightarrow> byte \<Rightarrow> byte \<Rightarrow> cat_mode" where
  "rec_mode fam m f =
     (let alt = f AND 0x80 \<noteq> 0 in
      if fam = FAM_920 then
        (let k = m AND 0x47 in
         if k = 0x00 then CAT_MODE_LSB else if k = 0x40 then CAT_MODE_USB else if k = 0x01 then CAT_MODE_CWR
         else if k = 0x41 then CAT_MODE_CW else if k = 0x02 then CAT_MODE_AM else if k = 0x03 then CAT_MODE_FM
         else if k = 0x04 then CAT_MODE_PKTLSB else if k = 0x05 then CAT_MODE_PKTUSB else if k = 0x06 then CAT_MODE_PKTFM
         else CAT_MODE_NONE)
      else if fam = FAM_900 then
        (let k = m AND 0x07 in
         if k = 0 then CAT_MODE_LSB else if k = 1 then CAT_MODE_USB else if k = 2 then CAT_MODE_CW
         else if k = 3 then CAT_MODE_AM else if k = 4 then CAT_MODE_FM else CAT_MODE_NONE)
      else if fam = FAM_757 then mode_757 m
      else
        (let k = m AND 0x07 in
         if k = 0 then CAT_MODE_LSB else if k = 1 then CAT_MODE_USB
         else if k = 2 then (if alt \<and> fam = FAM_MP then CAT_MODE_CWR else CAT_MODE_CW)
         else if k = 3 then (if alt \<and> fam = FAM_MP then CAT_MODE_AMS else CAT_MODE_AM)
         else if k = 4 then CAT_MODE_FM
         else if k = 5 then (if alt then CAT_MODE_RTTYR else CAT_MODE_RTTY)
         else if k = 6 then (if alt then CAT_MODE_PKTFM else CAT_MODE_PKTLSB)
         else CAT_MODE_NONE))"

section \<open>State updates\<close>

abbreviation (input) "VFO_A \<equiv> False"
abbreviation (input) "VFO_B \<equiv> True"

definition yb_slot_of :: "cat_state \<Rightarrow> bool option \<Rightarrow> int" where
  "yb_slot_of st ab =
     (case ab of None \<Rightarrow> CAT_VFO_SEL | Some b \<Rightarrow> if b = it_val (st_vfo_ab st) then CAT_VFO_SEL else CAT_VFO_UNSEL)"

definition yb_set_mode :: "bool option \<Rightarrow> cat_mode \<Rightarrow> u64 \<Rightarrow> cat_state \<Rightarrow> cat_state" where
  "yb_set_mode ab mode t st =
     (let slot = yb_slot_of st ab;
          st1 = cat_state_set_mode st slot mode t
      in if cat_mode_with_data mode True \<noteq> mode then cat_state_set_data st1 slot False t else st1)"

text \<open>A record is the offsets of the frequency and the mode byte, and that of the filter byte from there.\<close>

definition rec_freq :: "ybin_family \<Rightarrow> byte list \<Rightarrow> u32 option" where
  "rec_freq fam p =
     (if fam = FAM_757 then map_option (\<lambda>hz. hz * 10) (dec_bcd p 4 False)
      else if fam = FAM_920 then Some (dec_be p 4)
      else if fam = FAM_MP then Some (ucast ((ucast (dec_be p 4) :: u64) * 10 div 16))
      else Some (dec_be p 3 * 10))"

definition rec_apply :: "ybin_family \<Rightarrow> bool option \<Rightarrow> byte list \<Rightarrow> nat \<times> nat \<times> nat \<Rightarrow> u64 \<Rightarrow> cat_state \<Rightarrow> int \<times> cat_state" where
  "rec_apply fam ab a r t st =
     (case r of (fo, mo, fl) \<Rightarrow>
        (case rec_freq fam (drop fo a) of
           None \<Rightarrow> (-1, st)
         | Some hz \<Rightarrow>
             let mode = rec_mode fam (a ! mo) (a ! (mo + fl))
             in if hz = 0 \<or> mode = CAT_MODE_NONE then (-1, st)
                else let st1 = cat_state_set_freq st (yb_slot_of st ab) hz t
                     in (1, yb_set_mode ab mode t st1)))"

definition yb_set_split :: "bool \<Rightarrow> u64 \<Rightarrow> cat_state \<Rightarrow> cat_state" where
  "yb_set_split split t st = cat_state_set_split st split t"

definition yb_select_vfo :: "bool \<Rightarrow> u64 \<Rightarrow> cat_state \<Rightarrow> cat_state" where
  "yb_select_vfo ab t st = cat_state_select_vfo st ab t"

definition apply_eeprom :: "cat_ybin_model \<Rightarrow> u32 \<Rightarrow> byte \<Rightarrow> u64 \<Rightarrow> cat_state \<Rightarrow> int \<times> cat_state" where
  "apply_eeprom m addr v t st =
     (let ft817 = (m = CAT_YBIN_FT817) in
      if fam_of m \<noteq> FAM_817 then (0, st)
      else if addr = (if ft817 then 0x55 else 0x68) then (1, yb_select_vfo (if v AND 0x01 \<noteq> 0 then VFO_B else VFO_A) t st)
      else if addr = (if ft817 then 0x7a else 0x8d) then (1, yb_set_split (v AND 0x80 \<noteq> 0) t st)
      else (0, st))"

text \<open>The two answers to \<^verbatim>\<open>apply_answer\<close> that the families with status records share.\<close>

definition apply_flags :: "ybin_family \<Rightarrow> byte list \<Rightarrow> u64 \<Rightarrow> cat_state \<Rightarrow> int \<times> cat_state" where
  "apply_flags fam a t st =
     (if fam = FAM_MP then
        (1, yb_set_split (a ! 0 AND 0x01 \<noteq> 0) t (yb_select_vfo (if a ! 0 AND 0x10 \<noteq> 0 then VFO_B else VFO_A) t st))
      else if fam = FAM_990 then
        (1, yb_set_split (a ! 0 AND 0x01 \<noteq> 0) t (yb_select_vfo (if a ! 0 AND 0x02 \<noteq> 0 then VFO_B else VFO_A) t st))
      else if fam = FAM_1000 then (1, yb_set_split (a ! 0 AND 0x01 \<noteq> 0) t st)
      else if fam = FAM_920 then
        (let rx_b = (a ! 0 AND 0x02 \<noteq> 0); tx_b = (a ! 0 AND 0x01 \<noteq> 0)
         in (1, yb_set_split (rx_b \<noteq> tx_b) t (yb_select_vfo rx_b t st)))
      else if fam = FAM_900 then
        (let st1 = (if a ! 0 AND 0x80 \<noteq> 0 then yb_select_vfo (if a ! 0 AND 0x40 \<noteq> 0 then VFO_B else VFO_A) t st else st)
         in (1, yb_set_split (a ! 0 AND 0x04 \<noteq> 0) t st1))
      else (0, st))"

text \<open>A second record after the first, unless that one is bad.\<close>

definition then_rec :: "int \<times> cat_state \<Rightarrow> (cat_state \<Rightarrow> int \<times> cat_state) \<Rightarrow> int \<times> cat_state" where
  "then_rec r f = (if fst r < 0 then (-1, snd r) else f (snd r))"

definition apply_answer :: "cat_ybin_model \<Rightarrow> byte list \<Rightarrow> byte list \<Rightarrow> u64 \<Rightarrow> cat_state \<Rightarrow> int \<times> cat_state" where
  "apply_answer m c a t st =
     (let op = c ! 4; u = c ! 3; n = length a; fam = fam_of m in
      if fam = FAM_817 \<or> fam = FAM_847 then
        (if op = 0xbb \<and> n = 2 then apply_eeprom m (push_bit 8 (ucast (c ! 0)) OR ucast (c ! 1)) (a ! 0) t st
         else if op \<noteq> 0x03 \<or> n \<noteq> 5 then (0, st)
         else
           (let mode = mode_817 (a ! 4) in
            case dec_bcd a 4 True of
              None \<Rightarrow> (-1, st)
            | Some hz \<Rightarrow>
                if hz = 0 \<or> mode = CAT_MODE_NONE \<or> (fam = FAM_847 \<and> a ! 4 AND 0x7f > 0x08) then (-1, st)
                else (1, yb_set_mode None mode t (cat_state_set_freq st CAT_VFO_SEL (hz * 10) t))))
      else if fam = FAM_757 then
        (if (op \<noteq> 0x10 \<and> op \<noteq> 0x0e) \<or> n \<noteq> 75 then (0, st)
         else
           (let st1 = (if a ! 0 AND 0x10 = 0 then yb_select_vfo (if a ! 0 AND 0x08 \<noteq> 0 then VFO_B else VFO_A) t st else st);
                r = rec_apply fam None a (5, 9, 0) t st1;
                r2 = then_rec r (\<lambda>s. then_rec (rec_apply fam (Some VFO_A) a (10, 14, 0) t s)
                       (rec_apply fam (Some VFO_B) a (15, 19, 0) t))
            in if fst r2 < 0 then (-1, snd r2) else (fst r, snd r2)))
      else if op = 0xfa then apply_flags fam a t st
      else if op \<noteq> 0x10 \<or> (u \<noteq> 2 \<and> u \<noteq> 3) then (0, st)
      else if fam = FAM_900 then
        (if u = 2 then rec_apply fam None a (2, 7, 2) t st
         else then_rec (rec_apply fam (Some VFO_A) a (1, 6, 2) t st) (rec_apply fam (Some VFO_B) a (10, 15, 2) t))
      else if fam = FAM_920 then
        then_rec (rec_apply fam (Some VFO_A) a (1, 7, 1) t st) (rec_apply fam (Some VFO_B) a (15, 21, 1) t)
      else if u = 2 then rec_apply fam None a (1, 7, 1) t st
      else then_rec (rec_apply fam (Some VFO_A) a (1, 7, 1) t st) (rec_apply fam (Some VFO_B) (drop 16 a) (1, 7, 1) t))"

definition apply_command :: "cat_ybin_model \<Rightarrow> byte list \<Rightarrow> u64 \<Rightarrow> cat_state \<Rightarrow> int \<times> cat_state" where
  "apply_command m c t st =
     (let op = c ! 4; u = c ! 3; fam = fam_of m in
      if fam = FAM_817 \<or> fam = FAM_847 then
        (if op = 0x01 then
           (case dec_bcd c 4 True of
              None \<Rightarrow> (-1, st)
            | Some hz \<Rightarrow> if hz = 0 then (-1, st) else (1, cat_state_set_freq st CAT_VFO_SEL (hz * 10) t))
         else if op = 0x07 then
           (let mode = mode_817 (c ! 0)
            in if mode = CAT_MODE_NONE then (-1, st) else (1, yb_set_mode None mode t st))
         else if fam = FAM_847 then (0, st)
         else if op = 0x81 then (1, yb_select_vfo (\<not> it_val (st_vfo_ab st)) t st)
         else if op = 0x02 \<or> op = 0x82 then (1, yb_set_split (op = 0x02) t st)
         else (0, st))
      else if op = 0x0a \<or> op = 0x8a then
        (if op = 0x8a \<and> fam \<noteq> FAM_MP \<and> fam \<noteq> FAM_920 \<and> fam \<noteq> FAM_1000 then (0, st)
         else
           (case dec_bcd c 4 False of
              None \<Rightarrow> (-1, st)
            | Some hz \<Rightarrow>
                if hz = 0 then (-1, st)
                else
                  let ab = (if op = 0x8a then Some VFO_B else if fam = FAM_MP \<or> fam = FAM_920 then Some VFO_A else None)
                  in (1, cat_state_set_freq st (yb_slot_of st ab) (hz * 10) t)))
      else if op = 0x0c then
        (let (mode, ab) =
           (if fam = FAM_757 then (mode_757 u, None)
            else if fam = FAM_900 then (modeset_900 u, None)
            else if fam = FAM_920 then (modeset_920 u, Some (u AND 0x80 \<noteq> 0))
            else if fam = FAM_MP then (modeset_1000 u, Some (u AND 0x80 \<noteq> 0))
            else (modeset_1000 u, if u AND 0x80 \<noteq> 0 then Some VFO_B else None))
         in if mode = CAT_MODE_NONE then (-1, st) else (1, yb_set_mode ab mode t st))
      else if op = 0x05 then (if u > 1 then (0, st) else (1, yb_select_vfo (u = 1) t st))
      else (0, st))"

section \<open>Pending commands and their answers\<close>

definition yb_pend_remove :: "nat \<Rightarrow> cat_ybin \<Rightarrow> cat_ybin" where
  "yb_pend_remove i y =
     (let y1 = (if i = 0 then y\<lparr>yb_ans := []\<rparr> else y)
      in y1\<lparr>yb_pend := remove_nth i (yb_pend y1)\<rparr>)"

definition byte_gap :: "cat_ybin \<Rightarrow> u32" where
  "byte_gap y = YBIN_BYTE_GAP_MS + yb_pacing y"

definition yb_pend_live :: "cat_ybin \<Rightarrow> ybin_pending \<Rightarrow> u64 \<Rightarrow> bool" where
  "yb_pend_live y p t \<longleftrightarrow>
     (if yp_got p \<noteq> 0 then yp_last p + ucast (byte_gap y) \<ge> t
      else yp_t p + YBIN_ANSWER_MS + ucast (yb_pacing y) \<ge> t)"

definition is_ack :: "cat_ybin_model \<Rightarrow> byte list \<Rightarrow> bool" where
  "is_ack m c \<longleftrightarrow> fam_of m = FAM_817 \<and> c ! 4 \<notin> {0x03, 0xbb, 0xbd, 0xe7, 0xf7}"

text \<open>The pending command now first is due from \<open>t\<close> on.\<close>

definition due_from :: "u64 \<Rightarrow> cat_ybin \<Rightarrow> cat_ybin" where
  "due_from t y =
     (case yb_pend y of
        [] \<Rightarrow> y
      | p # ps \<Rightarrow> if yp_t p < t then y\<lparr>yb_pend := p\<lparr>yp_t := t\<rparr> # ps\<rparr> else y)"

text \<open>There is a pending command when this is called.\<close>

definition answer_done :: "bool \<Rightarrow> u64 \<Rightarrow> cat_ybin \<Rightarrow> cat_ybin" where
  "answer_done complete t y =
     (let p = yb_pend y ! 0;
          a = yb_ans y;
          y1 = due_from t (yb_pend_remove 0 y);
          (kind, r, t', y2) =
            (if \<not> complete then (if yp_var p then CAT_FRAME_REPLY else CAT_FRAME_DROPPED, 0, yp_last p, y1)
             else if yp_len p > YBIN_MAX_FRAME then (CAT_FRAME_REPLY, 0, t, y1)
             else let (r, st) = apply_answer (yb_model y1) (yp_cmd p) a t (yb_st y1)
                  in (if r < 0 then CAT_FRAME_BAD else if is_ack (yb_model y1) (yp_cmd p) then CAT_FRAME_ACK else CAT_FRAME_REPLY,
                      r, t, y1\<lparr>yb_st := st\<rparr>))
      in if a \<noteq> [] then yb_emit kind CAT_DIR_RADIO a (r > 0) (yp_own p) (yp_client p) t' y2 else y2)"

lemma yb_pend_remove_pend: "yb_pend (yb_pend_remove i y) = remove_nth i (yb_pend y)"
  by (simp add: yb_pend_remove_def Let_def)

lemma due_from_length: "length (yb_pend (due_from t y)) = length (yb_pend y)"
  by (auto simp: due_from_def split: list.split)

lemma yb_emit_pend: "yb_pend (yb_emit k d b x own c t y) = yb_pend y"
  by (simp add: yb_emit_def Let_def)

lemma answer_done_shorter: "yb_pend y \<noteq> [] \<Longrightarrow> length (yb_pend (answer_done c t y)) < length (yb_pend y)"
  by (simp add: answer_done_def Let_def split_def yb_emit_pend due_from_length yb_pend_remove_pend)

function yb_pend_expire :: "u64 \<Rightarrow> cat_ybin \<Rightarrow> cat_ybin" where
  "yb_pend_expire t y =
     (if yb_pend y \<noteq> [] \<and> \<not> yb_pend_live y (yb_pend y ! 0) t
      then yb_pend_expire t (if yp_got (yb_pend y ! 0) \<noteq> 0 then answer_done False t y else yb_pend_remove 0 y)
      else y)"
  by pat_completeness auto
termination
  by (relation "measure (\<lambda>(t, y). length (yb_pend y))") (auto simp: answer_done_shorter yb_pend_remove_pend)

function pend_giveup :: "u64 \<Rightarrow> cat_ybin \<Rightarrow> cat_ybin" where
  "pend_giveup t y =
     (if yb_pend y \<noteq> [] \<and> yp_got (yb_pend y ! 0) = 0 \<and> yp_t (yb_pend y ! 0) + GIVEUP_MS < t
      then pend_giveup t (yb_pend_remove 0 y)
      else y)"
  by pat_completeness auto
termination
  by (relation "measure (\<lambda>(t, y). length (yb_pend y))") (auto simp: yb_pend_remove_pend)

declare yb_pend_expire.simps [simp del] pend_giveup.simps [simp del]

definition yb_pend_add :: "byte list \<Rightarrow> u32 \<Rightarrow> bool \<Rightarrow> int \<Rightarrow> u64 \<Rightarrow> cat_ybin \<Rightarrow> cat_ybin" where
  "yb_pend_add c len own client t y =
     (let y1 = (if length (yb_pend y) = YB_PEND_MAX
                then (if yp_got (yb_pend y ! 0) \<noteq> 0 then answer_done False t y else yb_pend_remove 0 y)
                else y)
      in y1\<lparr>yb_pend := yb_pend y1 @ [\<lparr>yp_cmd = take YBIN_CMD_LEN c, yp_len = unat (len AND LEN_MASK), yp_var = (len AND VAR \<noteq> 0),
             yp_own = own, yp_client = client, yp_got = 0, yp_t = t, yp_last = t\<rparr>]\<rparr>)"

text \<open>Until the radio tells otherwise, VFO A is selected.\<close>

definition default_vfo :: "u64 \<Rightarrow> cat_ybin \<Rightarrow> cat_ybin" where
  "default_vfo t y =
     (if \<not> it_valid (st_vfo_ab (yb_st y)) then y\<lparr>yb_st := yb_select_vfo VFO_A t (yb_st y)\<rparr> else y)"

definition command :: "cat_dir \<Rightarrow> int \<Rightarrow> byte list \<Rightarrow> u64 \<Rightarrow> cat_ybin \<Rightarrow> cat_ybin" where
  "command dir client c t y =
     (let own = (dir = CAT_DIR_OWN);
          len = answer_len (yb_model y) c;
          y1 = pend_giveup t (yb_pend_expire t (default_vfo t y));
          y2 = (if c ! 4 = 0x0e \<and> has_pacing (yb_model y1) then y1\<lparr>yb_pacing := ucast (c ! 3)\<rparr> else y1);
          hold = (if ym_hold_ms (models (yb_model y2)) \<noteq> 0 then ym_hold_ms (models (yb_model y2)) else YBIN_HOLD_MS);
          y3 = (if len \<noteq> 0 then yb_pend_add c len own client t y2
                else y2\<lparr>yb_hold := (yb_hold y2)(if own then 0 else nat client := t + hold)\<rparr>);
          (r, st) = apply_command (yb_model y3) c t (yb_st y3)
      in yb_emit (if r < 0 then CAT_FRAME_BAD else CAT_FRAME_CMD) dir c (r > 0) own client t (y3\<lparr>yb_st := st\<rparr>))"

definition radio_byte :: "u64 \<Rightarrow> byte \<Rightarrow> cat_ybin \<Rightarrow> cat_ybin" where
  "radio_byte t b y0 =
     (let y = yb_pend_expire t y0
      in if yb_pend y = [] then yb_emit CAT_FRAME_UNMATCHED CAT_DIR_RADIO [b] False False 0 t y
         else
           let y1 = default_vfo t y;
               y2 = y1\<lparr>yb_ans := yb_ans y1 @ [b]\<rparr>;
               p = (yb_pend y2 ! 0)\<lparr>yp_got := yp_got (yb_pend y2 ! 0) + 1, yp_last := t\<rparr>;
               y3 = y2\<lparr>yb_pend := (yb_pend y2)[0 := p]\<rparr>
           in if yp_got p = yp_len p then answer_done True t y3
              else if length (yb_ans y3) = YBIN_MAX_FRAME then
                (yb_emit CAT_FRAME_REPLY CAT_DIR_RADIO (yb_ans y3) False (yp_own p) (yp_client p) t y3)\<lparr>yb_ans := []\<rparr>
              else y3)"

section \<open>Framer of commands\<close>

definition yb_set_rx :: "nat \<Rightarrow> ybin_rx \<Rightarrow> cat_ybin \<Rightarrow> cat_ybin" where
  "yb_set_rx k rx y = y\<lparr>yb_rx := (yb_rx y)(k := rx)\<rparr>"

definition rx_expire :: "nat \<Rightarrow> u64 \<Rightarrow> cat_ybin \<Rightarrow> cat_ybin" where
  "rx_expire i t y =
     (let rx = yb_rx y i
      in if yrx_buf rx = [] \<or> yrx_t rx + YBIN_CMD_GAP_MS \<ge> t then y
         else yb_set_rx i (rx\<lparr>yrx_buf := []\<rparr>)
                (yb_emit CAT_FRAME_DROPPED (if i = YRX_OWN then CAT_DIR_OWN else CAT_DIR_HOST) (yrx_buf rx) False (i = YRX_OWN)
                  (if i = YRX_OWN then 0 else int i + 1) (yrx_t rx) y))"

definition host_byte :: "cat_dir \<Rightarrow> int \<Rightarrow> nat \<Rightarrow> u64 \<Rightarrow> byte \<Rightarrow> cat_ybin \<Rightarrow> cat_ybin" where
  "host_byte dir client k t b y0 =
     (let y = rx_expire k t y0;
          rx = yb_rx y k;
          buf = yrx_buf rx @ [b]
      in if length buf = YBIN_CMD_LEN then command dir client buf t (yb_set_rx k (rx\<lparr>yrx_t := t, yrx_buf := []\<rparr>) y)
         else yb_set_rx k (rx\<lparr>yrx_t := t, yrx_buf := buf\<rparr>) y)"

definition yb_rx_partial :: "ybin_rx \<Rightarrow> u64 \<Rightarrow> bool" where
  "yb_rx_partial rx t \<longleftrightarrow> yrx_buf rx \<noteq> [] \<and> yrx_t rx + YBIN_CMD_GAP_MS \<ge> t"

section \<open>The operations a session uses\<close>

definition cat_ybin_pending :: "cat_ybin \<Rightarrow> u64 \<Rightarrow> u32" where
  "cat_ybin_pending y t =
     (let r1 = fold (\<lambda>c r. if yb_rx_partial (yb_rx y c) t \<or> yb_hold y (c + 1) > t then r OR CAT_PENDING_CLIENT else r) [0..<9] 0;
          r2 = (if yb_rx_partial (yb_rx y YRX_OWN) t \<or> yb_hold y 0 > t then r1 OR CAT_PENDING_OWN else r1)
      in fold (\<lambda>p r. if yb_pend_live y p t then r OR (if yp_own p then CAT_PENDING_OWN else CAT_PENDING_CLIENT) else r) (yb_pend y) r2)"

definition cat_ybin_client_busy :: "cat_ybin \<Rightarrow> int \<Rightarrow> u64 \<Rightarrow> bool" where
  "cat_ybin_client_busy y client t =
     (if \<not> valid_client client then False
      else if yb_rx_partial (yb_rx y (nat (client - 1))) t \<or> yb_hold y (nat client) > t then True
      else list_ex (\<lambda>p. yp_client p = client \<and> \<not> yp_own p \<and> yb_pend_live y p t) (yb_pend y))"

text \<open>The loop over the pending commands, from the last one down.\<close>

fun discard_loop :: "int \<Rightarrow> nat \<Rightarrow> cat_ybin \<Rightarrow> cat_ybin" where
  "discard_loop client 0 y = y"
| "discard_loop client (Suc i) y =
     (let p = yb_pend y ! i;
          y1 = (if yp_client p \<noteq> client \<or> yp_own p then y
                else if i = 0 \<and> yp_got (yb_pend y ! 0) \<noteq> 0 then answer_done False (yp_last (yb_pend y ! 0)) y
                else yb_pend_remove i y)
      in discard_loop client i y1)"

definition cat_ybin_client_discard :: "cat_ybin \<Rightarrow> int \<Rightarrow> cat_ybin" where
  "cat_ybin_client_discard y client =
     (if \<not> valid_client client then y
      else let k = nat (client - 1);
               y1 = yb_set_rx k ((yb_rx y k)\<lparr>yrx_buf := []\<rparr>) y;
               y2 = y1\<lparr>yb_hold := (yb_hold y1)(nat client := 0)\<rparr>
           in discard_loop client (length (yb_pend y2)) y2)"

definition cat_ybin_feed :: "cat_ybin \<Rightarrow> cat_dir \<Rightarrow> int \<Rightarrow> byte list \<Rightarrow> u64 \<Rightarrow> cat_ybin" where
  "cat_ybin_feed y dir client buf t =
     (case dir of
        CAT_DIR_HOST \<Rightarrow> if \<not> valid_client client then y else fold (host_byte dir client (nat (client - 1)) t) buf y
      | CAT_DIR_OWN \<Rightarrow> fold (host_byte dir 0 YRX_OWN t) buf y
      | CAT_DIR_RADIO \<Rightarrow> fold (radio_byte t) buf y)"

text \<open>The client and the flag whose command is being answered.\<close>

definition cat_ybin_answering :: "cat_ybin \<Rightarrow> u64 \<Rightarrow> (int \<times> bool) option" where
  "cat_ybin_answering y t =
     (if yb_pend y = [] \<or> yp_got (yb_pend y ! 0) = 0 \<or> \<not> yb_pend_live y (yb_pend y ! 0) t then None
      else Some (yp_client (yb_pend y ! 0), yp_own (yb_pend y ! 0)))"

definition cat_ybin_expire :: "u64 \<Rightarrow> cat_ybin \<Rightarrow> cat_ybin" where
  "cat_ybin_expire t y = yb_pend_expire t (fold (\<lambda>i y. rx_expire i t y) [0..<10] y)"

definition cat_ybin_query :: "cat_ybin \<Rightarrow> nat \<times> byte list" where
  "cat_ybin_query y =
     (let fam = fam_of (yb_model y);
          buf = (if fam = FAM_757 then [0, 0, 0, 0, 0x10]
                 else if fam = FAM_817 \<or> fam = FAM_847 then [0, 0, 0, 0, 0x03]
                 else [0, 0, 0, 0x02, 0x10])
      in (unat (answer_len (yb_model y) buf AND LEN_MASK), buf))"

definition cat_ybin_cat_on :: "cat_ybin \<Rightarrow> byte list" where
  "cat_ybin_cat_on y = (if fam_of (yb_model y) \<noteq> FAM_847 then [] else replicate YBIN_CMD_LEN 0)"

end
