(* ===== verification/CatYbinInv.thy ===== *)
theory CatYbinInv
  imports CatYbin
begin

text \<open>
  The binary decoder: the well-formedness of its state (\<open>yb_ok\<close>), the bytes from the radio that it
  has seen (\<open>heard\<close>), what each operation does to both, and the interpretation of the decoder
  interface.
\<close>

unbundle bit_operations_syntax

section \<open>The radio state\<close>

lemma yb_set_mode_ok: "cat_ok st \<Longrightarrow> cat_ok (yb_set_mode ab m t st)"
  using cat_apply_ok [of st "(SetMode v m, t)" for v] cat_apply_ok [of _ "(SetData v False, t)" for v]
  by (simp add: yb_set_mode_def Let_def)

lemma yb_ops_ok:
  "cat_ok st \<Longrightarrow> cat_ok (cat_state_set_freq st v hz t)" "cat_ok st \<Longrightarrow> cat_ok (yb_set_split s t st)" "cat_ok st \<Longrightarrow> cat_ok (yb_select_vfo ab t st)"
  using cat_apply_ok [of st "(SetFreq v hz, t)"] cat_apply_ok [of st "(SetSplit s, t)"] cat_apply_ok [of st "(SelectVfo ab, t)"]
  by (simp_all add: yb_set_split_def yb_select_vfo_def)

lemma rec_apply_ok: "cat_ok st \<Longrightarrow> cat_ok (snd (rec_apply fam ab a r t st))"
  by (auto simp: rec_apply_def Let_def yb_set_mode_ok yb_ops_ok split: prod.split option.split)

lemma then_rec_ok: "cat_ok (snd r) \<Longrightarrow> (\<And>s. cat_ok s \<Longrightarrow> cat_ok (snd (f s))) \<Longrightarrow> cat_ok (snd (then_rec r f))"
  by (simp add: then_rec_def)

lemma apply_flags_ok: "cat_ok st \<Longrightarrow> cat_ok (snd (apply_flags fam a t st))"
  by (simp add: apply_flags_def Let_def yb_ops_ok)

lemma apply_eeprom_ok: "cat_ok st \<Longrightarrow> cat_ok (snd (apply_eeprom m addr v t st))"
  by (simp add: apply_eeprom_def Let_def yb_ops_ok)

lemma apply_757_ok:
  "cat_ok st \<Longrightarrow> cat_ok (snd (let r = rec_apply fam None a x t st; r2 = then_rec r (\<lambda>s. then_rec (rec_apply fam (Some VFO_A) a x' t s) (rec_apply fam (Some VFO_B) a x'' t))
     in if fst r2 < 0 then (-1, snd r2) else (fst r, snd r2)))"
  by (simp add: Let_def then_rec_ok rec_apply_ok)

lemma apply_answer_ok: "cat_ok st \<Longrightarrow> cat_ok (snd (apply_answer m c a t st))"
proof -
  assume ok: "cat_ok st"
  have ifI: "(P \<Longrightarrow> cat_ok (snd x)) \<Longrightarrow> (\<not> P \<Longrightarrow> cat_ok (snd y)) \<Longrightarrow> cat_ok (snd (if P then x else y))" for P x y by simp
  have optI: "cat_ok (snd x) \<Longrightarrow> (\<And>hz. cat_ok (snd (g hz))) \<Longrightarrow> cat_ok (snd (case m of None \<Rightarrow> x | Some hz \<Rightarrow> g hz))"
    for m :: "u32 option" and x g by (cases m) simp_all
  have st: "cat_ok (if P then yb_select_vfo v t st else st)" for P v using ok by (simp add: yb_ops_ok)
  show ?thesis
    unfolding apply_answer_def Let_def
    using ok st by (intro ifI optI then_rec_ok rec_apply_ok apply_flags_ok apply_eeprom_ok) (simp_all add: yb_ops_ok yb_set_mode_ok then_rec_ok rec_apply_ok)
qed

lemma apply_command_ok: "cat_ok st \<Longrightarrow> cat_ok (snd (apply_command m c t st))"
  by (auto simp: apply_command_def Let_def yb_ops_ok yb_set_mode_ok split: option.split prod.split)

section \<open>Well-formedness\<close>

definition yb_pend_ok :: "ybin_pending \<Rightarrow> bool" where
  "yb_pend_ok p \<longleftrightarrow> length (yp_cmd p) = YBIN_CMD_LEN \<and> yp_len p \<le> 0x7fff \<and> yp_got p < yp_len p \<and>
     0 \<le> yp_client p \<and> yp_client p \<le> CAT_MAX_CLIENTS \<and> (yp_own p \<longrightarrow> yp_client p = 0)"

text \<open>A report: a piece of the radio's bytes, a command, or the start of one.\<close>

definition yb_report_ok :: "cat_frame \<Rightarrow> bool" where
  "yb_report_ok f \<longleftrightarrow>
     (if fr_dir f = CAT_DIR_RADIO
      then fr_kind f \<in> {CAT_FRAME_REPLY, CAT_FRAME_ACK, CAT_FRAME_BAD, CAT_FRAME_DROPPED, CAT_FRAME_UNMATCHED} \<and>
           0 < length (fr_buf f) \<and> length (fr_buf f) \<le> YBIN_MAX_FRAME \<and> (fr_kind f = CAT_FRAME_UNMATCHED \<longrightarrow> length (fr_buf f) = 1)
      else if fr_kind f = CAT_FRAME_DROPPED then 0 < length (fr_buf f) \<and> length (fr_buf f) < YBIN_CMD_LEN
      else fr_kind f \<in> {CAT_FRAME_CMD, CAT_FRAME_BAD} \<and> length (fr_buf f) = YBIN_CMD_LEN) \<and>
     (fr_applied f \<longrightarrow> fr_kind f \<in> {CAT_FRAME_CMD, CAT_FRAME_REPLY, CAT_FRAME_ACK}) \<and>
     0 \<le> fr_client f \<and> fr_client f \<le> CAT_MAX_CLIENTS \<and> (fr_own f \<longrightarrow> fr_client f = 0)"

text \<open>The bytes kept of an answer are those since the last piece that was passed on.\<close>

definition yb_ok0 :: "cat_ybin \<Rightarrow> bool" where
  "yb_ok0 y \<longleftrightarrow> cat_ok (yb_st y) \<and> length (yb_pend y) \<le> YB_PEND_MAX \<and> list_all yb_pend_ok (yb_pend y) \<and>
     list_all (\<lambda>p. yp_got p = 0) (tl (yb_pend y)) \<and> list_all yb_report_ok (yb_log y) \<and>
     length (yb_ans y) = (case yb_pend y of [] \<Rightarrow> 0 | p # _ \<Rightarrow> yp_got p mod YBIN_MAX_FRAME)"

definition yb_ok :: "cat_ybin \<Rightarrow> bool" where
  "yb_ok y \<longleftrightarrow> yb_ok0 y \<and> (\<forall>k. length (yrx_buf (yb_rx y k)) < YBIN_CMD_LEN)"

text \<open>All bytes of the radio so far: those reported, and those of the answer that is coming in.\<close>

definition radio_bytes :: "cat_frame list \<Rightarrow> byte list" where
  "radio_bytes fs = concat (map fr_buf (filter (\<lambda>f. fr_dir f = CAT_DIR_RADIO) fs))"

definition heard :: "cat_ybin \<Rightarrow> byte list" where
  "heard y = radio_bytes (yb_log y) @ yb_ans y"

lemma radio_bytes_append [simp]: "radio_bytes (xs @ ys) = radio_bytes xs @ radio_bytes ys"
  by (simp add: radio_bytes_def)

text \<open>
  A step that keeps the state well formed, hears nothing and leaves the framers, the model and the
  callback alone.
\<close>

definition quiet :: "cat_ybin \<Rightarrow> cat_ybin \<Rightarrow> bool" where
  "quiet y y' \<longleftrightarrow> (yb_ok0 y \<longrightarrow> yb_ok0 y' \<and> (yb_cb y \<longrightarrow> heard y' = heard y)) \<and>
     yb_cb y' = yb_cb y \<and> yb_rx y' = yb_rx y \<and> yb_model y' = yb_model y"

lemma quiet_refl [simp, intro]: "quiet y y"
  by (simp add: quiet_def)

lemma quiet_trans: "quiet x y \<Longrightarrow> quiet y z \<Longrightarrow> quiet x z"
  by (simp add: quiet_def)

lemma quiet_ok: "quiet y y' \<Longrightarrow> yb_ok0 y \<Longrightarrow> yb_ok0 y'"
  by (simp add: quiet_def)

definition yb_report :: "cat_frame_kind \<Rightarrow> cat_dir \<Rightarrow> byte list \<Rightarrow> bool \<Rightarrow> bool \<Rightarrow> int \<Rightarrow> u64 \<Rightarrow> cat_frame" where
  "yb_report kind dir buf applied own client t =
     \<lparr>fr_kind = kind, fr_dir = dir, fr_t = t, fr_buf = buf, fr_applied = applied, fr_text = False, fr_own = own, fr_client = client\<rparr>"

lemma yb_emit_fields [simp]:
  "yb_model (yb_emit k d b x own c t y) = yb_model y" "yb_st (yb_emit k d b x own c t y) = yb_st y"
  "yb_cb (yb_emit k d b x own c t y) = yb_cb y" "yb_rx (yb_emit k d b x own c t y) = yb_rx y"
  "yb_pend (yb_emit k d b x own c t y) = yb_pend y" "yb_ans (yb_emit k d b x own c t y) = yb_ans y"
  "yb_hold (yb_emit k d b x own c t y) = yb_hold y" "yb_pacing (yb_emit k d b x own c t y) = yb_pacing y"
  "yb_log (yb_emit k d b x own c t y) = yb_log y @ (if yb_cb y then [yb_report k d b x own c t] else [])"
  by (simp_all add: yb_emit_def Let_def yb_report_def)

lemma yb_report_bytes [simp]: "radio_bytes [yb_report k d b x own c t] = (if d = CAT_DIR_RADIO then b else [])"
  by (simp add: radio_bytes_def yb_report_def)

lemma radio_bytes_Nil [simp]: "radio_bytes [] = []"
  by (simp add: radio_bytes_def)

lemma yb_ok0_emit: "yb_ok0 y \<Longrightarrow> yb_report_ok (yb_report k d b x own c t) \<Longrightarrow> yb_ok0 (yb_emit k d b x own c t y)"
  by (simp add: yb_ok0_def)

lemma quiet_emit: "d \<noteq> CAT_DIR_RADIO \<Longrightarrow> yb_report_ok (yb_report k d b x own c t) \<Longrightarrow> quiet y (yb_emit k d b x own c t y)"
  by (simp add: quiet_def yb_ok0_emit heard_def)

lemma quiet_st: "(cat_ok (yb_st y) \<Longrightarrow> cat_ok st) \<Longrightarrow> quiet y (y\<lparr>yb_st := st\<rparr>)"
  by (simp add: quiet_def yb_ok0_def heard_def)

lemma quiet_hold: "quiet y (y\<lparr>yb_hold := h\<rparr>)" "quiet y (y\<lparr>yb_pacing := p\<rparr>)"
  by (simp_all add: quiet_def yb_ok0_def heard_def)

section \<open>Pending commands\<close>

lemma yb_ok0_pend: "yb_ok0 y \<Longrightarrow> i < length (yb_pend y) \<Longrightarrow> yb_pend_ok (yb_pend y ! i)"
  by (simp add: yb_ok0_def list_all_length)

text \<open>Removing a command without any answer byte.\<close>

lemma tl_remove_nth: "list_all P (tl xs) \<Longrightarrow> list_all P (tl (remove_nth i xs))"
proof (cases xs)
  case (Cons x ys)
  assume "list_all P (tl xs)"
  then show ?thesis
    using Cons by (cases i) (cases ys, auto simp: remove_nth_def list_all_iff dest!: in_set_takeD in_set_dropD)
qed (simp add: remove_nth_def)

lemma quiet_pend_remove:
  assumes "i < length (yb_pend y)" "i = 0 \<longrightarrow> yp_got (yb_pend y ! 0) = 0"
  shows "quiet y (yb_pend_remove i y)"
proof -
  have "yb_ok0 (yb_pend_remove i y) \<and> heard (yb_pend_remove i y) = heard y" if ok: "yb_ok0 y"
  proof -
    have all: "list_all yb_pend_ok (remove_nth i (yb_pend y))" "list_all (\<lambda>p. yp_got p = 0) (tl (remove_nth i (yb_pend y)))"
      using ok tl_remove_nth by (auto simp: yb_ok0_def list_all_iff dest: set_remove_nthD)
    obtain p ps where p: "yb_pend y = p # ps" using assms(1) by (cases "yb_pend y") auto
    show ?thesis
    proof (cases i)
      case 0
      then have ans: "yb_ans y = []" using ok assms p by (simp add: yb_ok0_def)
      have "length (yb_pend (yb_pend_remove 0 y)) \<le> YB_PEND_MAX" using ok p by (simp add: yb_ok0_def yb_pend_remove_pend)
      moreover have "(case ps of [] \<Rightarrow> 0 | q # _ \<Rightarrow> yp_got q mod YBIN_MAX_FRAME) = 0" using ok p by (cases ps) (auto simp: yb_ok0_def)
      ultimately show ?thesis using 0 ok all p ans by (simp add: yb_ok0_def yb_pend_remove_def Let_def heard_def)
    next
      case (Suc j)
      then have "remove_nth i (yb_pend y) = p # remove_nth j ps" using p by (simp add: remove_nth_def)
      with Suc ok all p assms(1) show ?thesis
        by (auto simp: yb_ok0_def yb_pend_remove_def Let_def heard_def)
    qed
  qed
  then show ?thesis by (simp add: quiet_def) (simp add: yb_pend_remove_def Let_def)
qed

text \<open>An answer that ends: its last piece is reported, and the next command is due.\<close>

definition before_done :: "cat_ybin \<Rightarrow> bool" where
  "before_done y \<longleftrightarrow> cat_ok (yb_st y) \<and> yb_pend y \<noteq> [] \<and> length (yb_pend y) \<le> YB_PEND_MAX \<and> list_all yb_pend_ok (tl (yb_pend y)) \<and>
     list_all (\<lambda>p. yp_got p = 0) (tl (yb_pend y)) \<and> list_all yb_report_ok (yb_log y) \<and> length (yb_ans y) \<le> YBIN_MAX_FRAME \<and>
     0 \<le> yp_client (yb_pend y ! 0) \<and> yp_client (yb_pend y ! 0) \<le> CAT_MAX_CLIENTS \<and> (yp_own (yb_pend y ! 0) \<longrightarrow> yp_client (yb_pend y ! 0) = 0)"

lemma before_doneI: "yb_ok0 y \<Longrightarrow> yb_pend y \<noteq> [] \<Longrightarrow> before_done y"
proof (cases "yb_pend y")
  case (Cons p ps)
  assume "yb_ok0 y"
  with Cons show ?thesis using mod_less_divisor [of 80 "yp_got p"] by (simp add: before_done_def yb_ok0_def yb_pend_ok_def)
qed simp

lemma due_from_fields [simp]:
  "yb_model (due_from t y) = yb_model y" "yb_st (due_from t y) = yb_st y" "yb_cb (due_from t y) = yb_cb y" "yb_rx (due_from t y) = yb_rx y"
  "yb_ans (due_from t y) = yb_ans y" "yb_hold (due_from t y) = yb_hold y" "yb_log (due_from t y) = yb_log y"
  "yb_pacing (due_from t y) = yb_pacing y" "yb_stats (due_from t y) = yb_stats y"
  by (auto simp: due_from_def split: list.split)

lemma yb_pend_remove_fields [simp]:
  "yb_model (yb_pend_remove i y) = yb_model y" "yb_st (yb_pend_remove i y) = yb_st y" "yb_cb (yb_pend_remove i y) = yb_cb y"
  "yb_rx (yb_pend_remove i y) = yb_rx y" "yb_hold (yb_pend_remove i y) = yb_hold y" "yb_log (yb_pend_remove i y) = yb_log y"
  "yb_pacing (yb_pend_remove i y) = yb_pacing y" "yb_stats (yb_pend_remove i y) = yb_stats y"
  "yb_ans (yb_pend_remove i y) = (if i = 0 then [] else yb_ans y)"
  by (simp_all add: yb_pend_remove_def Let_def)

text \<open>The pending commands after the first one is gone.\<close>

definition next_due :: "u64 \<Rightarrow> ybin_pending list \<Rightarrow> ybin_pending list" where
  "next_due t ps = (case ps of [] \<Rightarrow> [] | p # qs \<Rightarrow> (if yp_t p < t then p\<lparr>yp_t := t\<rparr> else p) # qs)"

lemma due_from_pend: "yb_pend (due_from t y) = next_due t (yb_pend y)"
  by (auto simp: due_from_def next_due_def split: list.split)

lemma answer_done_fields [simp]:
  "yb_model (answer_done c t y) = yb_model y" "yb_cb (answer_done c t y) = yb_cb y" "yb_rx (answer_done c t y) = yb_rx y"
  "yb_ans (answer_done c t y) = []" "yb_hold (answer_done c t y) = yb_hold y" "yb_pacing (answer_done c t y) = yb_pacing y"
  "yb_pend (answer_done c t y) = next_due t (remove_nth 0 (yb_pend y))"
  by (simp_all add: answer_done_def Let_def split_def due_from_pend yb_pend_remove_pend)

lemma answer_done_st: "cat_ok (yb_st y) \<Longrightarrow> cat_ok (yb_st (answer_done c t y))"
  by (simp add: answer_done_def Let_def split_def apply_answer_ok)

lemma answer_done_log:
  "\<exists>k x t'. yb_log (answer_done c t y) = yb_log y @ (if yb_ans y \<noteq> [] \<and> yb_cb y
       then [yb_report k CAT_DIR_RADIO (yb_ans y) x (yp_own (yb_pend y ! 0)) (yp_client (yb_pend y ! 0)) t'] else []) \<and>
     k \<in> {CAT_FRAME_REPLY, CAT_FRAME_ACK, CAT_FRAME_BAD, CAT_FRAME_DROPPED} \<and> (x \<longrightarrow> k \<in> {CAT_FRAME_REPLY, CAT_FRAME_ACK})"
proof -
  have g: "\<exists>k x t'. L = yb_log y @ (if yb_ans y \<noteq> [] \<and> yb_cb y then [yb_report k CAT_DIR_RADIO (yb_ans y) x own cl t'] else []) \<and>
      k \<in> {CAT_FRAME_REPLY, CAT_FRAME_ACK, CAT_FRAME_BAD, CAT_FRAME_DROPPED} \<and> (x \<longrightarrow> k \<in> {CAT_FRAME_REPLY, CAT_FRAME_ACK})"
    if "L = yb_log y @ (if yb_ans y \<noteq> [] \<and> yb_cb y then [yb_report kk CAT_DIR_RADIO (yb_ans y) xx own cl tt] else [])"
      "kk \<in> {CAT_FRAME_REPLY, CAT_FRAME_ACK, CAT_FRAME_BAD, CAT_FRAME_DROPPED}" "xx \<longrightarrow> kk \<in> {CAT_FRAME_REPLY, CAT_FRAME_ACK}"
    for L kk xx tt own cl using that by blast
  show ?thesis
  proof (cases c)
    case False
    then show ?thesis by (intro g [where kk = "if yp_var (yb_pend y ! 0) then CAT_FRAME_REPLY else CAT_FRAME_DROPPED" and xx = False and tt = "yp_last (yb_pend y ! 0)"])
      (simp_all add: answer_done_def Let_def split_def)
  next
    case True
    show ?thesis
    proof (cases "yp_len (yb_pend y ! 0) > YBIN_MAX_FRAME")
      case long: True
      with True show ?thesis by (intro g [where kk = CAT_FRAME_REPLY and xx = False and tt = t]) (simp_all add: answer_done_def Let_def split_def)
    next
      case False
      define r where "r = fst (apply_answer (yb_model y) (yp_cmd (yb_pend y ! 0)) (yb_ans y) t (yb_st y))"
      define k where "k = (if r < 0 then CAT_FRAME_BAD else if is_ack (yb_model y) (yp_cmd (yb_pend y ! 0)) then CAT_FRAME_ACK else CAT_FRAME_REPLY)"
      have "yb_log (answer_done c t y) = yb_log y @ (if yb_ans y \<noteq> [] \<and> yb_cb y
          then [yb_report k CAT_DIR_RADIO (yb_ans y) (r > 0) (yp_own (yb_pend y ! 0)) (yp_client (yb_pend y ! 0)) t] else [])"
        using True False by (simp add: answer_done_def Let_def split_def k_def r_def)
      then show ?thesis by (rule g) (simp_all add: k_def)
    qed
  qed
qed

lemma answer_done_quiet:
  assumes B: "before_done y"
  shows "yb_ok0 (answer_done c t y)" "yb_cb y \<Longrightarrow> heard (answer_done c t y) = heard y"
proof -
  obtain p ps where p: "yb_pend y = p # ps" using B by (cases "yb_pend y") (auto simp: before_done_def)
  have p0: "yb_pend y ! 0 = p" using p by simp
  obtain k x t' where log: "yb_log (answer_done c t y) = yb_log y @ (if yb_ans y \<noteq> [] \<and> yb_cb y then [yb_report k CAT_DIR_RADIO (yb_ans y) x (yp_own p) (yp_client p) t'] else [])"
    and k: "k \<in> {CAT_FRAME_REPLY, CAT_FRAME_ACK, CAT_FRAME_BAD, CAT_FRAME_DROPPED}" "x \<longrightarrow> k \<in> {CAT_FRAME_REPLY, CAT_FRAME_ACK}"
    using answer_done_log [of c t y] unfolding p0 by blast
  have rep: "list_all yb_report_ok (yb_log (answer_done c t y))"
    using B k p unfolding log by (auto simp: before_done_def yb_report_ok_def yb_report_def)
  have pend: "list_all yb_pend_ok (next_due t ps) \<and> list_all (\<lambda>p. yp_got p = 0) (next_due t ps) \<and> length (next_due t ps) = length ps"
    using B p by (cases ps) (auto simp: next_due_def before_done_def yb_pend_ok_def)
  then have "(case next_due t ps of [] \<Rightarrow> 0 | q # _ \<Rightarrow> yp_got q mod YBIN_MAX_FRAME) = 0" by (cases "next_due t ps") auto
  moreover have "list_all (\<lambda>p. yp_got p = 0) (tl (next_due t ps))" using pend by (cases "next_due t ps") auto
  ultimately show "yb_ok0 (answer_done c t y)"
    using B p rep pend answer_done_st [of y c t] by (simp add: yb_ok0_def before_done_def)
  show "yb_cb y \<Longrightarrow> heard (answer_done c t y) = heard y" by (simp add: heard_def log)
qed

lemma quiet_answer_done: "yb_pend y \<noteq> [] \<Longrightarrow> quiet y (answer_done c t y)"
  using answer_done_quiet [OF before_doneI] by (simp add: quiet_def)

text \<open>The first command goes: what both scans and a full list do with it.\<close>

definition drop_first :: "u64 \<Rightarrow> cat_ybin \<Rightarrow> cat_ybin" where
  "drop_first t y = (if yp_got (yb_pend y ! 0) \<noteq> 0 then answer_done False t y else yb_pend_remove 0 y)"

lemma quiet_drop_first: "yb_pend y \<noteq> [] \<Longrightarrow> quiet y (drop_first t y)"
  by (simp add: drop_first_def quiet_answer_done quiet_pend_remove)

lemma quiet_expire: "quiet y (yb_pend_expire t y)"
proof (induction t y rule: yb_pend_expire.induct)
  case (1 t y)
  show ?case
  proof (cases "yb_pend y \<noteq> [] \<and> \<not> yb_pend_live y (yb_pend y ! 0) t")
    case True
    with 1 have "quiet (drop_first t y) (yb_pend_expire t (drop_first t y))" by (simp add: drop_first_def)
    from quiet_trans [OF quiet_drop_first this] True show ?thesis by (subst yb_pend_expire.simps) (simp add: drop_first_def)
  next
    case False
    then show ?thesis by (subst yb_pend_expire.simps) auto
  qed
qed

lemma quiet_giveup: "quiet y (pend_giveup t y)"
proof (induction t y rule: pend_giveup.induct)
  case (1 t y)
  show ?case
  proof (cases "yb_pend y \<noteq> [] \<and> yp_got (yb_pend y ! 0) = 0 \<and> yp_t (yb_pend y ! 0) + GIVEUP_MS < t")
    case True
    then have "quiet y (yb_pend_remove 0 y)" by (intro quiet_pend_remove) auto
    from quiet_trans [OF this 1 [OF True]] True show ?thesis by (subst pend_giveup.simps) simp
  next
    case False
    then show ?thesis by (subst pend_giveup.simps) auto
  qed
qed

lemma quiet_default: "quiet y (default_vfo t y)"
  using quiet_st [of y "yb_select_vfo VFO_A t (yb_st y)"] by (simp add: default_vfo_def yb_ops_ok)

lemma len_mask: "unat (len AND LEN_MASK) \<le> 0x7fff"
proof -
  have "len AND LEN_MASK \<le> LEN_MASK" by (rule word_and_le1)
  then show ?thesis by (simp add: word_le_nat_alt)
qed

lemma quiet_pend_add:
  assumes "length c = YBIN_CMD_LEN" "len AND LEN_MASK \<noteq> 0" "0 \<le> client" "client \<le> CAT_MAX_CLIENTS" "own \<longrightarrow> client = 0"
  shows "quiet y (yb_pend_add c len own client t y)"
proof -
  let ?y1 = "if length (yb_pend y) = YB_PEND_MAX then drop_first t y else y"
  let ?p = "\<lparr>yp_cmd = take YBIN_CMD_LEN c, yp_len = unat (len AND LEN_MASK), yp_var = (len AND VAR \<noteq> 0),
             yp_own = own, yp_client = client, yp_got = 0, yp_t = t, yp_last = t\<rparr>"
  have q1: "quiet y ?y1" using quiet_drop_first [of y t] by (cases "yb_pend y") auto
  have l1: "length (yb_pend ?y1) < YB_PEND_MAX" if "yb_ok0 y"
  proof (cases "length (yb_pend y) = YB_PEND_MAX")
    case True
    then have "yb_pend y \<noteq> []" by auto
    with True answer_done_shorter [of y False t] show ?thesis by (auto simp: drop_first_def yb_pend_remove_pend)
  next
    case False
    with that show ?thesis by (simp add: yb_ok0_def)
  qed
  have p: "yb_pend_ok ?p" using assms len_mask by (simp add: yb_pend_ok_def unat_gt_0)
  have "yb_ok0 (?y1\<lparr>yb_pend := yb_pend ?y1 @ [?p]\<rparr>)" if "yb_ok0 y"
  proof -
    have ok1: "yb_ok0 ?y1" by (rule quiet_ok [OF q1 that])
    show ?thesis
    proof (cases "yb_pend ?y1")
      case Nil
      with ok1 p show ?thesis unfolding yb_ok0_def by simp
    next
      case (Cons x xs)
      with ok1 p l1 [OF that] show ?thesis unfolding yb_ok0_def by simp
    qed
  qed
  moreover have "yb_pend_add c len own client t y = ?y1\<lparr>yb_pend := yb_pend ?y1 @ [?p]\<rparr>"
    by (simp add: yb_pend_add_def drop_first_def Let_def)
  ultimately show ?thesis using q1 by (simp add: quiet_def heard_def)
qed

section \<open>Commands and bytes\<close>

text \<open>Where a command comes from: a client, or mhuxd itself.\<close>

definition yb_src_ok :: "cat_dir \<Rightarrow> int \<Rightarrow> bool" where
  "yb_src_ok dir c \<longleftrightarrow> dir \<noteq> CAT_DIR_RADIO \<and> 0 \<le> c \<and> c \<le> CAT_MAX_CLIENTS \<and> (dir = CAT_DIR_OWN \<longrightarrow> c = 0)"

lemma models_dump: "ym_dump_len (models m) \<in> {0, 649, 1941, 1508, 1636, 1863}"
  by (cases m) simp_all

text \<open>An answer length that is not 0 has a length.\<close>

lemma answer_len_mask:
  assumes "answer_len m c \<noteq> 0"
  shows "answer_len m c AND LEN_MASK \<noteq> 0"
proof -
  have ifI: "(P \<Longrightarrow> x \<noteq> 0 \<longrightarrow> x AND LEN_MASK \<noteq> 0) \<Longrightarrow> (\<not> P \<Longrightarrow> y \<noteq> 0 \<longrightarrow> y AND LEN_MASK \<noteq> 0) \<Longrightarrow>
      (if P then x else y) \<noteq> 0 \<longrightarrow> (if P then x else y) AND LEN_MASK \<noteq> 0" for P and x y :: u32 by simp
  have lens: "x \<noteq> 0 \<longrightarrow> x AND LEN_MASK \<noteq> 0" if "x \<in> {0, 1, 2, 5, 6, 8, 14, 16, 18, 19, 28, 32, 75}" for x :: u32 using that by auto
  have status: "status_lens fam ! unat u \<in> {0, 1, 2, 5, 6, 8, 14, 16, 18, 19, 28, 32, 75}"
    if "fam \<notin> {FAM_757, FAM_817, FAM_847}" "\<not> u > 4" for fam and u :: byte
  proof -
    have "unat u \<le> 4" using that(2) by (simp add: word_less_nat_alt not_less)
    then have "unat u \<in> {0, 1, 2, 3, 4}" by auto
    with that(1) show ?thesis by (cases fam) (auto simp: status_lens_def)
  qed
  have dump: "(if ym_dump_len (models m) \<noteq> 0 then ym_dump_len (models m) OR VAR else LEN_MASK OR VAR) AND LEN_MASK \<noteq> 0"
    using models_dump [of m] by auto
  have "answer_len m c \<noteq> 0 \<longrightarrow> answer_len m c AND LEN_MASK \<noteq> 0"
    unfolding answer_len_def Let_def
    by (intro ifI) (use lens status dump in \<open>auto\<close>)
  with assms show ?thesis by blast
qed

lemma quiet_command:
  assumes "length c = YBIN_CMD_LEN" "yb_src_ok dir client"
  shows "quiet y (command dir client c t y)"
proof -
  let ?own = "dir = CAT_DIR_OWN"
  let ?y1 = "pend_giveup t (yb_pend_expire t (default_vfo t y))"
  let ?y2 = "if c ! 4 = 0x0e \<and> has_pacing (yb_model ?y1) then ?y1\<lparr>yb_pacing := ucast (c ! 3)\<rparr> else ?y1"
  let ?y3 = "if answer_len (yb_model y) c \<noteq> 0 then yb_pend_add c (answer_len (yb_model y) c) ?own client t ?y2
    else ?y2\<lparr>yb_hold := (yb_hold ?y2)(if ?own then 0 else nat client :=
      t + (if ym_hold_ms (models (yb_model ?y2)) \<noteq> 0 then ym_hold_ms (models (yb_model ?y2)) else YBIN_HOLD_MS))\<rparr>"
  let ?r = "apply_command (yb_model ?y3) c t (yb_st ?y3)"
  have src: "dir \<noteq> CAT_DIR_RADIO" "0 \<le> client" "client \<le> CAT_MAX_CLIENTS" "?own \<longrightarrow> client = 0" using assms(2) by (simp_all add: yb_src_ok_def)
  have "quiet y ?y1" by (rule quiet_trans [OF quiet_trans [OF quiet_default quiet_expire] quiet_giveup])
  moreover have "quiet ?y1 ?y2" using quiet_hold(2) by simp
  moreover have "quiet ?y2 ?y3" using quiet_pend_add [OF assms(1) answer_len_mask src(2-4)] quiet_hold(1) by simp
  moreover have "quiet ?y3 (?y3\<lparr>yb_st := snd ?r\<rparr>)" by (rule quiet_st) (rule apply_command_ok)
  moreover have "quiet z (yb_emit (if fst ?r < 0 then CAT_FRAME_BAD else CAT_FRAME_CMD) dir c (fst ?r > 0) ?own client t z)" for z
    using assms(1) src by (intro quiet_emit) (simp_all add: yb_report_ok_def yb_report_def)
  ultimately have "quiet y (yb_emit (if fst ?r < 0 then CAT_FRAME_BAD else CAT_FRAME_CMD) dir c (fst ?r > 0) ?own client t (?y3\<lparr>yb_st := snd ?r\<rparr>))"
    using quiet_trans by meson
  then show ?thesis unfolding command_def Let_def split_def .
qed

text \<open>A byte from the radio is heard.\<close>

definition hears :: "byte list \<Rightarrow> cat_ybin \<Rightarrow> cat_ybin \<Rightarrow> bool" where
  "hears bs y y' \<longleftrightarrow> (yb_ok0 y \<longrightarrow> yb_ok0 y' \<and> (yb_cb y \<longrightarrow> heard y' = heard y @ bs)) \<and>
     yb_cb y' = yb_cb y \<and> yb_rx y' = yb_rx y \<and> yb_model y' = yb_model y"

lemma quiet_hears: "quiet y y' = hears [] y y'"
  by (simp add: quiet_def hears_def)

lemma hears_trans: "hears xs x y \<Longrightarrow> hears ys y z \<Longrightarrow> hears (xs @ ys) x z"
  by (simp add: hears_def)

lemma hears_unmatched: "yb_pend y = [] \<Longrightarrow> hears [b] y (yb_emit CAT_FRAME_UNMATCHED CAT_DIR_RADIO [b] False False 0 t y)"
proof -
  assume p: "yb_pend y = []"
  have "yb_report_ok (yb_report CAT_FRAME_UNMATCHED CAT_DIR_RADIO [b] False False 0 t)" by (simp add: yb_report_ok_def yb_report_def)
  with p show ?thesis by (auto simp: hears_def heard_def yb_ok0_emit) (simp add: yb_ok0_def)
qed

lemma hears_answer:
  fixes t :: u64 and b :: byte
  assumes p: "yb_pend y = p # ps"
  defines "q \<equiv> p\<lparr>yp_got := yp_got p + 1, yp_last := t\<rparr>"
  defines "z \<equiv> y\<lparr>yb_ans := yb_ans y @ [b], yb_pend := q # ps\<rparr>"
  shows "hears [b] y (if yp_got q = yp_len q then answer_done True t z
    else if length (yb_ans z) = YBIN_MAX_FRAME then
      (yb_emit CAT_FRAME_REPLY CAT_DIR_RADIO (yb_ans z) False (yp_own q) (yp_client q) t z)\<lparr>yb_ans := []\<rparr>
    else z)"
proof -
  have z: "yb_pend z = q # ps" "yb_ans z = yb_ans y @ [b]" "yb_cb z = yb_cb y" "yb_rx z = yb_rx y" "yb_model z = yb_model y"
    "yb_log z = yb_log y" "yb_st z = yb_st y" by (simp_all add: z_def)
  have q: "yp_got q = yp_got p + 1" "yp_len q = yp_len p" "yp_own q = yp_own p" "yp_client q = yp_client p" "yp_cmd q = yp_cmd p"
    by (simp_all add: q_def)
  have ok: "cat_ok (yb_st y)" "length ps < YB_PEND_MAX" "yb_pend_ok p" "list_all yb_pend_ok ps" "list_all (\<lambda>p. yp_got p = 0) ps"
    "list_all yb_report_ok (yb_log y)" "length (yb_ans y) = yp_got p mod YBIN_MAX_FRAME" if "yb_ok0 y"
    using that p by (simp_all add: yb_ok0_def)
  have B: "before_done z" if "yb_ok0 y"
    using ok [OF that] mod_less_divisor [of 80 "yp_got p"] by (simp add: before_done_def z q yb_pend_ok_def)
  have hz: "heard z = heard y @ [b]" by (simp add: heard_def z)
  show ?thesis
  proof (cases "yp_got q = yp_len q")
    case True
    have "yb_ok0 y \<Longrightarrow> yb_ok0 (answer_done True t z)" "yb_ok0 y \<Longrightarrow> yb_cb y \<Longrightarrow> heard (answer_done True t z) = heard y @ [b]"
      using answer_done_quiet [OF B] hz z(3) by simp_all
    with True z(3-5) show ?thesis by (simp add: hears_def)
  next
    case False
    have pq: "yb_pend_ok q" if "yb_ok0 y" using ok(3) [OF that] False by (simp add: yb_pend_ok_def q)
    show ?thesis
    proof (cases "length (yb_ans z) = YBIN_MAX_FRAME")
      case full: True
      let ?e = "(yb_emit CAT_FRAME_REPLY CAT_DIR_RADIO (yb_ans z) False (yp_own q) (yp_client q) t z)\<lparr>yb_ans := []\<rparr>"
      have "yp_got q mod YBIN_MAX_FRAME = 0" if "yb_ok0 y"
      proof -
        have "yp_got p mod 80 = 79" using ok(7) [OF that] full z by simp
        then show ?thesis unfolding q by presburger
      qed
      moreover have "yb_report_ok (yb_report CAT_FRAME_REPLY CAT_DIR_RADIO (yb_ans z) False (yp_own q) (yp_client q) t)" if "yb_ok0 y"
        using pq [OF that] full by (auto simp: yb_report_ok_def yb_report_def yb_pend_ok_def)
      ultimately have "yb_ok0 ?e" if "yb_ok0 y" using ok [OF that] pq [OF that] that by (simp add: yb_ok0_def z)
      moreover have "yb_cb y \<Longrightarrow> heard ?e = heard y @ [b]" using hz by (simp add: heard_def z)
      ultimately show ?thesis using False full by (simp add: hears_def z)
    next
      case short: False
      have "length (yb_ans z) = yp_got q mod YBIN_MAX_FRAME" if "yb_ok0 y"
      proof -
        have "yp_got p mod 80 \<noteq> 79" using ok(7) [OF that] short z by simp
        then have step: "(yp_got p + 1) mod 80 = yp_got p mod 80 + 1" using mod_Suc [of "yp_got p" 80] by simp
        show ?thesis unfolding z(2) q(1) step ok(7) [OF that, symmetric] by simp
      qed
      then have ans: "length (yb_ans z) = (case yb_pend z of [] \<Rightarrow> 0 | p # _ \<Rightarrow> yp_got p mod YBIN_MAX_FRAME)" if "yb_ok0 y" using that z(1) by simp
      have "yb_ok0 z" if "yb_ok0 y"
        unfolding yb_ok0_def using ok [OF that] pq [OF that] ans [OF that] by (intro conjI) (simp_all add: z(1,6,7))
      with False short hz z show ?thesis by (simp add: hears_def)
    qed
  qed
qed

lemma hears_radio_byte: "hears [b] y (radio_byte t b y)"
proof -
  let ?y = "yb_pend_expire t y"
  have e: "hears [] y ?y" using quiet_expire by (simp add: quiet_hears)
  show ?thesis
  proof (cases "yb_pend ?y")
    case Nil
    with hears_trans [OF e hears_unmatched [OF Nil]] show ?thesis by (simp add: radio_byte_def Let_def)
  next
    case (Cons p ps)
    have d: "hears [] ?y (default_vfo t ?y)" using quiet_default by (simp add: quiet_hears)
    have p: "yb_pend (default_vfo t ?y) = p # ps" using Cons by (simp add: default_vfo_def)
    from hears_trans [OF hears_trans [OF e d] hears_answer [OF p, of b t]] Cons p show ?thesis
      unfolding radio_byte_def Let_def by (simp split del: if_split cong del: if_weak_cong)
  qed
qed

lemma hears_radio: "hears bs y (fold (radio_byte t) bs y)"
proof (induction bs arbitrary: y)
  case (Cons b bs)
  from hears_trans [OF hears_radio_byte Cons] show ?case by simp
qed (simp add: hears_def)

text \<open>Framing the commands.\<close>

definition rx_short :: "cat_ybin \<Rightarrow> bool" where
  "rx_short y \<longleftrightarrow> (\<forall>k. length (yrx_buf (yb_rx y k)) < YBIN_CMD_LEN)"

lemma yb_ok_iff: "yb_ok y \<longleftrightarrow> yb_ok0 y \<and> rx_short y"
  by (simp add: yb_ok_def rx_short_def)

lemma yb_set_rx_fields [simp]:
  "yb_model (yb_set_rx k rx y) = yb_model y" "yb_st (yb_set_rx k rx y) = yb_st y" "yb_cb (yb_set_rx k rx y) = yb_cb y"
  "yb_pend (yb_set_rx k rx y) = yb_pend y" "yb_ans (yb_set_rx k rx y) = yb_ans y" "yb_hold (yb_set_rx k rx y) = yb_hold y"
  "yb_pacing (yb_set_rx k rx y) = yb_pacing y" "yb_log (yb_set_rx k rx y) = yb_log y" "yb_rx (yb_set_rx k rx y) = (yb_rx y)(k := rx)"
  "yb_ok0 (yb_set_rx k rx y) = yb_ok0 y" "heard (yb_set_rx k rx y) = heard y"
  by (simp_all add: yb_set_rx_def yb_ok0_def heard_def)

text \<open>A step of a session: it keeps the state well formed and hears the bytes.\<close>

definition step_hears :: "byte list \<Rightarrow> cat_ybin \<Rightarrow> cat_ybin \<Rightarrow> bool" where
  "step_hears bs y y' \<longleftrightarrow> (yb_ok y \<longrightarrow> yb_ok y' \<and> (yb_cb y \<longrightarrow> heard y' = heard y @ bs)) \<and> yb_cb y' = yb_cb y \<and> yb_model y' = yb_model y"

lemma step_refl [simp, intro]: "step_hears [] y y"
  by (simp add: step_hears_def)

lemma step_trans: "step_hears xs x y \<Longrightarrow> step_hears ys y z \<Longrightarrow> step_hears (xs @ ys) x z"
  by (simp add: step_hears_def)

lemma step_quiet: "quiet y y' \<Longrightarrow> step_hears [] y y'"
  by (simp add: step_hears_def quiet_def yb_ok_iff rx_short_def)

lemma step_radio: "hears bs y y' \<Longrightarrow> step_hears bs y y'"
  by (simp add: step_hears_def hears_def yb_ok_iff rx_short_def)

lemma step_set_rx: "length (yrx_buf rx) < YBIN_CMD_LEN \<Longrightarrow> step_hears [] y (yb_set_rx k rx y)"
  by (simp add: step_hears_def yb_ok_iff rx_short_def)

lemma step_rx_expire:
  assumes "k \<le> YRX_OWN"
  shows "step_hears [] y (rx_expire k t y)"
proof (cases "yrx_buf (yb_rx y k) = [] \<or> yrx_t (yb_rx y k) + YBIN_CMD_GAP_MS \<ge> t")
  case False
  let ?y = "yb_emit CAT_FRAME_DROPPED (if k = YRX_OWN then CAT_DIR_OWN else CAT_DIR_HOST) (yrx_buf (yb_rx y k)) False (k = YRX_OWN)
                  (if k = YRX_OWN then 0 else int k + 1) (yrx_t (yb_rx y k)) y"
  have e: "rx_expire k t y = yb_set_rx k ((yb_rx y k)\<lparr>yrx_buf := []\<rparr>) ?y" using False by (simp add: rx_expire_def Let_def)
  have rep: "yb_report_ok (yb_report CAT_FRAME_DROPPED (if k = YRX_OWN then CAT_DIR_OWN else CAT_DIR_HOST) (yrx_buf (yb_rx y k)) False (k = YRX_OWN)
                  (if k = YRX_OWN then 0 else int k + 1) (yrx_t (yb_rx y k)))" if "rx_short y"
    using that assms False by (auto simp: rx_short_def yb_report_ok_def yb_report_def)
  have "yb_ok0 ?y \<and> heard ?y = heard y" if "yb_ok y"
    using that rep by (simp add: yb_ok_iff yb_ok0_emit heard_def)
  then show ?thesis unfolding e by (simp add: step_hears_def yb_ok_iff rx_short_def)
qed (simp add: rx_expire_def Let_def)

lemma step_host_byte:
  assumes "k \<le> YRX_OWN" "yb_src_ok dir client"
  shows "step_hears [] y (host_byte dir client k t b y)"
proof -
  let ?y = "rx_expire k t y"
  let ?rx = "yb_rx ?y k"
  have e: "step_hears [] y ?y" by (rule step_rx_expire [OF assms(1)])
  show ?thesis
  proof (cases "length (yrx_buf ?rx @ [b]) = YBIN_CMD_LEN")
    case True
    have c: "step_hears [] (yb_set_rx k (?rx\<lparr>yrx_t := t, yrx_buf := []\<rparr>) ?y)
        (command dir client (yrx_buf ?rx @ [b]) t (yb_set_rx k (?rx\<lparr>yrx_t := t, yrx_buf := []\<rparr>) ?y))"
      by (rule step_quiet [OF quiet_command [OF True assms(2)]])
    have r: "step_hears [] ?y (yb_set_rx k (?rx\<lparr>yrx_t := t, yrx_buf := []\<rparr>) ?y)" by (rule step_set_rx) simp
    from step_trans [OF step_trans [OF e r] c] True show ?thesis by (simp add: host_byte_def Let_def)
  next
    case False
    have "length (yrx_buf ?rx @ [b]) < YBIN_CMD_LEN" if "rx_short ?y"
    proof -
      have "length (yrx_buf ?rx) < YBIN_CMD_LEN" using that by (simp add: rx_short_def)
      with False show ?thesis by simp
    qed
    then have r: "step_hears [] ?y (yb_set_rx k (?rx\<lparr>yrx_t := t, yrx_buf := yrx_buf ?rx @ [b]\<rparr>) ?y)"
      by (simp add: step_hears_def yb_ok_iff rx_short_def)
    from step_trans [OF e r] False show ?thesis by (simp add: host_byte_def Let_def)
  qed
qed

lemma step_host: "k \<le> YRX_OWN \<Longrightarrow> yb_src_ok dir client \<Longrightarrow> step_hears [] y (fold (host_byte dir client k t) bs y)"
proof (induction bs arbitrary: y)
  case (Cons b bs)
  from step_trans [OF step_host_byte [OF Cons.prems] Cons.IH [OF Cons.prems]] show ?case by simp
qed simp

lemma step_feed: "step_hears (if dir = CAT_DIR_RADIO then bs else []) y (cat_ybin_feed y dir client bs t)"
proof (cases dir)
  case CAT_DIR_HOST
  show ?thesis
  proof (cases "valid_client client")
    case True
    then have "nat (client - 1) \<le> YRX_OWN" "yb_src_ok CAT_DIR_HOST client" by (auto simp: valid_client_def yb_src_ok_def)
    with step_host True CAT_DIR_HOST show ?thesis by (simp add: cat_ybin_feed_def)
  qed (simp add: cat_ybin_feed_def CAT_DIR_HOST)
next
  case CAT_DIR_OWN
  then show ?thesis using step_host [of YRX_OWN CAT_DIR_OWN 0] by (simp add: cat_ybin_feed_def yb_src_ok_def)
next
  case CAT_DIR_RADIO
  then show ?thesis using step_radio [OF hears_radio] by (simp add: cat_ybin_feed_def)
qed

lemma step_expire: "step_hears [] y (cat_ybin_expire t y)"
proof -
  have "list_all (\<lambda>i. i \<le> YRX_OWN) is \<Longrightarrow> step_hears [] y (fold (\<lambda>i y. rx_expire i t y) is y)" for "is"
  proof (induction "is" arbitrary: y)
    case (Cons i "is")
    from step_trans [OF step_rx_expire [of i y t] Cons.IH] Cons.prems show ?case by simp
  qed simp
  from step_trans [OF this [of "[0..<10]"] step_quiet [OF quiet_expire]] show ?thesis
    by (simp add: cat_ybin_expire_def list_all_iff)
qed

section \<open>Discarding a client\<close>

definition discard_step :: "int \<Rightarrow> nat \<Rightarrow> cat_ybin \<Rightarrow> cat_ybin" where
  "discard_step client i y =
     (if yp_client (yb_pend y ! i) \<noteq> client \<or> yp_own (yb_pend y ! i) then y
      else if i = 0 \<and> yp_got (yb_pend y ! 0) \<noteq> 0 then answer_done False (yp_last (yb_pend y ! 0)) y
      else yb_pend_remove i y)"

lemma discard_loop_Suc: "discard_loop client (Suc i) y = discard_loop client i (discard_step client i y)"
  by (simp add: discard_step_def Let_def)

declare discard_loop.simps(2) [simp del]

definition is_clients :: "int \<Rightarrow> ybin_pending \<Rightarrow> bool" where
  "is_clients client p \<longleftrightarrow> yp_client p = client \<and> \<not> yp_own p"

lemma next_due_map: "map (is_clients client) (next_due t ps) = map (is_clients client) ps" "length (next_due t ps) = length ps"
  by (cases ps; simp add: next_due_def is_clients_def)+

lemma map_remove_nth: "map f (remove_nth i xs) = remove_nth i (map f xs)"
  by (simp add: remove_nth_def take_map drop_map)

lemma discard_step_pend:
  "map (is_clients client) (yb_pend (discard_step client i y)) =
     (if i < length (yb_pend y) \<and> is_clients client (yb_pend y ! i) then remove_nth i (map (is_clients client) (yb_pend y)) else map (is_clients client) (yb_pend y))"
  if "i < length (yb_pend y)"
  using that by (auto simp: discard_step_def is_clients_def [of client "yb_pend y ! _"] next_due_map map_remove_nth yb_pend_remove_pend)

lemma discard_step_quiet: "i < length (yb_pend y) \<Longrightarrow> quiet y (discard_step client i y)"
  by (auto simp: discard_step_def intro: quiet_answer_done quiet_pend_remove)

lemma discard_step_fields [simp]:
  "yb_rx (discard_step c i y) = yb_rx y" "yb_hold (discard_step c i y) = yb_hold y" "yb_st (discard_step c i y) = yb_st y"
  by (auto simp: discard_step_def answer_done_def Let_def split_def)

lemma discard_loop_spec:
  "n \<le> length (yb_pend y) \<Longrightarrow> quiet y (discard_loop c n y) \<and> yb_hold (discard_loop c n y) = yb_hold y \<and> yb_st (discard_loop c n y) = yb_st y \<and>
     map (is_clients c) (yb_pend (discard_loop c n y)) =
       filter Not (take n (map (is_clients c) (yb_pend y))) @ drop n (map (is_clients c) (yb_pend y))"
proof (induction n arbitrary: y)
  case (Suc i)
  let ?y = "discard_step c i y" and ?bs = "map (is_clients c) (yb_pend y)"
  have i: "i < length (yb_pend y)" using Suc.prems by simp
  let ?bs1 = "map (is_clients c) (yb_pend ?y)"
  have b: "?bs1 = (if ?bs ! i then remove_nth i ?bs else ?bs)" using discard_step_pend [OF i, of c] i by simp
  have l: "i \<le> length (yb_pend ?y)"
  proof -
    have "length ?bs1 \<ge> i" unfolding b using i by (simp, linarith)
    then show ?thesis by simp
  qed
  have t: "take i ?bs1 = take i ?bs" "drop i ?bs1 = (if ?bs ! i then [] else [False]) @ drop (Suc i) ?bs"
    unfolding b using i by (auto simp: remove_nth_def Cons_nth_drop_Suc [symmetric])
  have "take (Suc i) ?bs = take i ?bs @ [?bs ! i]" using i by (intro take_Suc_conv_app_nth) simp
  with Suc.IH [OF l] quiet_trans [OF discard_step_quiet [OF i, of c]] t show ?case by (simp add: discard_loop_Suc)
qed simp

lemma step_discard: "step_hears [] y (cat_ybin_client_discard y c)"
proof (cases "valid_client c")
  case True
  let ?y1 = "yb_set_rx (nat (c - 1)) ((yb_rx y (nat (c - 1)))\<lparr>yrx_buf := []\<rparr>) y"
  let ?y2 = "?y1\<lparr>yb_hold := (yb_hold ?y1)(nat c := 0)\<rparr>"
  have 1: "step_hears [] y ?y1" by (rule step_set_rx) simp
  have 2: "step_hears [] ?y1 ?y2" by (rule step_quiet [OF quiet_hold(1)])
  have 3: "step_hears [] ?y2 (discard_loop c (length (yb_pend ?y2)) ?y2)" by (rule step_quiet) (use discard_loop_spec [of "length (yb_pend ?y2)" ?y2 c] in simp)
  from step_trans [OF step_trans [OF 1 2] 3] True show ?thesis by (simp add: cat_ybin_client_discard_def Let_def)
qed (simp add: cat_ybin_client_discard_def)

lemma discard_effect:
  assumes "valid_client c"
  shows "yrx_buf (yb_rx (cat_ybin_client_discard y c) (nat (c - 1))) = []" "yb_hold (cat_ybin_client_discard y c) (nat c) = 0"
    "list_all (\<lambda>p. \<not> is_clients c p) (yb_pend (cat_ybin_client_discard y c))" "yb_st (cat_ybin_client_discard y c) = yb_st y"
proof -
  let ?y1 = "yb_set_rx (nat (c - 1)) ((yb_rx y (nat (c - 1)))\<lparr>yrx_buf := []\<rparr>) y"
  let ?y2 = "?y1\<lparr>yb_hold := (yb_hold ?y1)(nat c := 0)\<rparr>"
  have d: "cat_ybin_client_discard y c = discard_loop c (length (yb_pend ?y2)) ?y2" using assms by (simp add: cat_ybin_client_discard_def Let_def)
  note S = discard_loop_spec [of "length (yb_pend ?y2)" ?y2 c, OF order_refl]
  show "yrx_buf (yb_rx (cat_ybin_client_discard y c) (nat (c - 1))) = []" "yb_hold (cat_ybin_client_discard y c) (nat c) = 0"
    "yb_st (cat_ybin_client_discard y c) = yb_st y"
    unfolding d using S by (simp_all add: quiet_def)
  have "map (is_clients c) (yb_pend (cat_ybin_client_discard y c)) = filter Not (map (is_clients c) (yb_pend y))" unfolding d using S by simp
  then have "\<forall>x \<in> set (map (is_clients c) (yb_pend (cat_ybin_client_discard y c))). \<not> x" by (simp only: set_filter) simp
  then show "list_all (\<lambda>p. \<not> is_clients c p) (yb_pend (cat_ybin_client_discard y c))" by (simp add: list_all_iff)
qed

lemma discard_not_busy: "\<not> cat_ybin_client_busy (cat_ybin_client_discard y c) c t"
proof (cases "valid_client c")
  case True
  from discard_effect [OF this, of y] show ?thesis
    by (auto simp: cat_ybin_client_busy_def yb_rx_partial_def list_ex_iff list_all_iff is_clients_def)
qed (simp add: cat_ybin_client_busy_def)

section \<open>The interface of the decoder\<close>

interpretation ybd: cat_decoder_base yb_ok cat_ybin_feed yb_st cat_ybin_client_busy cat_ybin_client_discard
proof unfold_locales
  show "yb_ok y \<Longrightarrow> yb_ok (cat_ybin_feed y dir c bs t)" for y dir c bs t using step_feed [of dir bs y c t] by (simp add: step_hears_def)
  show "yb_ok y \<Longrightarrow> yb_ok (cat_ybin_client_discard y c)" for y c using step_discard [of y c] by (simp add: step_hears_def)
  show "yb_ok y \<Longrightarrow> cat_ok (yb_st y)" for y by (simp add: yb_ok_def yb_ok0_def)
  show "cat_ybin_feed y dir c [] t = y" for y dir c t by (cases dir) (simp_all add: cat_ybin_feed_def)
  show "cat_ybin_feed y dir c (xs @ ys) t = cat_ybin_feed (cat_ybin_feed y dir c xs t) dir c ys t" for y dir c xs ys t
    by (cases dir) (simp_all add: cat_ybin_feed_def)
  show "\<not> cat_ybin_client_busy (cat_ybin_client_discard y c) c t" for y c t by (rule discard_not_busy)
  show "yb_st (cat_ybin_client_discard y c) = yb_st y" for y c
    using discard_effect(4) by (cases "valid_client c") (simp_all add: cat_ybin_client_discard_def)
qed

end
