(* ===== verification/CatYbinSpec.thy ===== *)
theory CatYbinSpec
  imports CatYbinInv CatCivSpec
begin

text \<open>
  What the binary decoder promises: nothing of the radio's stream is lost or invented, every report
  is well formed, answers belong to the commands in their order, the status of the simple radios is
  read exactly, and its decimal codes are those of the CI-V decoder.
\<close>

unbundle bit_operations_syntax

section \<open>Runs\<close>

datatype ybin_step = YFeed cat_dir int "byte list" u64 | YDiscard int | YExpire u64

fun ybin_do :: "ybin_step \<Rightarrow> cat_ybin \<Rightarrow> cat_ybin" where
  "ybin_do (YFeed dir c bs t) y = cat_ybin_feed y dir c bs t"
| "ybin_do (YDiscard c) y = cat_ybin_client_discard y c"
| "ybin_do (YExpire t) y = cat_ybin_expire t y"

definition ybin_run :: "ybin_step list \<Rightarrow> cat_ybin \<Rightarrow> cat_ybin" where
  "ybin_run es y = fold ybin_do es y"

fun radio_input :: "ybin_step \<Rightarrow> byte list" where
  "radio_input (YFeed dir c bs t) = (if dir = CAT_DIR_RADIO then bs else [])"
| "radio_input _ = []"

lemma ybin_do_hears: "step_hears (radio_input e) y (ybin_do e y)"
  by (cases e) (simp_all only: ybin_do.simps radio_input.simps step_feed step_discard step_expire)

lemma ybin_run_hears: "step_hears (concat (map radio_input es)) y (ybin_run es y)"
proof (induction es arbitrary: y)
  case (Cons e es)
  from step_trans [OF ybin_do_hears Cons] show ?case by (simp add: ybin_run_def)
qed (simp add: ybin_run_def)

text \<open>A decoder just made, with or without a callback.\<close>

definition ybin_start :: "cat_ybin_model \<Rightarrow> bool \<Rightarrow> cat_ybin" where
  "ybin_start m cb = cat_ybin_set_frame_cb (the (cat_ybin_create (Some m) cat_state_init)) cb"

lemma ybin_start_ok [simp]: "yb_ok (ybin_start m cb)" "yb_cb (ybin_start m cb) = cb" "heard (ybin_start m cb) = []"
  by (simp_all add: ybin_start_def cat_ybin_create_def cat_ybin_set_frame_cb_def yb_ok_def yb_ok0_def heard_def)

text \<open>Claim C36. Nothing of the radio's stream is lost, invented or reordered: for every model and any run of the decoder,
  whatever commands were sent, given up, timed out or discarded, the bytes of the frames reported from the radio, in the order
  of the reports, followed by those of the answer that is still coming in, are exactly the bytes the radio sent. At most 79 of
  them wait.\<close>

theorem ybin_stream_kept:
  "concat (map fr_buf (filter (\<lambda>f. fr_dir f = CAT_DIR_RADIO) (yb_log (ybin_run es (ybin_start m True))))) @ yb_ans (ybin_run es (ybin_start m True))
     = concat (map radio_input es) \<and>
   length (yb_ans (ybin_run es (ybin_start m True))) < YBIN_MAX_FRAME"
proof -
  let ?y = "ybin_run es (ybin_start m True)"
  have h: "yb_ok ?y" "heard ?y = concat (map radio_input es)" using ybin_run_hears [of es "ybin_start m True"] by (simp_all add: step_hears_def)
  have "length (yb_ans ?y) < YBIN_MAX_FRAME" using h(1) by (auto simp: yb_ok_def yb_ok0_def split: list.splits)
  with h(2) show ?thesis by (simp add: heard_def radio_bytes_def)
qed

text \<open>Claim C39. Every report of the binary decoder is well formed and its buffers stay in bounds, after any run: frames from
  the radio have 1 to 80 bytes (1 when no command waited), commands have five, the start of a command that stopped fewer; a report
  counts as applied only when it is a command, a reply or an acknowledge; a framer holds at most four bytes, at most eight commands
  are pending, each with a positive answer length above the bytes received, and only the first of them has received any.\<close>

theorem ybin_reports_wf:
  "list_all yb_report_ok (yb_log (ybin_run es (ybin_start m cb))) \<and>
   length (yb_pend (ybin_run es (ybin_start m cb))) \<le> YB_PEND_MAX \<and>
   list_all yb_pend_ok (yb_pend (ybin_run es (ybin_start m cb))) \<and>
   list_all (\<lambda>p. yp_got p = 0) (tl (yb_pend (ybin_run es (ybin_start m cb)))) \<and>
   (\<forall>k. length (yrx_buf (yb_rx (ybin_run es (ybin_start m cb)) k)) < YBIN_CMD_LEN)"
proof -
  have "yb_ok (ybin_run es (ybin_start m cb))" using ybin_run_hears [of es "ybin_start m cb"] by (simp add: step_hears_def)
  then show ?thesis by (simp add: yb_ok_def yb_ok0_def)
qed

section \<open>An answer\<close>

text \<open>Times that do not wrap around.\<close>

definition sane :: "cat_ybin \<Rightarrow> u64 \<Rightarrow> bool" where
  "sane y t \<longleftrightarrow> yb_pacing y \<le> 255 \<and> t < 2 ^ 63"

lemma no_wrap: "t < 2 ^ 63 \<Longrightarrow> d < 2 ^ 32 \<Longrightarrow> (t :: u64) \<le> t + d"
  by (simp add: word_le_nat_alt word_less_nat_alt unat_plus_if')

lemma unat_up: "unat (ucast (x :: u32) :: u64) = unat x"
proof -
  have "unat x < 2 ^ 64" using unsigned_less [of x, where 'a = nat] by simp
  then show ?thesis by (simp add: unsigned_ucast_eq take_bit_nat_eq_self)
qed

lemma gap_live: "sane y t \<Longrightarrow> yp_got p \<noteq> 0 \<Longrightarrow> yp_last p = t \<Longrightarrow> yb_pend_live y p t"
proof -
  assume s: "sane y t" and p: "yp_got p \<noteq> 0" "yp_last p = t"
  have "unat (yb_pacing y) \<le> 255" using s by (simp add: sane_def word_le_nat_alt)
  then have "(ucast (byte_gap y) :: u64) < 2 ^ 32" by (simp add: word_less_nat_alt unat_up byte_gap_def unat_plus_if')
  from no_wrap [OF _ this, of t] s p show ?thesis by (simp add: yb_pend_live_def sane_def)
qed

lemma due_live: "sane y t \<Longrightarrow> yp_got p = 0 \<Longrightarrow> t \<le> yp_t p \<Longrightarrow> yp_t p < 2 ^ 63 \<Longrightarrow> yb_pend_live y p t"
proof -
  assume s: "sane y t" and p: "yp_got p = 0" "t \<le> yp_t p" "yp_t p < 2 ^ 63"
  have "unat (yb_pacing y) \<le> 255" using s by (simp add: sane_def word_le_nat_alt)
  then have "YBIN_ANSWER_MS + ucast (yb_pacing y) < (2 ^ 32 :: u64)" by (simp add: word_less_nat_alt unat_plus_if' unat_up)
  from no_wrap [OF p(3) this] p show ?thesis by (simp add: yb_pend_live_def add.assoc)
qed

lemma expire_live: "yb_pend y = p # ps \<Longrightarrow> yb_pend_live y p t \<Longrightarrow> yb_pend_expire t y = y"
  by (subst yb_pend_expire.simps) simp

lemma default_vfo_valid [simp]: "it_valid (st_vfo_ab (yb_st (default_vfo t y)))"
  by (auto simp: default_vfo_def yb_select_vfo_def cat_state_select_vfo_def item_set_def add_changes_def Let_def split: prod.split)

lemma default_vfo_fields [simp]:
  "yb_pend (default_vfo t y) = yb_pend y" "yb_ans (default_vfo t y) = yb_ans y" "yb_pacing (default_vfo t y) = yb_pacing y"
  "yb_model (default_vfo t y) = yb_model y" "yb_cb (default_vfo t y) = yb_cb y" "yb_log (default_vfo t y) = yb_log y"
  "yb_rx (default_vfo t y) = yb_rx y" "yb_hold (default_vfo t y) = yb_hold y"
  by (simp_all add: default_vfo_def)

lemma default_vfo_id: "it_valid (st_vfo_ab (yb_st y)) \<Longrightarrow> default_vfo t y = y"
  by (simp add: default_vfo_def)

text \<open>An answer that is coming in.\<close>

definition coming :: "u64 \<Rightarrow> byte list \<Rightarrow> ybin_pending \<Rightarrow> ybin_pending list \<Rightarrow> cat_ybin \<Rightarrow> cat_ybin" where
  "coming t a p ps y = (default_vfo t y)\<lparr>yb_ans := a, yb_pend := p\<lparr>yp_got := length a, yp_last := t\<rparr> # ps\<rparr>"

lemma coming_fields [simp]:
  "yb_pend (coming t a p ps y) = p\<lparr>yp_got := length a, yp_last := t\<rparr> # ps" "yb_ans (coming t a p ps y) = a"
  "yb_pacing (coming t a p ps y) = yb_pacing y" "yb_model (coming t a p ps y) = yb_model y" "yb_cb (coming t a p ps y) = yb_cb y"
  "yb_log (coming t a p ps y) = yb_log y" "yb_st (coming t a p ps y) = yb_st (default_vfo t y)"
  "yb_rx (coming t a p ps y) = yb_rx y" "yb_hold (coming t a p ps y) = yb_hold y"
  by (simp_all add: coming_def)

lemma sane_coming [simp]: "sane (coming t' a p ps y) t = sane y t"
  by (simp add: sane_def)

lemma byte_first:
  assumes "yb_pend y = p # ps" "yb_pend_live y p t" "yp_got p = 0" "yb_ans y = []" "yp_len p \<le> YBIN_MAX_FRAME" "0 < yp_len p"
  shows "radio_byte t b y = (if yp_len p = 1 then answer_done True t (coming t [b] p ps y) else coming t [b] p ps y)"
  using assms by (simp add: radio_byte_def Let_def expire_live coming_def)

lemma byte_next:
  assumes "sane y t" "a \<noteq> []" "length a < yp_len p" "yp_len p \<le> YBIN_MAX_FRAME"
  shows "radio_byte t b (coming t a p ps y) = (if length a + 1 = yp_len p then answer_done True t (coming t (a @ [b]) p ps y) else coming t (a @ [b]) p ps y)"
proof -
  let ?z = "coming t a p ps y"
  have live: "yb_pend_live ?z (p\<lparr>yp_got := length a, yp_last := t\<rparr>) t" using assms(1,2) by (intro gap_live) simp_all
  have d: "default_vfo t ?z = ?z" by (rule default_vfo_id) simp
  have z: "?z\<lparr>yb_ans := a @ [b], yb_pend := p\<lparr>yp_got := Suc (length a), yp_last := t\<rparr> # ps\<rparr> = coming t (a @ [b]) p ps y" by (simp add: coming_def)
  then have z2: "Suc (length a) = yp_len p \<Longrightarrow> ?z\<lparr>yb_ans := a @ [b], yb_pend := p\<lparr>yp_got := yp_len p, yp_last := t\<rparr> # ps\<rparr> = coming t (a @ [b]) p ps y" by simp
  show ?thesis
    unfolding radio_byte_def Let_def expire_live [OF coming_fields(1) live] using assms z2 by (simp add: d z)
qed

lemma answer_part:
  assumes "yb_pend y = p # ps" "yb_pend_live y p t" "yp_got p = 0" "yb_ans y = []" "yp_len p \<le> YBIN_MAX_FRAME" "sane y t"
  shows "a \<noteq> [] \<Longrightarrow> length a < yp_len p \<Longrightarrow> fold (radio_byte t) a y = coming t a p ps y"
proof (induction a rule: rev_induct)
  case (snoc b a)
  show ?case
  proof (cases "a = []")
    case True
    with snoc.prems byte_first [OF assms(1-5)] show ?thesis by simp
  next
    case False
    with snoc byte_next [OF assms(6) False, of p b ps] assms(5) show ?thesis by simp
  qed
qed simp

lemma answer_in:
  assumes "yb_pend y = p # ps" "yb_pend_live y p t" "yp_got p = 0" "yb_ans y = []" "yp_len p \<le> YBIN_MAX_FRAME" "sane y t"
    and "length a = yp_len p" "0 < yp_len p"
  shows "fold (radio_byte t) a y = answer_done True t (coming t a p ps y)"
proof (cases a rule: rev_cases)
  case (snoc a' b)
  show ?thesis
  proof (cases "a' = []")
    case True
    with snoc assms(7,8) byte_first [OF assms(1-5), of b] show ?thesis by simp
  next
    case False
    with snoc assms(5,7) answer_part [OF assms(1-6) False] byte_next [OF assms(6) False, of p b ps] show ?thesis by simp
  qed
qed (use assms in simp)

text \<open>What a finished answer reports.\<close>

lemma answer_done_report:
  assumes "yb_ans y \<noteq> []" "yb_cb y"
  shows "\<exists>f. yb_log (answer_done c t y) = yb_log y @ [f] \<and> fr_dir f = CAT_DIR_RADIO \<and> fr_buf f = yb_ans y \<and>
    fr_own f = yp_own (yb_pend y ! 0) \<and> fr_client f = yp_client (yb_pend y ! 0)"
  using answer_done_log [of c t y] assms by (auto simp: yb_report_def)

text \<open>A command waiting with its answer of at most 80 bytes.\<close>

definition waiting :: "ybin_pending \<Rightarrow> bool" where
  "waiting p \<longleftrightarrow> yp_got p = 0 \<and> 0 < yp_len p \<and> yp_len p \<le> YBIN_MAX_FRAME \<and> yp_t p < 2 ^ 63"

lemma answers:
  "list_all waiting (yb_pend y) \<Longrightarrow> (\<forall>p ps. yb_pend y = p # ps \<longrightarrow> yb_pend_live y p t) \<Longrightarrow> yb_ans y = [] \<Longrightarrow> sane y t \<Longrightarrow> yb_cb y \<Longrightarrow>
   map length as = map yp_len (yb_pend y) \<Longrightarrow>
   \<exists>fs. yb_log (fold (radio_byte t) (concat as) y) = yb_log y @ fs \<and> map fr_buf fs = as \<and> list_all (\<lambda>f. fr_dir f = CAT_DIR_RADIO) fs \<and>
     map (\<lambda>f. (fr_own f, fr_client f)) fs = map (\<lambda>p. (yp_own p, yp_client p)) (yb_pend y) \<and>
     yb_pend (fold (radio_byte t) (concat as) y) = []"
proof (induction as arbitrary: y)
  case (Cons a as)
  obtain p ps where p: "yb_pend y = p # ps" using Cons.prems(6) by (cases "yb_pend y") auto
  have w: "waiting p" "list_all waiting ps" using Cons.prems(1) p by simp_all
  have len: "length a = yp_len p" using Cons.prems(6) p by simp
  define z where "z = answer_done True t (coming t a p ps y)"
  have in1: "fold (radio_byte t) a y = z"
    unfolding z_def using Cons.prems(2,3,4) p w(1) len by (intro answer_in) (simp_all add: waiting_def)
  have zp: "yb_pend z = next_due t ps" "yb_ans z = []" "yb_cb z" "sane z t" using Cons.prems(4,5) by (simp_all add: z_def sane_def)
  have a: "a \<noteq> []" using len w(1) by (auto simp: waiting_def)
  obtain f where f: "yb_log z = yb_log y @ [f]" "fr_dir f = CAT_DIR_RADIO" "fr_buf f = a" "fr_own f = yp_own p" "fr_client f = yp_client p"
    using answer_done_report [of "coming t a p ps y" True t] a Cons.prems(5) by (auto simp: z_def)
  have nd: "list_all waiting (next_due t ps)" "map yp_len (next_due t ps) = map yp_len ps"
    "map (\<lambda>p. (yp_own p, yp_client p)) (next_due t ps) = map (\<lambda>p. (yp_own p, yp_client p)) ps"
    using w(2) Cons.prems(4) by (cases ps; auto simp: next_due_def waiting_def sane_def)+
  have live: "\<forall>q qs. yb_pend z = q # qs \<longrightarrow> yb_pend_live z q t"
  proof (intro allI impI)
    fix q qs assume q: "yb_pend z = q # qs"
    then have "waiting q" "t \<le> yp_t q" using zp(1) nd(1) by (cases ps; auto simp: next_due_def split: if_splits)+
    then show "yb_pend_live z q t" using zp(4) by (intro due_live) (simp_all add: waiting_def)
  qed
  obtain fs where fs: "yb_log (fold (radio_byte t) (concat as) z) = yb_log z @ fs" "map fr_buf fs = as" "list_all (\<lambda>f. fr_dir f = CAT_DIR_RADIO) fs"
    "map (\<lambda>f. (fr_own f, fr_client f)) fs = map (\<lambda>p. (yp_own p, yp_client p)) (yb_pend z)" "yb_pend (fold (radio_byte t) (concat as) z) = []"
    using Cons.IH [of z] nd live zp Cons.prems(6) p by auto
  show ?case
    by (rule exI [of _ "f # fs"]) (use f fs in1 p zp(1) nd(3) in simp)
qed simp

text \<open>Claim C37. Answers belong to the commands in their order: when commands wait, each for an answer of at most 80 bytes, the first
  of them still in time, and the radio sends as many bytes as all these answers have, the decoder cuts the stream exactly at
  the ends of the answers and reports each piece for the client (or for mhuxd itself) whose command it answers, oldest first;
  then no command waits any more.\<close>

theorem ybin_answers_in_order:
  assumes "list_all waiting (yb_pend y)" "\<forall>p ps. yb_pend y = p # ps \<longrightarrow> yb_pend_live y p t" "yb_ans y = []" "sane y t" "yb_cb y"
    and "map length as = map yp_len (yb_pend y)"
  shows "\<exists>fs. yb_log (cat_ybin_feed y CAT_DIR_RADIO c (concat as) t) = yb_log y @ fs \<and> map fr_buf fs = as \<and>
     list_all (\<lambda>f. fr_dir f = CAT_DIR_RADIO) fs \<and>
     map (\<lambda>f. (fr_own f, fr_client f)) fs = map (\<lambda>p. (yp_own p, yp_client p)) (yb_pend y) \<and>
     yb_pend (cat_ybin_feed y CAT_DIR_RADIO c (concat as) t) = []"
  using answers [OF assms] by (simp add: cat_ybin_feed_def)

section \<open>Decimal codes\<close>

lemma bcd_num_snoc: "bcd_num (bs @ [b]) = bcd_num bs + 100 ^ length bs * bcd_val b"
  by (induction bs) (simp_all add: algebra_simps)

lemma yb_bcd_loop_num:
  "yb_bcd_loop bs r = (if list_all bcd_digits bs then Some (r * 100 ^ length bs + of_nat (bcd_num (rev bs))) else None)"
proof (induction bs arbitrary: r)
  case (Cons b bs)
  have v: "(ucast (drop_bit 4 b) * 10 + ucast (b AND 0x0f) :: u32) = of_nat (bcd_val b)"
    by (simp only: bcd_val_def nibbles [symmetric]) simp
  have "yb_bcd_loop (b # bs) r = (if \<not> bcd_digits b then None else yb_bcd_loop bs (r * 100 + of_nat (bcd_val b)))"
    by (auto simp: bcd_digits_word add.assoc v)
  with Cons show ?case by (simp add: bcd_num_snoc algebra_simps)
qed simp

lemma dec_bcd_num:
  "dec_bcd p n be = (if list_all bcd_digits (take n p) then Some (of_nat (bcd_num (if be then rev (take n p) else take n p))) else None)"
  by (simp add: dec_bcd_def yb_bcd_loop_num list_all_rev del: take_rev)

lemma ucast_of_nat_u32: "(ucast (of_nat n :: u64) :: u32) = of_nat n"
  by (rule bit_word_eqI) (auto simp: bit_simps)

text \<open>Claim C40. The two decoders read the same decimal codes: the binary decoder's loop, which starts at the most significant
  byte and multiplies as it goes, accepts exactly the fields that the CI-V decoder's loop accepts, which starts at the least
  significant byte and keeps a multiplier, and gives the same number cut to 32 bits; for the radios that send the most
  significant byte first, on the reversed field.\<close>

theorem bcd_decoders_agree:
  "dec_bcd p n be = map_option ucast (bcd_loop (if be then rev (take n p) else take n p) 0 1)"
  by (simp add: dec_bcd_num bcd_loop_num list_all_rev ucast_of_nat_u32 del: take_rev)

section \<open>A command, a status query\<close>

lemma rx_expire_fresh: "yrx_buf (yb_rx y k) = [] \<or> t \<le> yrx_t (yb_rx y k) + YBIN_CMD_GAP_MS \<Longrightarrow> rx_expire k t y = y"
  by (auto simp: rx_expire_def Let_def)

lemma host_byte_part:
  assumes "t < 2 ^ 63" "length bs < 4"
  shows "host_byte dir client k t b (yb_set_rx k \<lparr>yrx_buf = bs, yrx_t = t\<rparr> y) = yb_set_rx k \<lparr>yrx_buf = bs @ [b], yrx_t = t\<rparr> y"
proof -
  have "rx_expire k t (yb_set_rx k \<lparr>yrx_buf = bs, yrx_t = t\<rparr> y) = yb_set_rx k \<lparr>yrx_buf = bs, yrx_t = t\<rparr> y"
    using no_wrap [OF assms(1), of YBIN_CMD_GAP_MS] by (intro rx_expire_fresh) simp
  with assms(2) show ?thesis by (simp add: host_byte_def Let_def) (simp add: yb_set_rx_def)
qed

lemma host_byte_last:
  assumes "t < 2 ^ 63" "length bs = 4"
  shows "host_byte dir client k t b (yb_set_rx k \<lparr>yrx_buf = bs, yrx_t = t\<rparr> y) =
    command dir client (bs @ [b]) t (yb_set_rx k \<lparr>yrx_buf = [], yrx_t = t\<rparr> y)"
proof -
  have "rx_expire k t (yb_set_rx k \<lparr>yrx_buf = bs, yrx_t = t\<rparr> y) = yb_set_rx k \<lparr>yrx_buf = bs, yrx_t = t\<rparr> y"
    using no_wrap [OF assms(1), of YBIN_CMD_GAP_MS] by (intro rx_expire_fresh) simp
  with assms(2) show ?thesis by (simp add: host_byte_def Let_def) (simp add: yb_set_rx_def)
qed

lemma host_byte_first:
  "yrx_buf (yb_rx y k) = [] \<Longrightarrow> host_byte dir client k t b y = yb_set_rx k \<lparr>yrx_buf = [b], yrx_t = t\<rparr> y"
  by (cases "yb_rx y k") (simp add: host_byte_def rx_expire_fresh Let_def)

lemma feed_command:
  assumes "t < 2 ^ 63" "yrx_buf (yb_rx y k) = []"
  shows "fold (host_byte dir client k t) [c0, c1, c2, c3, c4] y = command dir client [c0, c1, c2, c3, c4] t (yb_set_rx k \<lparr>yrx_buf = [], yrx_t = t\<rparr> y)"
  using assms by (simp add: host_byte_first host_byte_part host_byte_last)

text \<open>The status query of the simple radios.\<close>

abbreviation (input) "status_query \<equiv> [0, 0, 0, 0, 0x03 :: byte]"

definition status_pending :: "u64 \<Rightarrow> ybin_pending" where
  "status_pending t = \<lparr>yp_cmd = status_query, yp_len = 5, yp_var = False, yp_own = True, yp_client = 0, yp_got = 0, yp_t = t, yp_last = t\<rparr>"

lemma status_command:
  assumes "fam_of (yb_model y) \<in> {FAM_817, FAM_847}" "yb_pend y = []"
  shows "command CAT_DIR_OWN 0 status_query t y =
    yb_emit CAT_FRAME_CMD CAT_DIR_OWN status_query False True 0 t ((default_vfo t y)\<lparr>yb_pend := [status_pending t]\<rparr>)"
proof -
  have e: "yb_pend_expire t (default_vfo t y) = default_vfo t y" using assms(2) by (subst yb_pend_expire.simps) simp
  have g: "pend_giveup t (default_vfo t y) = default_vfo t y" using assms(2) by (subst pend_giveup.simps) simp
  have l: "answer_len (yb_model y) status_query = 5" using assms(1) by (auto simp: answer_len_def Let_def)
  have a: "yb_pend_add status_query 5 True 0 t (default_vfo t y) = (default_vfo t y)\<lparr>yb_pend := [status_pending t]\<rparr>"
    using assms(2) by (simp add: yb_pend_add_def status_pending_def)
  have c: "apply_command (yb_model y) status_query t st = (0, st)" for st using assms(1) by (auto simp: apply_command_def Let_def)
  show ?thesis unfolding command_def Let_def using e g l a c by simp
qed

lemma set_mode_mode: "m \<noteq> CAT_MODE_NONE \<Longrightarrow> cat_state_mode (yb_set_mode None m t st) CAT_VFO_SEL = m"
  by (cases m) (simp_all add: yb_set_mode_def yb_slot_of_def cat_state_mode_def cat_op_defs mode_without_data_def cat_mode_with_data_def Let_def split_def)

lemma set_mode_freq: "cat_state_rx_freq (yb_set_mode ab m t st) = cat_state_rx_freq st"
  by (simp add: yb_set_mode_def cat_state_rx_freq_def cat_op_defs Let_def split_def)

lemma set_freq_freq: "cat_state_rx_freq (cat_state_set_freq st CAT_VFO_SEL hz t) = hz"
  by (simp add: cat_state_rx_freq_def cat_op_defs Let_def split_def)


text \<open>Witnesses.\<close>

definition ybin_two :: cat_ybin where
  "ybin_two = (ybin_start CAT_YBIN_FT817 True)\<lparr>yb_pend :=
     [\<lparr>yp_cmd = status_query, yp_len = 5, yp_var = False, yp_own = False, yp_client = 1, yp_got = 0, yp_t = 0, yp_last = 0\<rparr>,
      \<lparr>yp_cmd = [0, 0, 0, 0, 0xe7], yp_len = 1, yp_var = False, yp_own = False, yp_client = 2, yp_got = 0, yp_t = 0, yp_last = 0\<rparr>]\<rparr>"

theorem ybin_answers_in_order_witness:
  "\<exists>fs. yb_log (cat_ybin_feed ybin_two CAT_DIR_RADIO 0 [0x14, 0x07, 0x40, 0, 1, 0x80] 5) = yb_log ybin_two @ fs \<and>
     map fr_buf fs = [[0x14, 0x07, 0x40, 0, 1], [0x80]] \<and> map (\<lambda>f. (fr_own f, fr_client f)) fs = [(False, 1), (False, 2)]"
proof -
  have y: "yb_pend ybin_two = [\<lparr>yp_cmd = status_query, yp_len = 5, yp_var = False, yp_own = False, yp_client = 1, yp_got = 0, yp_t = 0, yp_last = 0\<rparr>,
      \<lparr>yp_cmd = [0, 0, 0, 0, 0xe7], yp_len = 1, yp_var = False, yp_own = False, yp_client = 2, yp_got = 0, yp_t = 0, yp_last = 0\<rparr>]"
    "yb_ans ybin_two = []" "yb_cb ybin_two" "yb_pacing ybin_two = 0"
    by (simp_all add: ybin_two_def ybin_start_def cat_ybin_create_def cat_ybin_set_frame_cb_def)
  have w: "list_all waiting (yb_pend ybin_two)" by (simp add: y(1) waiting_def)
  have l: "\<forall>p ps. yb_pend ybin_two = p # ps \<longrightarrow> yb_pend_live ybin_two p 5" by (simp add: y yb_pend_live_def)
  have s: "sane ybin_two 5" by (simp add: sane_def y(4))
  have n: "map length [[0x14, 0x07, 0x40, 0, 1], [0x80 :: byte]] = map yp_len (yb_pend ybin_two)" by (simp add: y(1))
  have c: "[0x14, 0x07, 0x40, 0, 1, 0x80 :: byte] = concat [[0x14, 0x07, 0x40, 0, 1], [0x80]]" by simp
  from ybin_answers_in_order [OF w l y(2) s y(3) n, of 0] show ?thesis
    unfolding c by (elim exE conjE) (rule exI, intro conjI, assumption, assumption, simp add: y(1))
qed


end
