(* ===== verification/PgList.thy ===== *)
theory PgList
  imports Prelude
begin

text \<open>
  \<^verbatim>\<open>src/pglist.c\<close>, \<^verbatim>\<open>src/pglist.h\<close>: the intrusive doubly linked list that the modules keep their
  entries in. The store maps a cell to the pointer it holds; a node is two cells (successor,
  predecessor), a list header three (head, tail, predecessor of the tail), of which the first two
  and the last two are the two sentinel nodes, as the casts of the C code have it. The null pointer
  is 0. The asserts only check a pointer that was just written. What the operations promise is
  stated on the list of nodes that a store holds (\<open>pg_list\<close>).
\<close>

type_synonym ptr = nat
type_synonym store = "ptr \<Rightarrow> ptr"

abbreviation (input) "pn_Succ n \<equiv> n"
abbreviation (input) "pn_Pred n \<equiv> n + 1"
abbreviation (input) "pl_Head l \<equiv> l"
abbreviation (input) "pl_Tail l \<equiv> l + 1"
abbreviation (input) "pl_TailPred l \<equiv> l + 2"

section \<open>Operations\<close>

definition PG_NewList :: "ptr \<Rightarrow> store \<Rightarrow> store" where
  "PG_NewList l h =
     (let h1 = h(pl_Head l := pl_Tail l);
          h2 = h1(pl_Tail l := 0)
      in h2(pl_TailPred l := l))"

definition PG_AddHead :: "ptr \<Rightarrow> ptr \<Rightarrow> store \<Rightarrow> store" where
  "PG_AddHead l n h =
     (let h1 = h(pn_Pred n := l);
          h2 = h1(pn_Succ n := h1 (pl_Head l));
          h3 = h2(pn_Pred (h2 (pn_Succ n)) := n)
      in h3(pl_Head l := n))"

definition PG_AddTail :: "ptr \<Rightarrow> ptr \<Rightarrow> store \<Rightarrow> store" where
  "PG_AddTail l n h =
     (let h1 = h(pn_Succ (h (pl_TailPred l)) := n);
          h2 = h1(pn_Pred n := h1 (pl_TailPred l));
          h3 = h2(pn_Succ n := pl_Tail l)
      in h3(pl_TailPred l := n))"

definition PG_Insert :: "ptr \<Rightarrow> ptr \<Rightarrow> ptr \<Rightarrow> store \<Rightarrow> store" where
  "PG_Insert l nnew after h =
     (let h1 = h(pn_Pred nnew := after);
          h2 = h1(pn_Succ nnew := h1 (pn_Succ after));
          h3 = h2(pn_Pred (h2 (pn_Succ after)) := nnew)
      in h3(pn_Succ after := nnew))"

definition PG_Remove :: "ptr \<Rightarrow> store \<Rightarrow> store" where
  "PG_Remove n h =
     (let h1 = h(pn_Pred (h (pn_Succ n)) := h (pn_Pred n))
      in h1(pn_Succ (h1 (pn_Pred n)) := h1 (pn_Succ n)))"

text \<open>
  \<^verbatim>\<open>PG_SCANLIST\<close> from a node: the loop stops at a node without successor, and may run forever on
  a store that holds no list. The three loops that scan.
\<close>

partial_function (option) scan_find :: "store \<Rightarrow> ptr \<Rightarrow> ptr \<Rightarrow> bool option" where
  "scan_find h n s =
     (if h (pn_Succ s) = 0 then Some False
      else if n = s then Some True
      else scan_find h n (h (pn_Succ s)))"

partial_function (option) scan_count :: "store \<Rightarrow> ptr \<Rightarrow> int \<Rightarrow> int option" where
  "scan_count h s cnt = (if h (pn_Succ s) = 0 then Some cnt else scan_count h (h (pn_Succ s)) (cnt + 1))"

definition PG_CheckedRemove :: "ptr \<Rightarrow> ptr \<Rightarrow> store \<Rightarrow> (bool \<times> store) option" where
  "PG_CheckedRemove l n h =
     (case scan_find h n (h (pl_Head l)) of None \<Rightarrow> None
      | Some True \<Rightarrow> Some (True, PG_Remove n h)
      | Some False \<Rightarrow> Some (False, h))"

definition PG_Contains :: "ptr \<Rightarrow> ptr \<Rightarrow> store \<Rightarrow> bool option" where
  "PG_Contains l n h = scan_find h n (h (pl_Head l))"

definition PG_Count :: "ptr \<Rightarrow> store \<Rightarrow> int option" where
  "PG_Count l h = scan_count h (h (pl_Head l)) 0"

definition PG_LISTEMPTY :: "ptr \<Rightarrow> store \<Rightarrow> bool" where
  "PG_LISTEMPTY l h \<longleftrightarrow> h (pn_Succ (h (pl_Head l))) = 0"

definition PG_FIRSTENTRY :: "ptr \<Rightarrow> store \<Rightarrow> ptr" where
  "PG_FIRSTENTRY l h = (if PG_LISTEMPTY l h then 0 else h (pl_Head l))"

definition PG_LASTENTRY :: "ptr \<Rightarrow> store \<Rightarrow> ptr" where
  "PG_LASTENTRY l h = (if PG_LISTEMPTY l h then 0 else h (pl_TailPred l))"

section \<open>The list that a store holds\<close>

text \<open>From node \<open>p\<close> over the nodes \<open>xs\<close> to node \<open>e\<close>, linked both ways.\<close>

fun linked :: "store \<Rightarrow> ptr \<Rightarrow> ptr list \<Rightarrow> ptr \<Rightarrow> bool" where
  "linked h p [] e \<longleftrightarrow> h (pn_Succ p) = e \<and> h (pn_Pred e) = p"
| "linked h p (x # xs) e \<longleftrightarrow> h (pn_Succ p) = x \<and> h (pn_Pred x) = p \<and> linked h x xs e"

text \<open>Two nodes that do not overlap, and a node apart from a header.\<close>

definition apart :: "ptr \<Rightarrow> ptr \<Rightarrow> bool" where
  "apart x y \<longleftrightarrow> x \<noteq> y \<and> x \<noteq> y + 1 \<and> y \<noteq> x + 1"

definition off_list :: "ptr \<Rightarrow> ptr \<Rightarrow> bool" where
  "off_list l x \<longleftrightarrow> x \<noteq> 0 \<and> x \<notin> {l, l + 1, l + 2} \<and> x + 1 \<notin> {l, l + 1, l + 2}"

fun nodes_apart :: "ptr list \<Rightarrow> bool" where
  "nodes_apart [] \<longleftrightarrow> True"
| "nodes_apart (x # xs) \<longleftrightarrow> (\<forall>y \<in> set xs. apart x y) \<and> nodes_apart xs"

definition pg_list :: "ptr \<Rightarrow> ptr list \<Rightarrow> store \<Rightarrow> bool" where
  "pg_list l xs h \<longleftrightarrow> l \<noteq> 0 \<and> h (pl_Tail l) = 0 \<and> linked h l xs (pl_Tail l) \<and> nodes_apart xs \<and> (\<forall>x \<in> set xs. off_list l x)"

text \<open>A node that may be put into a list.\<close>

definition fresh :: "ptr \<Rightarrow> ptr list \<Rightarrow> ptr \<Rightarrow> bool" where
  "fresh l xs n \<longleftrightarrow> off_list l n \<and> (\<forall>x \<in> set xs. apart n x)"

lemma linked_append: "linked h p (xs @ y # ys) e \<longleftrightarrow> linked h p xs y \<and> linked h y ys e"
  by (induction xs arbitrary: p) auto

lemma nodes_apart_append: "nodes_apart (xs @ ys) \<longleftrightarrow> nodes_apart xs \<and> nodes_apart ys \<and> (\<forall>x \<in> set xs. \<forall>y \<in> set ys. apart x y)"
  by (induction xs) auto

lemma nodes_apart_distinct: "nodes_apart xs \<Longrightarrow> distinct xs"
  by (induction xs) (auto simp: apart_def)

text \<open>A chain only reads the cells of its nodes.\<close>

lemma linked_frame:
  assumes "linked h p xs e" "h' (pn_Succ p) = h (pn_Succ p)" "h' (pn_Pred e) = h (pn_Pred e)"
    and "\<And>x. x \<in> set xs \<Longrightarrow> h' (pn_Succ x) = h (pn_Succ x) \<and> h' (pn_Pred x) = h (pn_Pred x)"
  shows "linked h' p xs e"
  using assms by (induction xs arbitrary: p) auto

lemma linked_ends:
  "linked h p xs e \<Longrightarrow> h (pn_Pred e) = last (p # xs)" "linked h p xs e \<Longrightarrow> h (pn_Succ p) = hd (xs @ [e])"
  by (induction xs arbitrary: p) auto

text \<open>A chain whose last link goes to another node.\<close>

lemma linked_retarget:
  "linked h p xs e \<Longrightarrow> distinct (p # xs) \<Longrightarrow> (\<And>x. x \<in> set (p # xs) \<Longrightarrow> x \<noteq> last (p # xs) \<Longrightarrow> h' (pn_Succ x) = h (pn_Succ x)) \<Longrightarrow>
   (\<And>x. x \<in> set xs \<Longrightarrow> h' (pn_Pred x) = h (pn_Pred x)) \<Longrightarrow> h' (pn_Succ (last (p # xs))) = e' \<Longrightarrow> h' (pn_Pred e') = last (p # xs) \<Longrightarrow>
   linked h' p xs e'"
proof (induction xs arbitrary: p)
  case (Cons x xs)
  have "linked h' x xs e'" using Cons.prems by (intro Cons.IH) (auto split: if_splits)
  moreover have "p \<noteq> last (x # xs)" using Cons.prems(2) last_in_set [of "x # xs"] by (metis distinct.simps(2) list.distinct(1))
  ultimately show ?case using Cons.prems by auto
qed simp

section \<open>Putting a node between two neighbours, taking a node out\<close>

lemma pg_listD:
  assumes "pg_list l xs h"
  shows "l \<noteq> 0" "h (l + 1) = 0" "linked h l xs (l + 1)" "nodes_apart xs" "\<And>x. x \<in> set xs \<Longrightarrow> off_list l x" "distinct (l # xs)"
  using assms nodes_apart_distinct by (auto simp: pg_list_def off_list_def)

lemma nodes_sep: "nodes_apart zs \<Longrightarrow> x \<in> set zs \<Longrightarrow> y \<in> set zs \<Longrightarrow> x \<noteq> Suc y"
  by (induction zs) (auto simp: apart_def)

lemma off_listD: "off_list l x \<Longrightarrow> x \<noteq> 0 \<and> x \<noteq> l \<and> x \<noteq> Suc l \<and> x \<noteq> Suc (Suc l) \<and> Suc x \<noteq> l"
  by (simp add: off_list_def)

lemma last_in: "last (p # xs) = p \<or> last (p # xs) \<in> set xs"
  by auto

lemma hd_in: "hd (xs @ [e]) = e \<or> hd (xs @ [e]) \<in> set xs"
  by (cases xs) auto

text \<open>Two chains meeting at a gap, over a changed store: the first one's last link and the second one's first are new.\<close>

lemma pg_join:
  assumes L: "linked h l xs e0" "ys = [] \<or> linked h (hd ys) (tl ys) (l + 1)"
    and sep: "nodes_apart (xs @ ys)" and off: "\<And>x. x \<in> set (xs @ ys) \<Longrightarrow> off_list l x"
    and p: "p = last (l # xs)" and e: "e = hd (ys @ [l + 1])"
    and same: "\<And>a. a \<noteq> p \<Longrightarrow> a \<noteq> Suc e \<Longrightarrow> a \<in> {l, Suc l, Suc (Suc l)} \<union> set (xs @ ys) \<union> Suc ` set (xs @ ys) \<Longrightarrow> h' a = h a"
    and m: "h' p = m" "h' (Suc m) = p" "ys = [] \<or> h' (Suc e) = m'"
  shows "linked h' l xs m \<and> (ys = [] \<or> linked h' (hd ys) (tl ys) (l + 1)) \<and> h' (Suc l) = h (Suc l)"
proof -
  have pe: "p = l \<or> p \<in> set xs" "e = l + 1 \<or> e \<in> set ys" using last_in [of l xs] hd_in [of ys "l + 1"] p e by auto
  have dist: "distinct (xs @ ys)" using sep by (rule nodes_apart_distinct)
  have S: "\<And>x y. x \<in> set (xs @ ys) \<Longrightarrow> y \<in> set (xs @ ys) \<Longrightarrow> x \<noteq> Suc y" using nodes_sep [OF sep] .
  have O: "\<And>x. x \<in> set (xs @ ys) \<Longrightarrow> x \<noteq> 0 \<and> x \<noteq> l \<and> x \<noteq> Suc l \<and> x \<noteq> Suc (Suc l) \<and> Suc x \<noteq> l" using off off_listD by blast
  have succ: "h' x = h x" if "x \<in> set (l # xs @ ys)" "x \<noteq> p" for x
  proof -
    have "x \<noteq> Suc e" using that pe S O by (auto dest: O)
    with that show ?thesis by (intro same) auto
  qed
  have pred: "h' (Suc x) = h (Suc x)" if "x \<in> set (xs @ ys) \<or> x = Suc l" "x \<noteq> e" for x
  proof -
    have "Suc x \<noteq> p" using that pe(1) S [of p x] O [of x] O [of p] by auto
    with that show ?thesis by (intro same) auto
  qed
  have "linked h' l xs m"
  proof (rule linked_retarget [OF L(1)])
    show "distinct (l # xs)" using dist O by (auto dest: O)
    show "h' (pn_Pred x) = h (pn_Pred x)" if "x \<in> set xs" for x
      using that pe(2) dist O [of x] pred [of x] by auto
  qed (use succ m p in auto)
  moreover have "linked h' (hd ys) (tl ys) (l + 1)" if "ys \<noteq> []"
  proof (rule linked_frame)
    have y: "hd ys \<in> set ys" "e = hd ys" using that e by simp_all
    then have ne: "e \<noteq> Suc l" using O [of e] by auto
    have "h' (Suc (Suc l)) = h (Suc (Suc l))" using pred [of "Suc l"] ne by blast
    then show "h' (pn_Pred (l + 1)) = h (pn_Pred (l + 1))" by simp
    have yp: "z \<noteq> p" if "z \<in> set ys" for z using that pe(1) dist O [of z] by auto
    show "h' (pn_Succ (hd ys)) = h (pn_Succ (hd ys))" using y yp succ by simp
    show "h' (pn_Succ x) = h (pn_Succ x) \<and> h' (pn_Pred x) = h (pn_Pred x)" if "x \<in> set (tl ys)" for x
    proof -
      have x: "x \<in> set ys" "x \<noteq> e" using that \<open>ys \<noteq> []\<close> dist y by (cases ys, auto)+
      then show ?thesis using yp succ pred by simp
    qed
    show "linked h (hd ys) (tl ys) (l + 1)" using L(2) that by simp
  qed
  moreover have "h' (Suc l) = h (Suc l)"
    using pe O S by (intro same) (auto dest: O)
  ultimately show ?thesis by blast
qed

text \<open>Neighbours of a gap.\<close>

lemma linked_gap: "linked h l (xs @ ys) t \<Longrightarrow> linked h l xs (hd (ys @ [t])) \<and> (ys = [] \<or> linked h (hd ys) (tl ys) t)"
  by (cases ys) (auto simp: linked_append)

lemma linked_glue: "linked h p xs n \<Longrightarrow> h n = hd (ys @ [t]) \<Longrightarrow> h (Suc (hd (ys @ [t]))) = n \<Longrightarrow> ys = [] \<or> linked h (hd ys) (tl ys) t \<Longrightarrow>
    linked h p (xs @ n # ys) t"
  by (cases ys) (auto simp: linked_append)

lemma linked_glue0: "linked h p xs (hd (ys @ [t])) \<Longrightarrow> ys = [] \<or> linked h (hd ys) (tl ys) t \<Longrightarrow> linked h p (xs @ ys) t"
  by (cases ys) (auto simp: linked_append)

lemma pg_put:
  assumes L: "pg_list l (xs @ ys) h" and n: "fresh l (xs @ ys) n" and p: "p = last (l # xs)" and e: "e = hd (ys @ [l + 1])"
    and h': "h' = h(n + 1 := p, n := e, e + 1 := n, p := n)"
  shows "pg_list l (xs @ n # ys) h'"
proof -
  note D = pg_listD [OF L]
  have ap: "nodes_apart (xs @ n # ys)" using D(4) n by (auto simp: nodes_apart_append fresh_def apart_def)
  have off: "off_list l x" if "x \<in> set (xs @ n # ys)" for x using that n D(5) by (auto simp: fresh_def)
  have pe: "p = l \<or> p \<in> set xs" "e = l + 1 \<or> e \<in> set ys" using last_in [of l xs] hd_in [of ys "l + 1"] p e by auto
  have S: "\<And>x y. x \<in> set (xs @ n # ys) \<Longrightarrow> y \<in> set (xs @ n # ys) \<Longrightarrow> x \<noteq> Suc y" using nodes_sep [OF ap] .
  have O: "\<And>x. x \<in> set (xs @ n # ys) \<Longrightarrow> x \<noteq> 0 \<and> x \<noteq> l \<and> x \<noteq> Suc l \<and> x \<noteq> Suc (Suc l) \<and> Suc x \<noteq> l" using off off_listD by blast
  have d: "distinct (xs @ n # ys)" using ap by (rule nodes_apart_distinct)
  have N: "n \<noteq> p" "n \<noteq> Suc p" "Suc n \<noteq> p" "n \<noteq> e" "n \<noteq> Suc e" "Suc n \<noteq> Suc e" "Suc e \<noteq> p"
    using pe d O [of n] O [of p] O [of e] S [of n p] S [of p n] S [of n e] S [of p e] by auto
  have J: "linked h' l xs n \<and> (ys = [] \<or> linked h' (hd ys) (tl ys) (l + 1)) \<and> h' (Suc l) = h (Suc l)"
  proof (rule pg_join [OF _ _ _ _ p e])
    show "linked h l xs (hd (ys @ [l + 1]))" "ys = [] \<or> linked h (hd ys) (tl ys) (l + 1)" using linked_gap [OF D(3)] by simp_all
    show "nodes_apart (xs @ ys)" by (rule D(4))
    show "off_list l x" if "x \<in> set (xs @ ys)" for x using that by (rule D(5))
    show "h' a = h a" if "a \<noteq> p" "a \<noteq> Suc e" "a \<in> {l, Suc l, Suc (Suc l)} \<union> set (xs @ ys) \<union> Suc ` set (xs @ ys)" for a
    proof -
      have "a \<noteq> n" "a \<noteq> Suc n" using that(3) d O [of n] O S by auto
      with that h' show ?thesis by simp
    qed
    show "h' p = n" "h' (Suc n) = p" using h' N by simp_all
    show "ys = [] \<or> h' (Suc e) = n" using h' N by simp
  qed
  have "linked h' l (xs @ n # ys) (l + 1)"
    using J by (intro linked_glue) (use h' N e in simp_all)
  then show ?thesis using D(1,2) ap off J by (simp add: pg_list_def)
qed

lemma pg_take:
  assumes L: "pg_list l (xs @ n # ys) h" and p: "p = last (l # xs)" and e: "e = hd (ys @ [l + 1])" and h': "h' = h(e + 1 := p, p := e)"
  shows "pg_list l (xs @ ys) h'"
proof -
  note D = pg_listD [OF L]
  have off: "off_list l x" if "x \<in> set (xs @ ys)" for x using that D(5) by simp
  have ap: "nodes_apart (xs @ ys)" using D(4) by (auto simp: nodes_apart_append)
  have pe: "p = l \<or> p \<in> set xs" "e = l + 1 \<or> e \<in> set ys" using last_in [of l xs] hd_in [of ys "l + 1"] p e by auto
  have N: "Suc e \<noteq> p" using pe nodes_sep [OF ap, of p e] off off_listD [of l p] off_listD [of l e] by auto
  have J: "linked h' l xs e \<and> (ys = [] \<or> linked h' (hd ys) (tl ys) (l + 1)) \<and> h' (Suc l) = h (Suc l)"
  proof (rule pg_join [OF _ _ ap off p e])
    show "linked h l xs n" "ys = [] \<or> linked h (hd ys) (tl ys) (l + 1)"
      using linked_gap [of h l xs "n # ys" "l + 1"] linked_gap [of h n "[]" "ys" "l + 1"] D(3) by (auto simp: linked_append split: list.splits)
    show "h' p = e" "h' (Suc e) = p" using h' N by simp_all
    show "ys = [] \<or> h' (Suc e) = p" using h' N by simp
  qed (use h' in simp_all)
  then have "linked h' l (xs @ ys) (l + 1)" using e by (intro linked_glue0) simp_all
  then show ?thesis using D(1,2) ap off J by (simp add: pg_list_def)
qed

section \<open>The operations on the list held\<close>

lemma pg_new: "l \<noteq> 0 \<Longrightarrow> pg_list l [] (PG_NewList l h)"
  by (simp add: pg_list_def PG_NewList_def Let_def)

lemma pg_add_head: "pg_list l xs h \<Longrightarrow> fresh l xs n \<Longrightarrow> pg_list l (n # xs) (PG_AddHead l n h)"
proof -
  assume L: "pg_list l xs h" and n: "fresh l xs n"
  have e: "h l = hd (xs @ [l + 1])" using linked_ends(2) [OF pg_listD(3) [OF L]] by simp
  have "n \<noteq> l" "Suc n \<noteq> l" using n by (auto simp: fresh_def off_list_def)
  then have "PG_AddHead l n h = h(n + 1 := l, n := h l, h l + 1 := n, l := n)" by (simp add: PG_AddHead_def Let_def)
  with pg_put [of l "[]" xs h n l "h l"] L n e show ?thesis by simp
qed

lemma pg_add_tail: "pg_list l xs h \<Longrightarrow> fresh l xs n \<Longrightarrow> pg_list l (xs @ [n]) (PG_AddTail l n h)"
proof -
  assume L: "pg_list l xs h" and n: "fresh l xs n"
  define p where "p = last (l # xs)"
  have p: "h (l + 2) = p" using linked_ends(1) [OF pg_listD(3) [OF L]] by (simp add: p_def)
  have off: "off_list l n" using n by (simp add: fresh_def)
  have q: "p = l \<or> p \<in> set xs" unfolding p_def by (rule last_in)
  have nl: "n \<noteq> l + 2" "n + 1 \<noteq> l + 2" "n \<noteq> l" "n \<noteq> l + 1" "n + 1 \<noteq> l" using off by (auto simp: off_list_def)
  have "p \<noteq> n \<and> p \<noteq> n + 1 \<and> p \<noteq> l + 2"
    using q
  proof
    assume "p = l"
    with nl show ?thesis by simp
  next
    assume "p \<in> set xs"
    with n have "apart n p" and ol: "off_list l p" using pg_listD(5) [OF L] by (auto simp: fresh_def)
    then show ?thesis using off_listD [OF ol] by (simp add: apart_def)
  qed
  with nl have pn: "p \<noteq> n" "p \<noteq> n + 1" "p \<noteq> l + 2" "n \<noteq> l + 2" "n + 1 \<noteq> l + 2" by simp_all
  have "PG_AddTail l n h = h(p := n, n + 1 := p, n := l + 1, l + 2 := n)"
    unfolding PG_AddTail_def Let_def p using pn p by simp
  also have "\<dots> = h(n + 1 := p, n := l + 1, l + 1 + 1 := n, p := n)"
  proof
    fix x
    show "(h(p := n, n + 1 := p, n := l + 1, l + 2 := n)) x = (h(n + 1 := p, n := l + 1, l + 1 + 1 := n, p := n)) x"
      using pn by simp
  qed
  finally have "PG_AddTail l n h = h(n + 1 := p, n := l + 1, l + 1 + 1 := n, p := n)" .
  with pg_put [of l xs "[]" h n p "l + 1"] L n p_def show ?thesis by simp
qed

lemma pg_insert:
  assumes L: "pg_list l (us @ a # vs) h" and n: "fresh l (us @ a # vs) n"
  shows "pg_list l (us @ a # n # vs) (PG_Insert l n a h)"
proof -
  have e: "h a = hd (vs @ [l + 1])"
    using pg_listD(3) [OF L] linked_ends(2) [of h a vs "l + 1"] by (simp add: linked_append)
  have "n \<noteq> a" "Suc n \<noteq> a" "n \<noteq> Suc a" using n by (auto simp: fresh_def apart_def)
  then have "PG_Insert l n a h = h(n + 1 := a, n := h a, h a + 1 := n, a := n)" by (simp add: PG_Insert_def Let_def)
  with pg_put [of l "us @ [a]" vs h n a "h a"] L n e show ?thesis by simp
qed

lemma pg_remove:
  assumes L: "pg_list l (us @ n # vs) h"
  shows "pg_list l (us @ vs) (PG_Remove n h)"
proof -
  note D = pg_listD [OF L]
  let ?p = "h (n + 1)" and ?e = "h n"
  have p: "?p = last (l # us)" using D(3) linked_ends(1) [of h l us n] by (simp add: linked_append)
  have e: "?e = hd (vs @ [l + 1])" using D(3) linked_ends(2) [of h n vs "l + 1"] by (simp add: linked_append)
  then have "?e = l + 1 \<or> ?e \<in> set vs" using hd_in [of vs "l + 1"] by simp
  then have "?e \<noteq> n" "n \<noteq> Suc ?e" using D(5) [of n] D(6) nodes_sep [OF D(4), of n ?e] by (auto simp: off_list_def)
  then have "PG_Remove n h = h(?e + 1 := ?p, ?p := ?e)" by (simp add: PG_Remove_def Let_def)
  with pg_take [OF L p e] show ?thesis by simp
qed

text \<open>The scan.\<close>

lemma scan_find_list:
  "linked h p xs t \<Longrightarrow> h t = 0 \<Longrightarrow> (\<And>x. x \<in> set xs \<Longrightarrow> x \<noteq> 0) \<Longrightarrow> t \<noteq> 0 \<Longrightarrow> scan_find h n (h p) = Some (n \<in> set xs)"
proof (induction xs arbitrary: p)
  case Nil
  then show ?case by (subst scan_find.simps) simp
next
  case (Cons x xs)
  then have "h x \<noteq> 0" by (cases xs) auto
  with Cons show ?case by (subst scan_find.simps) auto
qed

lemma scan_count_list:
  "linked h p xs t \<Longrightarrow> h t = 0 \<Longrightarrow> (\<And>x. x \<in> set xs \<Longrightarrow> x \<noteq> 0) \<Longrightarrow> t \<noteq> 0 \<Longrightarrow> scan_count h (h p) c = Some (c + int (length xs))"
proof (induction xs arbitrary: p c)
  case Nil
  then show ?case by (subst scan_count.simps) simp
next
  case (Cons x xs)
  then have "h x \<noteq> 0" by (cases xs) auto
  with Cons show ?case by (subst scan_count.simps) auto
qed

lemma pg_contains: "pg_list l xs h \<Longrightarrow> PG_Contains l n h = Some (n \<in> set xs)"
  unfolding PG_Contains_def using pg_listD scan_find_list [of h l xs "l + 1" n] off_listD by fastforce

lemma pg_count: "pg_list l xs h \<Longrightarrow> PG_Count l h = Some (int (length xs))"
  unfolding PG_Count_def using pg_listD scan_count_list [of h l xs "l + 1" 0] off_listD by fastforce

lemma pg_checked_remove:
  assumes L: "pg_list l xs h"
  shows "\<exists>h'. PG_CheckedRemove l n h = Some (n \<in> set xs, h') \<and> pg_list l (remove1 n xs) h'"
proof (cases "n \<in> set xs")
  case True
  then obtain us vs where "xs = us @ n # vs" "n \<notin> set us" by (meson split_list_first)
  with L True pg_remove [of l us n vs h] pg_contains [OF L, of n] show ?thesis
    by (simp add: PG_CheckedRemove_def PG_Contains_def remove1_append)
next
  case False
  with L pg_contains [OF L, of n] show ?thesis by (simp add: PG_CheckedRemove_def PG_Contains_def remove1_idem)
qed

lemma pg_ends:
  assumes L: "pg_list l xs h"
  shows "PG_LISTEMPTY l h = (xs = [])" "PG_FIRSTENTRY l h = (if xs = [] then 0 else hd xs)"
    "PG_LASTENTRY l h = (if xs = [] then 0 else last xs)"
proof -
  note D = pg_listD [OF L]
  have f: "h l = hd (xs @ [l + 1])" and t: "h (l + 2) = last (l # xs)" using linked_ends [OF D(3)] by simp_all
  show empty: "PG_LISTEMPTY l h = (xs = [])"
  proof (cases xs)
    case Nil
    with f D(2) show ?thesis by (simp add: PG_LISTEMPTY_def)
  next
    case (Cons x ys)
    with D(3) have "h x = hd (ys @ [l + 1])" using linked_ends(2) by simp
    with Cons D(5) off_listD have "h x \<noteq> 0" by (cases ys) auto
    with f Cons show ?thesis by (simp add: PG_LISTEMPTY_def)
  qed
  show "PG_FIRSTENTRY l h = (if xs = [] then 0 else hd xs)" "PG_LASTENTRY l h = (if xs = [] then 0 else last xs)"
    using empty f t by (simp_all add: PG_FIRSTENTRY_def PG_LASTENTRY_def)
qed

text \<open>The operations that change a list, and the same on the list of its nodes.\<close>

datatype pg_op = AddHead ptr | AddTail ptr | InsertAfter ptr ptr | CheckedRemove ptr

fun pg_do :: "ptr \<Rightarrow> pg_op \<Rightarrow> store \<Rightarrow> store option" where
  "pg_do l (AddHead n) h = Some (PG_AddHead l n h)"
| "pg_do l (AddTail n) h = Some (PG_AddTail l n h)"
| "pg_do l (InsertAfter n a) h = Some (PG_Insert l n a h)"
| "pg_do l (CheckedRemove n) h = map_option snd (PG_CheckedRemove l n h)"

fun insert_after :: "ptr \<Rightarrow> ptr \<Rightarrow> ptr list \<Rightarrow> ptr list" where
  "insert_after n a [] = []"
| "insert_after n a (x # xs) = (if x = a then x # n # xs else x # insert_after n a xs)"

fun list_do :: "pg_op \<Rightarrow> ptr list \<Rightarrow> ptr list" where
  "list_do (AddHead n) xs = n # xs"
| "list_do (AddTail n) xs = xs @ [n]"
| "list_do (InsertAfter n a) xs = insert_after n a xs"
| "list_do (CheckedRemove n) xs = remove1 n xs"

text \<open>What a caller must see to: a node put in is fresh, the node to insert behind is in the list.\<close>

fun pg_pre :: "ptr \<Rightarrow> pg_op \<Rightarrow> ptr list \<Rightarrow> bool" where
  "pg_pre l (AddHead n) xs \<longleftrightarrow> fresh l xs n"
| "pg_pre l (AddTail n) xs \<longleftrightarrow> fresh l xs n"
| "pg_pre l (InsertAfter n a) xs \<longleftrightarrow> fresh l xs n \<and> a \<in> set xs"
| "pg_pre l (CheckedRemove n) xs \<longleftrightarrow> True"

lemma insert_after_split: "a \<notin> set us \<Longrightarrow> insert_after n a (us @ a # vs) = us @ a # n # vs"
  by (induction us) auto

lemma pg_step: "pg_list l xs h \<Longrightarrow> pg_pre l op xs \<Longrightarrow> \<exists>h'. pg_do l op h = Some h' \<and> pg_list l (list_do op xs) h'"
proof (cases op)
  case (InsertAfter n a)
  assume L: "pg_list l xs h" "pg_pre l op xs"
  then obtain us vs where "xs = us @ a # vs" "a \<notin> set us" using InsertAfter by (auto dest: split_list_first)
  with L InsertAfter show ?thesis by (simp add: insert_after_split pg_insert)
next
  case (CheckedRemove n)
  assume "pg_list l xs h"
  from pg_checked_remove [OF this, of n] CheckedRemove show ?thesis by auto
qed (simp_all add: pg_add_head pg_add_tail)

text \<open>Runs.\<close>

fun pg_run :: "ptr \<Rightarrow> pg_op list \<Rightarrow> store \<Rightarrow> store option" where
  "pg_run l [] h = Some h"
| "pg_run l (op # ops) h = (case pg_do l op h of None \<Rightarrow> None | Some h' \<Rightarrow> pg_run l ops h')"

fun pre_run :: "ptr \<Rightarrow> pg_op list \<Rightarrow> ptr list \<Rightarrow> bool" where
  "pre_run l [] xs \<longleftrightarrow> True"
| "pre_run l (op # ops) xs \<longleftrightarrow> pg_pre l op xs \<and> pre_run l ops (list_do op xs)"

lemma pg_runs: "pg_list l xs h \<Longrightarrow> pre_run l ops xs \<Longrightarrow> \<exists>h'. pg_run l ops h = Some h' \<and> pg_list l (fold list_do ops xs) h'"
proof (induction ops arbitrary: xs h)
  case (Cons op ops)
  then obtain h1 where "pg_do l op h = Some h1" "pg_list l (list_do op xs) h1" using pg_step by fastforce
  with Cons show ?case by simp
qed simp

text \<open>Claim C21. The linked list refines a list of nodes: from a new list on, any sequence of the operations that change it,
  on nodes that lie apart, ends (no scan runs forever), and afterwards the store holds, linked both ways, exactly the
  nodes that the same operations on a list give, in that order; counting, membership, the test for the empty list and
  the first and last entry answer for that list.\<close>

theorem pg_list_refines:
  assumes "l \<noteq> 0" "pre_run l ops []"
  shows "\<exists>h'. pg_run l ops (PG_NewList l h) = Some h' \<and>
    (let xs = fold list_do ops [] in pg_list l xs h' \<and> PG_Count l h' = Some (int (length xs)) \<and> (\<forall>n. PG_Contains l n h' = Some (n \<in> set xs)) \<and>
       PG_LISTEMPTY l h' = (xs = []) \<and> PG_FIRSTENTRY l h' = (if xs = [] then 0 else hd xs) \<and>
       PG_LASTENTRY l h' = (if xs = [] then 0 else last xs))"
  using pg_runs [OF pg_new [OF assms(1)] assms(2), of h] pg_count pg_contains pg_ends by (fastforce simp: Let_def)

theorem pg_list_refines_witness:
  "\<exists>h'. pg_run 100 [AddTail 10, AddHead 20, InsertAfter 30 20, CheckedRemove 10, AddTail 10] (PG_NewList 100 (\<lambda>_. 0)) = Some h' \<and>
     pg_list 100 [20, 30, 10] h' \<and> PG_Count 100 h' = Some 3"
  using pg_list_refines [of 100 "[AddTail 10, AddHead 20, InsertAfter 30 20, CheckedRemove 10, AddTail 10]" "\<lambda>_. 0"]
  by (simp add: fresh_def apart_def off_list_def Let_def) blast

end
