(* ===== verification/Citem.thy ===== *)
theory Citem
  imports Prelude
begin

text \<open>
  \<^verbatim>\<open>src/citem.c\<close>, \<^verbatim>\<open>src/citem.h\<close>: named settings packed into the bytes of a device's
  configuration. A table of items says for each name which bits hold its value. The C integers are
  \<^verbatim>\<open>int\<close> after promotion, none of them comes near its bounds; where the code shifts by a negative
  or too large amount, or reads or writes outside the buffer, the C program has no defined result,
  and the model gives \<open>None\<close>. Log output is left out. A conversion is a function the table gives.
  The interface that a table of settings offers is the locale \<open>settings\<close>, interpreted here.
\<close>

unbundle bit_operations_syntax

section \<open>Items\<close>

record citem =
  ci_key :: string
  ci_idx :: nat
  ci_base_bit :: nat
  ci_width :: nat
  ci_def :: u32
  ci_conv_in :: "(int \<Rightarrow> int) option"
  ci_conv_out :: "(int \<Rightarrow> int) option"

definition CITEM :: "string \<Rightarrow> nat \<Rightarrow> nat \<Rightarrow> nat \<Rightarrow> citem" where
  "CITEM k i b w = \<lparr>ci_key = k, ci_idx = i, ci_base_bit = b, ci_width = w, ci_def = -1, ci_conv_in = None, ci_conv_out = None\<rparr>"

definition CITEMD :: "string \<Rightarrow> nat \<Rightarrow> nat \<Rightarrow> nat \<Rightarrow> u32 \<Rightarrow> citem" where
  "CITEMD k i b w d = \<lparr>ci_key = k, ci_idx = i, ci_base_bit = b, ci_width = w, ci_def = d, ci_conv_in = None, ci_conv_out = None\<rparr>"

definition CITEMC :: "string \<Rightarrow> nat \<Rightarrow> nat \<Rightarrow> nat \<Rightarrow> (int \<Rightarrow> int) \<Rightarrow> (int \<Rightarrow> int) \<Rightarrow> citem" where
  "CITEMC k i b w f g = \<lparr>ci_key = k, ci_idx = i, ci_base_bit = b, ci_width = w, ci_def = -1, ci_conv_in = Some f, ci_conv_out = Some g\<rparr>"

definition width2mask :: "int \<Rightarrow> int option" where
  "width2mask w = (if 0 \<le> 8 - w \<and> 8 - w < 32 then Some (drop_bit (nat (8 - w)) 0xff mod 256) else None)"

definition citem_find :: "citem list \<Rightarrow> int \<Rightarrow> string \<Rightarrow> citem option" where
  "citem_find citems num key = find (\<lambda>c. key = ci_key c) (take (to_u16 num) citems)"

text \<open>The test for a value of several bytes, and the loops over them.\<close>

definition multibyte :: "citem \<Rightarrow> bool" where
  "multibyte cp \<longleftrightarrow> ci_width cp > 8 \<and> ci_width cp mod 8 = 0"

function get_bytes :: "byte list \<Rightarrow> nat \<Rightarrow> nat \<Rightarrow> nat \<Rightarrow> int \<Rightarrow> int option" where
  "get_bytes buffer idx bytes i val =
     (if i < bytes then
        (if idx + i < length buffer \<and> i * 8 < 32 \<and> push_bit (i * 8) (uint (buffer ! (idx + i))) < 2 ^ 31 then
           get_bytes buffer idx bytes (i + 1) (val OR push_bit (i * 8) (uint (buffer ! (idx + i))))
         else None)
      else Some val)"
  by pat_completeness auto
termination by (relation "measure (\<lambda>(_, _, bytes, i, _). bytes - i)") auto

function set_bytes :: "byte list \<Rightarrow> nat \<Rightarrow> nat \<Rightarrow> nat \<Rightarrow> int \<Rightarrow> byte list option" where
  "set_bytes buffer idx bytes i value =
     (if i < bytes then
        (if idx + i < length buffer \<and> i * 8 < 32 then
           set_bytes (buffer[idx + i := word_of_int (drop_bit (i * 8) value AND 0xff)]) idx bytes (i + 1) value
         else None)
      else Some buffer)"
  by pat_completeness auto
termination by (relation "measure (\<lambda>(_, _, bytes, i, _). bytes - i)") auto

declare get_bytes.simps [simp del] set_bytes.simps [simp del]

definition conv :: "(int \<Rightarrow> int) option \<Rightarrow> int \<Rightarrow> int" where
  "conv f val = (case f of None \<Rightarrow> val | Some g \<Rightarrow> g val)"

definition citem_get_value :: "citem list \<Rightarrow> int \<Rightarrow> byte list \<Rightarrow> int \<Rightarrow> string \<Rightarrow> int option" where
  "citem_get_value citems num buffer buffer_size key =
     (case citem_find citems num key of
        None \<Rightarrow> Some (-1)
      | Some cp \<Rightarrow>
          (if multibyte cp then
             let bytes = ci_width cp div 8
             in if int (ci_idx cp) + int bytes - 1 \<ge> buffer_size then Some (-1)
                else map_option (conv (ci_conv_out cp)) (get_bytes buffer (ci_idx cp) bytes 0 0)
           else
             let idx = ci_idx cp + ci_base_bit cp div 8;
                 bt = ci_base_bit cp mod 8
             in (case width2mask (int (ci_width cp)) of
                   None \<Rightarrow> None
                 | Some msk \<Rightarrow>
                     if int idx \<ge> buffer_size then Some (-1)
                     else if idx \<ge> length buffer \<or> bt + 1 < ci_width cp then None
                     else Some (conv (ci_conv_out cp) (drop_bit (bt + 1 - ci_width cp) (uint (buffer ! idx)) AND msk)))))"

text \<open>
  The check of the index against the size of the buffer, for a value of one byte, only writes a
  line to the log. A negative value is shifted and cut to a byte, as GCC documents it.
\<close>

definition citem_set_value :: "citem list \<Rightarrow> int \<Rightarrow> byte list \<Rightarrow> int \<Rightarrow> string \<Rightarrow> int \<Rightarrow> (int \<times> byte list) option" where
  "citem_set_value citems num buffer buffer_size key value =
     (case citem_find citems num key of
        None \<Rightarrow> Some (-1, buffer)
      | Some cp \<Rightarrow>
          let value = conv (ci_conv_in cp) value
          in if multibyte cp then
               let bytes = ci_width cp div 8
               in if int (ci_idx cp) + int bytes - 1 \<ge> buffer_size then Some (-1, buffer)
                  else map_option (\<lambda>b. (0, b)) (set_bytes buffer (ci_idx cp) bytes 0 value)
             else
               let idx = ci_idx cp + ci_base_bit cp div 8;
                   bt = ci_base_bit cp mod 8
               in (case width2mask (int (ci_width cp)) of
                     None \<Rightarrow> None
                   | Some msk \<Rightarrow>
                       if ci_width cp = 16 \<and> bt = 15 then
                         if value > 32767 \<or> value < -32768 then Some (-1, buffer)
                         else if idx + 1 < length buffer then
                           Some (0, buffer[idx := word_of_int (value AND 0xff), idx + 1 := word_of_int (drop_bit 8 value AND 0xff)])
                         else None
                       else if idx \<ge> length buffer then None
                       else
                         let c = uint (buffer ! idx)
                         in if value > msk then Some (-1, buffer)
                            else if bt + 1 < ci_width cp then None
                            else
                              let c1 = c AND NOT (push_bit (bt + 1 - ci_width cp) msk);
                                  c2 = c1 OR push_bit (bt + 1 - ci_width cp) value
                              in Some (0, buffer[idx := word_of_int c2])))"

text \<open>
  The configuration tree is that of a library; setting an integer in it is a parameter. The result
  of the setter is not looked at.
\<close>

fun cfg_loop :: "('cfg \<Rightarrow> string \<Rightarrow> int \<Rightarrow> 'cfg) \<Rightarrow> 'cfg \<Rightarrow> citem list \<Rightarrow> byte list \<Rightarrow> int \<Rightarrow> (int \<times> 'cfg) option" where
  "cfg_loop put cfg [] buffer buffer_size = Some (0, cfg)"
| "cfg_loop put cfg (cp # cps) buffer buffer_size =
     (let idx = ci_idx cp + ci_base_bit cp div 8;
          bt = ci_base_bit cp mod 8
      in (case width2mask (int (ci_width cp)) of
            None \<Rightarrow> None
          | Some msk \<Rightarrow>
              if int idx \<ge> buffer_size then Some (-1, cfg)
              else if idx \<ge> length buffer \<or> bt + 1 < ci_width cp then None
              else cfg_loop put (put cfg (ci_key cp) (drop_bit (bt + 1 - ci_width cp) (uint (buffer ! idx)) AND msk)) cps buffer buffer_size))"

definition citems_to_cfg :: "('cfg \<Rightarrow> string \<Rightarrow> int \<Rightarrow> 'cfg) \<Rightarrow> 'cfg \<Rightarrow> citem list \<Rightarrow> int \<Rightarrow> byte list \<Rightarrow> int \<Rightarrow> (int \<times> 'cfg) option" where
  "citems_to_cfg put cfg citems num buffer buffer_size = cfg_loop put cfg (take (nat num) citems) buffer buffer_size"

section \<open>The bits of an item\<close>

text \<open>An item that the operations treat in full: one byte and at most eight bits, or two or three bytes.\<close>

definition item_ok :: "nat \<Rightarrow> citem \<Rightarrow> bool" where
  "item_ok n cp \<longleftrightarrow>
     (if multibyte cp then ci_width cp \<le> 24 \<and> ci_idx cp + ci_width cp div 8 \<le> n
      else ci_width cp \<le> ci_base_bit cp mod 8 + 1 \<and> ci_idx cp + ci_base_bit cp div 8 < n)"

text \<open>First byte, first bit in it, and the cells from there on, as byte and bit.\<close>

definition ci_byte :: "citem \<Rightarrow> nat" where
  "ci_byte cp = (if multibyte cp then ci_idx cp else ci_idx cp + ci_base_bit cp div 8)"

definition ci_shift :: "citem \<Rightarrow> nat" where
  "ci_shift cp = (if multibyte cp then 0 else ci_base_bit cp mod 8 + 1 - ci_width cp)"

text \<open>The bits of an item lie in a row, from this one on.\<close>

definition ci_first :: "citem \<Rightarrow> nat" where
  "ci_first cp = 8 * ci_byte cp + ci_shift cp"

definition buf_bit :: "byte list \<Rightarrow> nat \<Rightarrow> bool" where
  "buf_bit b p \<longleftrightarrow> bit (b ! (p div 8)) (p mod 8)"

text \<open>Two items that share no bit.\<close>

definition items_apart :: "citem \<Rightarrow> citem \<Rightarrow> bool" where
  "items_apart c d \<longleftrightarrow> ci_first c + ci_width c \<le> ci_first d \<or> ci_first d + ci_width d \<le> ci_first c"

text \<open>The value an item holds before its conversion.\<close>

definition raw :: "citem \<Rightarrow> byte list \<Rightarrow> int" where
  "raw cp b = horner_sum of_bool 2 (map (\<lambda>k. buf_bit b (ci_first cp + k)) [0..<ci_width cp])"

lemma bit_raw: "bit (raw cp b) k \<longleftrightarrow> k < ci_width cp \<and> buf_bit b (ci_first cp + k)"
  by (auto simp: raw_def bit_horner_sum_bit_iff)

lemma buf_bit_at: "j < 8 \<Longrightarrow> buf_bit b (8 * i + j) = bit (b ! i) j"
  by (simp add: buf_bit_def)

lemma raw_eqI: "(\<And>k. k < ci_width cp \<Longrightarrow> buf_bit b (ci_first cp + k) = buf_bit b' (ci_first cp + k)) \<Longrightarrow> raw cp b = raw cp b'"
  by (rule bit_eqI) (auto simp: bit_raw)

lemma width2mask_ok: "w \<le> 8 \<Longrightarrow> width2mask (int w) = Some (mask w)"
proof -
  assume "w \<le> 8"
  then have "w \<in> {0, 1, 2, 3, 4, 5, 6, 7, 8}" by auto
  then show ?thesis by (auto simp: width2mask_def drop_bit_eq_div mask_eq_exp_minus_1)
qed

lemma multi_width: "multibyte cp \<Longrightarrow> ci_width cp \<le> 24 \<Longrightarrow> ci_width cp = 16 \<or> ci_width cp = 24"
  by (auto simp: multibyte_def mod_eq_0_iff_dvd dvd_def)

lemma single_ok:
  "item_ok n cp \<Longrightarrow> \<not> multibyte cp \<Longrightarrow> ci_width cp \<le> 8 \<and> ci_width cp \<le> ci_base_bit cp mod 8 + 1 \<and> ci_byte cp < n \<and>
     ci_byte cp = ci_idx cp + ci_base_bit cp div 8 \<and> ci_shift cp = ci_base_bit cp mod 8 + 1 - ci_width cp \<and> ci_shift cp + ci_width cp \<le> 8"
  using mod_less_divisor [of 8 "ci_base_bit cp"] by (auto simp: item_ok_def ci_byte_def ci_shift_def)

lemma bit_byte: "bit (uint (x :: byte)) k = bit x k"
  using bit_imp_le_length [of x k] by (auto simp: bit_uint_iff)

text \<open>Reading: the value is the row of bits.\<close>

lemma get_single:
  assumes "item_ok (length b) cp" "\<not> multibyte cp"
  shows "drop_bit (ci_shift cp) (uint (b ! ci_byte cp)) AND mask (ci_width cp) = raw cp b"
proof (rule bit_eqI)
  fix k
  note S = single_ok [OF assms]
  have "buf_bit b (ci_first cp + k) = bit (b ! ci_byte cp) (ci_shift cp + k)" if "k < ci_width cp"
  proof -
    have "ci_shift cp + k < 8" using S that by linarith
    from buf_bit_at [OF this, of b "ci_byte cp"] show ?thesis by (simp only: ci_first_def add.assoc)
  qed
  then show "bit (drop_bit (ci_shift cp) (uint (b ! ci_byte cp)) AND mask (ci_width cp)) k = bit (raw cp b) k"
    by (auto simp: bit_raw bit_and_iff bit_drop_bit_eq bit_mask_iff bit_byte)
qed

lemma byte_shift_bound: "i < 3 \<Longrightarrow> push_bit (i * 8) (uint (x :: byte)) < 2 ^ 31"
  using unsigned_less [of x, where 'a = int] by (auto simp: push_bit_eq_mult numeral_3_eq_3 less_Suc_eq)

lemma get_bytes_bits:
  "i \<le> bytes \<Longrightarrow> bytes \<le> 3 \<Longrightarrow> idx + bytes \<le> length b \<Longrightarrow>
   \<exists>v. get_bytes b idx bytes i val = Some v \<and>
     (\<forall>k. bit v k \<longleftrightarrow> bit val k \<or> (i * 8 \<le> k \<and> k < bytes * 8 \<and> buf_bit b (8 * idx + k)))"
proof (induction b idx bytes i val rule: get_bytes.induct)
  case (1 b idx bytes i val)
  show ?case
  proof (cases "i < bytes")
    case False
    with 1 show ?thesis by (subst get_bytes.simps) auto
  next
    case True
    let ?val = "val OR push_bit (i * 8) (uint (b ! (idx + i)))"
    have ok: "idx + i < length b \<and> i * 8 < 32 \<and> push_bit (i * 8) (uint (b ! (idx + i))) < 2 ^ 31"
      using True 1 byte_shift_bound [of i] by auto
    with 1 True obtain v where v: "get_bytes b idx bytes (i + 1) ?val = Some v"
      "\<And>k. bit v k \<longleftrightarrow> bit ?val k \<or> ((i + 1) * 8 \<le> k \<and> k < bytes * 8 \<and> buf_bit b (8 * idx + k))" by auto
    have new: "bit (push_bit (i * 8) (uint (b ! (idx + i)))) k \<longleftrightarrow> i * 8 \<le> k \<and> k < (i + 1) * 8 \<and> buf_bit b (8 * idx + k)" for k
    proof (cases "i * 8 \<le> k \<and> k < (i + 1) * 8")
      case True
      define j where "j = k - i * 8"
      with True have j: "k = i * 8 + j" "j < 8" by auto
      then have "buf_bit b (8 * idx + k) = bit (b ! (idx + i)) j" using buf_bit_at [of j b "idx + i"] by (simp add: algebra_simps)
      with True j show ?thesis by (simp add: bit_push_bit_iff bit_byte)
    next
      case False
      then show ?thesis by (auto simp: bit_push_bit_iff bit_uint_iff)
    qed
    have "bit v k \<longleftrightarrow> bit val k \<or> (i * 8 \<le> k \<and> k < bytes * 8 \<and> buf_bit b (8 * idx + k))" for k
      unfolding v(2) bit_or_iff new using True by auto
    with v(1) ok True show ?thesis by (subst get_bytes.simps) simp
  qed
qed

lemma get_value_ok:
  assumes "citem_find citems num key = Some cp" "item_ok (length b) cp"
  shows "citem_get_value citems num b (int (length b)) key = Some (conv (ci_conv_out cp) (raw cp b))"
proof (cases "multibyte cp")
  case True
  then have w: "ci_width cp = 16 \<or> ci_width cp = 24" "ci_idx cp + ci_width cp div 8 \<le> length b"
    using assms(2) multi_width by (auto simp: item_ok_def)
  then obtain v where v: "get_bytes b (ci_idx cp) (ci_width cp div 8) 0 0 = Some v"
    "\<And>k. bit v k \<longleftrightarrow> k < ci_width cp div 8 * 8 \<and> buf_bit b (8 * ci_idx cp + k)"
    using get_bytes_bits [of 0 "ci_width cp div 8" "ci_idx cp" b 0] by auto
  have "ci_width cp div 8 * 8 = ci_width cp" using w by auto
  then have "v = raw cp b" using True by (intro bit_eqI) (simp add: v bit_raw ci_first_def ci_byte_def ci_shift_def)
  with True assms w v(1) show ?thesis by (auto simp: citem_get_value_def Let_def)
next
  case False
  note S = single_ok [OF assms(2) False]
  with assms False get_single [OF assms(2) False] show ?thesis
    by (simp add: citem_get_value_def Let_def width2mask_ok)
qed

text \<open>Writing: the row of bits becomes the value, every other bit of the buffer stays.\<close>

definition item_written :: "citem \<Rightarrow> int \<Rightarrow> byte list \<Rightarrow> byte list \<Rightarrow> bool" where
  "item_written cp v b b' \<longleftrightarrow> length b' = length b \<and>
     (\<forall>p < 8 * length b. buf_bit b' p = (if ci_first cp \<le> p \<and> p < ci_first cp + ci_width cp then bit v (p - ci_first cp) else buf_bit b p))"

lemma item_writtenI:
  assumes "length b' = length b"
    and "\<And>i j. i < length b \<Longrightarrow> j < 8 \<Longrightarrow> bit (b' ! i) j =
      (if ci_first cp \<le> 8 * i + j \<and> 8 * i + j < ci_first cp + ci_width cp then bit v (8 * i + j - ci_first cp) else bit (b ! i) j)"
  shows "item_written cp v b b'"
  unfolding item_written_def
proof (intro conjI allI impI)
  fix p assume "p < 8 * length b"
  then have d: "p div 8 < length b" "p mod 8 < 8" by auto
  have p: "8 * (p div 8) + p mod 8 = p" by simp
  from assms(2) [OF d] show "buf_bit b' p = (if ci_first cp \<le> p \<and> p < ci_first cp + ci_width cp then bit v (p - ci_first cp) else buf_bit b p)"
    unfolding p by (simp add: buf_bit_def)
qed (rule assms(1))

lemma set_bytes_bits:
  "i \<le> bytes \<Longrightarrow> bytes \<le> 3 \<Longrightarrow> idx + bytes \<le> length b \<Longrightarrow>
   \<exists>b'. set_bytes b idx bytes i v = Some b' \<and> length b' = length b \<and>
     (\<forall>m. b' ! m = (if idx + i \<le> m \<and> m < idx + bytes then word_of_int (drop_bit ((m - idx) * 8) v AND 0xff) else b ! m))"
proof (induction b idx bytes i v rule: set_bytes.induct)
  case (1 b idx bytes i v)
  show ?case
  proof (cases "i < bytes")
    case False
    with 1 show ?thesis by (subst set_bytes.simps) auto
  next
    case True
    let ?b = "b[idx + i := word_of_int (drop_bit (i * 8) v AND 0xff)]"
    have ok: "idx + i < length b \<and> i * 8 < 32" using True 1 by auto
    with 1 True obtain b' where b': "set_bytes ?b idx bytes (i + 1) v = Some b'" "length b' = length b"
      "\<And>m. b' ! m = (if idx + (i + 1) \<le> m \<and> m < idx + bytes then word_of_int (drop_bit ((m - idx) * 8) v AND 0xff) else ?b ! m)" by auto
    have "b' ! m = (if idx + i \<le> m \<and> m < idx + bytes then word_of_int (drop_bit ((m - idx) * 8) v AND 0xff) else b ! m)" for m
      unfolding b'(3) using True ok by (auto simp: nth_list_update)
    with b' ok True show ?thesis by (subst set_bytes.simps) simp
  qed
qed

lemma bit_of_int_byte: "bit (word_of_int x :: byte) j \<longleftrightarrow> j < 8 \<and> bit x j"
  by (simp add: bit_word_of_int_iff)

lemma bit_ff: "bit (255 :: int) j \<longleftrightarrow> j < 8"
proof -
  have "(255 :: int) = mask 8" by (simp add: mask_eq_exp_minus_1)
  then show ?thesis by (simp only: bit_mask_iff possible_bit_def) simp
qed

definition fits_item :: "citem \<Rightarrow> int \<Rightarrow> bool" where
  "fits_item cp value \<longleftrightarrow> 0 \<le> conv (ci_conv_in cp) value \<and> conv (ci_conv_in cp) value < 2 ^ ci_width cp"

lemma bit_high: "0 \<le> (v :: int) \<Longrightarrow> v < 2 ^ w \<Longrightarrow> w \<le> k \<Longrightarrow> \<not> bit v k"
  by (metis bit_take_bit_iff linorder_not_less take_bit_int_eq_self)

lemma fits_bits: "fits_item cp value \<Longrightarrow> bit (conv (ci_conv_in cp) value) k \<Longrightarrow> k < ci_width cp"
  unfolding fits_item_def using bit_high not_le by blast

lemma set_multi:
  assumes "citem_find citems num key = Some cp" "item_ok (length b) cp" "multibyte cp"
  shows "\<exists>b'. citem_set_value citems num b (int (length b)) key value = Some (0, b') \<and> item_written cp (conv (ci_conv_in cp) value) b b'"
proof -
  have w: "ci_width cp = 16 \<or> ci_width cp = 24" "ci_idx cp + ci_width cp div 8 \<le> length b"
    using assms(2,3) multi_width by (auto simp: item_ok_def)
  let ?v = "conv (ci_conv_in cp) value" and ?n = "ci_width cp div 8"
  obtain b' where b': "set_bytes b (ci_idx cp) ?n 0 ?v = Some b'" "length b' = length b"
    "\<And>m. b' ! m = (if ci_idx cp \<le> m \<and> m < ci_idx cp + ?n then word_of_int (drop_bit ((m - ci_idx cp) * 8) ?v AND 0xff) else b ! m)"
    using set_bytes_bits [of 0 ?n "ci_idx cp" b ?v] w by auto
  have n: "?n * 8 = ci_width cp" using w by auto
  have "item_written cp ?v b b'"
  proof (rule item_writtenI [OF b'(2)])
    fix i j :: nat assume j: "j < 8"
    have first: "ci_first cp = 8 * ci_idx cp" using assms(3) by (simp add: ci_first_def ci_byte_def ci_shift_def)
    have in_item: "ci_idx cp \<le> i \<and> i < ci_idx cp + ?n \<longleftrightarrow> ci_first cp \<le> 8 * i + j \<and> 8 * i + j < ci_first cp + ci_width cp"
      using j n first by linarith
    have "(i - ci_idx cp) * 8 + j = 8 * i + j - ci_first cp" if "ci_idx cp \<le> i" using that first by (simp add: diff_mult_distrib)
    then show "bit (b' ! i) j = (if ci_first cp \<le> 8 * i + j \<and> 8 * i + j < ci_first cp + ci_width cp then bit ?v (8 * i + j - ci_first cp) else bit (b ! i) j)"
      unfolding b'(3) in_item [symmetric] using j by (simp add: bit_of_int_byte bit_and_iff bit_ff bit_drop_bit_eq)
  qed
  with b'(1) assms w show ?thesis by (auto simp: citem_set_value_def Let_def)
qed

lemma row_cell:
  assumes "j < 8" "s + w \<le> (8 :: nat)"
  shows "8 * a + s \<le> 8 * i + j \<and> 8 * i + j < 8 * a + s + w \<longleftrightarrow> i = a \<and> s \<le> j \<and> j < s + w"
proof (cases i a rule: linorder_cases)
  case less
  then have "8 * (i + 1) \<le> 8 * a" by (intro mult_le_mono) simp_all
  with less assms show ?thesis by simp
next
  case greater
  then have "8 * (a + 1) \<le> 8 * i" by (intro mult_le_mono) simp_all
  with greater assms show ?thesis by simp
qed auto

lemma set_single:
  assumes "citem_find citems num key = Some cp" "item_ok (length b) cp" "\<not> multibyte cp" "fits_item cp value"
  shows "\<exists>b'. citem_set_value citems num b (int (length b)) key value = Some (0, b') \<and> item_written cp (conv (ci_conv_in cp) value) b b'"
proof -
  note S = single_ok [OF assms(2,3)]
  let ?v = "conv (ci_conv_in cp) value" and ?i = "ci_byte cp" and ?s = "ci_shift cp" and ?w = "ci_width cp"
  define c where "c = (uint (b ! ?i) AND NOT (push_bit ?s (mask ?w))) OR push_bit ?s ?v"
  have le: "\<not> ?v > mask ?w" using assms(4) by (simp add: fits_item_def mask_eq_exp_minus_1)
  have set: "citem_set_value citems num b (int (length b)) key value = Some (0, b[?i := word_of_int c])"
    using assms(1,3) S le by (simp add: citem_set_value_def Let_def width2mask_ok c_def)
  have "item_written cp ?v b (b[?i := word_of_int c])"
  proof (rule item_writtenI)
    fix i j :: nat assume i: "i < length b" and j: "j < 8"
    have in_item: "ci_first cp \<le> 8 * i + j \<and> 8 * i + j < ci_first cp + ?w \<longleftrightarrow> i = ?i \<and> ?s \<le> j \<and> j < ?s + ?w"
      unfolding ci_first_def using j S by (intro row_cell) simp_all
    have at: "8 * ?i + j - ci_first cp = j - ?s" by (simp add: ci_first_def)
    have bits: "bit c j \<longleftrightarrow> (if ?s \<le> j \<and> j < ?s + ?w then bit ?v (j - ?s) else bit (b ! ?i) j)"
      using fits_bits [OF assms(4), of "j - ?s"] by (auto simp: c_def bit_or_iff bit_and_iff bit_not_iff bit_push_bit_iff bit_mask_iff bit_byte)
    show "bit (b[?i := word_of_int c] ! i) j = (if ci_first cp \<le> 8 * i + j \<and> 8 * i + j < ci_first cp + ?w then bit ?v (8 * i + j - ci_first cp) else bit (b ! i) j)"
    proof (cases "i = ?i")
      case True
      with i j bits at in_item show ?thesis by (simp add: bit_of_int_byte)
    next
      case False
      with in_item show ?thesis by auto
    qed
  qed simp
  with set show ?thesis by blast
qed

lemma set_ok:
  "citem_find citems num key = Some cp \<Longrightarrow> item_ok (length b) cp \<Longrightarrow> fits_item cp value \<Longrightarrow>
   \<exists>b'. citem_set_value citems num b (int (length b)) key value = Some (0, b') \<and> item_written cp (conv (ci_conv_in cp) value) b b'"
  by (cases "multibyte cp") (blast intro: set_multi set_single)+

text \<open>What an item holds after a write.\<close>

lemma ci_row: "item_ok n cp \<Longrightarrow> ci_first cp + ci_width cp \<le> 8 * n"
proof (cases "multibyte cp")
  case True
  assume "item_ok n cp"
  with True have "ci_width cp = ci_width cp div 8 * 8" "ci_idx cp + ci_width cp div 8 \<le> n" by (auto simp: item_ok_def multibyte_def)
  with True show ?thesis by (simp add: ci_first_def ci_byte_def ci_shift_def)
next
  case False
  assume "item_ok n cp"
  from single_ok [OF this False] show ?thesis unfolding ci_first_def by linarith
qed

lemma raw_item_written: "item_written cp v b b' \<Longrightarrow> item_ok (length b) cp \<Longrightarrow> 0 \<le> v \<Longrightarrow> v < 2 ^ ci_width cp \<Longrightarrow> raw cp b' = v"
proof (rule bit_eqI)
  fix k
  assume a: "item_written cp v b b'" "item_ok (length b) cp" "0 \<le> v" "v < 2 ^ ci_width cp"
  show "bit (raw cp b') k = bit v k"
  proof (cases "k < ci_width cp")
    case True
    with a(1) ci_row [OF a(2)] show ?thesis by (simp add: bit_raw item_written_def)
  next
    case False
    with a(3,4) bit_high show ?thesis by (simp add: bit_raw)
  qed
qed

lemma raw_other: "item_written cp v b b' \<Longrightarrow> item_ok (length b) d \<Longrightarrow> items_apart cp d \<Longrightarrow> raw d b' = raw d b"
  using ci_row [of "length b" d] by (intro raw_eqI) (auto simp: item_written_def items_apart_def)

text \<open>A value too large for its item is refused, and the buffer stays.\<close>

lemma set_refused:
  "citem_find citems num key = Some cp \<Longrightarrow> item_ok (length b) cp \<Longrightarrow> \<not> multibyte cp \<Longrightarrow> conv (ci_conv_in cp) value \<ge> 2 ^ ci_width cp \<Longrightarrow>
   citem_set_value citems num b (int (length b)) key value = Some (-1, b)"
  using single_ok [of "length b" cp] by (auto simp: citem_set_value_def Let_def width2mask_ok mask_eq_exp_minus_1)

section \<open>The interface of a table of settings\<close>

text \<open>Reading and writing settings by key, some of which are independent of each other.\<close>

fun put_all :: "('k \<Rightarrow> 'v \<Rightarrow> 's \<Rightarrow> 's option) \<Rightarrow> ('k \<times> 'v) list \<Rightarrow> 's \<Rightarrow> 's option" where
  "put_all put [] s = Some s"
| "put_all put ((k, v) # kvs) s = (case put k v s of None \<Rightarrow> None | Some s' \<Rightarrow> put_all put kvs s')"

fun all_apart :: "('k \<Rightarrow> 'k \<Rightarrow> bool) \<Rightarrow> 'k list \<Rightarrow> bool" where
  "all_apart ap [] \<longleftrightarrow> True"
| "all_apart ap (k # ks) \<longleftrightarrow> (\<forall>j \<in> set ks. ap j k) \<and> all_apart ap ks"

locale settings =
  fixes get :: "'k \<Rightarrow> 's \<Rightarrow> 'v option" and put :: "'k \<Rightarrow> 'v \<Rightarrow> 's \<Rightarrow> 's option"
    and ok :: "'s \<Rightarrow> bool" and fits :: "'k \<Rightarrow> 'v \<Rightarrow> bool" and apart :: "'k \<Rightarrow> 'k \<Rightarrow> bool"
  assumes put_get: "ok s \<Longrightarrow> fits k v \<Longrightarrow> \<exists>s'. put k v s = Some s' \<and> ok s' \<and> get k s' = Some v"
    and put_other: "ok s \<Longrightarrow> fits k v \<Longrightarrow> apart k j \<Longrightarrow> put k v s = Some s' \<Longrightarrow> get j s' = get j s"
begin

lemma put_all_other:
  "ok s \<Longrightarrow> \<forall>(k, v) \<in> set kvs. fits k v \<and> apart k j \<Longrightarrow> \<exists>s'. put_all put kvs s = Some s' \<and> ok s' \<and> get j s' = get j s"
proof (induction kvs arbitrary: s)
  case (Cons kv kvs)
  obtain k v where kv: "kv = (k, v)" by (cases kv)
  with Cons.prems put_get obtain s1 where s1: "put k v s = Some s1" "ok s1" by fastforce
  with Cons.prems kv have "get j s1 = get j s" by (intro put_other) auto
  moreover obtain s2 where "put_all put kvs s1 = Some s2" "ok s2" "get j s2 = get j s1" using Cons s1 by fastforce
  ultimately show ?case using kv s1 by simp
qed simp

text \<open>Settings written one after the other are all there afterwards.\<close>

lemma put_all_get:
  "ok s \<Longrightarrow> \<forall>(k, v) \<in> set kvs. fits k v \<Longrightarrow> all_apart apart (map fst kvs) \<Longrightarrow>
   \<exists>s'. put_all put kvs s = Some s' \<and> ok s' \<and> (\<forall>(k, v) \<in> set kvs. get k s' = Some v)"
proof (induction kvs arbitrary: s)
  case (Cons kv kvs)
  obtain k v where kv: "kv = (k, v)" by (cases kv)
  with Cons.prems put_get obtain s1 where s1: "put k v s = Some s1" "ok s1" "get k s1 = Some v" by fastforce
  with Cons kv obtain s2 where s2: "put_all put kvs s1 = Some s2" "ok s2" "\<forall>(k, v) \<in> set kvs. get k s2 = Some v" by fastforce
  have "\<forall>(j, w) \<in> set kvs. fits j w \<and> apart j k" using Cons.prems kv by fastforce
  from put_all_other [OF s1(2) this] s1 s2 have "get k s2 = Some v" by auto
  with kv s1 s2 show ?case by simp
qed simp

end

text \<open>A table of items over a buffer is such an interface.\<close>

definition table_get :: "citem list \<Rightarrow> string \<Rightarrow> byte list \<Rightarrow> int option" where
  "table_get citems key b = citem_get_value citems (int (length citems)) b (int (length b)) key"

definition table_put :: "citem list \<Rightarrow> string \<Rightarrow> int \<Rightarrow> byte list \<Rightarrow> byte list option" where
  "table_put citems key v b =
     (case citem_set_value citems (int (length citems)) b (int (length b)) key v of
        Some (r, b') \<Rightarrow> if r = 0 then Some b' else None
      | None \<Rightarrow> None)"

definition table_ok :: "citem list \<Rightarrow> nat \<Rightarrow> bool" where
  "table_ok citems n \<longleftrightarrow> length citems < 65536 \<and> (\<forall>c \<in> set citems. item_ok n c)"

definition key_fits :: "citem list \<Rightarrow> string \<Rightarrow> int \<Rightarrow> bool" where
  "key_fits citems key v \<longleftrightarrow>
     (case find (\<lambda>c. key = ci_key c) citems of
        None \<Rightarrow> False
      | Some c \<Rightarrow> fits_item c v \<and> conv (ci_conv_out c) (conv (ci_conv_in c) v) = v)"

definition keys_apart :: "citem list \<Rightarrow> string \<Rightarrow> string \<Rightarrow> bool" where
  "keys_apart citems k j \<longleftrightarrow>
     (case (find (\<lambda>c. k = ci_key c) citems, find (\<lambda>c. j = ci_key c) citems) of
        (Some c, Some d) \<Rightarrow> items_apart c d
      | _ \<Rightarrow> True)"

lemma table_find: "table_ok citems n \<Longrightarrow> citem_find citems (int (length citems)) key = find (\<lambda>c. key = ci_key c) citems"
  by (simp add: citem_find_def table_ok_def)

lemma table_item: "table_ok citems n \<Longrightarrow> find (\<lambda>c. key = ci_key c) citems = Some c \<Longrightarrow> item_ok n c"
  by (auto simp: table_ok_def dest: find_SomeD)

interpretation table: settings "table_get citems" "table_put citems" "\<lambda>b. table_ok citems (length b)" "key_fits citems" "keys_apart citems"
  for citems
proof
  fix b :: "byte list" and k v
  assume T: "table_ok citems (length b)" and F: "key_fits citems k v"
  then obtain c where c: "find (\<lambda>c. k = ci_key c) citems = Some c" "fits_item c v" "conv (ci_conv_out c) (conv (ci_conv_in c) v) = v"
    by (auto simp: key_fits_def split: option.splits)
  obtain b' where b': "citem_set_value citems (int (length citems)) b (int (length b)) k v = Some (0, b')" "item_written c (conv (ci_conv_in c) v) b b'"
    using set_ok table_find [OF T] table_item [OF T c(1)] c by metis
  have len: "length b' = length b" using b'(2) by (simp add: item_written_def)
  have raw: "raw c b' = conv (ci_conv_in c) v" using raw_item_written [OF b'(2) table_item [OF T c(1)]] c(2) by (simp add: fits_item_def)
  have T': "table_ok citems (length b')" using T len by simp
  have "table_get citems k b' = Some v"
    using get_value_ok [of citems "int (length citems)" k c b'] table_find [OF T] table_item [OF T' c(1)] c raw by (simp add: table_get_def)
  with b'(1) T' show "\<exists>s'. table_put citems k v b = Some s' \<and> table_ok citems (length s') \<and> table_get citems k s' = Some v"
    by (simp add: table_put_def)
  fix j s'
  assume A: "keys_apart citems k j" and P: "table_put citems k v b = Some s'"
  have s': "s' = b'" using P b'(1) by (simp add: table_put_def)
  show "table_get citems j s' = table_get citems j b"
  proof (cases "find (\<lambda>c. j = ci_key c) citems")
    case None
    with table_find [OF T] show ?thesis by (simp add: table_get_def citem_get_value_def)
  next
    case (Some d)
    with A c have "items_apart c d" by (simp add: keys_apart_def)
    then have r: "raw d b' = raw d b" using raw_other [OF b'(2) table_item [OF T Some]] by blast
    have find: "citem_find citems (int (length citems)) j = Some d" using table_find [OF T] Some by simp
    have gb: "citem_get_value citems (int (length citems)) b' (int (length b')) j = Some (conv (ci_conv_out d) (raw d b))"
      using get_value_ok [OF find table_item [OF T' Some]] r by simp
    from get_value_ok [OF find table_item [OF T Some]]
    show ?thesis by (simp add: table_get_def s' gb)
  qed
qed

text \<open>Claim C22. Configuring a device by name: whatever settings are written one after the other, each to an item of its
  own bits and each with a value that fits its width (and comes back through its conversions), afterwards every one of
  them reads back as the value written; and a setting that shares no bit with any of them reads as before.\<close>

theorem citem_settings_kept:
  assumes "table_ok citems (length b)" "\<forall>(k, v) \<in> set kvs. key_fits citems k v" "all_apart (keys_apart citems) (map fst kvs)"
  shows "\<exists>b'. put_all (table_put citems) kvs b = Some b' \<and> (\<forall>(k, v) \<in> set kvs. table_get citems k b' = Some v) \<and>
    (\<forall>j. (\<forall>k \<in> set (map fst kvs). keys_apart citems k j) \<longrightarrow> table_get citems j b' = table_get citems j b)"
proof -
  obtain b' where b': "put_all (table_put citems) kvs b = Some b'" "\<forall>(k, v) \<in> set kvs. table_get citems k b' = Some v"
    using table.put_all_get [OF assms] by blast
  moreover have "table_get citems j b' = table_get citems j b" if "\<forall>k \<in> set (map fst kvs). keys_apart citems k j" for j
    using table.put_all_other [of citems b kvs j] assms(1,2) that b'(1) by force
  ultimately show ?thesis by blast
qed

theorem citem_settings_kept_witness:
  "\<exists>b'. put_all (table_put [CITEM ''azimuth'' 0 15 16, CITEM ''port'' 3 3 3, CITEM ''on'' 3 0 1]) [(''port'', 5), (''azimuth'', 359)] [0, 0, 7, 1] = Some b' \<and>
     table_get [CITEM ''azimuth'' 0 15 16, CITEM ''port'' 3 3 3, CITEM ''on'' 3 0 1] ''azimuth'' b' = Some 359 \<and>
     table_get [CITEM ''azimuth'' 0 15 16, CITEM ''port'' 3 3 3, CITEM ''on'' 3 0 1] ''port'' b' = Some 5"
proof -
  let ?t = "[CITEM ''azimuth'' 0 15 16, CITEM ''port'' 3 3 3, CITEM ''on'' 3 0 1]"
  have "table_ok ?t (length [0, 0, 7, 1 :: byte])" by (simp add: table_ok_def item_ok_def multibyte_def CITEM_def)
  moreover have "\<forall>(k, v) \<in> set [(''port'', 5), (''azimuth'', 359)]. key_fits ?t k v"
    by (simp add: key_fits_def fits_item_def conv_def CITEM_def)
  moreover have "all_apart (keys_apart ?t) (map fst [(''port'', 5 :: int), (''azimuth'', 359)])"
    by (simp add: keys_apart_def items_apart_def ci_first_def ci_byte_def ci_shift_def multibyte_def CITEM_def)
  ultimately show ?thesis using citem_settings_kept [of ?t "[0, 0, 7, 1]" "[(''port'', 5), (''azimuth'', 359)]"] by auto
qed

text \<open>What the check for the width lets through: a negative value reaches the bits beside the item.\<close>

lemma negative_value_clobbers:
  "citem_set_value [CITEM ''on'' 0 0 1, CITEM ''other'' 0 1 1] 2 [0] 1 ''on'' (-1) = Some (0, [255])"
  by (simp add: citem_set_value_def citem_find_def conv_def CITEM_def Let_def multibyte_def width2mask_def)

text \<open>The check of the index does not stop a write outside the buffer.\<close>

lemma index_out_of_range: "citem_set_value [CITEM ''on'' 4 0 1] 1 [0] 1 ''on'' 1 = None"
  by (simp add: citem_set_value_def citem_find_def conv_def CITEM_def Let_def multibyte_def width2mask_def)

end
