(* ===== verification/Wkman.thy ===== *)
theory Wkman
  imports Citem RouterFlow
begin

text \<open>
  \<^verbatim>\<open>src/wkman.c\<close>, \<^verbatim>\<open>src/wkman.h\<close>: the settings of the Winkey chip in a keyer and the commands that
  go to it. The settings are 15 bytes with a table of items (\<open>Citem\<close>), the commands go through the
  router's Winkey channel (\<open>RouterModel\<close>). Whether the keyer is online (\<^verbatim>\<open>mhc_is_online\<close>) is an
  argument, the timer and the subscription to the keyer's state are flags. \<open>None\<close> is a C program
  without a defined result. Log output is left out, and so are the parts under \<^verbatim>\<open>#if 0\<close>.
\<close>

section \<open>State and settings\<close>

definition WK_CFG_SIZE :: nat where
  "WK_CFG_SIZE = 15"

datatype wkm_state = WKM_STATE_OFFLINE | WKM_STATE_HOST_CLOSED | WKM_STATE_HOST_OPEN | WKM_STATE_HOST_OPEN_SENT

datatype wkm_result = WKM_RESULT_OK | WKM_RESULT_DEVICE_OFFLINE | WKM_RESULT_TIMEOUT | WKM_RESULT_IO_ERROR | WKM_RESULT_BUSY

record wkman =
  wk_serial :: string
  wk_timer :: bool
  wk_kscb :: bool
  wk_cfg :: "byte list"
  wk_read_size :: byte
  wk_state :: wkm_state
  wk_task :: byte
  wk_version :: byte

definition wk_items :: "citem list" where
  "wk_items =
     [CITEMD ''disablePaddleWatchdog'' 0 7 1 1,
      CITEMD ''paddleEchoBack'' 0 6 1 0,
      CITEMD ''keyMode'' 0 5 2 0,
      CITEMD ''paddleSwap'' 0 3 1 0,
      CITEMD ''serialEchoBack'' 0 2 1 1,
      CITEMD ''autoSpace'' 0 1 1 0,
      CITEMD ''ctSpacing'' 0 0 1 0,
      CITEMD ''speedWpm'' 1 7 8 0,
      CITEMD ''sideToneFreq'' 2 7 8 5,
      CITEMD ''weight'' 3 7 8 50,
      CITEMD ''leadInTime'' 4 7 8 10,
      CITEMD ''tailTime'' 5 7 8 10,
      CITEMD ''minWpm'' 6 7 8 10,
      CITEMD ''wpmRange'' 7 7 8 50,
      CITEMD ''1stExtension'' 8 7 8 0,
      CITEMD ''keyComp'' 9 7 8 0,
      CITEMD ''farnsWpm'' 10 7 8 0,
      CITEMD ''paddleSetpoint'' 11 7 8 50,
      CITEMD ''ditDahRatio'' 12 7 8 50,
      CITEMD ''pinConfig'' 13 3 4 5,
      CITEMD ''hangTime'' 13 5 2 0,
      CITEMD ''ultimaticMode'' 13 7 2 0,
      CITEMD ''potRange'' 14 7 8 255]"

definition wkm_set_value :: "wkman \<Rightarrow> string \<Rightarrow> byte \<Rightarrow> (int \<times> wkman) option" where
  "wkm_set_value w key val =
     map_option (\<lambda>(r, b). (r, w\<lparr>wk_cfg := b\<rparr>))
       (citem_set_value wk_items (int (length wk_items)) (wk_cfg w) (int WK_CFG_SIZE) key (uint val))"

text \<open>The callback of \<^verbatim>\<open>wkm_foreach\<close> takes and returns the state behind its user data.\<close>

fun foreach_loop :: "('u \<Rightarrow> string \<Rightarrow> int \<Rightarrow> int \<times> 'u) \<Rightarrow> wkman \<Rightarrow> citem list \<Rightarrow> 'u \<Rightarrow> (int \<times> 'u) option" where
  "foreach_loop cb w [] u = Some (0, u)"
| "foreach_loop cb w (c # cs) u =
     (case citem_get_value wk_items (int (length wk_items)) (wk_cfg w) (int WK_CFG_SIZE) (ci_key c) of
        None \<Rightarrow> None
      | Some val \<Rightarrow>
          if val < 0 then foreach_loop cb w cs u
          else let (r, u') = cb u (ci_key c) val in if r \<noteq> 0 then Some (-1, u') else foreach_loop cb w cs u')"

definition wkm_foreach :: "wkman option \<Rightarrow> ('u \<Rightarrow> string \<Rightarrow> int \<Rightarrow> int \<times> 'u) option \<Rightarrow> 'u \<Rightarrow> (int \<times> 'u) option" where
  "wkm_foreach wk cb u =
     (case (wk, cb) of
        (Some w, Some f) \<Rightarrow> foreach_loop f w wk_items u
      | _ \<Rightarrow> Some (-1, u))"

definition wkm_opts_to_cfg :: "('cfg \<Rightarrow> string \<Rightarrow> int \<Rightarrow> 'cfg) \<Rightarrow> wkman \<Rightarrow> 'cfg \<Rightarrow> (int \<times> 'cfg) option" where
  "wkm_opts_to_cfg put w cfg = citems_to_cfg put cfg wk_items (int (length wk_items)) (wk_cfg w) (int WK_CFG_SIZE)"

text \<open>
  The children of a node of the configuration tree are its names and values; \<^verbatim>\<open>atoi\<close>, with the
  result that fits \<^verbatim>\<open>int\<close>, is passed on as \<^verbatim>\<open>uint8_t\<close>.
\<close>

fun atoi_digits :: "int \<Rightarrow> string \<Rightarrow> int" where
  "atoi_digits n [] = n"
| "atoi_digits n (c # cs) =
     (let d = (of_char c :: int) in if 48 \<le> d \<and> d \<le> 57 then atoi_digits (n * 10 + (d - 48)) cs else n)"

definition atoi :: "string \<Rightarrow> int" where
  "atoi s =
     (let s1 = dropWhile (\<lambda>c. let d = (of_char c :: nat) in d = 32 \<or> 9 \<le> d \<and> d \<le> 13) s
      in case s1 of
           [] \<Rightarrow> 0
         | c # cs \<Rightarrow>
             if of_char c = (45 :: nat) then - atoi_digits 0 cs
             else if of_char c = (43 :: nat) then atoi_digits 0 cs
             else atoi_digits 0 s1)"

fun cfg_to_opts_loop :: "wkman \<Rightarrow> (string \<times> string) list \<Rightarrow> int \<Rightarrow> (int \<times> wkman) option" where
  "cfg_to_opts_loop w [] rval = Some (rval, w)"
| "cfg_to_opts_loop w ((key, val_str) # hdf) rval =
     (case wkm_set_value w key (word_of_int (atoi val_str)) of
        None \<Rightarrow> None
      | Some (r, w') \<Rightarrow> cfg_to_opts_loop w' hdf (rval + r))"

definition wkm_cfg_to_opts :: "wkman \<Rightarrow> (string \<times> string) list \<Rightarrow> (int \<times> wkman) option" where
  "wkm_cfg_to_opts w hdf = cfg_to_opts_loop w hdf 0"

section \<open>Commands\<close>

definition wkm_reset :: "bool \<Rightarrow> wkman \<times> router \<Rightarrow> wkm_result \<times> wkman \<times> router" where
  "wkm_reset online s =
     (if \<not> online then (WKM_RESULT_DEVICE_OFFLINE, s)
      else let (n, r) = mhr_send_in (snd s) [0x00, 0x01] MH_CHANNEL_WINKEY
           in if n \<noteq> 2 then (WKM_RESULT_IO_ERROR, fst s, r)
              else (WKM_RESULT_OK, (fst s)\<lparr>wk_state := WKM_STATE_HOST_CLOSED\<rparr>, r))"

definition wkm_host_open :: "bool \<Rightarrow> wkman \<times> router \<Rightarrow> wkm_result \<times> wkman \<times> router" where
  "wkm_host_open online s =
     (if \<not> online then (WKM_RESULT_DEVICE_OFFLINE, s)
      else if wk_state (fst s) \<noteq> WKM_STATE_HOST_CLOSED \<and> wk_state (fst s) \<noteq> WKM_STATE_HOST_OPEN then (WKM_RESULT_BUSY, s)
      else let (n, r) = mhr_send_in (snd s) [0x00, 0x02] MH_CHANNEL_WINKEY
           in if n \<noteq> 2 then (WKM_RESULT_IO_ERROR, fst s, r)
              else (WKM_RESULT_OK, (fst s)\<lparr>wk_timer := True, wk_state := WKM_STATE_HOST_OPEN_SENT\<rparr>, r))"

definition wkm_host_close :: "bool \<Rightarrow> wkman \<times> router \<Rightarrow> wkm_result \<times> wkman \<times> router" where
  "wkm_host_close online s =
     (if \<not> online then (WKM_RESULT_DEVICE_OFFLINE, s)
      else if wk_state (fst s) \<noteq> WKM_STATE_HOST_CLOSED \<and> wk_state (fst s) \<noteq> WKM_STATE_HOST_OPEN then (WKM_RESULT_BUSY, s)
      else let (n, r) = mhr_send_in (snd s) [0x00, 0x03] MH_CHANNEL_WINKEY
           in if n \<noteq> 2 then (WKM_RESULT_IO_ERROR, fst s, r)
              else (WKM_RESULT_OK, (fst s)\<lparr>wk_state := WKM_STATE_HOST_CLOSED\<rparr>, r))"

definition wkm_write_cfg :: "bool \<Rightarrow> wkman \<times> router \<Rightarrow> wkm_result \<times> wkman \<times> router" where
  "wkm_write_cfg online s =
     (if \<not> online then (WKM_RESULT_DEVICE_OFFLINE, s)
      else if wk_state (fst s) \<noteq> WKM_STATE_HOST_OPEN \<and> wk_state (fst s) \<noteq> WKM_STATE_HOST_CLOSED then (WKM_RESULT_BUSY, s)
      else let cmd = 0x0f # wk_cfg (fst s);
               (n, r) = mhr_send_in (snd s) cmd MH_CHANNEL_WINKEY
           in if n \<noteq> int (1 + WK_CFG_SIZE) then (WKM_RESULT_IO_ERROR, fst s, r)
              else (WKM_RESULT_OK, fst s, r))"

fun wkm_err_string :: "wkm_result \<Rightarrow> string" where
  "wkm_err_string WKM_RESULT_OK = ''success''"
| "wkm_err_string WKM_RESULT_DEVICE_OFFLINE = ''device offline''"
| "wkm_err_string WKM_RESULT_TIMEOUT = ''timeout''"
| "wkm_err_string WKM_RESULT_IO_ERROR = ''i/o error''"
| "wkm_err_string WKM_RESULT_BUSY = ''winkey busy''"

section \<open>Callbacks, creating and destroying\<close>

definition wkm_read_cb :: "bool \<Rightarrow> byte list \<Rightarrow> wkman \<times> router \<Rightarrow> (wkman \<times> router) option" where
  "wkm_read_cb online data s =
     (if wk_state (fst s) = WKM_STATE_HOST_OPEN_SENT then
        (case data of
           [] \<Rightarrow> None
         | c # _ \<Rightarrow>
             let w = (fst s)\<lparr>wk_version := c, wk_state := WKM_STATE_HOST_OPEN, wk_timer := False\<rparr>
             in Some (snd (wkm_write_cfg online (w, snd s))))
      else Some s)"

text \<open>The timer is not periodic: it is stopped when it fires. \<open>rcb\<close> is the address of \<^verbatim>\<open>read_cb\<close>.\<close>

definition wkm_timeout_cb :: "cb \<Rightarrow> wkman \<times> router \<Rightarrow> wkman \<times> router" where
  "wkm_timeout_cb rcb s =
     (let w = (fst s)\<lparr>wk_timer := False\<rparr>
      in if wk_state w = WKM_STATE_HOST_OPEN_SENT then
           (w\<lparr>wk_state := WKM_STATE_HOST_CLOSED\<rparr>, mhr_rem_consumer_cb (snd s) rcb MH_CHANNEL_WINKEY)
         else (w, snd s))"

text \<open>
  The event of a keyer's state: the serial number, which may be missing, and whether the new state is
  \<^verbatim>\<open>MHC_KEYER_STATE_ONLINE\<close>. No event is \<open>None\<close>, also one of another type.
\<close>

definition keyer_state_changed_cb :: "bool \<Rightarrow> (string option \<times> bool) option \<Rightarrow> wkman \<times> router \<Rightarrow> wkman \<times> router" where
  "keyer_state_changed_cb online ev s =
     (case ev of
        None \<Rightarrow> s
      | Some (sn, state_online) \<Rightarrow>
          if sn \<noteq> None \<and> sn \<noteq> Some (wk_serial (fst s)) then s
          else if state_online then
            let s1 = ((fst s)\<lparr>wk_state := WKM_STATE_HOST_CLOSED\<rparr>, snd s);
                (err, s2) = wkm_reset online s1
            in if err \<noteq> WKM_RESULT_OK then s2
               else let s3 = ((fst s2)\<lparr>wk_state := WKM_STATE_HOST_CLOSED\<rparr>, snd s2)
                    in snd (wkm_write_cfg online s3)
          else ((fst s)\<lparr>wk_state := WKM_STATE_OFFLINE\<rparr>, snd s))"

fun defaults_loop :: "citem list \<Rightarrow> wkman \<Rightarrow> wkman option" where
  "defaults_loop [] w = Some w"
| "defaults_loop (c # cs) w =
     (case wkm_set_value w (ci_key c) (ucast (ci_def c)) of None \<Rightarrow> None | Some (_, w') \<Rightarrow> defaults_loop cs w')"

definition wkm_create :: "string \<Rightarrow> bool \<Rightarrow> cb \<Rightarrow> user \<Rightarrow> router \<Rightarrow> (wkman \<times> router) option" where
  "wkm_create sn online rcb user r =
     (let w = \<lparr>wk_serial = sn, wk_timer = False, wk_kscb = False, wk_cfg = replicate WK_CFG_SIZE 0,
               wk_read_size = 0, wk_state = WKM_STATE_OFFLINE, wk_task = 0, wk_version = 0\<rparr>
      in map_option
           (\<lambda>w. (w\<lparr>wk_state := if online then WKM_STATE_HOST_CLOSED else WKM_STATE_OFFLINE, wk_kscb := True\<rparr>,
                 mhr_add_consumer_cb r rcb MH_CHANNEL_WINKEY user))
           (defaults_loop wk_items w))"

definition wkm_destroy :: "cb \<Rightarrow> (wkman \<times> router) option \<Rightarrow> router option" where
  "wkm_destroy rcb s = map_option (\<lambda>s. mhr_rem_consumer_cb (snd s) rcb MH_CHANNEL_WINKEY) s"

section \<open>The settings are a map\<close>

text \<open>
  What a client sees of the settings: a value per name. A name that is unknown or a value too wide
  for its item is refused.
\<close>

definition wk_width :: "string \<Rightarrow> nat option" where
  "wk_width key = map_option ci_width (find (\<lambda>c. key = ci_key c) wk_items)"

definition map_set :: "(string \<Rightarrow> int) \<Rightarrow> string \<Rightarrow> byte \<Rightarrow> int \<times> (string \<Rightarrow> int)" where
  "map_set m key val =
     (case wk_width key of
        None \<Rightarrow> (-1, m)
      | Some n \<Rightarrow> if uint val < 2 ^ n then (0, m(key := uint val)) else (-1, m))"

text \<open>The value of each name in a state.\<close>

definition wk_view :: "wkman \<Rightarrow> (string \<Rightarrow> int) \<Rightarrow> bool" where
  "wk_view w m \<longleftrightarrow> length (wk_cfg w) = WK_CFG_SIZE \<and>
     (\<forall>key. citem_get_value wk_items (int (length wk_items)) (wk_cfg w) (int WK_CFG_SIZE) key = Some (m key))"

lemma wk_table: "table_ok wk_items WK_CFG_SIZE"
  by (simp add: table_ok_def wk_items_def item_ok_def multibyte_def CITEMD_def WK_CFG_SIZE_def)

text \<open>Every item is apart from those before it, so two names share no bit.\<close>

fun apart_list :: "citem list \<Rightarrow> bool" where
  "apart_list [] \<longleftrightarrow> True"
| "apart_list (c # cs) \<longleftrightarrow> list_all (items_apart c) cs \<and> apart_list cs"

lemma apart_sym: "items_apart c d = items_apart d c"
  by (auto simp: items_apart_def)

lemma apart_listD: "apart_list cs \<Longrightarrow> c \<in> set cs \<Longrightarrow> d \<in> set cs \<Longrightarrow> c \<noteq> d \<Longrightarrow> items_apart c d"
  by (induction cs) (auto simp: list_all_iff apart_sym)

lemma wk_apart: "apart_list wk_items"
  by (simp add: wk_items_def items_apart_def ci_first_def ci_byte_def ci_shift_def multibyte_def CITEMD_def)

lemma wk_keys_apart: "k \<noteq> j \<Longrightarrow> keys_apart wk_items k j"
  using apart_listD [OF wk_apart] by (auto simp: keys_apart_def split: option.splits dest!: find_SomeD)

lemma wk_single: "c \<in> set wk_items \<Longrightarrow> \<not> multibyte c \<and> ci_conv_in c = None \<and> ci_conv_out c = None"
  by (auto simp: wk_items_def multibyte_def CITEMD_def)

text \<open>One write, seen as a change of the map.\<close>

lemma wk_get: "wk_view w m \<Longrightarrow> table_get wk_items key (wk_cfg w) = Some (m key)"
  by (simp add: wk_view_def table_get_def)

lemma wk_view_table: "wk_view w m \<Longrightarrow> table_ok wk_items (length (wk_cfg w))"
  using wk_table by (simp add: wk_view_def)

lemma wk_find: "find (\<lambda>c. key = ci_key c) wk_items = Some c \<Longrightarrow> c \<in> set wk_items \<and> \<not> multibyte c \<and> ci_conv_in c = None \<and> ci_conv_out c = None"
  using wk_single by (blast dest: find_SomeD)

lemma wk_accepted:
  assumes V: "wk_view w m" and f: "find (\<lambda>c. key = ci_key c) wk_items = Some c" and v: "uint val < 2 ^ ci_width c"
  shows "\<exists>w'. wkm_set_value w key val = Some (0, w') \<and> wk_view w' (m(key := uint val))"
proof -
  note T = wk_view_table [OF V]
  have F: "key_fits wk_items key (uint val)" using f v wk_find [OF f] by (simp add: key_fits_def fits_item_def conv_def)
  obtain b where b: "table_put wk_items key (uint val) (wk_cfg w) = Some b" "table_get wk_items key b = Some (uint val)"
    using table.put_get [OF T F] by blast
  have "citem_set_value wk_items (int (length wk_items)) (wk_cfg w) (int WK_CFG_SIZE) key (uint val) = Some (0, b)"
    using b(1) V by (auto simp: table_put_def wk_view_def split: option.splits prod.splits if_splits)
  then have set: "wkm_set_value w key val = Some (0, w\<lparr>wk_cfg := b\<rparr>)" by (simp add: wkm_set_value_def)
  have len: "length b = WK_CFG_SIZE"
    using set_ok [OF _ table_item [OF T f], of wk_items "int (length wk_items)" key "uint val"] table_find [OF T] F f b(1) V
    by (auto simp: key_fits_def table_put_def item_written_def wk_view_def split: option.splits prod.splits if_splits)
  have "table_get wk_items j b = Some ((m(key := uint val)) j)" for j
    using b(2) table.put_other [OF T F wk_keys_apart b(1), of j] wk_get [OF V, of j] by (cases "j = key") auto
  then have "wk_view (w\<lparr>wk_cfg := b\<rparr>) (m(key := uint val))" using len by (simp add: wk_view_def table_get_def)
  with set show ?thesis by blast
qed

lemma wk_refused:
  assumes V: "wk_view w m" and f: "find (\<lambda>c. key = ci_key c) wk_items = Some c" and v: "\<not> uint val < 2 ^ ci_width c"
  shows "wkm_set_value w key val = Some (-1, w)"
proof -
  note T = wk_view_table [OF V]
  have "citem_set_value wk_items (int (length wk_items)) (wk_cfg w) (int (length (wk_cfg w))) key (uint val) = Some (-1, wk_cfg w)"
    using table_find [OF T] f v wk_find [OF f] table_item [OF T f] by (intro set_refused) (auto simp: conv_def)
  then show ?thesis using V by (simp add: wkm_set_value_def wk_view_def)
qed

lemma wk_step: "wk_view w m \<Longrightarrow> \<exists>w'. wkm_set_value w key val = Some (fst (map_set m key val), w') \<and> wk_view w' (snd (map_set m key val))"
proof (cases "find (\<lambda>c. key = ci_key c) wk_items")
  case None
  assume "wk_view w m"
  with None table_find [OF wk_view_table [OF this]] show ?thesis
    by (simp add: wkm_set_value_def citem_set_value_def map_set_def wk_width_def)
next
  case (Some c)
  assume "wk_view w m"
  with Some wk_accepted wk_refused show ?thesis by (cases "uint val < 2 ^ ci_width c") (auto simp: map_set_def wk_width_def)
qed

text \<open>Runs of writes.\<close>

fun set_run :: "(string \<times> byte) list \<Rightarrow> wkman \<Rightarrow> (int list \<times> wkman) option" where
  "set_run [] w = Some ([], w)"
| "set_run ((key, val) # kvs) w =
     (case wkm_set_value w key val of
        None \<Rightarrow> None
      | Some (r, w') \<Rightarrow> map_option (\<lambda>(rs, w''). (r # rs, w'')) (set_run kvs w'))"

fun map_run :: "(string \<times> byte) list \<Rightarrow> (string \<Rightarrow> int) \<Rightarrow> int list \<times> (string \<Rightarrow> int)" where
  "map_run [] m = ([], m)"
| "map_run ((key, val) # kvs) m =
     (let (r, m') = map_set m key val; (rs, m'') = map_run kvs m' in (r # rs, m''))"

lemma wk_runs: "wk_view w m \<Longrightarrow> \<exists>w'. set_run kvs w = Some (fst (map_run kvs m), w') \<and> wk_view w' (snd (map_run kvs m))"
proof (induction kvs arbitrary: w m)
  case (Cons kv kvs)
  obtain key val where kv: "kv = (key, val)" by (cases kv)
  obtain w1 where w1: "wkm_set_value w key val = Some (fst (map_set m key val), w1)" "wk_view w1 (snd (map_set m key val))"
    using wk_step [OF Cons.prems] by blast
  from Cons.IH [OF w1(2)] w1(1) kv show ?case by (auto simp: split_def Let_def)
qed simp

lemma defaults_run:
  "set_run (map (\<lambda>c. (ci_key c, ucast (ci_def c))) cs) w = Some (rs, w') \<Longrightarrow> defaults_loop cs w = Some w'"
  by (induction cs arbitrary: w rs) (auto split: option.splits)

definition wk_defaults :: "string \<Rightarrow> int" where
  "wk_defaults key = (case find (\<lambda>c. key = ci_key c) wk_items of None \<Rightarrow> -1 | Some c \<Rightarrow> uint (ucast (ci_def c) :: byte))"

lemma map_run_defaults:
  "distinct (map ci_key cs) \<Longrightarrow> \<forall>c \<in> set cs. wk_width (ci_key c) = Some (ci_width c) \<and> uint (ucast (ci_def c) :: byte) < 2 ^ ci_width c \<Longrightarrow>
   snd (map_run (map (\<lambda>c. (ci_key c, ucast (ci_def c))) cs) m) key =
     (case find (\<lambda>c. key = ci_key c) cs of None \<Rightarrow> m key | Some c \<Rightarrow> uint (ucast (ci_def c) :: byte))"
proof (induction cs arbitrary: m)
  case (Cons c cs)
  have "find (\<lambda>d. ci_key c = ci_key d) cs = None" using Cons.prems(1) by (auto simp: find_None_iff)
  with Cons show ?case by (auto simp: map_set_def split_def Let_def split: option.split)
qed simp

lemma wk_keys: "distinct (map ci_key wk_items)"
  by (simp add: wk_items_def CITEMD_def)

lemma wk_fits: "c \<in> set wk_items \<Longrightarrow> uint (ucast (ci_def c) :: byte) < 2 ^ ci_width c"
  by (auto simp: wk_items_def CITEMD_def)

lemma find_key: "distinct (map ci_key cs) \<Longrightarrow> c \<in> set cs \<Longrightarrow> find (\<lambda>d. ci_key c = ci_key d) cs = Some c"
  by (induction cs) (auto simp: image_iff)

lemma wk_zero_view: "wk_cfg w = replicate WK_CFG_SIZE 0 \<Longrightarrow> wk_view w (\<lambda>key. if wk_width key = None then -1 else 0)"
proof -
  assume w: "wk_cfg w = replicate WK_CFG_SIZE 0"
  have T: "table_ok wk_items (length (wk_cfg w))" using w wk_table by simp
  have z: "raw c (wk_cfg w) = 0" if "item_ok WK_CFG_SIZE c" for c
  proof (rule bit_eqI)
    fix k
    have "(ci_first c + k) div 8 < WK_CFG_SIZE" if "k < ci_width c" using ci_row [OF \<open>item_ok WK_CFG_SIZE c\<close>] that by linarith
    then show "bit (raw c (wk_cfg w)) k = bit 0 k" by (auto simp: bit_raw buf_bit_def w)
  qed
  have "citem_get_value wk_items (int (length wk_items)) (wk_cfg w) (int WK_CFG_SIZE) key = Some (if wk_width key = None then -1 else 0)" for key
  proof (cases "find (\<lambda>c. key = ci_key c) wk_items")
    case None
    with table_find [OF T] show ?thesis by (simp add: citem_get_value_def wk_width_def)
  next
    case (Some c)
    have i: "item_ok WK_CFG_SIZE c" using table_item [OF wk_table Some] .
    have "citem_get_value wk_items (int (length wk_items)) (wk_cfg w) (int (length (wk_cfg w))) key = Some (conv (ci_conv_out c) (raw c (wk_cfg w)))"
      by (rule get_value_ok) (use table_find [OF T] Some i w in simp_all)
    with z [OF i] wk_find [OF Some] w Some show ?thesis by (simp add: conv_def wk_width_def)
  qed
  with w show ?thesis by (simp add: wk_view_def)
qed

lemma wk_create_view:
  "\<exists>w. wkm_create sn online rcb u r = Some (w, mhr_add_consumer_cb r rcb MH_CHANNEL_WINKEY u) \<and> wk_view w wk_defaults \<and>
     wk_state w = (if online then WKM_STATE_HOST_CLOSED else WKM_STATE_OFFLINE)"
proof -
  define w0 where "w0 = \<lparr>wk_serial = sn, wk_timer = False, wk_kscb = False, wk_cfg = replicate WK_CFG_SIZE 0,
               wk_read_size = 0, wk_state = WKM_STATE_OFFLINE, wk_task = 0, wk_version = 0\<rparr>"
  let ?m = "\<lambda>key. if wk_width key = None then -1 else (0 :: int)" and ?kvs = "map (\<lambda>c. (ci_key c, ucast (ci_def c) :: byte)) wk_items"
  have "wk_view w0 ?m" by (rule wk_zero_view) (simp add: w0_def)
  then obtain w1 where w1: "set_run ?kvs w0 = Some (fst (map_run ?kvs ?m), w1)" "wk_view w1 (snd (map_run ?kvs ?m))" using wk_runs by blast
  have "snd (map_run ?kvs ?m) key = wk_defaults key" for key
    using map_run_defaults [OF wk_keys, of ?m key] wk_fits find_key [OF wk_keys]
    by (auto simp: wk_width_def wk_defaults_def split: option.splits)
  then have "snd (map_run ?kvs ?m) = wk_defaults" by (rule ext)
  with w1(2) have "wk_view w1 wk_defaults" by simp
  moreover have "defaults_loop wk_items w0 = Some w1" by (rule defaults_run [OF w1(1)])
  ultimately show ?thesis by (simp add: wkm_create_def w0_def [symmetric] wk_view_def)
qed

text \<open>Claim C23. The Winkey settings refine a map from names to values. After creating, every name of the table holds its default
  and the others are unknown; from there on any sequence of writes has a defined result, answers 0 or -1 exactly as the map
  does (an unknown name and a value too wide for its item are refused), and afterwards reading any name gives what the map
  holds.\<close>

theorem wkm_settings_refine:
  "\<exists>w. wkm_create sn online rcb u r = Some (w, mhr_add_consumer_cb r rcb MH_CHANNEL_WINKEY u) \<and> wk_view w wk_defaults \<and>
     (\<forall>kvs. \<exists>w'. set_run kvs w = Some (fst (map_run kvs wk_defaults), w') \<and> wk_view w' (snd (map_run kvs wk_defaults)))"
proof -
  obtain w where w: "wkm_create sn online rcb u r = Some (w, mhr_add_consumer_cb r rcb MH_CHANNEL_WINKEY u)" "wk_view w wk_defaults"
    using wk_create_view by blast
  have "\<exists>w'. set_run kvs w = Some (fst (map_run kvs wk_defaults), w') \<and> wk_view w' (snd (map_run kvs wk_defaults))" for kvs
    by (rule wk_runs [OF w(2)])
  with w show ?thesis by blast
qed

section \<open>Commands to the chip\<close>

text \<open>A block on the Winkey channel.\<close>

lemma wk_send:
  assumes "router_ok r" "rtr_fd r \<noteq> -1" "length data \<le> buf_size_avail (channel_buf_out r MH_CHANNEL_WINKEY)"
  shows "fst (mhr_send_in r data MH_CHANNEL_WINKEY) = int (length data)"
    "buf_contents (channel_buf_out (snd (mhr_send_in r data MH_CHANNEL_WINKEY)) MH_CHANNEL_WINKEY) =
       buf_contents (channel_buf_out r MH_CHANNEL_WINKEY) @ data"
    "buf_size_avail (channel_buf_out (snd (mhr_send_in r data MH_CHANNEL_WINKEY)) MH_CHANNEL_WINKEY) =
       buf_size_avail (channel_buf_out r MH_CHANNEL_WINKEY) - length data"
    "router_ok (snd (mhr_send_in r data MH_CHANNEL_WINKEY))" "rtr_fd (snd (mhr_send_in r data MH_CHANNEL_WINKEY)) = rtr_fd r"
proof -
  have b: "buf_ok (channel_buf_out r MH_CHANNEL_WINKEY)" using assms(1) by (simp add: router_ok_def bufs_ok_def)
  have S: "mhr_send_in r data MH_CHANNEL_WINKEY =
      (let (n, b) = buf_append (channel_buf_out r MH_CHANNEL_WINKEY) data (length data) in (n, (set_buf MH_CHANNEL_WINKEY b r)\<lparr>w_out := True\<rparr>))"
    using assms buf_avail_le [OF b] by (simp add: mhr_send_in_def in_range_def)
  note A = buf_append_fits [OF b assms(3)]
  show "fst (mhr_send_in r data MH_CHANNEL_WINKEY) = int (length data)"
    "buf_contents (channel_buf_out (snd (mhr_send_in r data MH_CHANNEL_WINKEY)) MH_CHANNEL_WINKEY) =
       buf_contents (channel_buf_out r MH_CHANNEL_WINKEY) @ data"
    using A by (simp_all add: S split_def)
  show "buf_size_avail (channel_buf_out (snd (mhr_send_in r data MH_CHANNEL_WINKEY)) MH_CHANNEL_WINKEY) =
       buf_size_avail (channel_buf_out r MH_CHANNEL_WINKEY) - length data"
    using A b by (simp add: S split_def buf_avail)
qed (simp_all add: assms(1) mhr_send_in_ok)

text \<open>Claim C24. A keyer that comes online is configured: with its router connected and room for eighteen bytes on the Winkey
  channel, exactly the reset command and then the write command with all the settings, as they are at that moment, are
  appended to what was queued, on that channel and no other, and the chip's host mode is closed.\<close>

theorem wkm_online_configures:
  assumes "router_ok r" "rtr_fd r \<noteq> -1" "18 \<le> buf_size_avail (channel_buf_out r MH_CHANNEL_WINKEY)" "wk_view w m"
    and "sn = None \<or> sn = Some (wk_serial w)"
  shows "case keyer_state_changed_cb True (Some (sn, True)) (w, r) of (w', r') \<Rightarrow>
    buf_contents (channel_buf_out r' MH_CHANNEL_WINKEY) = buf_contents (channel_buf_out r MH_CHANNEL_WINKEY) @ [0x00, 0x01, 0x0f] @ wk_cfg w \<and>
    (\<forall>ch. ch \<noteq> MH_CHANNEL_WINKEY \<longrightarrow> channel_buf_out r' ch = channel_buf_out r ch) \<and>
    wk_state w' = WKM_STATE_HOST_CLOSED \<and> wk_view w' m"
proof -
  have len: "length (wk_cfg w) = 15" using assms(4) by (simp add: wk_view_def WK_CFG_SIZE_def)
  define r1 where "r1 = snd (mhr_send_in r [0x00, 0x01] MH_CHANNEL_WINKEY)"
  have s1: "mhr_send_in r [0x00, 0x01] MH_CHANNEL_WINKEY = (2, r1)"
    using wk_send(1) [OF assms(1,2), of "[0x00, 0x01]"] assms(3) by (simp add: r1_def prod_eq_iff)
  have r1: "router_ok r1" "rtr_fd r1 \<noteq> -1" "16 \<le> buf_size_avail (channel_buf_out r1 MH_CHANNEL_WINKEY)"
    "buf_contents (channel_buf_out r1 MH_CHANNEL_WINKEY) = buf_contents (channel_buf_out r MH_CHANNEL_WINKEY) @ [0x00, 0x01]"
    using wk_send [OF assms(1,2), of "[0x00, 0x01]"] assms(2,3) by (simp_all add: r1_def)
  define r2 where "r2 = snd (mhr_send_in r1 (0x0f # wk_cfg w) MH_CHANNEL_WINKEY)"
  have s2: "mhr_send_in r1 (0x0f # wk_cfg w) MH_CHANNEL_WINKEY = (16, r2)"
    "buf_contents (channel_buf_out r2 MH_CHANNEL_WINKEY) = buf_contents (channel_buf_out r1 MH_CHANNEL_WINKEY) @ 0x0f # wk_cfg w"
    using wk_send [OF r1(1,2), of "0x0f # wk_cfg w"] r1(3) len by (simp_all add: r2_def prod_eq_iff)
  have "keyer_state_changed_cb True (Some (sn, True)) (w, r) = (w\<lparr>wk_state := WKM_STATE_HOST_CLOSED\<rparr>, r2)"
    using assms(5) s1 s2(1) by (auto simp: keyer_state_changed_cb_def wkm_reset_def wkm_write_cfg_def Let_def WK_CFG_SIZE_def)
  moreover have "channel_buf_out r2 ch = channel_buf_out r ch" if "ch \<noteq> MH_CHANNEL_WINKEY" for ch
    using that by (simp add: r2_def r1_def)
  ultimately show ?thesis using s2(2) r1(4) assms(4) by (simp add: wk_view_def)
qed

theorem wkm_online_configures_witness:
  "\<exists>w. wkm_create ''K'' False 7 0 (two_connectors MH_CHANNEL_R1) = Some (w, mhr_add_consumer_cb (two_connectors MH_CHANNEL_R1) 7 MH_CHANNEL_WINKEY 0) \<and>
     wk_state (fst (keyer_state_changed_cb True (Some (None, True)) (w, two_connectors MH_CHANNEL_R1))) = WKM_STATE_HOST_CLOSED"
proof -
  obtain w where w: "wkm_create ''K'' False 7 0 (two_connectors MH_CHANNEL_R1) = Some (w, mhr_add_consumer_cb (two_connectors MH_CHANNEL_R1) 7 MH_CHANNEL_WINKEY 0)"
    "wk_view w wk_defaults" using wk_create_view by blast
  have "buf_size_avail buf_alloc = 4096" by (simp add: buf_avail) (simp add: buf_alloc_def BUFFER_CAPACITY_def)
  then have "18 \<le> buf_size_avail (channel_buf_out (two_connectors MH_CHANNEL_R1) MH_CHANNEL_WINKEY)" by (simp add: two_connectors_state)
  with wkm_online_configures [OF two_connectors_ok, of MH_CHANNEL_R1 w wk_defaults None] w show ?thesis
    by (auto simp: two_connectors_state split: prod.splits)
qed

section \<open>The wait for the chip\<close>

text \<open>Everything that happens to the module; the router may change in any way in between.\<close>

inductive wk_event :: "cb \<Rightarrow> wkman \<times> router \<Rightarrow> wkman \<times> router \<Rightarrow> bool" for rcb where
  set: "wkm_set_value w key val = Some (res, w') \<Longrightarrow> wk_event rcb (w, r) (w', r)"
| reset: "wk_event rcb s (snd (wkm_reset online s))"
| host_open: "wk_event rcb s (snd (wkm_host_open online s))"
| host_close: "wk_event rcb s (snd (wkm_host_close online s))"
| write_cfg: "wk_event rcb s (snd (wkm_write_cfg online s))"
| read: "wkm_read_cb online data s = Some s' \<Longrightarrow> wk_event rcb s s'"
| timeout: "wk_timer (fst s) \<Longrightarrow> wk_event rcb s (wkm_timeout_cb rcb s)"
| keyer_state: "wk_event rcb s (keyer_state_changed_cb online ev s)"
| other: "wk_event rcb (w, r) (w, r')"

inductive_cases wk_eventE: "wk_event rcb s s'"

inductive wk_reachable :: "cb \<Rightarrow> wkman \<times> router \<Rightarrow> bool" for rcb where
  create: "wkm_create sn online rcb u r = Some s \<Longrightarrow> wk_reachable rcb s"
| step: "wk_reachable rcb s \<Longrightarrow> wk_event rcb s s' \<Longrightarrow> wk_reachable rcb s'"

definition wk_waiting_ok :: "wkman \<Rightarrow> bool" where
  "wk_waiting_ok w \<longleftrightarrow> length (wk_cfg w) = WK_CFG_SIZE \<and> (wk_state w = WKM_STATE_HOST_OPEN_SENT \<longrightarrow> wk_timer w)"

lemma wk_cmd_waiting [simp, intro]:
  "wk_waiting_ok (fst s) \<Longrightarrow> wk_waiting_ok (fst (snd (wkm_reset online s)))"
  "wk_waiting_ok (fst s) \<Longrightarrow> wk_waiting_ok (fst (snd (wkm_host_open online s)))"
  "wk_waiting_ok (fst s) \<Longrightarrow> wk_waiting_ok (fst (snd (wkm_host_close online s)))"
  "wk_waiting_ok (fst s) \<Longrightarrow> wk_waiting_ok (fst (snd (wkm_write_cfg online s)))"
  by (auto simp: wk_waiting_ok_def wkm_reset_def wkm_host_open_def wkm_host_close_def wkm_write_cfg_def Let_def split: prod.splits)

lemma set_bytes_len: "set_bytes b idx bytes i v = Some b' \<Longrightarrow> length b' = length b"
proof (induction b idx bytes i v rule: set_bytes.induct)
  case (1 b idx bytes i v)
  from 1(2) show ?case
    by (subst (asm) set_bytes.simps) (auto split: if_splits dest: 1(1))
qed

lemma set_value_len: "citem_set_value citems num b n key v = Some (res, b') \<Longrightarrow> length b' = length b"
  by (auto simp: citem_set_value_def Let_def split: option.splits if_splits dest: set_bytes_len)

lemma wk_event_waiting: "wk_event rcb s s' \<Longrightarrow> wk_waiting_ok (fst s) \<Longrightarrow> wk_waiting_ok (fst s')"
proof (induction rule: wk_event.induct)
  case (set w key val res w' r)
  then show ?case by (auto simp: wkm_set_value_def wk_waiting_ok_def dest: set_value_len)
next
  case (read online data s s')
  then show ?case
    using wk_cmd_waiting(4) [of "(_, snd s)"]
    by (auto simp: wkm_read_cb_def Let_def wk_waiting_ok_def split: if_splits list.splits)
next
  case (keyer_state s online ev)
  then have "wk_waiting_ok (fst s\<lparr>wk_state := st\<rparr>)" if "st \<noteq> WKM_STATE_HOST_OPEN_SENT" for st
    using that by (simp add: wk_waiting_ok_def)
  with keyer_state show ?case by (auto simp: keyer_state_changed_cb_def Let_def wk_waiting_ok_def wkm_reset_def wkm_write_cfg_def split: option.splits prod.splits)
next
  case (timeout s)
  then show ?case by (simp add: wkm_timeout_cb_def wk_waiting_ok_def Let_def)
qed (simp_all add: wk_cmd_waiting)

lemma wk_reachable_waiting: "wk_reachable rcb s \<Longrightarrow> wk_waiting_ok (fst s)"
proof (induction rule: wk_reachable.induct)
  case (create sn online u r s)
  with wk_create_view [of sn online rcb u r] show ?case by (cases online) (auto simp: wk_waiting_ok_def wk_view_def)
qed (rule wk_event_waiting)

text \<open>The module never waits for the chip without an end: in any state it can come to, whatever commands, answers,
  keyer events and changes of the router came before, waiting for the answer to the host open command implies that the timer
  runs, and when the timer fires, or any answer arrives, the module does not wait any more; and the settings keep their
  fifteen bytes.\<close>

theorem wkm_wait_ends:
  assumes "wk_reachable rcb s"
  shows "length (wk_cfg (fst s)) = WK_CFG_SIZE \<and>
    (wk_state (fst s) = WKM_STATE_HOST_OPEN_SENT \<longrightarrow>
       wk_timer (fst s) \<and> wk_state (fst (wkm_timeout_cb rcb s)) = WKM_STATE_HOST_CLOSED \<and>
       (\<forall>online c cs. \<exists>s'. wkm_read_cb online (c # cs) s = Some s' \<and> wk_state (fst s') = WKM_STATE_HOST_OPEN \<and>
          \<not> wk_timer (fst s') \<and> wk_version (fst s') = c))"
  using wk_reachable_waiting [OF assms]
  by (auto simp: wk_waiting_ok_def wkm_timeout_cb_def wkm_read_cb_def wkm_write_cfg_def Let_def split: prod.splits)

text \<open>A keyer that waits.\<close>

theorem wkm_wait_ends_witness:
  "\<exists>s. wk_reachable 7 s \<and> wk_state (fst s) = WKM_STATE_HOST_OPEN_SENT \<and> wk_timer (fst s) \<and>
     wk_state (fst (wkm_timeout_cb 7 s)) = WKM_STATE_HOST_CLOSED"
proof -
  obtain w r where w: "wkm_create ''K'' True 7 0 (two_connectors MH_CHANNEL_R1) = Some (w, r)" "r = mhr_add_consumer_cb (two_connectors MH_CHANNEL_R1) 7 MH_CHANNEL_WINKEY 0"
    "wk_state w = WKM_STATE_HOST_CLOSED" using wk_create_view [of "''K''" True 7 0 "two_connectors MH_CHANNEL_R1"] by auto
  let ?r = "two_connectors MH_CHANNEL_R1"
  let ?s = "snd (wkm_host_open True (w, ?r))"
  have "buf_size_avail buf_alloc = 4096" by (simp add: buf_avail) (simp add: buf_alloc_def BUFFER_CAPACITY_def)
  then have "fst (mhr_send_in ?r [0x00, 0x02] MH_CHANNEL_WINKEY) = 2"
    using wk_send(1) [OF two_connectors_ok, of MH_CHANNEL_R1 "[0x00, 0x02]"] by (simp add: two_connectors_state)
  then have st: "wk_state (fst ?s) = WKM_STATE_HOST_OPEN_SENT" using w(3) by (simp add: wkm_host_open_def split_def Let_def)
  have "wk_reachable 7 (w, ?r)" by (rule wk_reachable.step [OF wk_reachable.create [OF w(1)] wk_event.other])
  then have "wk_reachable 7 ?s" by (rule wk_reachable.step [OF _ wk_event.host_open])
  with wkm_wait_ends [OF this] st show ?thesis by blast
qed

text \<open>
  A timeout takes the callback for the chip's bytes out of the router, and no command puts it back: after it the
  answer to a later host open command is never seen.
\<close>

lemma timeout_deaf:
  assumes "wk_state w = WKM_STATE_HOST_OPEN_SENT" "consumer_cbs r MH_CHANNEL_WINKEY = [\<lparr>cnc_cb = rcb, cnc_channel = MH_CHANNEL_WINKEY, cnc_user = u\<rparr>]"
  shows "consumer_cbs (snd (snd (wkm_host_open online (wkm_timeout_cb rcb (w, r))))) MH_CHANNEL_WINKEY = []"
  using assms by (auto simp: wkm_timeout_cb_def mhr_rem_consumer_cb_def in_range_def wkm_host_open_def split_def Let_def)

end
