(* ===== verification/MhInfo.thy ===== *)
theory MhInfo
  imports Prelude
begin

text \<open>
  \<^verbatim>\<open>src/mhinfo.c\<close>, \<^verbatim>\<open>src/mhinfo.h\<close>: the types of keyer, what each of them has (its feature flags), and
  how the daemon learns the type: from the serial number of the USB device and from the reply to
  the version command. The flags are a word of 32 bits; a feature is a constructor with its bit.
  The name \<^verbatim>\<open>type_str\<close> is only shown and is part of the record.
\<close>

unbundle bit_operations_syntax

section \<open>Types and features\<close>

datatype mh_type =
    MHT_UNKNOWN
  | MHT_CK
  | MHT_DK
  | MHT_DK2
  | MHT_MK
  | MHT_MK2
  | MHT_MK2R
  | MHT_MK2Rp
  | MHT_SM
  | MHT_SMD
  | MHT_U2R
  | MHT_MK3

datatype mhf =
    MHF_HAS_R1
  | MHF_HAS_R2
  | MHF_HAS_R1_RADIO_SUPPORT
  | MHF_HAS_R2_RADIO_SUPPORT
  | MHF_HAS_AUX
  | MHF_HAS_WINKEY
  | MHF_HAS_FSK1
  | MHF_HAS_FSK2
  | MHF_HAS_FRBASE
  | MHF_HAS_FRBASE_CW
  | MHF_HAS_FRBASE_DIGITAL
  | MHF_HAS_FRBASE_VOICE
  | MHF_HAS_LNA_PA_PTT
  | MHF_HAS_LNA_PA_PTT_TAIL
  | MHF_HAS_SOUNDCARD_PTT
  | MHF_HAS_CW_IN_VOICE
  | MHF_HAS_AUDIO_SWITCHING
  | MHF_HAS_DISPLAY
  | MHF_HAS_FOLLOW_TX_MODE
  | MHF_HAS_PTT_SETTINGS
  | MHF_HAS_KEYER_MODE
  | MHF_HAS_FLAGS_CHANNEL
  | MHF_HAS_MCP_SUPPORT
  | MHF_HAS_ROTATOR_SUPPORT
  | MHF_HAS_SM_COMMANDS
  | MHF_HAS_PFSK
  | MHF_HAS_PCW
  | MHF_HAS_CAT_CMD
  | MHF_HAS_NO_VOICE_USE_FSK
  | MHF_MHUXD_SUPPORTED

primrec mhf_bit :: "mhf \<Rightarrow> nat" where
  "mhf_bit MHF_HAS_R1 = 0"
| "mhf_bit MHF_HAS_R2 = 1"
| "mhf_bit MHF_HAS_R1_RADIO_SUPPORT = 2"
| "mhf_bit MHF_HAS_R2_RADIO_SUPPORT = 3"
| "mhf_bit MHF_HAS_AUX = 4"
| "mhf_bit MHF_HAS_WINKEY = 5"
| "mhf_bit MHF_HAS_FSK1 = 6"
| "mhf_bit MHF_HAS_FSK2 = 7"
| "mhf_bit MHF_HAS_FRBASE = 8"
| "mhf_bit MHF_HAS_FRBASE_CW = 9"
| "mhf_bit MHF_HAS_FRBASE_DIGITAL = 10"
| "mhf_bit MHF_HAS_FRBASE_VOICE = 11"
| "mhf_bit MHF_HAS_LNA_PA_PTT = 12"
| "mhf_bit MHF_HAS_LNA_PA_PTT_TAIL = 13"
| "mhf_bit MHF_HAS_SOUNDCARD_PTT = 14"
| "mhf_bit MHF_HAS_CW_IN_VOICE = 15"
| "mhf_bit MHF_HAS_AUDIO_SWITCHING = 16"
| "mhf_bit MHF_HAS_DISPLAY = 17"
| "mhf_bit MHF_HAS_FOLLOW_TX_MODE = 18"
| "mhf_bit MHF_HAS_PTT_SETTINGS = 19"
| "mhf_bit MHF_HAS_KEYER_MODE = 20"
| "mhf_bit MHF_HAS_FLAGS_CHANNEL = 21"
| "mhf_bit MHF_HAS_MCP_SUPPORT = 22"
| "mhf_bit MHF_HAS_ROTATOR_SUPPORT = 23"
| "mhf_bit MHF_HAS_SM_COMMANDS = 24"
| "mhf_bit MHF_HAS_PFSK = 25"
| "mhf_bit MHF_HAS_PCW = 26"
| "mhf_bit MHF_HAS_CAT_CMD = 27"
| "mhf_bit MHF_HAS_NO_VOICE_USE_FSK = 28"
| "mhf_bit MHF_MHUXD_SUPPORTED = 31"

text \<open>The flags combined with \<^verbatim>\<open>|\<close>, and the test with \<^verbatim>\<open>&\<close>.\<close>

primrec mhf_word :: "mhf list \<Rightarrow> u32" where
  "mhf_word [] = 0"
| "mhf_word (f # fs) = push_bit (mhf_bit f) 1 OR mhf_word fs"

record mh_info =
  mi_type :: mh_type
  ver_fw_major :: "16 word"
  ver_fw_minor :: "16 word"
  ver_fw_beta :: u32
  ver_winkey :: "16 word"
  mi_flags :: u32
  mi_type_str :: string

record mh_info_entry =
  me_name :: string
  me_flags :: "mhf list"
  me_type :: mh_type

definition mhi_has :: "mh_info \<Rightarrow> mhf \<Rightarrow> bool" where
  "mhi_has mhi f \<longleftrightarrow> mi_flags mhi AND push_bit (mhf_bit f) 1 \<noteq> 0"

definition mh_info_map :: "mh_info_entry list" where
  "mh_info_map =
    [\<lparr>me_name = ''Unknown'', me_flags =
        [],
      me_type = MHT_UNKNOWN\<rparr>,
     \<lparr>me_name = ''CW KEYER'', me_flags =
        [MHF_MHUXD_SUPPORTED, MHF_HAS_WINKEY, MHF_HAS_PTT_SETTINGS, MHF_HAS_FLAGS_CHANNEL, MHF_HAS_MCP_SUPPORT],
      me_type = MHT_CK\<rparr>,
     \<lparr>me_name = ''DIGI KEYER'', me_flags =
        [MHF_MHUXD_SUPPORTED, MHF_HAS_R1, MHF_HAS_FSK1, MHF_HAS_LNA_PA_PTT, MHF_HAS_PTT_SETTINGS,
         MHF_HAS_FLAGS_CHANNEL, MHF_HAS_MCP_SUPPORT],
      me_type = MHT_DK\<rparr>,
     \<lparr>me_name = ''DIGI KEYER II'', me_flags =
        [MHF_MHUXD_SUPPORTED, MHF_HAS_R1, MHF_HAS_R1_RADIO_SUPPORT, MHF_HAS_WINKEY, MHF_HAS_FSK1, MHF_HAS_FRBASE_CW,
         MHF_HAS_FRBASE_DIGITAL, MHF_HAS_LNA_PA_PTT, MHF_HAS_LNA_PA_PTT_TAIL, MHF_HAS_SOUNDCARD_PTT,
         MHF_HAS_FOLLOW_TX_MODE, MHF_HAS_PTT_SETTINGS, MHF_HAS_KEYER_MODE, MHF_HAS_FLAGS_CHANNEL,
         MHF_HAS_MCP_SUPPORT, MHF_HAS_PFSK, MHF_HAS_PCW, MHF_HAS_NO_VOICE_USE_FSK],
      me_type = MHT_DK2\<rparr>,
     \<lparr>me_name = ''micro KEYER'', me_flags =
        [MHF_MHUXD_SUPPORTED, MHF_HAS_R1, MHF_HAS_WINKEY, MHF_HAS_FRBASE, MHF_HAS_FSK1, MHF_HAS_LNA_PA_PTT,
         MHF_HAS_AUDIO_SWITCHING, MHF_HAS_PTT_SETTINGS, MHF_HAS_KEYER_MODE, MHF_HAS_FLAGS_CHANNEL,
         MHF_HAS_MCP_SUPPORT],
      me_type = MHT_MK\<rparr>,
     \<lparr>me_name = ''micro KEYER II'', me_flags =
        [MHF_MHUXD_SUPPORTED, MHF_HAS_R1, MHF_HAS_R1_RADIO_SUPPORT, MHF_HAS_AUX, MHF_HAS_WINKEY, MHF_HAS_FRBASE_VOICE,
         MHF_HAS_FRBASE_DIGITAL, MHF_HAS_FRBASE_CW, MHF_HAS_FSK1, MHF_HAS_LNA_PA_PTT, MHF_HAS_LNA_PA_PTT_TAIL,
         MHF_HAS_SOUNDCARD_PTT, MHF_HAS_CW_IN_VOICE, MHF_HAS_AUDIO_SWITCHING, MHF_HAS_DISPLAY,
         MHF_HAS_FOLLOW_TX_MODE, MHF_HAS_PTT_SETTINGS, MHF_HAS_KEYER_MODE, MHF_HAS_FLAGS_CHANNEL,
         MHF_HAS_MCP_SUPPORT, MHF_HAS_CAT_CMD],
      me_type = MHT_MK2\<rparr>,
     \<lparr>me_name = ''micro KEYER III'', me_flags =
        [MHF_MHUXD_SUPPORTED, MHF_HAS_R1, MHF_HAS_R1_RADIO_SUPPORT, MHF_HAS_AUX, MHF_HAS_WINKEY, MHF_HAS_FRBASE_VOICE,
         MHF_HAS_FRBASE_DIGITAL, MHF_HAS_FRBASE_CW, MHF_HAS_FSK1, MHF_HAS_LNA_PA_PTT, MHF_HAS_LNA_PA_PTT_TAIL,
         MHF_HAS_SOUNDCARD_PTT, MHF_HAS_CW_IN_VOICE, MHF_HAS_AUDIO_SWITCHING, MHF_HAS_DISPLAY,
         MHF_HAS_FOLLOW_TX_MODE, MHF_HAS_PTT_SETTINGS, MHF_HAS_KEYER_MODE, MHF_HAS_FLAGS_CHANNEL,
         MHF_HAS_MCP_SUPPORT, MHF_HAS_PFSK, MHF_HAS_PCW, MHF_HAS_CAT_CMD],
      me_type = MHT_MK3\<rparr>,
     \<lparr>me_name = ''MK2R'', me_flags =
        [MHF_MHUXD_SUPPORTED, MHF_HAS_R1, MHF_HAS_R1_RADIO_SUPPORT, MHF_HAS_R2, MHF_HAS_R2_RADIO_SUPPORT,
         MHF_HAS_WINKEY, MHF_HAS_FRBASE_VOICE, MHF_HAS_FRBASE_DIGITAL, MHF_HAS_FRBASE_CW, MHF_HAS_FSK1,
         MHF_HAS_FSK2, MHF_HAS_LNA_PA_PTT, MHF_HAS_LNA_PA_PTT_TAIL, MHF_HAS_CW_IN_VOICE,
         MHF_HAS_AUDIO_SWITCHING, MHF_HAS_FOLLOW_TX_MODE, MHF_HAS_PTT_SETTINGS, MHF_HAS_KEYER_MODE,
         MHF_HAS_FLAGS_CHANNEL, MHF_HAS_MCP_SUPPORT, MHF_HAS_CAT_CMD],
      me_type = MHT_MK2R\<rparr>,
     \<lparr>me_name = ''MK2R+'', me_flags =
        [MHF_MHUXD_SUPPORTED, MHF_HAS_R1, MHF_HAS_R1_RADIO_SUPPORT, MHF_HAS_R2, MHF_HAS_R2_RADIO_SUPPORT,
         MHF_HAS_WINKEY, MHF_HAS_FRBASE_VOICE, MHF_HAS_FRBASE_DIGITAL, MHF_HAS_FRBASE_CW, MHF_HAS_FSK1,
         MHF_HAS_FSK2, MHF_HAS_LNA_PA_PTT, MHF_HAS_LNA_PA_PTT_TAIL, MHF_HAS_CW_IN_VOICE,
         MHF_HAS_AUDIO_SWITCHING, MHF_HAS_FOLLOW_TX_MODE, MHF_HAS_PTT_SETTINGS, MHF_HAS_KEYER_MODE,
         MHF_HAS_FLAGS_CHANNEL, MHF_HAS_MCP_SUPPORT, MHF_HAS_CAT_CMD],
      me_type = MHT_MK2Rp\<rparr>,
     \<lparr>me_name = ''Station Master'', me_flags =
        [MHF_MHUXD_SUPPORTED, MHF_HAS_R1, MHF_HAS_R1_RADIO_SUPPORT, MHF_HAS_AUX, MHF_HAS_DISPLAY,
         MHF_HAS_ROTATOR_SUPPORT, MHF_HAS_SM_COMMANDS, MHF_HAS_CAT_CMD],
      me_type = MHT_SM\<rparr>,
     \<lparr>me_name = ''Station Master DeLuxe'', me_flags =
        [MHF_MHUXD_SUPPORTED, MHF_HAS_R1, MHF_HAS_R1_RADIO_SUPPORT, MHF_HAS_AUX, MHF_HAS_DISPLAY,
         MHF_HAS_ROTATOR_SUPPORT, MHF_HAS_SM_COMMANDS, MHF_HAS_CAT_CMD],
      me_type = MHT_SMD\<rparr>,
     \<lparr>me_name = ''micro2R'', me_flags =
        [MHF_HAS_WINKEY, MHF_HAS_FSK1, MHF_HAS_FSK2, MHF_HAS_AUDIO_SWITCHING, MHF_HAS_PTT_SETTINGS,
         MHF_HAS_KEYER_MODE, MHF_HAS_FLAGS_CHANNEL],
      me_type = MHT_U2R\<rparr>]"

text \<open>The loop over the table that both \<^verbatim>\<open>mhi_init\<close> and \<^verbatim>\<open>mhi_parse_version\<close> have.\<close>

definition mhi_lookup :: "mh_info \<Rightarrow> mh_info" where
  "mhi_lookup mhi =
     (case find (\<lambda>e. mi_type mhi = me_type e) mh_info_map of
        None \<Rightarrow> mhi
      | Some e \<Rightarrow> mhi\<lparr>mi_type_str := me_name e, mi_flags := mhf_word (me_flags e)\<rparr>)"

definition mhi_init :: "mh_type \<Rightarrow> mh_info" where
  "mhi_init type =
     mhi_lookup \<lparr>mi_type = type, ver_fw_major = 0, ver_fw_minor = 0, ver_fw_beta = 0, ver_winkey = 0,
       mi_flags = 0, mi_type_str = ''Unknown''\<rparr>"

text \<open>The type that the bytes of a version reply stand for.\<close>

definition version_type :: "byte list \<Rightarrow> mh_type" where
  "version_type p =
     (let t = push_bit 8 (uint (p ! 2)) OR uint (p ! 5)
      in if t = 0x1000 then (if p ! 17 = 0x0f then MHT_DK else if p ! 17 = 0xf0 then MHT_CK else MHT_MK)
         else if t = 0x1201 then MHT_MK2
         else if t = 0x1701 then MHT_MK3
         else if t = 0x1601 then MHT_DK2
         else if t = 0x1101 then MHT_MK2R
         else if t = 0x1102 then MHT_MK2Rp
         else if t = 0x1501 then MHT_U2R
         else if t = 0x1301 then MHT_SM
         else if t = 0x1401 then MHT_SMD
         else MHT_UNKNOWN)"

text \<open>The reply is \<open>None\<close> for \<^verbatim>\<open>NULL\<close>; a reply holds its \<^verbatim>\<open>len\<close> bytes.\<close>

definition mhi_parse_version :: "mh_info \<Rightarrow> byte list option \<Rightarrow> int \<times> mh_info" where
  "mhi_parse_version mhi data =
     (let mhi = mhi\<lparr>mi_type := MHT_UNKNOWN\<rparr>
      in case data of
           None \<Rightarrow> (-1, mhi)
         | Some d \<Rightarrow>
             if to_u16 (int (length d)) < 19 then (-1, mhi)
             else
               let p = tl d
               in (0, mhi_lookup (mhi\<lparr>mi_type := version_type p, ver_winkey := ucast (p ! 16), ver_fw_major := ucast (p ! 9),
                     ver_fw_minor := ucast (p ! 10 AND 0x7f), ver_fw_beta := ucast (drop_bit 7 (p ! 10))\<rparr>)))"

text \<open>
  \<^verbatim>\<open>char\<close> is signed: a first or second character from 128 on makes the \<^verbatim>\<open>head\<close> a word that no case
  has, as does a serial number that is too short (the terminating zero is its last character).
\<close>

definition serial_head :: "byte list \<Rightarrow> 16 word" where
  "serial_head serial = word_of_int (push_bit 8 (sint (serial ! 0)) OR sint (serial ! 1))"

definition mhi_type_from_serial :: "byte list \<Rightarrow> mh_type" where
  "mhi_type_from_serial serial =
     (let head = serial_head serial
      in if head = 0x4d4b then MHT_MK
         else if head = 0x444b then MHT_DK
         else if head = 0x434b then MHT_CK
         else if head = 0x4d32 then MHT_MK2
         else if head = 0x4d33 then MHT_MK3
         else if head = 0x4432 then MHT_DK2
         else if head = 0x3252 then MHT_MK2R
         else if head = 0x3250 then MHT_MK2Rp
         else if head = 0x5552 then MHT_U2R
         else if head = 0x534d then MHT_SM
         else if head = 0x5344 then MHT_SMD
         else MHT_UNKNOWN)"

section \<open>The features of a type\<close>

lemma mhf_bit_inj [simp]: "mhf_bit f = mhf_bit g \<longleftrightarrow> f = g"
  by (cases f; cases g; simp)

lemma mhf_bit_less [simp]: "mhf_bit f < 32"
  by (cases f) simp_all

lemma bit_mhf_word: "bit (mhf_word fs) (mhf_bit f) \<longleftrightarrow> f \<in> set fs"
  by (induction fs) (auto simp: bit_or_iff bit_exp_iff possible_bit_def)

lemma mhi_has_bit: "mhi_has mhi f \<longleftrightarrow> bit (mi_flags mhi) (mhf_bit f)"
proof -
  have "mi_flags mhi AND push_bit (mhf_bit f) 1 = (if bit (mi_flags mhi) (mhf_bit f) then push_bit (mhf_bit f) 1 else 0)"
    by (rule bit_word_eqI) (auto simp: bit_and_iff bit_exp_iff possible_bit_def)
  moreover have "push_bit (mhf_bit f) (1 :: u32) \<noteq> 0"
  proof
    assume "push_bit (mhf_bit f) (1 :: u32) = 0"
    then have "\<not> bit (push_bit (mhf_bit f) (1 :: u32)) (mhf_bit f)" by (simp del: push_bit_of_1)
    then show False by (simp add: bit_exp_iff possible_bit_def)
  qed
  ultimately show ?thesis by (simp add: mhi_has_def)
qed

end
