(* ===== verification/Kcfg.thy ===== *)
theory Kcfg
  imports Citem Channel MhInfo
begin

text \<open>
  \<^verbatim>\<open>src/kcfg.c\<close>, \<^verbatim>\<open>src/kcfg.h\<close>: the settings of a keyer, which the daemon keeps in the bytes of the
  SET SETTINGS command. A table for each type of keyer says where the bits of a named setting are.
  The bytes are those of the buffer up to its size. The \<^verbatim>\<open>mhi\<close> pointer of a \<^verbatim>\<open>struct kcfg\<close> points
  into the keyer's control structure, so the operations take that \<^verbatim>\<open>mh_info\<close> as an argument.
  The C integers are \<open>int\<close>; \<open>None\<close> is a C program without a defined result. Log output is left out,
  and so are the parts under \<^verbatim>\<open>#if 0\<close>. \<open>width2mask\<close> (the same function in \<^verbatim>\<open>citem.c\<close>) comes from
  \<open>Citem\<close>, \<^verbatim>\<open>strcasecmp\<close> from \<open>Channel\<close>.
\<close>

section \<open>The tables\<close>

definition AUDIO_SW_D :: u32 where "AUDIO_SW_D = 0"
definition AUDIO_SW_B :: u32 where "AUDIO_SW_B = 1"
definition AUDIO_SW_A :: u32 where "AUDIO_SW_A = 2"
definition AUDIO_SW_C :: u32 where "AUDIO_SW_C = 3"

lemmas AUDIO_SW = AUDIO_SW_D_def AUDIO_SW_B_def AUDIO_SW_A_def AUDIO_SW_C_def

definition MOD_CW :: int where "MOD_CW = 0"
definition MOD_VOICE :: int where "MOD_VOICE = 1"
definition MOD_FSK :: int where "MOD_FSK = 2"
definition MOD_DIGITAL :: int where "MOD_DIGITAL = 3"

lemmas MODS = MOD_CW_def MOD_VOICE_def MOD_FSK_def MOD_DIGITAL_def

record kitem =
  ki_key :: string
  ki_off :: nat
  ki_base_bit :: nat
  ki_width :: nat
  ki_def :: u32

abbreviation KITEM :: "string \<Rightarrow> nat \<Rightarrow> nat \<Rightarrow> nat \<Rightarrow> u32 \<Rightarrow> kitem" where
  "KITEM k i b w d \<equiv> \<lparr>ki_key = k, ki_off = i, ki_base_bit = b, ki_width = w, ki_def = d\<rparr>"

definition c_base :: "kitem list" where
  "c_base =
    [KITEM ''r1FrBase_Digital.audioRx'' 0 1 2 AUDIO_SW_B, KITEM ''r1FrBase_Digital.audioTx'' 0 3 2 AUDIO_SW_B,
     KITEM ''r1FrBase_Digital.audioTxFootSw'' 0 5 2 AUDIO_SW_D, KITEM ''r1FrBase_Digital.ptt1'' 0 6 1 1,
     KITEM ''r1FrBase_Digital.ptt2'' 0 7 1 1, KITEM ''r1DelaySerialPtt'' 1 0 1 1, KITEM ''fskDiddle'' 1 1 1 1,
     KITEM ''fskUos'' 1 2 1 1, KITEM ''restorePtt'' 1 3 1 1, KITEM ''restoreCompCw'' 1 4 1 1,
     KITEM ''restoreCompFsk'' 1 5 1 1, KITEM ''r1LnaPtt'' 1 6 1 1, KITEM ''r1InvertFsk'' 1 7 1 0,
     KITEM ''r1PaPtt'' 2 0 1 1, KITEM ''muteCompCw'' 2 1 1 0, KITEM ''muteCompFsk'' 2 2 1 0,
     KITEM ''r1I2cCoupled'' 2 7 1 0, KITEM ''r1PttDelay'' 3 7 8 1, KITEM ''r1InvertLnaPtt'' 4 0 1 0,
     KITEM ''r1ImmediateCw'' 4 1 1 0, KITEM ''r1TrDelay'' 4 7 6 0, KITEM ''sideTone'' 5 2 3 0,
     KITEM ''speedStep'' 5 7 4 2, KITEM ''r1ForceKeyerMode'' 6 0 1 1, KITEM ''fskTypeAhead'' 6 1 1 0,
     KITEM ''cwTypeAhead'' 6 2 1 0, KITEM ''r1UseLnaPttTail'' 6 3 1 1, KITEM ''r1FollowTxMode'' 6 4 1 1,
     KITEM ''r1AllowCwInVoice'' 6 5 1 0, KITEM ''qwertz'' 6 6 1 0, KITEM ''r1Qsk'' 6 7 1 0,
     KITEM ''r1LineOutRight'' 7 0 1 0, KITEM ''numLeadZeroT'' 7 1 1 0, KITEM ''numZeroT'' 7 2 1 0,
     KITEM ''numOneA'' 7 3 1 0, KITEM ''numNineN'' 7 4 1 0, KITEM ''r1KeyerMode'' 7 6 2 0,
     KITEM ''numReport5NN'' 7 7 1 0, KITEM ''r1PaPttTail'' 8 7 8 1, KITEM ''r1LnaPttTail'' 9 7 8 1,
     KITEM ''r1FrBase_Cw.audioRx'' 10 1 2 AUDIO_SW_D, KITEM ''r1FrBase_Cw.audioTx'' 10 3 2 AUDIO_SW_D,
     KITEM ''r1FrBase_Cw.audioTxFootSw'' 10 5 2 AUDIO_SW_D, KITEM ''r1FrBase_Cw.ptt1'' 10 6 1 1,
     KITEM ''r1FrBase_Cw.ptt2'' 10 7 1 0, KITEM ''r1FrBase_Voice.audioRx'' 11 1 2 AUDIO_SW_A,
     KITEM ''r1FrBase_Voice.audioTx'' 11 3 2 AUDIO_SW_C, KITEM ''r1FrBase_Voice.audioTxFootSw'' 11 5 2 AUDIO_SW_A,
     KITEM ''r1FrBase_Voice.ptt1'' 11 6 1 1, KITEM ''r1FrBase_Voice.ptt2'' 11 7 1 0]"

definition c_mk1 :: "kitem list" where
  "c_mk1 =
    [KITEM ''r1FrBase.audioRx'' 0 1 2 1, KITEM ''r1FrBase.audioTx'' 0 3 2 1,
     KITEM ''r1FrBase.audioTxFootSw'' 0 5 2 1, KITEM ''r1FrBase.ptt1'' 0 6 1 1, KITEM ''r1FrBase.ptt2'' 0 7 1 1]"

definition c_dk2 :: "kitem list" where
  "c_dk2 =
    [KITEM ''useAutoPtt'' 28 2 1 0, KITEM ''paddleOnlySideTone'' 28 3 1 0, KITEM ''downstreamOverFootSw'' 28 5 1 0,
     KITEM ''useQCw'' 28 6 1 0, KITEM ''usePFsk'' 28 7 1 0, KITEM ''civAddress'' 40 7 8 0x70,
     KITEM ''civBaudRate'' 41 7 8 0x18, KITEM ''civFunc'' 42 7 8 0x00]"

definition c_mk2 :: "kitem list" where
  "c_mk2 =
    [KITEM ''r1FrMpkExtra_Digital.pwmMonctr'' 12 4 5 0, KITEM ''r1FrMpkExtra_Digital.reserve'' 12 5 1 0,
     KITEM ''r1FrMpkExtra_Digital.onAirRecActive'' 12 6 1 0,
     KITEM ''r1FrMpkExtra_Digital.onAirRecControlByRouter'' 12 7 1 0, KITEM ''pwmContrast'' 13 4 5 15,
     KITEM ''pwmBlight'' 14 4 5 25, KITEM ''dispBg0'' 15 7 8 0x06, KITEM ''dispBg1'' 16 7 8 0x05,
     KITEM ''dispEv.recMsg'' 17 0 1 0, KITEM ''dispEv.playMsg'' 17 1 1 0, KITEM ''dispEv.txDecoder'' 17 2 1 0,
     KITEM ''dispEv.rxDecoder'' 17 3 1 0, KITEM ''dispEv.recDecoder'' 17 4 1 0, KITEM ''dispEv.wpmChange'' 17 5 1 0,
     KITEM ''dispEv.steppirCmd'' 17 6 1 0, KITEM ''dispEv.rxFreqChange'' 17 7 1 0,
     KITEM ''dispEv.txFreqChange'' 17 8 1 0, KITEM ''dispEv.modeChange'' 17 9 1 0,
     KITEM ''dispEv.micChange'' 17 10 1 0, KITEM ''dispEv.steppirLock'' 17 11 1 0,
     KITEM ''dispEv.sysPwr'' 17 12 1 1, KITEM ''dispEv.wpmInCwMode'' 17 13 1 0,
     KITEM ''dispEv.cfgOverriden'' 17 14 1 0, KITEM ''dispEv.wpmSnControlChange'' 17 15 1 0,
     KITEM ''dispEv.snChange'' 17 16 1 0, KITEM ''dispEv.snInCwMode'' 17 17 1 0,
     KITEM ''dispEv.wpmSnInCwMode'' 17 18 1 0, KITEM ''dispEv.operFreqChange'' 17 19 1 0,
     KITEM ''dispEv.vfoAFreqChange'' 17 20 1 0, KITEM ''dispEv.vfoBFreqChange'' 17 21 1 0,
     KITEM ''dispEv.steppirState'' 17 22 1 0, KITEM ''dispEv.smLock'' 17 23 1 0,
     KITEM ''dispEv.subRxFreqChange'' 17 24 1 0, KITEM ''dispEv.presetChange'' 17 25 1 0,
     KITEM ''dispEvLn.recMsg'' 21 0 1 0, KITEM ''dispEvLn.playMsg'' 21 1 1 0, KITEM ''dispEvLn.txDecoder'' 21 2 1 0,
     KITEM ''dispEvLn.rxDecoder'' 21 3 1 0, KITEM ''dispEvLn.recDecoder'' 21 4 1 0,
     KITEM ''dispEvLn.wpmChange'' 21 5 1 0, KITEM ''dispEvLn.steppirCmd'' 21 6 1 0,
     KITEM ''dispEvLn.rxFreqChange'' 21 7 1 0, KITEM ''dispEvLn.txFreqChange'' 21 8 1 0,
     KITEM ''dispEvLn.modeChange'' 21 9 1 0, KITEM ''dispEvLn.micChange'' 21 10 1 0,
     KITEM ''dispEvLn.steppirLock'' 21 11 1 0, KITEM ''dispEvLn.sysPwr'' 21 12 1 1,
     KITEM ''dispEvLn.wpmInCwMode'' 21 13 1 0, KITEM ''dispEvLn.cfgOverriden'' 21 14 1 0,
     KITEM ''dispEvLn.wpmSnControlChange'' 21 15 1 0, KITEM ''dispEvLn.snChange'' 21 16 1 0,
     KITEM ''dispEvLn.snInCwMode'' 21 17 1 0, KITEM ''dispEvLn.wpmSnInCwMode'' 21 18 1 0,
     KITEM ''dispEvLn.operFreqChange'' 21 19 1 0, KITEM ''dispEvLn.vfoAFreqChange'' 21 20 1 0,
     KITEM ''dispEvLn.vfoBFreqChange'' 21 21 1 0, KITEM ''dispEvLn.steppirState'' 21 22 1 0,
     KITEM ''dispEvLn.smLock'' 21 23 1 0, KITEM ''dispEvLn.subRxFreqChange'' 21 24 1 0,
     KITEM ''dispEvLn.presetChange'' 21 25 1 0, KITEM ''dispEvTime'' 25 7 8 200,
     KITEM ''r1FrMpkExtra_Cw.pwmMonctr'' 26 4 5 0, KITEM ''r1FrMpkExtra_Cw.reserve'' 26 5 1 0,
     KITEM ''r1FrMpkExtra_Cw.onAirRecActive'' 26 6 1 0, KITEM ''r1FrMpkExtra_Cw.onAirRecControlByRouter'' 26 7 1 0,
     KITEM ''r1FrMpkExtra_Voice.pwmMonctr'' 27 4 5 0, KITEM ''r1FrMpkExtra_Voice.reserve'' 27 5 1 0,
     KITEM ''r1FrMpkExtra_Voice.onAirRecActive'' 27 6 1 0,
     KITEM ''r1FrMpkExtra_Voice.onAirRecControlByRouter'' 27 7 1 0, KITEM ''micSelAuto'' 28 0 1 1,
     KITEM ''micSelFront'' 28 1 1 0, KITEM ''useAutoPtt'' 28 2 1 0, KITEM ''paddleOnlySideTone'' 28 3 1 0,
     KITEM ''enableSleepMode'' 28 4 1 0, KITEM ''downstreamOverFootSw'' 28 5 1 0,
     KITEM ''extSerBaudRate'' 29 7 8 24, KITEM ''civAddress'' 40 7 8 0x70, KITEM ''civBaudRate'' 41 7 8 0x24,
     KITEM ''civFunc'' 42 7 8 0x00]"

definition c_mk3 :: "kitem list" where
  "c_mk3 =
    [KITEM ''r1FrMpkExtra_Digital.pwmMonctr'' 12 4 5 0, KITEM ''r1FrMpkExtra_Digital.reserve'' 12 5 1 0,
     KITEM ''r1FrMpkExtra_Digital.onAirRecActive'' 12 6 1 0,
     KITEM ''r1FrMpkExtra_Digital.onAirRecControlByRouter'' 12 7 1 0, KITEM ''pwmContrast'' 13 4 5 15,
     KITEM ''pwmBlight'' 14 4 5 25, KITEM ''dispBg0'' 15 7 8 0x06, KITEM ''dispBg1'' 16 7 8 0x05,
     KITEM ''dispEv.recMsg'' 17 0 1 0, KITEM ''dispEv.playMsg'' 17 1 1 0, KITEM ''dispEv.txDecoder'' 17 2 1 0,
     KITEM ''dispEv.rxDecoder'' 17 3 1 0, KITEM ''dispEv.recDecoder'' 17 4 1 0, KITEM ''dispEv.wpmChange'' 17 5 1 0,
     KITEM ''dispEv.steppirCmd'' 17 6 1 0, KITEM ''dispEv.rxFreqChange'' 17 7 1 0,
     KITEM ''dispEv.txFreqChange'' 17 8 1 0, KITEM ''dispEv.modeChange'' 17 9 1 0,
     KITEM ''dispEv.micChange'' 17 10 1 0, KITEM ''dispEv.steppirLock'' 17 11 1 0,
     KITEM ''dispEv.sysPwr'' 17 12 1 1, KITEM ''dispEv.wpmInCwMode'' 17 13 1 0,
     KITEM ''dispEv.cfgOverriden'' 17 14 1 0, KITEM ''dispEv.wpmSnControlChange'' 17 15 1 0,
     KITEM ''dispEv.snChange'' 17 16 1 0, KITEM ''dispEv.snInCwMode'' 17 17 1 0,
     KITEM ''dispEv.wpmSnInCwMode'' 17 18 1 0, KITEM ''dispEv.operFreqChange'' 17 19 1 0,
     KITEM ''dispEv.vfoAFreqChange'' 17 20 1 0, KITEM ''dispEv.vfoBFreqChange'' 17 21 1 0,
     KITEM ''dispEv.steppirState'' 17 22 1 0, KITEM ''dispEv.smLock'' 17 23 1 0,
     KITEM ''dispEv.subRxFreqChange'' 17 24 1 0, KITEM ''dispEv.presetChange'' 17 25 1 0,
     KITEM ''dispEvLn.recMsg'' 21 0 1 0, KITEM ''dispEvLn.playMsg'' 21 1 1 0, KITEM ''dispEvLn.txDecoder'' 21 2 1 0,
     KITEM ''dispEvLn.rxDecoder'' 21 3 1 0, KITEM ''dispEvLn.recDecoder'' 21 4 1 0,
     KITEM ''dispEvLn.wpmChange'' 21 5 1 0, KITEM ''dispEvLn.steppirCmd'' 21 6 1 0,
     KITEM ''dispEvLn.rxFreqChange'' 21 7 1 0, KITEM ''dispEvLn.txFreqChange'' 21 8 1 0,
     KITEM ''dispEvLn.modeChange'' 21 9 1 0, KITEM ''dispEvLn.micChange'' 21 10 1 0,
     KITEM ''dispEvLn.steppirLock'' 21 11 1 0, KITEM ''dispEvLn.sysPwr'' 21 12 1 1,
     KITEM ''dispEvLn.wpmInCwMode'' 21 13 1 0, KITEM ''dispEvLn.cfgOverriden'' 21 14 1 0,
     KITEM ''dispEvLn.wpmSnControlChange'' 21 15 1 0, KITEM ''dispEvLn.snChange'' 21 16 1 0,
     KITEM ''dispEvLn.snInCwMode'' 21 17 1 0, KITEM ''dispEvLn.wpmSnInCwMode'' 21 18 1 0,
     KITEM ''dispEvLn.operFreqChange'' 21 19 1 0, KITEM ''dispEvLn.vfoAFreqChange'' 21 20 1 0,
     KITEM ''dispEvLn.vfoBFreqChange'' 21 21 1 0, KITEM ''dispEvLn.steppirState'' 21 22 1 0,
     KITEM ''dispEvLn.smLock'' 21 23 1 0, KITEM ''dispEvLn.subRxFreqChange'' 21 24 1 0,
     KITEM ''dispEvLn.presetChange'' 21 25 1 0, KITEM ''dispEvTime'' 25 7 8 200,
     KITEM ''r1FrMpkExtra_Cw.pwmMonctr'' 26 4 5 0, KITEM ''r1FrMpkExtra_Cw.reserve'' 26 5 1 0,
     KITEM ''r1FrMpkExtra_Cw.onAirRecActive'' 26 6 1 0, KITEM ''r1FrMpkExtra_Cw.onAirRecControlByRouter'' 26 7 1 0,
     KITEM ''r1FrMpkExtra_Voice.pwmMonctr'' 27 4 5 0, KITEM ''r1FrMpkExtra_Voice.reserve'' 27 5 1 0,
     KITEM ''r1FrMpkExtra_Voice.onAirRecActive'' 27 6 1 0,
     KITEM ''r1FrMpkExtra_Voice.onAirRecControlByRouter'' 27 7 1 0, KITEM ''micSelAuto'' 28 0 1 1,
     KITEM ''micSelFront'' 28 1 1 0, KITEM ''useAutoPtt'' 28 2 1 0, KITEM ''paddleOnlySideTone'' 28 3 1 0,
     KITEM ''enableSleepMode'' 28 4 1 0, KITEM ''downstreamOverFootSw'' 28 5 1 0, KITEM ''useQCw'' 28 6 1 0,
     KITEM ''usePFsk'' 28 7 1 0, KITEM ''extSerBaudRate'' 29 7 8 24, KITEM ''civAddress'' 40 7 8 0x70,
     KITEM ''civBaudRate'' 41 7 8 0x24, KITEM ''civFunc'' 42 7 8 0x00]"

definition c_mk2r :: "kitem list" where
  "c_mk2r =
    [KITEM ''r1FrMokExtra_Digital.audioRxMic'' 12 0 1 0, KITEM ''r1FrMokExtra_Digital.reserve1'' 12 1 1 0,
     KITEM ''r1FrMokExtra_Digital.audioTxMic'' 12 2 1 0, KITEM ''r1FrMokExtra_Digital.reserve2'' 12 3 1 0,
     KITEM ''r1FrMokExtra_Digital.audioTxFootSwMic'' 12 4 1 0, KITEM ''r1FrMokExtra_Digital.reserve3'' 12 5 1 0,
     KITEM ''r1FrMokExtra_Digital.voiceCodec'' 12 6 1 0, KITEM ''r1FrMokExtra_Digital.reserve4'' 12 7 1 0,
     KITEM ''r2FrBase_Digital.audioRx'' 13 1 2 1, KITEM ''r2FrBase_Digital.audioTx'' 13 3 2 1,
     KITEM ''r2FrBase_Digital.audioTxFootSw'' 13 5 2 1, KITEM ''r2FrBase_Digital.ptt1'' 13 6 1 1,
     KITEM ''r2FrBase_Digital.ptt2'' 13 7 1 1, KITEM ''r2FrMokExtra_Digital.audioRxMic'' 14 0 1 0,
     KITEM ''r2FrMokExtra_Digital.reserve1'' 14 1 1 0, KITEM ''r2FrMokExtra_Digital.audioTxMic'' 14 2 1 0,
     KITEM ''r2FrMokExtra_Digital.reserve2'' 14 3 1 0, KITEM ''r2FrMokExtra_Digital.audioTxFootSwMic'' 14 4 1 0,
     KITEM ''r2FrMokExtra_Digital.reserve3'' 14 5 1 0, KITEM ''r2FrMokExtra_Digital.voiceCodec'' 14 6 1 0,
     KITEM ''r2FrMokExtra_Digital.reserve4'' 14 7 1 0, KITEM ''r2PaPtt'' 15 0 1 1,
     KITEM ''singleSerialCw'' 15 1 1 0, KITEM ''singleSerialPtt'' 15 2 1 0, KITEM ''singleFootSwitch'' 15 7 1 0,
     KITEM ''r2DelaySerialPtt'' 16 0 1 1, KITEM ''r2I2cCoupled'' 16 1 1 0, KITEM ''lastOneWins'' 16 2 1 0,
     KITEM ''dualTx'' 16 3 1 0, KITEM ''useLptPtt'' 16 4 1 0, KITEM ''useLptCw'' 16 5 1 0,
     KITEM ''r2LnaPtt'' 16 6 1 1, KITEM ''r2InvertFsk'' 16 7 1 0, KITEM ''r2LineOutRight'' 17 0 1 0,
     KITEM ''lptDvk'' 17 1 1 0, KITEM ''disableBandLock'' 17 4 1 0, KITEM ''r2KeyerMode'' 17 6 2 0,
     KITEM ''useLptFsIn'' 17 7 1 0, KITEM ''r2ForceKeyerMode'' 18 0 1 1, KITEM ''singleSerialFsk'' 18 1 1 0,
     KITEM ''useChanFocus'' 18 2 1 0, KITEM ''r2UseLnaPttTail'' 18 3 1 1, KITEM ''r2FollowTxMode'' 18 4 1 1,
     KITEM ''r2AllowCwInVoice'' 18 5 1 0, KITEM ''singleWinkeyCwPtt'' 18 6 1 0, KITEM ''r2Qsk'' 18 7 1 0,
     KITEM ''r2PttDelay'' 19 7 8 1, KITEM ''modeA'' 20 7 4 0, KITEM ''modeB'' 21 3 4 0, KITEM ''modeC'' 21 7 4 0,
     KITEM ''txFocusAutoCmd'' 22 0 1 0, KITEM ''rxFocusAutoCmd'' 22 1 1 0, KITEM ''stereoFocusAutoCmd'' 22 2 1 0,
     KITEM ''txFocusAuto2Ptt'' 22 3 1 0, KITEM ''rxFocusFollowTx'' 22 4 1 0, KITEM ''stereoFocusNone'' 22 5 1 0,
     KITEM ''txFocusPinInverted'' 23 0 1 0, KITEM ''rxFocusPinInverted'' 23 1 1 0,
     KITEM ''stereoFocusPinInverted'' 23 2 1 0, KITEM ''txFocusPin3'' 23 3 1 0, KITEM ''stereoFocusPin5'' 23 4 1 0,
     KITEM ''ser1Source'' 24 1 2 0, KITEM ''r1OutputDataType'' 24 6 3 0, KITEM ''r1BandDataInput'' 24 7 1 0,
     KITEM ''pin4Function'' 24 11 4 0, KITEM ''pin5Function'' 24 15 4 0, KITEM ''ser2Source'' 24 17 2 0,
     KITEM ''r2OutputDataType'' 24 22 3 0, KITEM ''r2BandDataInput'' 24 23 1 0, KITEM ''pin3Function'' 24 27 4 0,
     KITEM ''pin2Function'' 24 31 4 0, KITEM ''audioSwitchingDelay'' 28 7 8 0, KITEM ''r2InvertLnaPtt'' 29 0 1 0,
     KITEM ''r1FrMokExtra_Cw.audioRxMic'' 40 0 1 0, KITEM ''r1FrMokExtra_Cw.reserve1'' 40 1 1 0,
     KITEM ''r1FrMokExtra_Cw.audioTxMic'' 40 2 1 0, KITEM ''r1FrMokExtra_Cw.reserve2'' 40 3 1 0,
     KITEM ''r1FrMokExtra_Cw.audioTxFootSwMic'' 40 4 1 0, KITEM ''r1FrMokExtra_Cw.reserve3'' 40 5 1 0,
     KITEM ''r1FrMokExtra_Cw.voiceCodec'' 40 6 1 1, KITEM ''r1FrMokExtra_Cw.reserve4'' 40 7 1 0,
     KITEM ''r2FrBase_Cw.audioRx'' 41 1 2 2, KITEM ''r2FrBase_Cw.audioTx'' 41 3 2 2,
     KITEM ''r2FrBase_Cw.audioTxFootSw'' 41 5 2 2, KITEM ''r2FrBase_Cw.ptt1'' 41 6 1 1,
     KITEM ''r2FrBase_Cw.ptt2'' 41 7 1 0, KITEM ''r2FrMokExtra_Cw.audioRxMic'' 42 0 1 0,
     KITEM ''r2FrMokExtra_Cw.reserve1'' 42 1 1 0, KITEM ''r2FrMokExtra_Cw.audioTxMic'' 42 2 1 0,
     KITEM ''r2FrMokExtra_Cw.reserve2'' 42 3 1 0, KITEM ''r2FrMokExtra_Cw.audioTxFootSwMic'' 42 4 1 0,
     KITEM ''r2FrMokExtra_Cw.reserve3'' 42 5 1 0, KITEM ''r2FrMokExtra_Cw.voiceCodec'' 42 6 1 1,
     KITEM ''r2FrMokExtra_Cw.reserve4'' 42 7 1 0, KITEM ''r1FrMokExtra_Voice.audioRxMic'' 43 0 1 0,
     KITEM ''r1FrMokExtra_Voice.reserve1'' 43 1 1 0, KITEM ''r1FrMokExtra_Voice.audioTxMic'' 43 2 1 1,
     KITEM ''r1FrMokExtra_Voice.reserve2'' 43 3 1 0, KITEM ''r1FrMokExtra_Voice.audioTxFootSwMic'' 43 4 1 0,
     KITEM ''r1FrMokExtra_Voice.reserve3'' 43 5 1 0, KITEM ''r1FrMokExtra_Voice.voiceCodec'' 43 6 1 1,
     KITEM ''r1FrMokExtra_Voice.reserve4'' 43 7 1 0, KITEM ''r2FrBase_Voice.audioRx'' 44 1 2 2,
     KITEM ''r2FrBase_Voice.audioTx'' 44 3 2 3, KITEM ''r2FrBase_Voice.audioTxFootSw'' 44 5 2 2,
     KITEM ''r2FrBase_Voice.ptt1'' 44 6 1 1, KITEM ''r2FrBase_Voice.ptt2'' 44 7 1 0,
     KITEM ''r2FrMokExtra_Voice.audioRxMic'' 45 0 1 0, KITEM ''r2FrMokExtra_Voice.reserve1'' 45 1 1 0,
     KITEM ''r2FrMokExtra_Voice.audioTxMic'' 45 2 1 1, KITEM ''r2FrMokExtra_Voice.reserve2'' 45 3 1 0,
     KITEM ''r2FrMokExtra_Voice.audioTxFootSwMic'' 45 4 1 0, KITEM ''r2FrMokExtra_Voice.reserve3'' 45 5 1 0,
     KITEM ''r2FrMokExtra_Voice.voiceCodec'' 45 6 1 1, KITEM ''r2FrMokExtra_Voice.reserve4'' 45 7 1 0,
     KITEM ''accSer1Func'' 46 7 8 0, KITEM ''accSer2Func'' 47 7 8 0, KITEM ''accSer1BaudRate'' 48 7 8 0x24,
     KITEM ''accSer1BaudRate'' 49 7 8 0x24, KITEM ''accSer1Par'' 50 7 8 0, KITEM ''accSer2Par'' 51 7 8 0,
     KITEM ''r2PaPttTail'' 52 7 8 1, KITEM ''r2LnaPttTail'' 53 7 8 1]"

definition c_u2r :: "kitem list" where
  "c_u2r =
    [KITEM ''r2FrBase'' 14 7 8 0xEA, KITEM ''singleSerialCw'' 15 1 1 0, KITEM ''singleSerialPtt'' 15 2 1 0,
     KITEM ''r2DelaySerialPtt'' 16 1 1 0, KITEM ''lastOneWins'' 16 2 1 0, KITEM ''dualTx'' 16 3 1 0,
     KITEM ''useLptPtt'' 16 4 1 0, KITEM ''useLptCw'' 16 5 1 0, KITEM ''r2InvertFsk'' 16 7 1 0,
     KITEM ''disableBandLock'' 17 4 1 0, KITEM ''r2KeyerMode'' 17 6 2 0, KITEM ''r2ForceKeyerMode'' 18 0 1 0,
     KITEM ''singleSerialFsk'' 18 1 1 0, KITEM ''r2AllowCwInVoice'' 18 5 1 0, KITEM ''singleWinkeyCwPtt'' 18 6 1 0,
     KITEM ''r2PttDelay'' 19 7 8 0, KITEM ''txFocusAutoCmd'' 22 0 1 0, KITEM ''rxFocusAutoCmd'' 22 1 1 0,
     KITEM ''stereoFocusAutoCmd'' 22 2 1 0, KITEM ''txFocusAuto2Ptt'' 22 3 1 0, KITEM ''rxFocusFollowTx'' 22 4 1 0,
     KITEM ''stereoFocusNone'' 22 5 1 0, KITEM ''txFocusPinInverted'' 23 0 1 0,
     KITEM ''rxFocusPinInverted'' 23 1 1 0, KITEM ''stereoFocusPinInverted'' 23 2 1 0,
     KITEM ''txFocusPin3'' 23 3 1 0, KITEM ''stereoFocusPin5'' 23 4 1 0, KITEM ''audioSwitchingDelay'' 28 7 8 0,
     KITEM ''r2InvertLnaPtt'' 29 0 1 0, KITEM ''rxFocus_r1RxRx'' 40 0 1 0, KITEM ''split_r1RxRx'' 40 1 1 0,
     KITEM ''rxFocus_r1TxRxComputer'' 40 2 1 0, KITEM ''split_r1TxRxComputer'' 40 3 1 0,
     KITEM ''rxFocus_r2RxRx'' 40 4 1 0, KITEM ''split_r2RxRx'' 40 5 1 0, KITEM ''rxFocus_r2RxTxComputer'' 40 6 1 0,
     KITEM ''split_r2RxTxComputer'' 40 7 1 0, KITEM ''rxFocus_earsStereo'' 40 8 1 0,
     KITEM ''split_earsStereo'' 40 9 1 0, KITEM ''rxFocus_r1TxRxManual'' 40 12 1 0,
     KITEM ''split_r1TxRxManual'' 40 13 1 0, KITEM ''rxFocus_r2RxTxManual'' 40 14 1 0,
     KITEM ''split_r2RxTxManual'' 40 15 1 0]"

definition c_sm :: "kitem list" where
  "c_sm =
    [KITEM ''pwmContrast'' 0 4 5 15, KITEM ''pwmBlight'' 1 4 5 25, KITEM ''dispBg0'' 2 7 8 0x0d,
     KITEM ''dispBg1'' 3 7 8 0x10, KITEM ''dispEv.steppirState'' 4 0 1 0, KITEM ''dispEv.steppirLock'' 4 1 1 0,
     KITEM ''dispEv.steppirCommands'' 4 2 1 0, KITEM ''dispEv.portAVolt'' 4 3 1 0,
     KITEM ''dispEv.portBVolt'' 4 4 1 0, KITEM ''dispEv.txFreqChange'' 4 5 1 0,
     KITEM ''dispEv.rxFreqChange'' 4 6 1 0, KITEM ''dispEv.operFreqChange'' 4 7 1 0,
     KITEM ''dispEv.vfoAFreqChange'' 4 8 1 0, KITEM ''dispEv.vfoBFreqChange'' 4 9 1 0,
     KITEM ''dispEv.curAntChange'' 4 10 1 0, KITEM ''dispEv.rotatorStateChange'' 4 11 1 0,
     KITEM ''dispEv.bandChange'' 4 12 1 0, KITEM ''dispEv.antChange'' 4 13 1 0,
     KITEM ''dispEv.txAntChange'' 4 14 1 0, KITEM ''dispEv.virtRotatorStateChange'' 4 15 1 0,
     KITEM ''dispEv.andSelectionSplit'' 4 16 1 0, KITEM ''dispEv.group'' 4 17 1 0,
     KITEM ''dispEvLn.steppirState'' 8 0 1 0, KITEM ''dispEvLn.steppirLock'' 8 1 1 0,
     KITEM ''dispEvLn.steppirCommands'' 8 2 1 0, KITEM ''dispEvLn.portAVolt'' 8 3 1 0,
     KITEM ''dispEvLn.portBVolt'' 8 4 1 0, KITEM ''dispEvLn.txFreqChange'' 8 5 1 0,
     KITEM ''dispEvLn.rxFreqChange'' 8 6 1 0, KITEM ''dispEvLn.operFreqChange'' 8 7 1 0,
     KITEM ''dispEvLn.vfoAFreqChange'' 8 8 1 0, KITEM ''dispEvLn.vfoBFreqChange'' 8 9 1 0,
     KITEM ''dispEvLn.curAntChange'' 8 10 1 0, KITEM ''dispEvLn.rotatorStateChange'' 8 11 1 0,
     KITEM ''dispEvLn.bandChange'' 8 12 1 0, KITEM ''dispEvLn.antChange'' 8 13 1 0,
     KITEM ''dispEvLn.txAntChange'' 8 14 1 0, KITEM ''dispEvLn.virtRotatorStateChange'' 8 15 1 0,
     KITEM ''dispEvLn.andSelectionSplit'' 8 16 1 0, KITEM ''dispEvLn.group'' 8 17 1 0,
     KITEM ''dispEvTime'' 12 7 8 200, KITEM ''assignedToR2'' 13 0 1 0, KITEM ''enableSleepMode'' 13 1 1 0,
     KITEM ''buttonBeep'' 13 2 1 0, KITEM ''alarmBeep'' 13 3 1 0, KITEM ''forwardNumpadKeys'' 13 4 1 0,
     KITEM ''i2cCoupled'' 13 5 1 0, KITEM ''keyFuncFh2.1'' 14 7 8 0x04, KITEM ''keyFuncFh2.2'' 15 7 8 0x05,
     KITEM ''keyFuncFh2.3'' 16 7 8 0x06, KITEM ''keyFuncFh2.4'' 17 7 8 0x07, KITEM ''keyFuncFh2.5'' 18 7 8 0x08,
     KITEM ''keyFuncFh2.6'' 19 7 8 0x09, KITEM ''keyFuncFh2.7'' 20 7 8 0x0a, KITEM ''keyFuncFh2.8'' 21 7 8 0x0b,
     KITEM ''keyFuncFh2.9'' 22 7 8 0x0c, KITEM ''keyFuncFh2.10'' 23 7 8 0x0d, KITEM ''keyFuncFh2.11'' 24 7 8 0x0e,
     KITEM ''keyFuncFh2.12'' 25 7 8 0x0f, KITEM ''keyFuncPs2.shift0'' 26 7 8 0x22,
     KITEM ''keyFuncPs2.shift1'' 27 7 8 0x24, KITEM ''keyFuncPs2.shift2'' 28 7 8 0x25,
     KITEM ''keyFuncPs2.shift3'' 29 7 8 0x26, KITEM ''keyFuncPs2.shift4'' 30 7 8 0x27,
     KITEM ''keyFuncPs2.shift5'' 31 7 8 0x18, KITEM ''keyFuncPs2.shift6'' 32 7 8 0x19,
     KITEM ''keyFuncPs2.shift7'' 33 7 8 0x2b, KITEM ''keyFuncPs2.shift8'' 34 7 8 0x2c,
     KITEM ''keyFuncPs2.shift9'' 35 7 8 0x2d, KITEM ''keyFuncPs2.0'' 36 7 8 0x0d,
     KITEM ''keyFuncPs2.1'' 37 7 8 0x04, KITEM ''keyFuncPs2.2'' 38 7 8 0x05, KITEM ''keyFuncPs2.3'' 39 7 8 0x06,
     KITEM ''keyFuncPs2.4'' 40 7 8 0x07, KITEM ''keyFuncPs2.5'' 41 7 8 0x08, KITEM ''keyFuncPs2.6'' 42 7 8 0x09,
     KITEM ''keyFuncPs2.7'' 43 7 8 0x0a, KITEM ''keyFuncPs2.8'' 44 7 8 0x0b, KITEM ''keyFuncPs2.9'' 45 7 8 0x0c]"

lemmas c_tables = c_mk1_def c_dk2_def c_mk2_def c_mk3_def c_mk2r_def c_u2r_def c_sm_def

section \<open>State and operations\<close>

record kcfg =
  kc_b :: "byte list"
  kc_citem :: "kitem list"
  kc_num_citems :: nat
  kc_settings_size :: nat

definition MK1_FRBASE_CW :: nat where "MK1_FRBASE_CW = 10"
definition MK1_FRBASE_VOICE :: nat where "MK1_FRBASE_VOICE = 11"
definition MK1_FRBASE_DIGITAL :: nat where "MK1_FRBASE_DIGITAL = 12"
definition MK1_SETTINGS_SIZE :: nat where "MK1_SETTINGS_SIZE = 8"

lemmas MK1 = MK1_FRBASE_CW_def MK1_FRBASE_VOICE_def MK1_FRBASE_DIGITAL_def MK1_SETTINGS_SIZE_def

definition mk1_frbase_def :: "int \<Rightarrow> byte" where
  "mk1_frbase_def mode = (if mode = MOD_CW then 0x6a else if mode = MOD_VOICE then 0x7f else if mode = MOD_DIGITAL then 0x95 else 0)"

definition is_mk_family :: "mh_info \<Rightarrow> bool" where
  "is_mk_family mhi \<longleftrightarrow> mi_type mhi = MHT_MK \<or> mi_type mhi = MHT_CK \<or> mi_type mhi = MHT_DK"

definition set_byte :: "kcfg \<Rightarrow> nat \<Rightarrow> int \<Rightarrow> int \<times> kcfg" where
  "set_byte k idx val = (if idx < length (kc_b k) then (0, k\<lparr>kc_b := (kc_b k)[idx := word_of_int val]\<rparr>) else (-1, k))"

definition get_byte :: "kcfg \<Rightarrow> nat \<Rightarrow> int" where
  "get_byte k idx = (if idx < length (kc_b k) then uint (kc_b k ! idx) else -1)"

definition find_citem :: "kcfg \<Rightarrow> string \<Rightarrow> kitem option" where
  "find_citem k key = find (\<lambda>c. strcaseeq key (ki_key c)) (take (kc_num_citems k) (kc_citem k))"

text \<open>The settings whose default is enforced.\<close>

definition enforced_keys :: "string list" where
  "enforced_keys =
     [''r1FrBase_Cw.audioTx'', ''r1FrBase_Cw.audioRx'', ''r1FrBase_Cw.audioTxFootSw'', ''r2FrBase_Cw.audioTx'',
      ''r2FrBase_Cw.audioRx'', ''r2FrBase_Cw.audioTxFootSw'', ''r1FrMpkExtra_Cw.onAirRecActive'',
      ''r1FrMpkExtra_Cw.onAirRecControlByRouter'', ''r2FrMpkExtra_Cw.onAirRecActive'',
      ''r2FrMpkExtra_Cw.onAirRecControlByRouter'']"

definition ki_idx :: "kitem \<Rightarrow> nat" where
  "ki_idx cp = ki_off cp + ki_base_bit cp div 8"

definition kcfg_set_val :: "kcfg \<Rightarrow> string \<Rightarrow> int \<Rightarrow> (int \<times> kcfg) option" where
  "kcfg_set_val k key val =
     (case find_citem k key of
        None \<Rightarrow> Some (-1, k)
      | Some cp \<Rightarrow>
          if ki_def cp \<noteq> word_of_int val \<and> key \<in> set enforced_keys then Some (-2, k)
          else
            let idx = ki_idx cp;
                bt = ki_base_bit cp mod 8
            in (case width2mask (int (ki_width cp)) of
                  None \<Rightarrow> None
                | Some msk \<Rightarrow>
                    let c = get_byte k idx
                    in if c < 0 then Some (-1, k)
                       else if val > msk then Some (-1, k)
                       else if bt + 1 < ki_width cp then None
                       else
                         let c1 = c AND NOT (push_bit (bt + 1 - ki_width cp) msk);
                             c2 = c1 OR push_bit (bt + 1 - ki_width cp) val
                         in Some (0, snd (set_byte k idx c2))))"

definition kcfg_get_val :: "kcfg \<Rightarrow> string \<Rightarrow> int \<Rightarrow> int option" where
  "kcfg_get_val k key dflt =
     (case find_citem k key of
        None \<Rightarrow> Some dflt
      | Some cp \<Rightarrow>
          let idx = ki_idx cp;
              bt = ki_base_bit cp mod 8
          in (case width2mask (int (ki_width cp)) of
                None \<Rightarrow> None
              | Some msk \<Rightarrow>
                  let c = get_byte k idx
                  in if c < 0 then Some dflt
                     else if bt + 1 < ki_width cp then None
                     else Some (drop_bit (bt + 1 - ki_width cp) c AND msk)))"

text \<open>Several settings in a row, results ignored.\<close>

fun set_vals :: "(string \<times> int) list \<Rightarrow> kcfg \<Rightarrow> kcfg option" where
  "set_vals [] k = Some k"
| "set_vals ((key, val) # kvs) k = (case kcfg_set_val k key val of None \<Rightarrow> None | Some (_, k') \<Rightarrow> set_vals kvs k')"

text \<open>
  What the MK family is sent: the loop over the three audio states of \<^verbatim>\<open>frbase\<close>, and the whole of
  \<^verbatim>\<open>mk1_set_frbase\<close>.
\<close>

fun fix_audio :: "byte \<Rightarrow> nat list \<Rightarrow> byte \<Rightarrow> byte" where
  "fix_audio dflt [] frbase = frbase"
| "fix_audio dflt (sh # shs) frbase =
     fix_audio dflt shs (if frbase AND push_bit sh 3 = 0 then frbase OR (dflt AND push_bit sh 3) else frbase)"

definition mk1_set_frbase :: "mh_info \<Rightarrow> kcfg \<Rightarrow> kcfg option" where
  "mk1_set_frbase mhi k =
     (case (if mi_type mhi = MHT_MK then map_option (\<lambda>m. (m, k)) (kcfg_get_val k ''r1KeyerMode'' MOD_DIGITAL)
            else let mode = (if mi_type mhi = MHT_CK then MOD_CW else MOD_DIGITAL)
                 in map_option (\<lambda>k. (mode, k)) (set_vals [(''r1ForceKeyerMode'', 0), (''r1KeyerMode'', mode)] k)) of
        None \<Rightarrow> None
      | Some (mode, k) \<Rightarrow>
          let (mode, off) = (if mode = MOD_CW then (mode, MK1_FRBASE_CW)
                             else if mode = MOD_VOICE then (mode, MK1_FRBASE_VOICE)
                             else (MOD_DIGITAL, MK1_FRBASE_DIGITAL));
              frbase = fix_audio (mk1_frbase_def mode) [0, 2, 4] (kc_b k ! off);
              b = (kc_b k)[0 := frbase]
          in Some (k\<lparr>kc_b := b[2 := (b ! 2 AND NOT 0x60) OR (drop_bit 1 frbase AND 0x60)]\<rparr>))"

text \<open>
  The items, their number and the size of the buffer that the switch over the types sets. An array
  element behind the number of items is not looked at.
\<close>

fun kcfg_switch :: "mh_type \<Rightarrow> kitem list \<times> nat \<times> nat" where
  "kcfg_switch MHT_MK = (c_base @ c_mk1, length c_base + length c_mk1, 0)"
| "kcfg_switch MHT_DK2 = (c_base @ c_dk2, length c_base + length c_dk2, 56)"
| "kcfg_switch MHT_MK2 = (c_base @ c_mk2, length c_base + length c_mk2, 56)"
| "kcfg_switch MHT_MK3 = (c_base @ c_mk3, length c_base + length c_mk3, 56)"
| "kcfg_switch MHT_MK2R = (c_base @ c_mk2r, length c_base + length c_mk2r, 56)"
| "kcfg_switch MHT_MK2Rp = (c_base @ c_mk2r, length c_base + length c_mk2r, 56)"
| "kcfg_switch MHT_U2R = (c_base @ c_u2r, length c_base + length c_u2r, 56)"
| "kcfg_switch MHT_CK = (c_base, length c_base, 0)"
| "kcfg_switch MHT_DK = (c_base, length c_base, 0)"
| "kcfg_switch MHT_SM = (c_sm, length c_sm, 56)"
| "kcfg_switch MHT_SMD = (c_sm, length c_sm, 56)"
| "kcfg_switch MHT_UNKNOWN = (c_base, 0, 0)"

text \<open>With the changes for the MK family: items, their number (\<^verbatim>\<open>uint8_t\<close>), size of the buffer and of the settings.\<close>

definition kcfg_layout :: "mh_info \<Rightarrow> kitem list \<times> nat \<times> nat \<times> nat" where
  "kcfg_layout mhi =
     (let (items, num, buf_size) = kcfg_switch (mi_type mhi)
      in if is_mk_family mhi then
           (map (\<lambda>c. c\<lparr>ki_off := MK1_FRBASE_DIGITAL\<rparr>) (take 5 items) @ drop 5 items, num mod 256, MK1_FRBASE_DIGITAL + 1, MK1_SETTINGS_SIZE)
         else (items, num mod 256, buf_size, buf_size))"

text \<open>The outer \<open>None\<close> is an undefined result, the inner one \<^verbatim>\<open>NULL\<close>.\<close>

definition kcfg_create :: "mh_info \<Rightarrow> kcfg option option" where
  "kcfg_create mhi =
     (if mi_type mhi = MHT_UNKNOWN then Some None
      else
        let (items, num, buf_size, settings_size) = kcfg_layout mhi;
            k0 = \<lparr>kc_b = replicate buf_size 0, kc_citem = items, kc_num_citems = num, kc_settings_size = settings_size\<rparr>
        in (case set_vals (map (\<lambda>c. (ki_key c, uint (ki_def c))) (take num items)) k0 of
              None \<Rightarrow> None
            | Some k1 \<Rightarrow>
                let k2 = (if is_mk_family mhi then
                            k1\<lparr>kc_b := (kc_b k1)[MK1_FRBASE_VOICE := mk1_frbase_def MOD_VOICE, MK1_FRBASE_DIGITAL := mk1_frbase_def MOD_DIGITAL]\<rparr>
                          else k1)
                in (case (if mi_type mhi = MHT_DK2 \<or> mi_type mhi = MHT_DK then
                            set_vals [(''r1FrBase_Cw.ptt1'', 0), (''r1FrBase_Cw.ptt2'', 1)] k2 else Some k2) of
                      None \<Rightarrow> None
                    | Some k3 \<Rightarrow>
                        (case (if mi_type mhi = MHT_MK2 \<or> mi_type mhi = MHT_MK3 then
                                 set_vals [(''r1FrBase_Cw.audioRx'', uint AUDIO_SW_D), (''r1FrBase_Cw.audioTx'', uint AUDIO_SW_D),
                                   (''r1FrBase_Cw.audioTxFootSw'', uint AUDIO_SW_D), (''r1FrBase_Voice.audioRx'', uint AUDIO_SW_A),
                                   (''r1FrBase_Voice.audioTx'', uint AUDIO_SW_C), (''r1FrBase_Voice.audioTxFootSw'', uint AUDIO_SW_A),
                                   (''r1FrBase_Digital.audioRx'', uint AUDIO_SW_B), (''r1FrBase_Digital.audioTx'', uint AUDIO_SW_B),
                                   (''r1FrBase_Digital.audioTxFootSw'', uint AUDIO_SW_D)] k3
                               else Some k3) of
                           None \<Rightarrow> None
                         | Some k4 \<Rightarrow> map_option Some (if is_mk_family mhi then mk1_set_frbase mhi k4 else Some k4)))))"

text \<open>The settings as sent to the keyer: the bytes at the address up to the size returned.\<close>

definition kcfg_get_settings :: "mh_info \<Rightarrow> kcfg \<Rightarrow> (byte list \<times> kcfg) option" where
  "kcfg_get_settings mhi k =
     map_option (\<lambda>k. (take (kc_settings_size k) (kc_b k), k)) (if is_mk_family mhi then mk1_set_frbase mhi k else Some k)"

text \<open>Going through the settings. The iterator is its index.\<close>

definition kcfg_iter_begin :: int where
  "kcfg_iter_begin = -1"

definition kcfg_iter_next :: "kcfg option \<Rightarrow> int \<Rightarrow> int \<times> int" where
  "kcfg_iter_next k idx =
     (case k of
        None \<Rightarrow> (0, idx)
      | Some k \<Rightarrow> if idx + 1 \<ge> int (kc_num_citems k) then (0, idx + 1) else (1, idx + 1))"

text \<open>The result, with key and value where it is 0. An index before the first item is an access outside the array.\<close>

definition kcfg_iter_get :: "kcfg \<Rightarrow> int \<Rightarrow> (int \<times> (string \<times> int) option) option" where
  "kcfg_iter_get k it =
     (if it \<ge> int (kc_num_citems k) then Some (-1, None)
      else if it < 0 then None
      else
        let cp = kc_citem k ! nat it;
            idx = ki_idx cp;
            bt = ki_base_bit cp mod 8
        in (case width2mask (int (ki_width cp)) of
              None \<Rightarrow> None
            | Some msk \<Rightarrow>
                let c = get_byte k idx
                in if c < 0 then Some (-1, None)
                   else if bt + 1 < ki_width cp then None
                   else Some (0, Some (ki_key cp, drop_bit (bt + 1 - ki_width cp) c AND msk))))"

definition kcfg_update_keyer_mode :: "mh_info \<Rightarrow> byte \<Rightarrow> byte \<Rightarrow> byte \<Rightarrow> kcfg \<Rightarrow> kcfg option" where
  "kcfg_update_keyer_mode mhi cur rr1 rr2 k =
     (if mhi_has mhi MHF_HAS_R2 then set_vals [(''r1KeyerMode'', uint rr1), (''r2KeyerMode'', uint rr2)] k
      else set_vals [(''r1KeyerMode'', uint cur)] k)"

section \<open>Comparing keys\<close>

text \<open>The capitals, as bits: this evaluates fast.\<close>

lemma lower_char_bits:
  "lower_char (Char b0 b1 b2 b3 b4 b5 b6 b7) =
     Char b0 b1 b2 b3 b4 (b5 \<or> (\<not> b7 \<and> b6 \<and> (b0 \<or> b1 \<or> b2 \<or> b3 \<or> b4) \<and> \<not> (b4 \<and> b3 \<and> (b2 \<or> (b1 \<and> b0))))) b6 b7"
  by (cases b0; cases b1; cases b2; cases b3; cases b4; cases b5; cases b6; cases b7) simp_all

declare lower_char.simps [simp del]

lemmas key_eval = strcaseeq_def lower_char_bits

section \<open>Reading and writing\<close>

text \<open>An item of a keyer is one of \<open>Citem\<close> that lies in one byte, so its bits are known.\<close>

definition to_citem :: "kitem \<Rightarrow> citem" where
  "to_citem c = CITEMD (ki_key c) (ki_off c) (ki_base_bit c) (ki_width c) (ki_def c)"

definition kitem_ok :: "nat \<Rightarrow> kitem \<Rightarrow> bool" where
  "kitem_ok n c \<longleftrightarrow> ki_width c \<le> ki_base_bit c mod 8 + 1 \<and> ki_idx c < n"

definition kcfg_ok :: "kcfg \<Rightarrow> bool" where
  "kcfg_ok k \<longleftrightarrow> kc_num_citems k \<le> length (kc_citem k) \<and> list_all (kitem_ok (length (kc_b k))) (take (kc_num_citems k) (kc_citem k)) \<and>
     13 \<le> length (kc_b k) \<and> kc_settings_size k \<le> length (kc_b k)"

lemma to_citem_simps [simp]:
  "ci_key (to_citem c) = ki_key c" "ci_idx (to_citem c) = ki_off c" "ci_base_bit (to_citem c) = ki_base_bit c"
  "ci_width (to_citem c) = ki_width c" "ci_conv_in (to_citem c) = None" "ci_conv_out (to_citem c) = None"
  by (simp_all add: to_citem_def CITEMD_def)

lemma kitem_item:
  assumes "kitem_ok n c"
  shows "\<not> multibyte (to_citem c)" "item_ok n (to_citem c)" "ki_width c \<le> 8" "ki_idx c < n"
    "ki_idx c = ci_byte (to_citem c)" "ki_base_bit c mod 8 + 1 - ki_width c = ci_shift (to_citem c)"
proof -
  have w: "ki_width c \<le> 8" using assms mod_less_divisor [of 8 "ki_base_bit c"] unfolding kitem_ok_def by linarith
  then show m: "\<not> multibyte (to_citem c)" by (simp add: multibyte_def)
  with assms w show "item_ok n (to_citem c)" "ki_width c \<le> 8" "ki_idx c < n"
    "ki_idx c = ci_byte (to_citem c)" "ki_base_bit c mod 8 + 1 - ki_width c = ci_shift (to_citem c)"
    by (simp_all add: kitem_ok_def item_ok_def ki_idx_def ci_byte_def ci_shift_def)
qed

lemma find_ok: "kcfg_ok k \<Longrightarrow> find_citem k key = Some c \<Longrightarrow> kitem_ok (length (kc_b k)) c"
  by (auto simp: kcfg_ok_def find_citem_def list_all_iff dest: find_SomeD)

lemma kcfg_get_ok:
  assumes "kcfg_ok k" "find_citem k key = Some c"
  shows "kcfg_get_val k key d = Some (raw (to_citem c) (kc_b k))"
proof -
  note K = kitem_item [OF find_ok [OF assms]]
  have "\<not> ki_base_bit c mod 8 + 1 < ki_width c" using find_ok [OF assms] by (simp add: kitem_ok_def)
  then show ?thesis
    using assms(2) K(3,4) get_single [OF K(2,1)] unfolding kcfg_get_val_def
    by (simp add: Let_def width2mask_ok get_byte_def K(5,6) [symmetric])
qed

text \<open>A write either changes the bytes or leaves the settings alone; it never fails to have a result.\<close>

lemma kcfg_set_cases:
  assumes "kcfg_ok k"
  obtains r where "kcfg_set_val k key v = Some (r, k)" "r = -1 \<or> r = -2"
  | c x where "find_citem k key = Some c" "kcfg_set_val k key v = Some (0, k\<lparr>kc_b := (kc_b k)[ki_idx c := x]\<rparr>)"
proof (cases "find_citem k key")
  case None
  then show ?thesis using that(1) [of "-1"] by (simp add: kcfg_set_val_def)
next
  case (Some c)
  note K = kitem_item [OF find_ok [OF assms Some]]
  have bt: "\<not> ki_base_bit c mod 8 + 1 < ki_width c" using find_ok [OF assms Some] by (simp add: kitem_ok_def)
  have gb: "get_byte k (ki_idx c) = uint (kc_b k ! ki_idx c)" using K(4) by (simp add: get_byte_def)
  consider "ki_def c \<noteq> word_of_int v \<and> key \<in> set enforced_keys" | "\<not> (ki_def c \<noteq> word_of_int v \<and> key \<in> set enforced_keys)" "v > mask (ki_width c)"
    | "\<not> (ki_def c \<noteq> word_of_int v \<and> key \<in> set enforced_keys)" "\<not> v > mask (ki_width c)" by blast
  then show ?thesis
  proof cases
    case 1
    then show ?thesis using that(1) [of "-2"] Some by (simp add: kcfg_set_val_def)
  next
    case 2
    then have "kcfg_set_val k key v = Some (-1, k)" using Some K(3) gb by (simp only: kcfg_set_val_def option.case Let_def width2mask_ok if_False) simp
    then show ?thesis using that(1) [of "-1"] by simp
  next
    case 3
    then show ?thesis using that(2) [OF Some] Some K(3,4) gb bt
      by (simp only: kcfg_set_val_def option.case Let_def width2mask_ok if_False set_byte_def) simp
  qed
qed

lemma kcfg_ok_bytes: "length b = length (kc_b k) \<Longrightarrow> kcfg_ok (k\<lparr>kc_b := b\<rparr>) = kcfg_ok k"
  by (simp add: kcfg_ok_def)

text \<open>What no operation on the settings changes.\<close>

definition kcfg_frame :: "kcfg \<Rightarrow> kcfg \<Rightarrow> bool" where
  "kcfg_frame k k' \<longleftrightarrow> kc_citem k' = kc_citem k \<and> kc_num_citems k' = kc_num_citems k \<and> kc_settings_size k' = kc_settings_size k \<and>
     length (kc_b k') = length (kc_b k)"

lemma kcfg_frame_refl [simp]: "kcfg_frame k k"
  by (simp add: kcfg_frame_def)

lemma kcfg_frame_trans [trans]: "kcfg_frame k k' \<Longrightarrow> kcfg_frame k' k'' \<Longrightarrow> kcfg_frame k k''"
  by (simp add: kcfg_frame_def)

lemma kcfg_frame_bytes [simp]: "length b = length (kc_b k) \<Longrightarrow> kcfg_frame k (k\<lparr>kc_b := b\<rparr>)"
  by (simp add: kcfg_frame_def)

lemma kcfg_frame_ok: "kcfg_frame k k' \<Longrightarrow> kcfg_ok k' = kcfg_ok k"
  by (simp add: kcfg_frame_def kcfg_ok_def)

lemma find_frame: "kcfg_frame k k' \<Longrightarrow> find_citem k' key = find_citem k key"
  by (simp add: kcfg_frame_def find_citem_def)

lemma kcfg_set_total:
  assumes "kcfg_ok k"
  shows "\<exists>r k'. kcfg_set_val k key v = Some (r, k') \<and> kcfg_frame k k' \<and> kcfg_ok k'"
proof (rule kcfg_set_cases [OF assms, of key v])
  fix c x assume "kcfg_set_val k key v = Some (0, k\<lparr>kc_b := (kc_b k)[ki_idx c := x]\<rparr>)"
  then show ?thesis using assms by (simp add: kcfg_ok_bytes)
qed (use assms in simp)

lemma set_vals_total: "kcfg_ok k \<Longrightarrow> \<exists>k'. set_vals kvs k = Some k' \<and> kcfg_frame k k' \<and> kcfg_ok k'"
proof (induction kvs arbitrary: k)
  case (Cons kv kvs)
  obtain key v where kv: "kv = (key, v)" by (cases kv)
  obtain r k1 where "kcfg_set_val k key v = Some (r, k1)" "kcfg_frame k k1" "kcfg_ok k1" using kcfg_set_total [OF Cons.prems] by blast
  with Cons.IH [of k1] kv show ?case by (auto intro: kcfg_frame_trans)
qed simp

text \<open>A value that fits is written to the bits of its item.\<close>

lemma kcfg_set_ok:
  assumes "kcfg_ok k" "find_citem k key = Some c" "0 \<le> v" "v < 2 ^ ki_width c" "key \<in> set enforced_keys \<longrightarrow> ki_def c = word_of_int v"
  shows "\<exists>x. kcfg_set_val k key v = Some (0, k\<lparr>kc_b := (kc_b k)[ki_idx c := x]\<rparr>) \<and> item_written (to_citem c) v (kc_b k) ((kc_b k)[ki_idx c := x])"
proof -
  note ok = find_ok [OF assms(1,2)]
  note K = kitem_item [OF ok]
  have bt: "\<not> ki_base_bit c mod 8 + 1 < ki_width c" using ok by (simp add: kitem_ok_def)
  have le: "\<not> mask (ki_width c) < v" using assms(4) by (simp add: mask_eq_exp_minus_1)
  let ?c2 = "(uint (kc_b k ! ki_idx c) AND NOT (push_bit (ki_base_bit c mod 8 + 1 - ki_width c) (mask (ki_width c)))) OR
    push_bit (ki_base_bit c mod 8 + 1 - ki_width c) v"
  have set: "kcfg_set_val k key v = Some (0, k\<lparr>kc_b := (kc_b k)[ki_idx c := word_of_int ?c2]\<rparr>)"
    using assms(2,5) K(3,4) bt le by (auto simp: kcfg_set_val_def Let_def width2mask_ok get_byte_def set_byte_def)
  have find: "citem_find [to_citem c] 1 (ki_key c) = Some (to_citem c)" by (simp add: citem_find_def)
  have fits: "fits_item (to_citem c) v" using assms(3,4) by (simp add: fits_item_def conv_def)
  obtain b' where b': "citem_set_value [to_citem c] 1 (kc_b k) (int (length (kc_b k))) (ki_key c) v = Some (0, b')"
    "item_written (to_citem c) v (kc_b k) b'"
    using set_single [OF find K(2,1) fits] by (auto simp: conv_def)
  have "b' = (kc_b k)[ki_idx c := word_of_int ?c2]"
    using b'(1) find K bt le by (simp add: citem_set_value_def conv_def Let_def width2mask_ok ki_idx_def)
  with set b'(2) show ?thesis by blast
qed

section \<open>The settings of each type of keyer\<close>

lemma c_base_ok: "list_all (kitem_ok 13) c_base"
  by (simp add: c_base_def kitem_ok_def ki_idx_def)

lemma c_mk1_ok: "list_all (kitem_ok 13) c_mk1"
  by (simp add: c_mk1_def kitem_ok_def ki_idx_def)

lemma c_dk2_ok: "list_all (kitem_ok 56) c_dk2"
  by (simp add: c_dk2_def kitem_ok_def ki_idx_def)

lemma c_mk2_ok: "list_all (kitem_ok 56) c_mk2"
  by (simp add: c_mk2_def kitem_ok_def ki_idx_def)

lemma c_mk3_ok: "list_all (kitem_ok 56) c_mk3"
  by (simp add: c_mk3_def kitem_ok_def ki_idx_def)

lemma c_mk2r_ok: "list_all (kitem_ok 56) c_mk2r"
  by (simp add: c_mk2r_def kitem_ok_def ki_idx_def)

lemma c_u2r_ok: "list_all (kitem_ok 56) c_u2r"
  by (simp add: c_u2r_def kitem_ok_def ki_idx_def)

lemma c_sm_ok: "list_all (kitem_ok 56) c_sm"
  by (simp add: c_sm_def kitem_ok_def ki_idx_def)

lemma c_lengths:
  "length c_base = 50" "length c_mk1 = 5" "length c_dk2 = 8" "length c_mk2 = 79" "length c_mk3 = 81" "length c_mk2r = 123"
  "length c_u2r = 43" "length c_sm = 79"
  by (simp_all add: c_base_def c_tables)

lemma kitem_ok_mono: "list_all (kitem_ok m) cs \<Longrightarrow> m \<le> n \<Longrightarrow> list_all (kitem_ok n) cs"
  by (auto simp: list_all_iff kitem_ok_def)

lemmas tables_ok = c_dk2_ok c_mk2_ok c_mk3_ok c_mk2r_ok c_u2r_ok c_sm_ok kitem_ok_mono [OF c_base_ok, of 56]

lemma mk_items_ok: "list_all (kitem_ok 13) cs \<Longrightarrow> c_base = take 50 cs \<Longrightarrow>
  list_all (kitem_ok 13) (map (\<lambda>c. c\<lparr>ki_off := MK1_FRBASE_DIGITAL\<rparr>) (take 5 cs) @ drop 5 cs)"
proof -
  assume ok: "list_all (kitem_ok 13) cs" and base: "c_base = take 50 cs"
  have "take 5 cs = take 5 c_base" by (simp add: base min_def)
  moreover have "list_all (kitem_ok 13) (map (\<lambda>c. c\<lparr>ki_off := MK1_FRBASE_DIGITAL\<rparr>) (take 5 c_base))"
    by (simp add: c_base_def kitem_ok_def ki_idx_def MK1)
  ultimately show ?thesis using ok by (auto simp: list_all_iff dest: in_set_dropD)
qed

lemma kcfg_layout_ok:
  assumes "mi_type mhi \<noteq> MHT_UNKNOWN" "kcfg_layout mhi = (items, num, n, sz)"
  shows "num = length items" "list_all (kitem_ok n) items" "13 \<le> n" "sz \<le> n" "n = (if is_mk_family mhi then 13 else 56)"
    "sz = (if is_mk_family mhi then 8 else 56)"
proof -
  have mk: "list_all (kitem_ok 13) (map (\<lambda>c. c\<lparr>ki_off := MK1_FRBASE_DIGITAL\<rparr>) (take 5 c_base) @ drop 5 c_base)"
    "list_all (kitem_ok 13) (map (\<lambda>c. c\<lparr>ki_off := MK1_FRBASE_DIGITAL\<rparr>) (take 5 (c_base @ c_mk1)) @ drop 5 (c_base @ c_mk1))"
    using c_base_ok c_mk1_ok by (intro mk_items_ok; simp add: c_lengths)+
  show "num = length items" "list_all (kitem_ok n) items" "13 \<le> n" "sz \<le> n" "n = (if is_mk_family mhi then 13 else 56)"
    "sz = (if is_mk_family mhi then 8 else 56)"
    using assms mk tables_ok by (cases "mi_type mhi"; auto simp: kcfg_layout_def is_mk_family_def c_lengths MK1)+
qed

lemma mk1_set_frbase_total:
  assumes "kcfg_ok k"
  shows "\<exists>k'. mk1_set_frbase mhi k = Some k' \<and> kcfg_frame k k' \<and> kcfg_ok k'"
proof -
  have "\<exists>mode k1. (if mi_type mhi = MHT_MK then map_option (\<lambda>m. (m, k)) (kcfg_get_val k ''r1KeyerMode'' MOD_DIGITAL)
      else let mode = (if mi_type mhi = MHT_CK then MOD_CW else MOD_DIGITAL)
           in map_option (\<lambda>k. (mode, k)) (set_vals [(''r1ForceKeyerMode'', 0), (''r1KeyerMode'', mode)] k)) = Some (mode, k1) \<and>
      kcfg_frame k k1 \<and> kcfg_ok k1"
  proof (cases "mi_type mhi = MHT_MK")
    case True
    show ?thesis
    proof (cases "find_citem k ''r1KeyerMode''")
      case None
      with True assms show ?thesis by (simp add: kcfg_get_val_def)
    next
      case (Some c)
      with True assms kcfg_get_ok [OF assms Some] show ?thesis by simp
    qed
  next
    case False
    let ?m = "if mi_type mhi = MHT_CK then MOD_CW else MOD_DIGITAL"
    obtain k1 where "set_vals [(''r1ForceKeyerMode'', 0), (''r1KeyerMode'', ?m)] k = Some k1" "kcfg_frame k k1" "kcfg_ok k1"
      using set_vals_total [OF assms] by blast
    with False show ?thesis by (simp del: set_vals.simps)
  qed
  then obtain mode k1 where k1: "(if mi_type mhi = MHT_MK then map_option (\<lambda>m. (m, k)) (kcfg_get_val k ''r1KeyerMode'' MOD_DIGITAL)
      else let mode = (if mi_type mhi = MHT_CK then MOD_CW else MOD_DIGITAL)
           in map_option (\<lambda>k. (mode, k)) (set_vals [(''r1ForceKeyerMode'', 0), (''r1KeyerMode'', mode)] k)) = Some (mode, k1)"
    "kcfg_frame k k1" "kcfg_ok k1" by blast
  have upd: "kcfg_frame k1 (k1\<lparr>kc_b := b\<rparr>) \<and> kcfg_ok (k1\<lparr>kc_b := b\<rparr>)" if "length b = length (kc_b k1)" for b
    using that k1(3) by (simp add: kcfg_ok_bytes)
  show ?thesis unfolding mk1_set_frbase_def k1(1)
    using upd kcfg_frame_trans [OF k1(2)] by (auto simp: Let_def)
qed

lemma kcfg_create_ok:
  assumes "mi_type mhi \<noteq> MHT_UNKNOWN" "kcfg_layout mhi = (items, num, n, sz)"
  shows "\<exists>k. kcfg_create mhi = Some (Some k) \<and> kcfg_ok k \<and> kc_citem k = items \<and> kc_num_citems k = num \<and> kc_settings_size k = sz \<and> length (kc_b k) = n"
proof -
  note L = kcfg_layout_ok [OF assms]
  let ?k0 = "\<lparr>kc_b = replicate n 0, kc_citem = items, kc_num_citems = num, kc_settings_size = sz\<rparr>"
  have k0: "kcfg_ok ?k0" using L(1-4) by (simp add: kcfg_ok_def)
  have opt: "\<exists>k'. (if P then set_vals kvs k else Some k) = Some k' \<and> kcfg_frame k k' \<and> kcfg_ok k'" if "kcfg_ok k" for P kvs k
    using that set_vals_total [OF that] by auto
  obtain k1 where k1: "set_vals (map (\<lambda>c. (ki_key c, uint (ki_def c))) (take num items)) ?k0 = Some k1" "kcfg_frame ?k0 k1" "kcfg_ok k1"
    using set_vals_total [OF k0] by blast
  define k2 where "k2 = (if is_mk_family mhi then
    k1\<lparr>kc_b := (kc_b k1)[MK1_FRBASE_VOICE := mk1_frbase_def MOD_VOICE, MK1_FRBASE_DIGITAL := mk1_frbase_def MOD_DIGITAL]\<rparr> else k1)"
  have k2: "kcfg_frame k1 k2" "kcfg_ok k2" using k1(3) by (simp_all add: k2_def kcfg_ok_bytes)
  obtain k3 where k3: "(if mi_type mhi = MHT_DK2 \<or> mi_type mhi = MHT_DK then
      set_vals [(''r1FrBase_Cw.ptt1'', 0), (''r1FrBase_Cw.ptt2'', 1)] k2 else Some k2) = Some k3" "kcfg_frame k2 k3" "kcfg_ok k3"
    using opt [OF k2(2)] by blast
  obtain k4 where k4: "(if mi_type mhi = MHT_MK2 \<or> mi_type mhi = MHT_MK3 then
      set_vals [(''r1FrBase_Cw.audioRx'', uint AUDIO_SW_D), (''r1FrBase_Cw.audioTx'', uint AUDIO_SW_D),
        (''r1FrBase_Cw.audioTxFootSw'', uint AUDIO_SW_D), (''r1FrBase_Voice.audioRx'', uint AUDIO_SW_A),
        (''r1FrBase_Voice.audioTx'', uint AUDIO_SW_C), (''r1FrBase_Voice.audioTxFootSw'', uint AUDIO_SW_A),
        (''r1FrBase_Digital.audioRx'', uint AUDIO_SW_B), (''r1FrBase_Digital.audioTx'', uint AUDIO_SW_B),
        (''r1FrBase_Digital.audioTxFootSw'', uint AUDIO_SW_D)] k3 else Some k3) = Some k4" "kcfg_frame k3 k4" "kcfg_ok k4"
    using opt [OF k3(3)] by blast
  obtain k5 where k5: "(if is_mk_family mhi then mk1_set_frbase mhi k4 else Some k4) = Some k5" "kcfg_frame k4 k5" "kcfg_ok k5"
    using k4(3) mk1_set_frbase_total [OF k4(3), of mhi] by (cases "is_mk_family mhi") auto
  have "kcfg_create mhi = Some (Some k5)"
    unfolding kcfg_create_def using assms
    by (simp only: if_False Let_def prod.case k1(1) option.case k2_def [symmetric] k3(1) k4(1) k5(1) option.map)
  moreover have "kcfg_frame ?k0 k5"
    using k1(2) k2(1) k3(2) k4(2) k5(2) by (blast intro: kcfg_frame_trans)
  ultimately show ?thesis using k5(3) by (auto simp: kcfg_frame_def)
qed

text \<open>The settings of a keyer: those that \<open>kcfg_create\<close> makes, and what every operation keeps.\<close>

definition kcfg_for :: "mh_info \<Rightarrow> kcfg \<Rightarrow> bool" where
  "kcfg_for mhi k \<longleftrightarrow> kcfg_ok k \<and> mi_type mhi \<noteq> MHT_UNKNOWN \<and>
     kcfg_layout mhi = (kc_citem k, kc_num_citems k, length (kc_b k), kc_settings_size k)"

lemma kcfg_create_for: "kcfg_create mhi = Some (Some k) \<Longrightarrow> kcfg_for mhi k"
proof -
  assume c: "kcfg_create mhi = Some (Some k)"
  then have t: "mi_type mhi \<noteq> MHT_UNKNOWN" by (auto simp: kcfg_create_def)
  obtain items num n sz where l: "kcfg_layout mhi = (items, num, n, sz)" by (cases "kcfg_layout mhi") auto
  from kcfg_create_ok [OF t l] c t l show ?thesis by (auto simp: kcfg_for_def)
qed

lemma kcfg_for_frame: "kcfg_for mhi k \<Longrightarrow> kcfg_frame k k' \<Longrightarrow> kcfg_for mhi k'"
  by (simp add: kcfg_for_def kcfg_frame_ok) (simp add: kcfg_frame_def)

lemma kcfg_for_ok: "kcfg_for mhi k \<Longrightarrow> kcfg_ok k"
  by (simp add: kcfg_for_def)

lemma kcfg_for_num: "kcfg_for mhi k \<Longrightarrow> kc_num_citems k = length (kc_citem k)"
  unfolding kcfg_for_def using kcfg_layout_ok(1) by metis

section \<open>The interface\<close>

definition kcfg_read :: "string \<Rightarrow> kcfg \<Rightarrow> int option" where
  "kcfg_read key k = kcfg_get_val k key (-1)"

definition kcfg_write :: "string \<Rightarrow> int \<Rightarrow> kcfg \<Rightarrow> kcfg option" where
  "kcfg_write key v k = (case kcfg_set_val k key v of Some (r, k') \<Rightarrow> if r = 0 then Some k' else None | None \<Rightarrow> None)"

definition kcfg_fits :: "kitem list \<Rightarrow> string \<Rightarrow> int \<Rightarrow> bool" where
  "kcfg_fits items key v \<longleftrightarrow>
     (case find (\<lambda>c. strcaseeq key (ki_key c)) items of
        None \<Rightarrow> False
      | Some c \<Rightarrow> 0 \<le> v \<and> v < 2 ^ ki_width c \<and> (key \<in> set enforced_keys \<longrightarrow> ki_def c = word_of_int v))"

definition kcfg_apart :: "kitem list \<Rightarrow> string \<Rightarrow> string \<Rightarrow> bool" where
  "kcfg_apart items k j \<longleftrightarrow>
     (case (find (\<lambda>c. strcaseeq k (ki_key c)) items, find (\<lambda>c. strcaseeq j (ki_key c)) items) of
        (Some c, Some d) \<Rightarrow> items_apart (to_citem c) (to_citem d)
      | _ \<Rightarrow> True)"

definition kcfg_with :: "kitem list \<Rightarrow> kcfg \<Rightarrow> bool" where
  "kcfg_with items k \<longleftrightarrow> kcfg_ok k \<and> take (kc_num_citems k) (kc_citem k) = items"

lemma kcfg_with_find: "kcfg_with items k \<Longrightarrow> find_citem k key = find (\<lambda>c. strcaseeq key (ki_key c)) items"
  by (auto simp: kcfg_with_def find_citem_def)

lemma kcfg_with_bytes: "length b = length (kc_b k) \<Longrightarrow> kcfg_with items (k\<lparr>kc_b := b\<rparr>) = kcfg_with items k"
  by (simp add: kcfg_with_def kcfg_ok_bytes)

lemma kcfg_for_with: "kcfg_for mhi k \<Longrightarrow> kcfg_with (kc_citem k) k"
  using kcfg_for_num [of mhi k] by (simp add: kcfg_with_def kcfg_for_def)

interpretation keyer: settings kcfg_read kcfg_write "kcfg_with items" "kcfg_fits items" "kcfg_apart items" for items
proof
  fix k key v
  assume W: "kcfg_with items k" and F: "kcfg_fits items key v"
  then have ok: "kcfg_ok k" by (simp add: kcfg_with_def)
  from F W obtain c where c: "find_citem k key = Some c" "0 \<le> v" "v < 2 ^ ki_width c" "key \<in> set enforced_keys \<longrightarrow> ki_def c = word_of_int v"
    by (auto simp: kcfg_fits_def kcfg_with_find split: option.splits)
  obtain b' where b': "kcfg_set_val k key v = Some (0, k\<lparr>kc_b := b'\<rparr>)" "item_written (to_citem c) v (kc_b k) b'"
    using kcfg_set_ok [OF ok c] by blast
  let ?k = "k\<lparr>kc_b := b'\<rparr>"
  have len: "length b' = length (kc_b k)" using b'(2) by (simp add: item_written_def)
  have W': "kcfg_with items ?k" using W len by (simp add: kcfg_with_bytes)
  then have ok': "kcfg_ok ?k" by (simp add: kcfg_with_def)
  have find': "find_citem ?k j = find_citem k j" for j by (simp add: find_citem_def)
  have item: "item_ok (length (kc_b k)) (to_citem c)" using kitem_item(2) find_ok [OF ok c(1)] by blast
  have "raw (to_citem c) b' = v" using raw_item_written [OF b'(2) item] c(2,3) by simp
  then have "kcfg_read key ?k = Some v"
    using kcfg_get_ok [OF ok', of key c "-1"] c(1) find' by (simp add: kcfg_read_def)
  with b'(1) W' show "\<exists>s'. kcfg_write key v k = Some s' \<and> kcfg_with items s' \<and> kcfg_read key s' = Some v"
    by (simp add: kcfg_write_def)
  fix j s'
  assume A: "kcfg_apart items key j" and P: "kcfg_write key v k = Some s'"
  have s': "s' = ?k" using P b'(1) by (simp add: kcfg_write_def)
  show "kcfg_read j s' = kcfg_read j k"
  proof (cases "find_citem k j")
    case None
    with find' show ?thesis by (simp add: s' kcfg_read_def kcfg_get_val_def)
  next
    case (Some d)
    with A c(1) W have "items_apart (to_citem c) (to_citem d)" by (simp add: kcfg_apart_def kcfg_with_find)
    moreover have "item_ok (length (kc_b k)) (to_citem d)" using kitem_item(2) find_ok [OF ok Some] by blast
    ultimately have "raw (to_citem d) b' = raw (to_citem d) (kc_b k)" using raw_other [OF b'(2)] by blast
    then show ?thesis
      using kcfg_get_ok [OF ok Some, of "-1"] kcfg_get_ok [OF ok', of j d "-1"] find' Some by (simp add: s' kcfg_read_def)
  qed
qed

text \<open>Claim C26. Configuring a keyer by name: in the settings that the daemon keeps for a keyer of any known type, whatever
  settings are written one after the other, each to an item of its own bits and with a value that fits its width (and,
  for the items whose default is enforced, with the default), afterwards every one of them reads back as written, with
  upper and lower case in the names making no difference, and a setting that shares no bit with any of them reads as before.\<close>

theorem kcfg_settings_kept:
  assumes "kcfg_for mhi k" "\<forall>(key, v) \<in> set kvs. kcfg_fits (kc_citem k) key v" "all_apart (kcfg_apart (kc_citem k)) (map fst kvs)"
  shows "\<exists>k'. put_all kcfg_write kvs k = Some k' \<and> (\<forall>(key, v) \<in> set kvs. kcfg_get_val k' key (-1) = Some v) \<and>
    (\<forall>j. (\<forall>key \<in> set (map fst kvs). kcfg_apart (kc_citem k) key j) \<longrightarrow> kcfg_get_val k' j (-1) = kcfg_get_val k j (-1))"
proof -
  note W = kcfg_for_with [OF assms(1)]
  obtain k' where k': "put_all kcfg_write kvs k = Some k'" "\<forall>(key, v) \<in> set kvs. kcfg_read key k' = Some v"
    using keyer.put_all_get [OF W assms(2,3)] by blast
  moreover have "kcfg_read j k' = kcfg_read j k" if "\<forall>key \<in> set (map fst kvs). kcfg_apart (kc_citem k) key j" for j
    using keyer.put_all_other [OF W, of kvs j] assms(2) that k'(1) by force
  ultimately show ?thesis by (simp add: kcfg_read_def)
qed

definition ck_example :: kcfg where
  "ck_example = \<lparr>kc_b = replicate 13 0, kc_citem = map (\<lambda>c. c\<lparr>ki_off := 12\<rparr>) (take 5 c_base) @ drop 5 c_base, kc_num_citems = 50, kc_settings_size = 8\<rparr>"

lemma ck_example_for: "kcfg_for (mhi_init MHT_CK) ck_example"
proof -
  have t: "mi_type (mhi_init MHT_CK) = MHT_CK" by (simp add: mhi_init_def mhi_lookup_def mh_info_map_def)
  then have l: "kcfg_layout (mhi_init MHT_CK) = (kc_citem ck_example, 50, 13, 8)"
    by (simp add: kcfg_layout_def is_mk_family_def c_lengths MK1 ck_example_def)
  have u: "mi_type (mhi_init MHT_CK) \<noteq> MHT_UNKNOWN" using t by simp
  have n: "length (kc_citem ck_example) = 50" "kc_num_citems ck_example = 50" "length (kc_b ck_example) = 13" "kc_settings_size ck_example = 8"
    by (simp_all add: ck_example_def c_lengths)
  have "kcfg_ok ck_example" unfolding kcfg_ok_def n using kcfg_layout_ok(2) [OF u l] n(1) by simp
  with u l n show ?thesis by (simp add: kcfg_for_def)
qed

theorem kcfg_settings_kept_witness:
  "\<exists>k'. put_all kcfg_write [(''speedStep'', 9), (''sidetone'', 5)] ck_example = Some k' \<and>
     kcfg_get_val k' ''speedStep'' (-1) = Some 9 \<and> kcfg_get_val k' ''sidetone'' (-1) = Some 5"
proof -
  have f: "find (\<lambda>c. strcaseeq ''speedStep'' (ki_key c)) (kc_citem ck_example) = Some (KITEM ''speedStep'' 5 7 4 2)"
    "find (\<lambda>c. strcaseeq ''sidetone'' (ki_key c)) (kc_citem ck_example) = Some (KITEM ''sideTone'' 5 2 3 0)"
    by (simp_all add: ck_example_def c_base_def key_eval)
  have "\<forall>(key, v) \<in> set [(''speedStep'', 9), (''sidetone'', 5)]. kcfg_fits (kc_citem ck_example) key v"
    by (simp add: kcfg_fits_def f enforced_keys_def)
  moreover have "all_apart (kcfg_apart (kc_citem ck_example)) (map fst [(''speedStep'', 9 :: int), (''sidetone'', 5)])"
    by (simp add: kcfg_apart_def f items_apart_def ci_first_def ci_byte_def ci_shift_def multibyte_def)
  ultimately show ?thesis
    using kcfg_settings_kept [OF ck_example_for, of "[(''speedStep'', 9), (''sidetone'', 5)]"] by auto
qed

section \<open>What the MK family is sent\<close>

text \<open>An audio state is two bits of the byte; 0 is the state D.\<close>

definition audio_state :: "nat \<Rightarrow> byte \<Rightarrow> byte" where
  "audio_state sh x = drop_bit sh x AND 3"

lemma bit_3: "bit (3 :: int) j \<longleftrightarrow> j < 2" "bit (3 :: nat) j \<longleftrightarrow> j < 2"
proof -
  have "(3 :: int) = mask 2" "(3 :: nat) = mask 2" by (simp_all add: mask_eq_exp_minus_1)
  then show "bit (3 :: int) j \<longleftrightarrow> j < 2" "bit (3 :: nat) j \<longleftrightarrow> j < 2" by (simp_all only: bit_mask_iff possible_bit_def) simp_all
qed

lemma bit_audio_state: "bit (audio_state sh x) j \<longleftrightarrow> j < 2 \<and> bit x (sh + j)"
  by (auto simp: audio_state_def bit_and_iff bit_drop_bit_eq bit_3)

lemma audio_state_0: "sh \<le> 6 \<Longrightarrow> x AND push_bit sh 3 = 0 \<longleftrightarrow> audio_state sh x = 0"
proof -
  assume sh: "sh \<le> 6"
  have "x AND push_bit sh 3 = push_bit sh (audio_state sh x)"
    by (rule bit_word_eqI) (auto simp: bit_and_iff bit_push_bit_iff bit_3 bit_audio_state)
  moreover have "push_bit sh (audio_state sh x) = 0 \<longleftrightarrow> audio_state sh x = 0"
  proof
    assume z: "push_bit sh (audio_state sh x) = 0"
    show "audio_state sh x = 0"
    proof (rule bit_word_eqI)
      fix j
      have "bit (push_bit sh (audio_state sh x)) (sh + j) = (sh + j < 8 \<and> bit (audio_state sh x) j)" by (simp add: bit_push_bit_iff)
      with z sh show "bit (audio_state sh x) j = bit 0 j" by (auto simp: bit_audio_state)
    qed
  qed simp
  ultimately show ?thesis by simp
qed

text \<open>One step of the loop: its own state is fixed, nothing else changes.\<close>

definition fix_step :: "byte \<Rightarrow> nat \<Rightarrow> byte \<Rightarrow> byte" where
  "fix_step d sh x = (if x AND push_bit sh 3 = 0 then x OR (d AND push_bit sh 3) else x)"

lemma bit_fix_step:
  "sh \<le> 6 \<Longrightarrow> bit (fix_step d sh x) j = (if sh \<le> j \<and> j < sh + 2 \<and> audio_state sh x = 0 then j < 8 \<and> bit d j else bit x j)"
proof -
  assume sh: "sh \<le> 6"
  have "\<not> bit x j" if "audio_state sh x = 0" "sh \<le> j" "j < sh + 2"
  proof -
    have "bit (audio_state sh x) (j - sh) = bit x j" using that(2,3) by (auto simp: bit_audio_state)
    with that(1) show ?thesis by simp
  qed
  moreover have "j < 8" if "bit d j" using that bit_imp_le_length by fastforce
  ultimately show ?thesis using audio_state_0 [OF sh, of x] sh
    by (auto simp: fix_step_def bit_or_iff bit_and_iff bit_push_bit_iff bit_3)
qed

lemma audio_state_same: "sh' + 2 \<le> sh \<or> sh + 2 \<le> sh' \<Longrightarrow> sh \<le> 6 \<Longrightarrow> audio_state sh' (fix_step d sh x) = audio_state sh' x"
  by (rule bit_word_eqI) (auto simp: bit_audio_state bit_fix_step)

lemma audio_state_fixed: "sh \<le> 6 \<Longrightarrow> audio_state sh (fix_step d sh x) = (if audio_state sh x = 0 then audio_state sh d else audio_state sh x)"
  by (rule bit_word_eqI) (auto simp: bit_audio_state bit_fix_step)

lemma fix_audio_step: "fix_audio d (sh # shs) x = fix_audio d shs (fix_step d sh x)"
  by (simp add: fix_step_def)

lemma fix_audio_states:
  "sh \<in> {0, 2, 4} \<Longrightarrow> audio_state sh (fix_audio d [0, 2, 4] x) = (if audio_state sh x = 0 then audio_state sh d else audio_state sh x)"
  unfolding fix_audio_step by (auto simp: audio_state_same audio_state_fixed)

lemma fix_audio_rest: "j \<ge> 6 \<Longrightarrow> bit (fix_audio d [0, 2, 4] x) j = bit x j"
  unfolding fix_audio_step by (auto simp: bit_fix_step)

text \<open>The keyer mode whose settings go out, and the settings after the mode is set for keyers that choose it themselves.\<close>

definition frbase_mode :: "mh_info \<Rightarrow> kcfg \<Rightarrow> int" where
  "frbase_mode mhi k =
     (if mi_type mhi = MHT_MK then the (kcfg_get_val k ''r1KeyerMode'' MOD_DIGITAL)
      else if mi_type mhi = MHT_CK then MOD_CW else MOD_DIGITAL)"

definition frbase_off :: "int \<Rightarrow> nat" where
  "frbase_off mode = (if mode = MOD_CW then MK1_FRBASE_CW else if mode = MOD_VOICE then MK1_FRBASE_VOICE else MK1_FRBASE_DIGITAL)"

definition frbase_dflt :: "int \<Rightarrow> byte" where
  "frbase_dflt mode = mk1_frbase_def (if mode = MOD_CW \<or> mode = MOD_VOICE then mode else MOD_DIGITAL)"

lemma frbase_dflt_set: "sh \<in> {0, 2, 4} \<Longrightarrow> audio_state sh (frbase_dflt mode) \<noteq> 0"
  by (auto simp: frbase_dflt_def mk1_frbase_def_def audio_state_def MODS)

lemma mk_items: "kcfg_for mhi k \<Longrightarrow> is_mk_family mhi \<Longrightarrow>
    kc_citem k = map (\<lambda>c. c\<lparr>ki_off := MK1_FRBASE_DIGITAL\<rparr>) (take 5 c_base) @ drop 5 c_base @ (if mi_type mhi = MHT_MK then c_mk1 else []) \<and>
    length (kc_b k) = 13 \<and> kc_settings_size k = 8"
  by (auto simp: kcfg_for_def kcfg_layout_def is_mk_family_def c_lengths MK1)

lemma find_in_append: "find P (xs @ ys) = (case find P xs of None \<Rightarrow> find P ys | Some x \<Rightarrow> Some x)"
  by (induction xs) auto

lemma mk_find:
  assumes "kcfg_for mhi k" "is_mk_family mhi"
  shows "find_citem k ''r1KeyerMode'' = Some (KITEM ''r1KeyerMode'' 7 6 2 0)"
    and "find_citem k ''r1ForceKeyerMode'' = Some (KITEM ''r1ForceKeyerMode'' 6 0 1 1)"
proof -
  let ?xs = "map (\<lambda>c. c\<lparr>ki_off := MK1_FRBASE_DIGITAL\<rparr>) (take 5 c_base) @ drop 5 c_base"
  have f: "find (\<lambda>c. strcaseeq ''r1KeyerMode'' (ki_key c)) ?xs = Some (KITEM ''r1KeyerMode'' 7 6 2 0)"
    "find (\<lambda>c. strcaseeq ''r1ForceKeyerMode'' (ki_key c)) ?xs = Some (KITEM ''r1ForceKeyerMode'' 6 0 1 1)"
    by code_simp+
  have "find_citem k key = find (\<lambda>c. strcaseeq key (ki_key c)) (?xs @ (if mi_type mhi = MHT_MK then c_mk1 else []))" for key
    using mk_items [OF assms] kcfg_for_num [OF assms(1)] by (simp add: find_citem_def)
  then have "find_citem k key = (case find (\<lambda>c. strcaseeq key (ki_key c)) ?xs of
      None \<Rightarrow> find (\<lambda>c. strcaseeq key (ki_key c)) (if mi_type mhi = MHT_MK then c_mk1 else []) | Some x \<Rightarrow> Some x)" for key
    by (simp only: find_in_append [of _ ?xs])
  with f show "find_citem k ''r1KeyerMode'' = Some (KITEM ''r1KeyerMode'' 7 6 2 0)"
    "find_citem k ''r1ForceKeyerMode'' = Some (KITEM ''r1ForceKeyerMode'' 6 0 1 1)"
    by (simp_all only: option.case)
qed

lemma raw_frame: "(\<forall>i < length b. i \<noteq> 0 \<longrightarrow> i \<noteq> 2 \<longrightarrow> b' ! i = b ! i) \<Longrightarrow> kitem_ok (length b) c \<Longrightarrow> ki_idx c \<noteq> 0 \<Longrightarrow> ki_idx c \<noteq> 2 \<Longrightarrow>
  raw (to_citem c) b' = raw (to_citem c) b"
proof (rule raw_eqI)
  fix j
  assume a: "\<forall>i < length b. i \<noteq> 0 \<longrightarrow> i \<noteq> 2 \<longrightarrow> b' ! i = b ! i" "kitem_ok (length b) c" "ki_idx c \<noteq> 0" "ki_idx c \<noteq> 2" "j < ci_width (to_citem c)"
  note K = kitem_item [OF a(2)]
  have "ci_shift (to_citem c) + j < 8" using single_ok [OF K(2,1)] a(5) by linarith
  then have "buf_bit x (ci_first (to_citem c) + j) = bit (x ! ki_idx c) (ci_shift (to_citem c) + j)" for x
    using buf_bit_at [of "ci_shift (to_citem c) + j" x "ki_idx c"] by (simp add: ci_first_def K(5) add.assoc)
  with a K(4) show "buf_bit b' (ci_first (to_citem c) + j) = buf_bit b (ci_first (to_citem c) + j)" by simp
qed

text \<open>The settings that \<open>mk1_set_frbase\<close> starts from.\<close>

lemma frbase_start:
  assumes "kcfg_for mhi k" "is_mk_family mhi"
  obtains kk where "(if mi_type mhi = MHT_MK then map_option (\<lambda>m. (m, k)) (kcfg_get_val k ''r1KeyerMode'' MOD_DIGITAL)
      else let mode = (if mi_type mhi = MHT_CK then MOD_CW else MOD_DIGITAL)
           in map_option (\<lambda>k. (mode, k)) (set_vals [(''r1ForceKeyerMode'', 0), (''r1KeyerMode'', mode)] k)) = Some (frbase_mode mhi k, kk)"
    "kcfg_frame k kk" "\<forall>i. i \<noteq> 6 \<longrightarrow> i \<noteq> 7 \<longrightarrow> kc_b kk ! i = kc_b k ! i" "mi_type mhi = MHT_MK \<longrightarrow> kk = k"
    "mi_type mhi \<noteq> MHT_MK \<longrightarrow> kcfg_get_val kk ''r1KeyerMode'' (-1) = Some (frbase_mode mhi k) \<and> kcfg_get_val kk ''r1ForceKeyerMode'' (-1) = Some 0"
proof (cases "mi_type mhi = MHT_MK")
  case True
  with kcfg_get_ok [OF kcfg_for_ok [OF assms(1)] mk_find(1) [OF assms]] that [of k] show ?thesis by (simp add: frbase_mode_def)
next
  case False
  let ?m = "if mi_type mhi = MHT_CK then MOD_CW else MOD_DIGITAL"
  note W = kcfg_for_with [OF assms(1)] and ok = kcfg_for_ok [OF assms(1)]
  let ?f = "KITEM ''r1ForceKeyerMode'' 6 0 1 1" and ?k = "KITEM ''r1KeyerMode'' 7 6 2 0"
  note F = mk_find [OF assms]
  have ne: "''r1KeyerMode'' \<notin> set enforced_keys" "''r1ForceKeyerMode'' \<notin> set enforced_keys" by (simp_all add: enforced_keys_def)
  have m: "0 \<le> ?m" "?m < 2 ^ 2" by (simp_all add: MODS)
  obtain x where x: "kcfg_set_val k ''r1ForceKeyerMode'' 0 = Some (0, k\<lparr>kc_b := (kc_b k)[6 := x]\<rparr>)"
    using kcfg_set_ok [OF ok F(2), of 0] ne by (auto simp: ki_idx_def)
  let ?k1 = "k\<lparr>kc_b := (kc_b k)[6 := x]\<rparr>"
  have fr1: "kcfg_frame k ?k1" by simp
  have ok1: "kcfg_ok ?k1" using ok fr1 kcfg_frame_ok by blast
  have F1: "find_citem ?k1 ''r1KeyerMode'' = Some ?k" "find_citem ?k1 ''r1ForceKeyerMode'' = Some ?f"
    using F find_frame [OF fr1] by simp_all
  obtain y where y: "kcfg_set_val ?k1 ''r1KeyerMode'' ?m = Some (0, ?k1\<lparr>kc_b := (kc_b ?k1)[7 := y]\<rparr>)"
    using kcfg_set_ok [OF ok1 F1(1), of ?m] ne m by (auto simp: ki_idx_def)
  let ?k2 = "?k1\<lparr>kc_b := (kc_b ?k1)[7 := y]\<rparr>"
  have sv: "set_vals [(''r1ForceKeyerMode'', 0), (''r1KeyerMode'', ?m)] k = Some ?k2" using x y by simp
  have pa: "put_all kcfg_write [(''r1ForceKeyerMode'', 0), (''r1KeyerMode'', ?m)] k = Some ?k2" using x y by (simp add: kcfg_write_def)
  have fi: "find (\<lambda>c. strcaseeq ''r1KeyerMode'' (ki_key c)) (kc_citem k) = Some ?k"
    "find (\<lambda>c. strcaseeq ''r1ForceKeyerMode'' (ki_key c)) (kc_citem k) = Some ?f"
    using F kcfg_for_num [OF assms(1)] by (simp_all add: find_citem_def)
  have "\<forall>(key, v) \<in> set [(''r1ForceKeyerMode'', 0), (''r1KeyerMode'', ?m)]. kcfg_fits (kc_citem k) key v"
    using m ne by (simp add: kcfg_fits_def fi)
  moreover have "all_apart (kcfg_apart (kc_citem k)) (map fst [(''r1ForceKeyerMode'', 0), (''r1KeyerMode'', ?m)])"
    by (simp add: kcfg_apart_def fi items_apart_def ci_first_def ci_byte_def ci_shift_def multibyte_def)
  ultimately have rd: "kcfg_get_val ?k2 ''r1KeyerMode'' (-1) = Some ?m \<and> kcfg_get_val ?k2 ''r1ForceKeyerMode'' (-1) = Some 0"
    using keyer.put_all_get [OF W, of "[(''r1ForceKeyerMode'', 0), (''r1KeyerMode'', ?m)]"] pa by (simp add: kcfg_read_def del: put_all.simps)
  show ?thesis by (rule that [of ?k2]) (use False sv rd in \<open>simp_all add: frbase_mode_def kcfg_frame_def Let_def del: set_vals.simps\<close>)
qed

lemma ptt_copy: "bit ((x AND - 97) OR (drop_bit (Suc 0) y AND 96) :: byte) j \<longleftrightarrow> (if j = 5 \<or> j = 6 then bit y (j + 1) else bit x j)"
proof (cases "j < 8")
  case True
  then have "j \<in> {0, 1, 2, 3, 4, 5, 6, 7}" by auto
  then show ?thesis by (auto simp: bit_or_iff bit_and_iff bit_not_iff bit_drop_bit_eq)
next
  case False
  then have "\<not> bit z j" for z :: byte using bit_imp_le_length [of z j] by auto
  with False show ?thesis by auto
qed



section \<open>What the tables and checks let through\<close>

text \<open>Both baud rates of the MK2R are in the table under the name of the first.\<close>

lemma acc_ser2_unknown:
  "filter (\<lambda>c. ki_off c = 48 \<or> ki_off c = 49) c_mk2r = [KITEM ''accSer1BaudRate'' 48 7 8 0x24, KITEM ''accSer1BaudRate'' 49 7 8 0x24]"
  by (simp add: c_mk2r_def)

text \<open>Another case of the letters finds the item and passes the test for the enforced ones; a negative value passes the
  test for the width and reaches the bits beside the item.\<close>

definition two_items :: kcfg where
  "two_items = \<lparr>kc_b = [0], kc_citem = [KITEM ''r1FrBase_Cw.audioTx'' 0 3 2 0, KITEM ''r1FrBase_Cw.ptt1'' 0 6 1 1], kc_num_citems = 2, kc_settings_size = 1\<rparr>"

lemma enforced_by_case:
  "kcfg_set_val two_items ''r1FrBase_Cw.audioTx'' 1 = Some (-2, two_items)"
  "map_option fst (kcfg_set_val two_items ''R1FRBASE_CW.AUDIOTX'' 1) = Some 0"
  by (simp_all add: two_items_def kcfg_set_val_def find_citem_def key_eval enforced_keys_def Let_def ki_idx_def width2mask_def get_byte_def set_byte_def)

lemma negative_setting_clobbers:
  "map_option (\<lambda>(r, k). (r, kc_b k)) (kcfg_set_val two_items ''r1FrBase_Cw.ptt1'' (-1)) = Some (0, [0xc0])"
  by (simp add: two_items_def kcfg_set_val_def find_citem_def key_eval enforced_keys_def Let_def ki_idx_def width2mask_def get_byte_def set_byte_def
        mask_eq_exp_minus_1 not_eq_complement)

end
