(* ===== verification/KeyerTables.thy ===== *)
theory KeyerTables
  imports Citem
begin

text \<open>
  \<^verbatim>\<open>src/mhmk2.c\<close>, \<^verbatim>\<open>src/mhmk2r.c\<close>, \<^verbatim>\<open>src/radiotypes.c\<close>: the items in the state reports of an MK2 and an MK2R and in the
  focus command of an MK2R, over the packed settings of \<open>Citem\<close>, and the table of radios. Log output is left out.
\<close>

section \<open>State reports of the MK2 and MK2R\<close>

definition mpk_items :: "citem list" where
  "mpk_items =
    [CITEM ''lineUpstream'' 0 0 1, CITEM ''micUpstream'' 0 1 1, CITEM ''downstream'' 0 2 1,
     CITEM ''audioCToAForced'' 0 3 1, CITEM ''audioAToCForced'' 0 4 1, CITEM ''frontMicSelected'' 0 5 1,
     CITEM ''sysPwrVoltage'' 1 7 8, CITEM ''steppirVer'' 2 7 8, CITEM ''steppirVerHi'' 3 7 8]"

definition mk2_get_mpk_value :: "byte list \<Rightarrow> string \<Rightarrow> int option" where
  "mk2_get_mpk_value mpk_buffer key = citem_get_value mpk_items (int (length mpk_items)) mpk_buffer 4 key"

definition mok_items :: "citem list" where
  "mok_items =
    [CITEM ''txFocus'' 0 0 1, CITEM ''rxFocus'' 0 1 1, CITEM ''stereoFocus'' 0 2 1, CITEM ''dvkFocus'' 0 3 1,
     CITEM ''earsAuto'' 0 4 1, CITEM ''directControl'' 0 5 1, CITEM ''lptCw'' 0 8 1, CITEM ''lptCw'' 0 9 1,
     CITEM ''lptTxFocusPin'' 0 10 1, CITEM ''lptRxFocusPin'' 0 11 1, CITEM ''lptStereoFocusPin'' 0 12 1,
     CITEM ''focusAuto'' 0 13 1, CITEM ''ears.left.r1Main'' 0 16 1, CITEM ''ears.left.r1Sub'' 0 17 1,
     CITEM ''ears.left.scLeft'' 0 18 1, CITEM ''ears.left.scRight'' 0 19 1, CITEM ''ears.left.r2Main'' 0 20 1,
     CITEM ''ears.left.r2Sub'' 0 21 1, CITEM ''wkTxFocus'' 0 22 1, CITEM ''wkKeyOutFocus'' 0 23 1,
     CITEM ''ears.right.r1Main'' 0 24 1, CITEM ''ears.right.r1Sub'' 0 25 1, CITEM ''ears.right.scLeft'' 0 26 1,
     CITEM ''ears.right.scRight'' 0 27 1, CITEM ''ears.right.r2Main'' 0 28 1, CITEM ''ears.right.r2Sub'' 0 29 1,
     CITEM ''chanFocus'' 0 30 1, CITEM ''lptFsIn'' 0 31 1, CITEM ''a1SteppirVer'' 4 7 8,
     CITEM ''a2SteppirVer'' 5 7 8, CITEM ''a1SteppirVerHi'' 6 7 8, CITEM ''a2SteppirVerHi'' 7 7 8,
     CITEM ''ears.left.flags'' 0 21 6, CITEM ''ears.right.flags'' 0 29 6]"

definition mk2r_hfocus_items :: "citem list" where
  "mk2r_hfocus_items =
    [CITEM ''txFocus'' 0 0 1, CITEM ''rxFocus'' 0 1 1, CITEM ''stereoFocus'' 0 2 1,
     CITEM ''wkControledByApp'' 0 3 1, CITEM ''directControl'' 0 4 1, CITEM ''ears.left.r1Main'' 1 0 1,
     CITEM ''ears.left.r1Sub'' 1 1 1, CITEM ''ears.left.scLeft'' 1 2 1, CITEM ''ears.left.scRight'' 1 3 1,
     CITEM ''ears.left.r2Main'' 1 4 1, CITEM ''ears.left.r2Sub'' 1 5 1, CITEM ''ears.right.r1Main'' 2 0 1,
     CITEM ''ears.right.r1Sub'' 2 1 1, CITEM ''ears.right.scLeft'' 2 2 1, CITEM ''ears.right.scRight'' 2 3 1,
     CITEM ''ears.right.r2Main'' 2 4 1, CITEM ''ears.right.r2Sub'' 2 5 1]"

definition mk2r_get_mok_value :: "byte list \<Rightarrow> string \<Rightarrow> int option" where
  "mk2r_get_mok_value mok_buffer key = citem_get_value mok_items (int (length mok_items)) mok_buffer 8 key"

definition mk2r_set_hfocus_value :: "byte list \<Rightarrow> string \<Rightarrow> int \<Rightarrow> (int \<times> byte list) option" where
  "mk2r_set_hfocus_value hfocus_buffer key value =
     citem_set_value mk2r_hfocus_items (int (length mk2r_hfocus_items)) hfocus_buffer 4 key value"

definition copy_keys :: "string list" where
  "copy_keys =
    [''txFocus'', ''rxFocus'', ''stereoFocus'', ''directControl'', ''ears.left.r1Main'', ''ears.left.r1Sub'',
     ''ears.left.scLeft'', ''ears.left.scRight'', ''ears.left.r2Main'', ''ears.left.r2Sub'', ''ears.right.r1Main'',
     ''ears.right.r1Sub'', ''ears.right.scLeft'', ''ears.right.scRight'', ''ears.right.r2Main'',
     ''ears.right.r2Sub'']"

fun hfocus_loop :: "string list \<Rightarrow> byte list \<Rightarrow> byte list \<Rightarrow> byte list option" where
  "hfocus_loop [] hf mok = Some hf"
| "hfocus_loop (p # ps) hf mok =
     (case mk2r_get_mok_value mok p of
        None \<Rightarrow> None
      | Some v \<Rightarrow> (case mk2r_set_hfocus_value hf p v of None \<Rightarrow> None | Some (_, hf') \<Rightarrow> hfocus_loop ps hf' mok))"

definition mk2r_set_hfocus_from_mok :: "byte list \<Rightarrow> byte list \<Rightarrow> byte list option" where
  "mk2r_set_hfocus_from_mok hfocus_buffer mok_buffer = hfocus_loop copy_keys hfocus_buffer mok_buffer"

section \<open>Radios\<close>

record rig_type =
  rt_key :: byte
  rt_icom_addr :: byte
  rt_name :: string

abbreviation RIG :: "byte \<Rightarrow> byte \<Rightarrow> string \<Rightarrow> rig_type" where
  "RIG k a n \<equiv> \<lparr>rt_key = k, rt_icom_addr = a, rt_name = n\<rparr>"

definition rig_types :: "rig_type list" where
  "rig_types =
    [RIG 0xFE 0x00 ''none'', RIG 0x8F 0x00 ''Apache Labs ANAN 100/200'', RIG 0x44 0x00 ''Elecraft K2'',
     RIG 0x62 0x00 ''Elecraft K3'', RIG 0x75 0x00 ''Elecraft K3 (patched)'',
     RIG 0x7A 0x00 ''Elecraft K3 (patched 2)'', RIG 0x8C 0x00 ''Expert Electronics MB1'',
     RIG 0x8E 0x00 ''Flex 5000'', RIG 0x8D 0x00 ''Flex 6000 series'', RIG 0x82 0x00 ''Hilberling PT8000'',
     RIG 0x12 0x62 ''Icom IC-78'', RIG 0x5D 0x10 ''Icom IC-275E'', RIG 0x77 0x14 ''Icom IC-475'',
     RIG 0x28 0x68 ''Icom IC-703'', RIG 0x02 0x48 ''Icom IC-706'', RIG 0x03 0x4E ''Icom IC-706 MkII'',
     RIG 0x04 0x58 ''Icom IC-706 MkII-G'', RIG 0x24 0x3E ''Icom IC-707'', RIG 0x48 0x5E ''Icom IC-718'',
     RIG 0x05 0x28 ''Icom IC-725'', RIG 0x06 0x30 ''Icom IC-726'', RIG 0x07 0x38 ''Icom IC-728'',
     RIG 0x25 0x3A ''Icom IC-729'', RIG 0x08 0x04 ''Icom IC-735'', RIG 0x09 0x40 ''Icom IC-736'',
     RIG 0x26 0x3C ''Icom IC-737'', RIG 0x27 0x44 ''Icom IC-738'', RIG 0x0A 0x56 ''Icom IC-746'',
     RIG 0x0B 0x66 ''Icom IC-746 Pro'', RIG 0x0C 0x50 ''Icom IC-756'', RIG 0x0D 0x5C ''Icom IC-756 Pro'',
     RIG 0x0E 0x64 ''Icom IC-756 ProII'', RIG 0x4A 0x6E ''Icom IC-756 ProIII'', RIG 0x71 0x2C ''Icom IC-760 Pro'',
     RIG 0x0F 0x1E ''Icom IC-761'', RIG 0x10 0x2C ''Icom IC-765'', RIG 0x11 0x46 ''Icom IC-775'',
     RIG 0x70 0x26 ''Icom IC-780'', RIG 0x13 0x26 ''Icom IC-781'', RIG 0x5A 0x70 ''Icom IC-7000'',
     RIG 0x80 0x88 ''Icom IC-7100'', RIG 0x89 0x88 ''Icom IC-7100 fw v1.10(E4)+'', RIG 0x74 0x76 ''Icom IC-7200'',
     RIG 0x88 0x94 ''Icom IC-7300'', RIG 0x49 0x66 ''Icom IC-7400'', RIG 0x7B 0x80 ''Icom IC-7410'',
     RIG 0x76 0x7A ''Icom IC-7600'', RIG 0x8A 0x7A ''Icom IC-7600 fw v2.00+'', RIG 0x91 0x98 ''Icom IC-7610'',
     RIG 0x73 0x74 ''Icom IC-7700'', RIG 0x8B 0x74 ''Icom IC-7700 fw v2.10+'', RIG 0x4B 0x6A ''Icom IC-7800'',
     RIG 0x85 0x6A ''Icom IC-7800 fw v3.10+'', RIG 0x86 0x8E ''Icom IC-7850'', RIG 0x87 0x8E ''Icom IC-7851'',
     RIG 0x90 0x4C ''Icom IC-821H'', RIG 0x5C 0x60 ''Icom IC-910H'', RIG 0x7C 0x7C ''Icom IC-9100'',
     RIG 0x93 0xA2 ''Icom IC-9700'', RIG 0x5B 0x00 ''JRC JST-145/245'', RIG 0x4C 0x00 ''Kenwood TS 140'',
     RIG 0x15 0x00 ''Kenwood TS 440'', RIG 0x16 0x00 ''Kenwood TS 450'', RIG 0x47 0x00 ''Kenwood TS 480'',
     RIG 0x1A 0x00 ''Kenwood TS 570'', RIG 0x7D 0x00 ''Kenwood TS 590'', RIG 0x4D 0x00 ''Kenwood TS 680'',
     RIG 0x17 0x00 ''Kenwood TS 690'', RIG 0x4E 0x00 ''Kenwood TS 711'', RIG 0x4F 0x00 ''Kenwood TS 790'',
     RIG 0x50 0x00 ''Kenwood TS 811'', RIG 0x18 0x00 ''Kenwood TS 850'', RIG 0x1B 0x00 ''Kenwood TS 870'',
     RIG 0x92 0x00 ''Kenwood TS 890'', RIG 0x51 0x00 ''Kenwood TS 940'', RIG 0x19 0x00 ''Kenwood TS 950'',
     RIG 0x7E 0x00 ''Kenwood TS 990'', RIG 0x1C 0x00 ''Kenwood TS 2000'', RIG 0x38 0x04 ''Ten-Tec OMNI VI'',
     RIG 0x63 0x00 ''Ten-Tec OMNI VII'', RIG 0x66 0x00 ''Ten-Tec OMNI VII (forced 56000 bps)'',
     RIG 0x6F 0x00 ''Ten-Tec OMNI VII (forced 57600 bps)'', RIG 0x42 0x00 ''Ten-Tec ARGONAUT V'',
     RIG 0x41 0x00 ''Ten-Tec JUPITER'', RIG 0x40 0x00 ''Ten-Tec ORION'',
     RIG 0x6E 0x00 ''Ten-Tec ORION (forced 57600 bps)'', RIG 0x5E 0x00 ''Ten-Tec ORION II'',
     RIG 0x5F 0x00 ''Ten-Tec ORION II (forced 56000 bps)'', RIG 0x6D 0x00 ''Ten-Tec ORION II (forced 57600 bps)'',
     RIG 0x64 0x00 ''Yaesu FT-450'', RIG 0x45 0x00 ''Yaesu FT-757GXII'', RIG 0x53 0x00 ''Yaesu FT-767'',
     RIG 0x29 0x00 ''Yaesu FT-817'', RIG 0x43 0x00 ''Yaesu FT-840'', RIG 0x2A 0x00 ''Yaesu FT-847'',
     RIG 0x3D 0x00 ''Yaesu FT-857'', RIG 0x55 0x00 ''Yaesu FT-890'', RIG 0x2B 0x00 ''Yaesu FT-897'',
     RIG 0x3A 0x00 ''Yaesu FT-900'', RIG 0x3B 0x00 ''Yaesu FT-920'', RIG 0x67 0x00 ''Yaesu FT-950'',
     RIG 0x3C 0x00 ''Yaesu FT-990'', RIG 0x84 0x00 ''Yaesu FT-991'', RIG 0x1F 0x00 ''Yaesu FT-1000'',
     RIG 0x20 0x00 ''Yaesu FT-1000D'', RIG 0x21 0x00 ''Yaesu FT-1000MP'', RIG 0x22 0x00 ''Yaesu FT-1000MP MkV'',
     RIG 0x23 0x00 ''Yaesu FT-1000MP MkV Field'', RIG 0x60 0x00 ''Yaesu FT-2000'', RIG 0x72 0x00 ''Yaesu FT-2000D'',
     RIG 0x94 0x00 ''Yaesu FTdx101D'', RIG 0x81 0x00 ''Yaesu FTdx1200'', RIG 0x7F 0x00 ''Yaesu FTdx3000'',
     RIG 0x79 0x00 ''Yaesu FTdx5000'', RIG 0x58 0x00 ''Yaesu FTdx9000D'',
     RIG 0x68 0x00 ''Yaesu FTdx9000D (patched)'', RIG 0x69 0x00 ''Yaesu FTdx9000MP'',
     RIG 0x6A 0x00 ''Yaesu FTdx9000MP (patched)'', RIG 0x6B 0x00 ''Yaesu FTdx9000 Contest'',
     RIG 0x6C 0x00 ''Yaesu FTdx9000 Contest (patched)'', RIG 0x78 0x00 ''Microtelecom PERSEUS'',
     RIG 0x83 0x00 ''TS 2000 compatible SDR'']"

text \<open>The key is an \<^verbatim>\<open>int\<close>, the one in the table a byte. \<open>None\<close> is the index \<open>-1\<close>.\<close>

definition find_by_key :: "int \<Rightarrow> nat option" where
  "find_by_key key = find_index (\<lambda>r. uint (rt_key r) = key) rig_types"

definition rtyp_get_name :: "int \<Rightarrow> string" where
  "rtyp_get_name key = (case find_by_key key of Some idx \<Rightarrow> rt_name (rig_types ! idx) | None \<Rightarrow> ''* Unknown key *'')"

definition rtyp_get_icom_address :: "int \<Rightarrow> byte" where
  "rtyp_get_icom_address key = (case find_by_key key of None \<Rightarrow> 0 | Some idx \<Rightarrow> rt_icom_addr (rig_types ! idx))"

text \<open>No two radios have the same key, so each is found under its own.\<close>

lemma rig_keys_distinct: "distinct (map rt_key rig_types)"
  by (simp add: rig_types_def)

lemma find_index_distinct: "distinct (map f xs) \<Longrightarrow> i < length xs \<Longrightarrow> find_index (\<lambda>x. f x = f (xs ! i)) xs = Some i"
proof (induction xs arbitrary: i)
  case (Cons x xs)
  show ?case
  proof (cases i)
    case (Suc j)
    with Cons have "f x \<noteq> f (xs ! j)" by (metis (no_types) distinct.simps(2) length_Cons list.simps(9) Suc_less_eq nth_map nth_mem length_map)
    with Suc Cons show ?thesis by simp
  qed simp
qed simp

lemma rig_found:
  assumes "i < length rig_types"
  shows "rtyp_get_name (uint (rt_key (rig_types ! i))) = rt_name (rig_types ! i)"
    and "rtyp_get_icom_address (uint (rt_key (rig_types ! i))) = rt_icom_addr (rig_types ! i)"
proof -
  have "find_by_key (uint (rt_key (rig_types ! i))) = Some i"
    using find_index_distinct [OF rig_keys_distinct assms] by (simp add: find_by_key_def word_uint_eq_iff)
  then show "rtyp_get_name (uint (rt_key (rig_types ! i))) = rt_name (rig_types ! i)"
    "rtyp_get_icom_address (uint (rt_key (rig_types ! i))) = rt_icom_addr (rig_types ! i)"
    by (simp_all add: rtyp_get_name_def rtyp_get_icom_address_def)
qed

section \<open>The focus of an MK2R\<close>

lemma mok_ok: "table_ok mok_items 8"
  by (simp add: mok_items_def table_ok_def item_ok_def multibyte_def CITEM_def)

lemma hfocus_ok: "table_ok mk2r_hfocus_items 4"
  by (simp add: mk2r_hfocus_items_def table_ok_def item_ok_def multibyte_def CITEM_def)

lemma copy_find:
  "key \<in> set copy_keys \<Longrightarrow>
   (\<exists>c. find (\<lambda>c. key = ci_key c) mok_items = Some c \<and> ci_width c = 1 \<and> ci_conv_out c = None) \<and>
   (\<exists>c. find (\<lambda>c. key = ci_key c) mk2r_hfocus_items = Some c \<and> ci_width c = 1 \<and> ci_conv_in c = None \<and> ci_conv_out c = None)"
  by (auto simp: copy_keys_def mok_items_def mk2r_hfocus_items_def CITEM_def)

lemma raw_bounds: "0 \<le> raw c b \<and> raw c b < 2 ^ ci_width c"
proof -
  have "take_bit (ci_width c) (raw c b) = raw c b" by (rule bit_eqI) (auto simp: bit_take_bit_iff bit_raw)
  then show ?thesis by (metis take_bit_int_less_exp take_bit_nonnegative)
qed

lemma mok_value: "length mok = 8 \<Longrightarrow> key \<in> set copy_keys \<Longrightarrow> \<exists>v. mk2r_get_mok_value mok key = Some v \<and> 0 \<le> v \<and> v < 2"
proof -
  assume l: "length mok = 8" and k: "key \<in> set copy_keys"
  obtain c where c: "find (\<lambda>c. key = ci_key c) mok_items = Some c" "ci_width c = 1" "ci_conv_out c = None" using copy_find [OF k] by blast
  have "citem_find mok_items (int (length mok_items)) key = Some c" using table_find [OF mok_ok] c by simp
  from get_value_ok [OF this, of mok] table_item [OF mok_ok c(1)] l c raw_bounds [of c mok] show ?thesis
    by (simp add: mk2r_get_mok_value_def conv_def)
qed

text \<open>In a table in order, different keys have items of their own.\<close>

lemma table_apart:
  assumes "sorted_wrt (\<lambda>c d. ci_first c + ci_width c \<le> ci_first d) citems" "k \<noteq> j"
  shows "keys_apart citems k j"
proof -
  have "items_apart c d" if "c \<in> set citems" "d \<in> set citems" "c \<noteq> d" for c d
    using that assms(1) by (induction citems) (auto simp: items_apart_def)
  moreover have "ci_key c = k \<and> c \<in> set citems" if "find (\<lambda>c. k = ci_key c) citems = Some c" for c k
    using find_SomeD [OF that] by auto
  ultimately show ?thesis using assms(2) unfolding keys_apart_def by (auto split: option.splits) metis
qed

lemma table_all_apart:
  "sorted_wrt (\<lambda>c d. ci_first c + ci_width c \<le> ci_first d) citems \<Longrightarrow> distinct ks \<Longrightarrow> all_apart (keys_apart citems) ks"
  by (induction ks) (auto intro: table_apart)

lemma hfocus_sorted: "sorted_wrt (\<lambda>c d. ci_first c + ci_width c \<le> ci_first d) mk2r_hfocus_items"
  by (simp add: mk2r_hfocus_items_def CITEM_def ci_first_def ci_byte_def ci_shift_def multibyte_def)

lemma copy_apart: "all_apart (keys_apart mk2r_hfocus_items) copy_keys \<and> (\<forall>key \<in> set copy_keys. keys_apart mk2r_hfocus_items key ''wkControledByApp'')"
proof -
  have "distinct copy_keys" "''wkControledByApp'' \<notin> set copy_keys" by (simp_all add: copy_keys_def)
  then show ?thesis using table_all_apart [OF hfocus_sorted] table_apart [OF hfocus_sorted] by metis
qed

lemma hfocus_put_all:
  "length mok = 8 \<Longrightarrow> set ps \<subseteq> set copy_keys \<Longrightarrow> table_ok mk2r_hfocus_items (length hf) \<Longrightarrow> length hf = 4 \<Longrightarrow>
   \<exists>hf'. hfocus_loop ps hf mok = Some hf' \<and> length hf' = 4 \<and>
     put_all (table_put mk2r_hfocus_items) (map (\<lambda>p. (p, the (mk2r_get_mok_value mok p))) ps) hf = Some hf'"
proof (induction ps arbitrary: hf)
  case (Cons p ps)
  then obtain v where v: "mk2r_get_mok_value mok p = Some v" "0 \<le> v" "v < 2" using mok_value by force
  obtain c where c: "find (\<lambda>c. p = ci_key c) mk2r_hfocus_items = Some c" "ci_width c = 1" "ci_conv_in c = None" using copy_find [of p] Cons.prems by auto
  have "citem_find mk2r_hfocus_items (int (length mk2r_hfocus_items)) p = Some c" using table_find [OF Cons.prems(3)] c by simp
  from set_ok [OF this table_item [OF Cons.prems(3) c(1)], of v] v c
  obtain hf1 where h: "citem_set_value mk2r_hfocus_items (int (length mk2r_hfocus_items)) hf 4 p v = Some (0, hf1)" "length hf1 = length hf"
    using Cons.prems(4) by (auto simp: fits_item_def conv_def item_written_def)
  with Cons v show ?case by (simp add: mk2r_set_hfocus_value_def table_put_def)
qed simp



text \<open>Two bits of the report have the same name in the table, so the second can not be read.\<close>

lemma lpt_cw_twice: "filter (\<lambda>c. ci_base_bit c = 8 \<or> ci_base_bit c = 9) mok_items = [CITEM ''lptCw'' 0 8 1, CITEM ''lptCw'' 0 9 1]"
  by (simp add: mok_items_def CITEM_def)

end
