(* ===== verification/Control.thy ===== *)
theory Control
  imports Kcfg KeyerTables RouterFlow CatState
begin

text \<open>
  \<^verbatim>\<open>src/mhcontrol.c\<close>, \<^verbatim>\<open>src/mhcontrol.h\<close>: the control of a keyer. Commands to the keyer go through a queue
  with one command under way at a time; answers, timeouts and disconnection complete them. Here:
  the state, the queue, the commands and the settings. \<open>ControlRun\<close> has the state machine that
  initialises the keyer, the handlers and the radio information.

  The lists of the C code are HOL lists, timers are flags, \<^verbatim>\<open>ev_now\<close> is a field. A completion
  callback is a constructor; those of other modules are \<open>CbClient\<close> with a number, and what such
  a module calls from inside its callback is a parameter (\<open>react\<close>). Callbacks without a result
  and events on the bus are entries of a log. \<open>ct_fault\<close> is set where the C program has no defined
  result (a \<^verbatim>\<open>NULL\<close> pointer, a read outside the data, a float too large for \<^verbatim>\<open>int\<close>); the
  state means nothing from then on. Log output is left out, and so is code under \<^verbatim>\<open>#if 0\<close>.
\<close>

section \<open>Results, states, callbacks\<close>

datatype cmd_result = CMD_RESULT_OK | CMD_RESULT_ERROR | CMD_RESULT_TIMEOUT | CMD_RESULT_NOT_SUPPORTED | CMD_RESULT_OFFLINE

datatype keyer_state =
    MHC_KEYER_STATE_UNKNOWN
  | MHC_KEYER_STATE_DISABLED
  | MHC_KEYER_STATE_OFFLINE
  | MHC_KEYER_STATE_DISC
  | MHC_KEYER_STATE_ONLINE

datatype ctl_state =
    CTL_STATE_DEVICE_DISABLED
  | CTL_STATE_DEVICE_OFF
  | CTL_STATE_DEVICE_DISC
  | CTL_STATE_INIT
  | CTL_STATE_GET_VERSION
  | CTL_STATE_SET_CHANNELS
  | CTL_STATE_LOAD_CFG
  | CTL_STATE_ON_CONNECT
  | CTL_STATE_OK

datatype completion = CbGeneric | CbInitializer | CbHeartbeat | CbFreq nat | CbMode | CbClient nat

text \<open>Commands of the keyer, by their code; those that the code only names in its \<^verbatim>\<open>enum\<close> are left out.\<close>

abbreviation (input) "MHCMD_SET_CHANNEL_R1 \<equiv> (0x01 :: byte)"
abbreviation (input) "MHCMD_SET_CHANNEL_AUX_R2 \<equiv> (0x02 :: byte)"
abbreviation (input) "MHCMD_SET_CHANNEL_FSK_R1 \<equiv> (0x03 :: byte)"
abbreviation (input) "MHCMD_SET_CHANNEL_FSK_R2 \<equiv> (0x04 :: byte)"
abbreviation (input) "MHCMD_GET_VERSION \<equiv> (0x05 :: byte)"
abbreviation (input) "MHCMD_JUST_RESTARTED \<equiv> (0x07 :: byte)"
abbreviation (input) "MHCMD_SET_SETTINGS \<equiv> (0x09 :: byte)"
abbreviation (input) "MHCMD_SET_KEYER_MODE \<equiv> (0x0a :: byte)"
abbreviation (input) "MHCMD_RECORD_FSK_CW_MSG \<equiv> (0x0c :: byte)"
abbreviation (input) "MHCMD_PLAY_FSK_CW_MSG \<equiv> (0x0d :: byte)"
abbreviation (input) "MHCMD_ABORT_FSK_CW_MSG \<equiv> (0x0e :: byte)"
abbreviation (input) "MHCMD_STORE_CW_FSK_MSG_1 \<equiv> (0x10 :: byte)"
abbreviation (input) "MHCMD_ON_CONNECT \<equiv> (0x1a :: byte)"
abbreviation (input) "MHCMD_CAT_R1_FREQUENCY_INFO \<equiv> (0x1f :: byte)"
abbreviation (input) "MHCMD_STORE_FSK_MSG_1 \<equiv> (0x20 :: byte)"
abbreviation (input) "MHCMD_DVK_REC \<equiv> (0x29 :: byte)"
abbreviation (input) "MHCMD_DVK_PLAY \<equiv> (0x2a :: byte)"
abbreviation (input) "MHCMD_DISPLAY_HOST_STRING_EVENT \<equiv> (0x2b :: byte)"
abbreviation (input) "MHCMD_HOST_FOCUS_CONTROL \<equiv> (0x31 :: byte)"
abbreviation (input) "MHCMD_APPLY_SCENARIO \<equiv> (0x34 :: byte)"
abbreviation (input) "MHCMD_HOST_ACC_OUTPUTS_CONTROL \<equiv> (0x35 :: byte)"
abbreviation (input) "MHCMD_CAT_R2_FREQUENCY_INFO \<equiv> (0x37 :: byte)"
abbreviation (input) "MHCMD_SET_KEYER_MODE_ON_RADIO \<equiv> (0x3b :: byte)"
abbreviation (input) "MHCMD_SET_ANTSW_VALIDITY \<equiv> (0x41 :: byte)"
abbreviation (input) "MHCMD_GET_ANTSW_BLOCK \<equiv> (0x43 :: byte)"
abbreviation (input) "MHCMD_TURN_TO_AZIMUTH \<equiv> (0x49 :: byte)"
abbreviation (input) "MHCMD_SML_STATE \<equiv> (0x76 :: byte)"
abbreviation (input) "MHCMD_USB_RX_OVERFLOW \<equiv> (0x77 :: byte)"
abbreviation (input) "MHCMD_MPK_STATE \<equiv> (0x78 :: byte)"
abbreviation (input) "MHCMD_ACC_STATE \<equiv> (0x79 :: byte)"
abbreviation (input) "MHCMD_MOK_STATE \<equiv> (0x7b :: byte)"
abbreviation (input) "MHCMD_KEYER_MODE \<equiv> (0x7c :: byte)"
abbreviation (input) "MHCMD_ARE_YOU_THERE \<equiv> (0x7e :: byte)"
abbreviation (input) "MHCMD_NOT_SUPPORTED \<equiv> (0x7f :: byte)"
abbreviation (input) "MSB_BIT \<equiv> (0x80 :: byte)"

definition MAX_CMD_LEN :: nat where "MAX_CMD_LEN = 128"
definition MAX_CMD_QUEUE_SIZE :: nat where "MAX_CMD_QUEUE_SIZE = 16"
definition MAX_CW_FSK_MESSAGE_LEN :: nat where "MAX_CW_FSK_MESSAGE_LEN = 50"

record ctl_command =
  cmd_bytes :: "byte list"
  cmd_sent :: bool
  cmd_cb :: completion

record mhc_speed_cfg =
  sp_baud :: rat
  sp_stopbits :: rat
  sp_databits :: int
  sp_rtscts :: int
  sp_rigtype :: int
  sp_icomaddress :: int
  sp_icomsimulateautoinfo :: int
  sp_digitalovervoicerule :: int
  sp_usedecoderifconnected :: int
  sp_dontinterfereusbcontrol :: int

text \<open>A node of the configuration tree (ClearSilver library): what its children read as, a \<^verbatim>\<open>float\<close> or an \<^verbatim>\<open>int\<close>.\<close>

record cfg =
  cfg_float :: "string \<Rightarrow> rat option"
  cfg_int :: "string \<Rightarrow> int option"

definition cfg_get_float_val :: "cfg \<Rightarrow> string \<Rightarrow> rat \<Rightarrow> rat" where
  "cfg_get_float_val cfg key defval = (case cfg_float cfg key of None \<Rightarrow> defval | Some f \<Rightarrow> f)"

definition cfg_get_int_val :: "cfg \<Rightarrow> string \<Rightarrow> int \<Rightarrow> int" where
  "cfg_get_int_val cfg key defval = (case cfg_int cfg key of None \<Rightarrow> defval | Some i \<Rightarrow> i)"

record cw_fsk_message =
  msg_text :: "byte list"
  msg_next_idx :: byte
  msg_delay :: byte

text \<open>What the module tells others: a callback called, an event published, a client's command completed.\<close>

datatype ctl_out =
    OutState nat keyer_state
  | OutEvState keyer_state
  | OutMok nat "byte list"
  | OutAcc nat "byte list"
  | OutMode nat byte byte byte
  | OutEvMode byte byte byte
  | OutEvFlags nat bool bool bool bool
  | OutEvRadio nat bool string radio_info
  | OutDone nat cmd_result "byte list option"

record mhc =
  ct_router :: router
  ct_kcfg :: "kcfg option"
  ct_sm :: bool
  ct_cmds :: "ctl_command list"
  ct_free :: "ctl_command list"
  ct_state_cbs :: "nat list"
  ct_mok_cbs :: "nat list"
  ct_acc_cbs :: "nat list"
  ct_mode_cbs :: "nat list"
  ct_heartbeat :: bool
  ct_cmd_timer :: bool
  ct_mhi :: mh_info
  ct_speed_args :: "channel \<Rightarrow> cfg option"
  ct_speed_params :: "channel \<Rightarrow> mhc_speed_cfg"
  ct_speed_valid :: "channel \<Rightarrow> bool"
  ct_speed_idx :: nat
  ct_radio_info :: "nat \<Rightarrow> radio_info"
  ct_radio_valid :: "nat \<Rightarrow> bool"
  ct_radio_source :: "nat \<Rightarrow> string"
  ct_radio_timer :: "nat \<Rightarrow> bool"
  ct_freq_sent :: "nat \<Rightarrow> bool"
  ct_mode_req :: "nat \<Rightarrow> int"
  ct_mode_req_time :: "nat \<Rightarrow> rat"
  ct_mode_changed :: "nat \<Rightarrow> bool"
  ct_freq_free :: nat
  ct_state :: ctl_state
  ct_keyer_state :: keyer_state
  ct_tracked :: byte
  ct_tracked_r :: "nat \<Rightarrow> byte"
  ct_flag_r1 :: byte
  ct_flag_r2 :: byte
  ct_state_buf :: "byte list"
  ct_acc_state :: "byte list"
  ct_hfocus :: "byte list"
  ct_cw_message :: "nat \<Rightarrow> cw_fsk_message"
  ct_fsk_message :: "nat \<Rightarrow> cw_fsk_message"
  ct_deferred :: "(completion \<times> cmd_result) list"
  ct_now :: rat
  ct_log :: "ctl_out list"
  ct_fault :: bool

definition ct_out :: "ctl_out list \<Rightarrow> mhc \<Rightarrow> mhc" where
  "ct_out os c = c\<lparr>ct_log := ct_log c @ os\<rparr>"

definition fault :: "mhc \<Rightarrow> mhc" where
  "fault c = c\<lparr>ct_fault := True\<rparr>"

definition is_connected :: "mhc \<Rightarrow> bool" where
  "is_connected c \<longleftrightarrow> ct_state c \<noteq> CTL_STATE_DEVICE_DISC \<and> ct_state c \<noteq> CTL_STATE_DEVICE_OFF"

definition mhc_is_online :: "mhc \<Rightarrow> bool" where
  "mhc_is_online c \<longleftrightarrow> ct_state c = CTL_STATE_OK"

definition mhc_is_connected :: "mhc \<Rightarrow> bool" where
  "mhc_is_connected c \<longleftrightarrow> ct_state c \<noteq> CTL_STATE_DEVICE_DISC"

section \<open>The command queue\<close>

definition defer_callback :: "completion option \<Rightarrow> cmd_result \<Rightarrow> mhc \<Rightarrow> mhc" where
  "defer_callback cb result c = (case cb of None \<Rightarrow> c | Some f \<Rightarrow> c\<lparr>ct_deferred := ct_deferred c @ [(f, result)]\<rparr>)"

text \<open>
  One round of the loop of \<^verbatim>\<open>push_cmds\<close>, for a first command not yet sent: whether it was accepted,
  and the state. The result of \<^verbatim>\<open>push_cmds\<close> is not used by its callers.
\<close>

definition send_cmd :: "ctl_command \<Rightarrow> mhc \<Rightarrow> bool \<times> mhc" where
  "send_cmd cm c =
     (let (r, rt) = mhr_send_in (ct_router c) (cmd_bytes cm) MH_CHANNEL_CONTROL;
          c = c\<lparr>ct_router := rt\<rparr>
      in if r = int (length (cmd_bytes cm)) then
           (True, c\<lparr>ct_cmd_timer := True, ct_cmds := cm\<lparr>cmd_sent := True\<rparr> # tl (ct_cmds c)\<rparr>)
         else
           let c = defer_callback (Some (cmd_cb cm)) CMD_RESULT_ERROR (c\<lparr>ct_cmds := tl (ct_cmds c)\<rparr>)
           in (False, c\<lparr>ct_free := ct_free c @ [cm]\<rparr>))"

lemma send_cmd_shorter: "send_cmd cm c = (False, c') \<Longrightarrow> ct_cmds c' = tl (ct_cmds c)"
  by (auto simp: send_cmd_def defer_callback_def Let_def split: prod.splits if_splits)

function push_cmds :: "mhc \<Rightarrow> mhc" where
  "push_cmds c =
     (case ct_cmds c of
        [] \<Rightarrow> c
      | cm # _ \<Rightarrow>
          if cmd_sent cm then c
          else (case send_cmd cm c of (sent, c') \<Rightarrow> if sent then c' else push_cmds c'))"
  by pat_completeness auto
termination
  by (relation "measure (\<lambda>c. length (ct_cmds c))") (auto dest!: send_cmd_shorter [OF sym])

declare push_cmds.simps [simp del]

text \<open>The command is built in a buffer of 4096 bytes, which no builder below comes near.\<close>

definition submit_cmd :: "byte list \<Rightarrow> completion option \<Rightarrow> mhc \<Rightarrow> mhc" where
  "submit_cmd b cb c =
     (if b \<noteq> [] \<and> b ! 0 \<noteq> MHCMD_ARE_YOU_THERE \<and> \<not> is_connected c then defer_callback cb CMD_RESULT_OFFLINE c
      else if length b > MAX_CMD_LEN then defer_callback cb CMD_RESULT_ERROR c
      else if length (ct_cmds c) > MAX_CMD_QUEUE_SIZE then defer_callback cb CMD_RESULT_ERROR c
      else
        let cm = \<lparr>cmd_bytes = b, cmd_sent = False, cmd_cb = (case cb of None \<Rightarrow> CbGeneric | Some f \<Rightarrow> f)\<rparr>
        in push_cmds (c\<lparr>ct_free := tl (ct_free c), ct_cmds := ct_cmds c @ [cm]\<rparr>))"

definition submit_cmd_simple :: "byte \<Rightarrow> completion option \<Rightarrow> mhc \<Rightarrow> mhc" where
  "submit_cmd_simple cm cb c = submit_cmd [cm, cm OR MSB_BIT] cb c"

section \<open>Commands\<close>

definition mhc_set_mode :: "int \<Rightarrow> completion option \<Rightarrow> mhc \<Rightarrow> mhc" where
  "mhc_set_mode mode cb c = submit_cmd [MHCMD_SET_KEYER_MODE, word_of_int mode, MHCMD_SET_KEYER_MODE OR MSB_BIT] cb c"

definition mhc_set_mode_on_radio :: "int \<Rightarrow> byte \<Rightarrow> completion option \<Rightarrow> mhc \<Rightarrow> mhc" where
  "mhc_set_mode_on_radio mode radio cb c =
     submit_cmd [MHCMD_SET_KEYER_MODE_ON_RADIO, radio, word_of_int mode, MHCMD_SET_KEYER_MODE_ON_RADIO OR MSB_BIT] cb c"

definition mhc_load_kopts :: "completion option \<Rightarrow> mhc \<Rightarrow> mhc" where
  "mhc_load_kopts cb c =
     (case ct_kcfg c of
        None \<Rightarrow> fault c
      | Some k \<Rightarrow>
          (case kcfg_get_settings (ct_mhi c) k of
             None \<Rightarrow> fault c
           | Some (sts, k') \<Rightarrow>
               submit_cmd (MHCMD_SET_SETTINGS # sts @ [MHCMD_SET_SETTINGS OR MSB_BIT]) cb (c\<lparr>ct_kcfg := Some k'\<rparr>)))"

definition mhc_mk2r_set_hfocus :: "byte list \<Rightarrow> completion option \<Rightarrow> mhc \<Rightarrow> mhc" where
  "mhc_mk2r_set_hfocus hfocus cb c =
     submit_cmd (MHCMD_HOST_FOCUS_CONTROL # take 8 hfocus @ [MHCMD_HOST_FOCUS_CONTROL OR MSB_BIT]) cb (c\<lparr>ct_hfocus := take 8 hfocus\<rparr>)"

definition mhc_mk2r_set_acc_outputs :: "byte list \<Rightarrow> completion option \<Rightarrow> mhc \<Rightarrow> mhc" where
  "mhc_mk2r_set_acc_outputs acc_outputs cb c =
     submit_cmd (MHCMD_HOST_ACC_OUTPUTS_CONTROL # take 4 acc_outputs @ [MHCMD_HOST_ACC_OUTPUTS_CONTROL OR MSB_BIT]) cb
       (c\<lparr>ct_acc_state := take 2 (ct_acc_state c) @ take 4 acc_outputs @ drop 6 (ct_acc_state c)\<rparr>)"

definition mhc_mk2r_get_acc_outputs :: "mhc \<Rightarrow> byte list" where
  "mhc_mk2r_get_acc_outputs c = take 4 (drop 2 (ct_acc_state c))"

definition mhc_mk2r_set_scenario :: "byte \<Rightarrow> completion option \<Rightarrow> mhc \<Rightarrow> mhc" where
  "mhc_mk2r_set_scenario idx cb c = submit_cmd [MHCMD_APPLY_SCENARIO, idx, MHCMD_APPLY_SCENARIO OR MSB_BIT] cb c"

definition mhc_sm_turn_to_azimuth :: "16 word \<Rightarrow> completion option \<Rightarrow> mhc \<Rightarrow> mhc" where
  "mhc_sm_turn_to_azimuth bearing cb c =
     submit_cmd [MHCMD_TURN_TO_AZIMUTH, ucast bearing, ucast (drop_bit 8 bearing), MHCMD_TURN_TO_AZIMUTH OR MSB_BIT] cb c"

definition mhc_sm_get_antsw_block :: "16 word \<Rightarrow> completion option \<Rightarrow> mhc \<Rightarrow> mhc" where
  "mhc_sm_get_antsw_block offset cb c =
     submit_cmd [MHCMD_GET_ANTSW_BLOCK, ucast offset, ucast (drop_bit 8 offset), MHCMD_GET_ANTSW_BLOCK OR MSB_BIT] cb c"

definition mhc_sm_set_antsw_validity :: "byte \<Rightarrow> completion option \<Rightarrow> mhc \<Rightarrow> mhc" where
  "mhc_sm_set_antsw_validity param cb c = submit_cmd [MHCMD_SET_ANTSW_VALIDITY, param, MHCMD_SET_ANTSW_VALIDITY OR MSB_BIT] cb c"

text \<open>Storing a block goes out with the code of the command that reads one, as in the source.\<close>

definition mhc_sm_store_antsw_block :: "16 word \<Rightarrow> byte list \<Rightarrow> completion option \<Rightarrow> mhc \<Rightarrow> mhc" where
  "mhc_sm_store_antsw_block offset data cb c =
     submit_cmd ([MHCMD_GET_ANTSW_BLOCK, ucast offset, ucast (drop_bit 8 offset)] @ take 32 data @ [MHCMD_GET_ANTSW_BLOCK OR MSB_BIT]) cb c"

definition mhc_record_message :: "byte \<Rightarrow> completion option \<Rightarrow> mhc \<Rightarrow> mhc" where
  "mhc_record_message idx cb c = submit_cmd [MHCMD_RECORD_FSK_CW_MSG, idx - 1, MHCMD_RECORD_FSK_CW_MSG OR MSB_BIT] cb c"

definition mhc_stop_recording :: "completion option \<Rightarrow> mhc \<Rightarrow> mhc" where
  "mhc_stop_recording cb c = submit_cmd [MHCMD_RECORD_FSK_CW_MSG, 0xff, MHCMD_RECORD_FSK_CW_MSG OR MSB_BIT] cb c"

definition mhc_play_message :: "byte \<Rightarrow> completion option \<Rightarrow> mhc \<Rightarrow> mhc" where
  "mhc_play_message idx cb c = submit_cmd [MHCMD_PLAY_FSK_CW_MSG, idx - 1, MHCMD_PLAY_FSK_CW_MSG OR MSB_BIT] cb c"

definition mhc_abort_message :: "completion option \<Rightarrow> mhc \<Rightarrow> mhc" where
  "mhc_abort_message cb c = submit_cmd [MHCMD_ABORT_FSK_CW_MSG, MHCMD_ABORT_FSK_CW_MSG OR MSB_BIT] cb c"

text \<open>
  A text is its characters without the terminating zero. The copy leaves what a longer text had
  behind in the array; the terminating zero is not copied.
\<close>

definition put_message :: "byte list \<Rightarrow> byte \<Rightarrow> byte \<Rightarrow> cw_fsk_message \<Rightarrow> cw_fsk_message" where
  "put_message text next_idx dly m = \<lparr>msg_text = text @ drop (length text) (msg_text m), msg_next_idx = next_idx, msg_delay = dly\<rparr>"

definition mhc_store_cw_message :: "byte \<Rightarrow> byte list \<Rightarrow> byte \<Rightarrow> byte \<Rightarrow> completion option \<Rightarrow> mhc \<Rightarrow> mhc" where
  "mhc_store_cw_message idx text next_idx dly cb c =
     (if length text > MAX_CW_FSK_MESSAGE_LEN then defer_callback cb CMD_RESULT_ERROR c
      else if idx < 1 \<or> idx > 9 then defer_callback cb CMD_RESULT_ERROR c
      else
        let i = unat (idx - 1);
            c = c\<lparr>ct_cw_message := (ct_cw_message c)(i := put_message text next_idx dly (ct_cw_message c i))\<rparr>
        in if \<not> mhc_is_online c then defer_callback cb CMD_RESULT_OK c
           else submit_cmd ([MHCMD_STORE_CW_FSK_MSG_1 + (idx - 1), next_idx, dly] @ text @ [(MHCMD_STORE_CW_FSK_MSG_1 + (idx - 1)) OR MSB_BIT]) cb c)"

definition mhc_store_fsk_message :: "byte \<Rightarrow> byte list \<Rightarrow> byte \<Rightarrow> byte \<Rightarrow> completion option \<Rightarrow> mhc \<Rightarrow> mhc" where
  "mhc_store_fsk_message idx text next_idx dly cb c =
     (if length text > 50 then defer_callback cb CMD_RESULT_ERROR c
      else if idx < 1 \<or> idx > 9 then defer_callback cb CMD_RESULT_ERROR c
      else
        let i = unat (idx - 1);
            c = c\<lparr>ct_fsk_message := (ct_fsk_message c)(i := put_message text next_idx dly (ct_fsk_message c i))\<rparr>
        in if \<not> mhc_is_online c then defer_callback cb CMD_RESULT_OK c
           else submit_cmd ([MHCMD_STORE_FSK_MSG_1 + (idx - 1), next_idx, dly] @ text @ [(MHCMD_STORE_FSK_MSG_1 + (idx - 1)) OR MSB_BIT]) cb c)"

text \<open>The message with the string at its address: up to the first zero.\<close>

definition mhc_get_cw_message :: "byte \<Rightarrow> mhc \<Rightarrow> (byte list \<times> byte \<times> byte) option" where
  "mhc_get_cw_message idx c =
     (if idx < 1 \<or> idx > 9 then None
      else let m = ct_cw_message c (unat (idx - 1)) in Some (takeWhile (\<lambda>x. x \<noteq> 0) (msg_text m), msg_next_idx m, msg_delay m))"

definition mhc_get_fsk_message :: "byte \<Rightarrow> mhc \<Rightarrow> (byte list \<times> byte \<times> byte) option" where
  "mhc_get_fsk_message idx c =
     (if idx < 1 \<or> idx > 9 then None
      else let m = ct_fsk_message c (unat (idx - 1)) in Some (takeWhile (\<lambda>x. x \<noteq> 0) (msg_text m), msg_next_idx m, msg_delay m))"

definition mhc_display_host_string_event :: "byte \<Rightarrow> byte list \<Rightarrow> byte \<Rightarrow> completion option \<Rightarrow> mhc \<Rightarrow> mhc" where
  "mhc_display_host_string_event display_line text disp_time cb c =
     (if \<not> mhi_has (ct_mhi c) MHF_HAS_DISPLAY then defer_callback cb CMD_RESULT_ERROR c
      else
        let len = (if length text > 16 then 16 else length text)
        in submit_cmd ([MHCMD_DISPLAY_HOST_STRING_EVENT, if display_line \<noteq> 0 then 1 else 0] @ take len text @ replicate (16 - len) 32 @
             [0, 0, disp_time, MHCMD_DISPLAY_HOST_STRING_EVENT OR MSB_BIT]) cb c)"

definition mhc_dvk_state :: "bool \<Rightarrow> byte \<Rightarrow> byte \<Rightarrow> byte \<Rightarrow> completion option \<Rightarrow> mhc \<Rightarrow> mhc" where
  "mhc_dvk_state recording msg_idx progress level cb c =
     (if \<not> mhi_has (ct_mhi c) MHF_HAS_DISPLAY \<or> \<not> mhi_has (ct_mhi c) MHF_HAS_FRBASE_VOICE then
        defer_callback cb CMD_RESULT_NOT_SUPPORTED c
      else
        let cm = (if recording then MHCMD_DVK_REC else MHCMD_DVK_PLAY)
        in submit_cmd [cm, msg_idx, progress, level, cm OR MSB_BIT] cb c)"

section \<open>Speeds of the serial channels\<close>

text \<open>
  A C \<^verbatim>\<open>float\<close> is a rational number with 24 significant bits: the nearest one, a tie going to the even
  number. Numbers so large or so small that the exponent is out of its range do not occur for baud rates.
\<close>

fun bit_len :: "nat \<Rightarrow> nat" where
  "bit_len n = (if n = 0 then 0 else Suc (bit_len (n div 2)))"

declare bit_len.simps [simp del]

definition scale2 :: "rat \<Rightarrow> int \<Rightarrow> rat" where
  "scale2 x e = (if 0 \<le> e then x * of_int (2 ^ nat e) else x / of_int (2 ^ nat (- e)))"

definition round_even :: "rat \<Rightarrow> int" where
  "round_even x =
     (let f = \<lfloor>x\<rfloor>; r = x - of_int f
      in if r < 1 / 2 then f else if r > 1 / 2 then f + 1 else if even f then f else f + 1)"

definition fl32_pos :: "rat \<Rightarrow> rat" where
  "fl32_pos x =
     (let (n, d) = quotient_of x;
          e0 = int (bit_len (nat n)) - int (bit_len (nat d)) - 24;
          e = (if scale2 x (- e0) < of_int (2 ^ 24) then e0 else e0 + 1)
      in scale2 (of_int (round_even (scale2 x (- e)))) e)"

definition fl32 :: "rat \<Rightarrow> rat" where
  "fl32 x = (if x = 0 then 0 else if x < 0 then - fl32_pos (- x) else fl32_pos x)"

text \<open>Conversion to \<^verbatim>\<open>int\<close>: towards zero, without a defined result outside the range.\<close>

definition f2i :: "rat \<Rightarrow> int option" where
  "f2i x = (let t = (if x < 0 then - \<lfloor>- x\<rfloor> else \<lfloor>x\<rfloor>) in if - (2 ^ 31) \<le> t \<and> t < 2 ^ 31 then Some t else None)"

text \<open>The divisor base and the command of a channel, and the feature that adds the radio settings.\<close>

definition speed_channel :: "channel \<Rightarrow> (rat \<times> byte \<times> mhf option) option" where
  "speed_channel ch =
     (if ch = MH_CHANNEL_R1 then Some (11059200, MHCMD_SET_CHANNEL_R1, Some MHF_HAS_R1_RADIO_SUPPORT)
      else if ch = MH_CHANNEL_R2 then Some (11059200, MHCMD_SET_CHANNEL_AUX_R2, Some MHF_HAS_R2_RADIO_SUPPORT)
      else if ch = MH_CHANNEL_R1_FSK then Some (2700, MHCMD_SET_CHANNEL_FSK_R1, None)
      else if ch = MH_CHANNEL_R2_FSK then Some (2700, MHCMD_SET_CHANNEL_FSK_R2, None)
      else None)"

text \<open>The bytes after the command, from the values as the code reads them.\<close>

definition speed_flags :: "int \<Rightarrow> byte \<Rightarrow> byte \<Rightarrow> byte" where
  "speed_flags stop rtscts databits =
     word_of_int (push_bit 2 (stop - 1)) OR word_of_int (push_bit 4 (uint rtscts)) OR word_of_int (push_bit 5 (uint databits - 5))"

definition speed_ext :: "int \<Rightarrow> int \<Rightarrow> int \<Rightarrow> int \<Rightarrow> int \<Rightarrow> int \<Rightarrow> byte list" where
  "speed_ext rig addr ai rule dec usb =
     [word_of_int rig, word_of_int addr,
      word_of_int ai OR word_of_int (push_bit 1 rule) OR word_of_int (push_bit 3 dec) OR word_of_int (push_bit 4 usb)]"

text \<open>
  What \<^verbatim>\<open>submit_speed_cmd\<close> and \<^verbatim>\<open>submit_speed_cmd_params\<close> do with the values they have read, from the
  test for a baud rate of zero on: both have the same text from there. \<open>ext\<close> are the bytes for
  the radio. The sum of data and stop bits is the divisor of a float division.
\<close>

definition submit_speed :: "channel \<Rightarrow> rat \<Rightarrow> rat \<Rightarrow> byte \<Rightarrow> byte \<Rightarrow> byte list \<Rightarrow> completion option \<Rightarrow> mhc \<Rightarrow> mhc" where
  "submit_speed ch fbaud stopbits rtscts databits ext cb c =
     (if fbaud = 0 then defer_callback cb CMD_RESULT_ERROR c
      else
        (case speed_channel ch of
           None \<Rightarrow> defer_callback cb CMD_RESULT_ERROR c
         | Some (base, cm, feature) \<Rightarrow>
             (case f2i (fl32 (base / fbaud)) of
                None \<Rightarrow> fault c
              | Some ibaud \<Rightarrow>
                  if databits = 0 then defer_callback cb CMD_RESULT_ERROR c
                  else
                    let bits = fl32 (of_int (uint databits) + stopbits)
                    in if bits = 0 then fault c
                       else
                         (case f2i (if stopbits = 3 / 2 then 3 else stopbits) of
                            None \<Rightarrow> fault c
                          | Some stop \<Rightarrow>
                              let has_ext = (case feature of None \<Rightarrow> False | Some f \<Rightarrow> mhi_has (ct_mhi c) f);
                                  b = [cm, word_of_int ibaud, word_of_int (drop_bit 8 ibaud), speed_flags stop rtscts databits] @
                                      (if has_ext then ext else []) @ [cm OR MSB_BIT]
                              in submit_cmd b cb (c\<lparr>ct_router := mhr_set_bps_limit (ct_router c) ch (fl32 (fbaud / bits))\<rparr>)))))"

definition submit_speed_cmd :: "channel \<Rightarrow> completion option \<Rightarrow> mhc \<Rightarrow> mhc" where
  "submit_speed_cmd ch cb c =
     (if ch < 0 \<or> ch \<ge> MH_NUM_CHANNELS then defer_callback cb CMD_RESULT_ERROR c
      else
        (case ct_speed_args c ch of
           None \<Rightarrow> defer_callback cb CMD_RESULT_ERROR c
         | Some n \<Rightarrow>
             submit_speed ch (fl32 (cfg_get_float_val n ''baud'' (-1))) (fl32 (cfg_get_float_val n ''stopbits'' 1))
               (word_of_int (cfg_get_int_val n ''rtscts'' 0)) (word_of_int (cfg_get_int_val n ''databits'' 8))
               (speed_ext (cfg_get_int_val n ''rigtype'' 0) (cfg_get_int_val n ''icomaddress'' 0) (cfg_get_int_val n ''icomsimulateautoinfo'' 0)
                  (cfg_get_int_val n ''digitalovervoicerule'' 0) (cfg_get_int_val n ''usedecoderifconnected'' 0)
                  (cfg_get_int_val n ''dontinterfereusbcontrol'' 0))
               cb c))"

definition submit_speed_cmd_params :: "channel \<Rightarrow> mhc_speed_cfg \<Rightarrow> completion option \<Rightarrow> mhc \<Rightarrow> mhc" where
  "submit_speed_cmd_params ch n cb c =
     (if ch < 0 \<or> ch \<ge> MH_NUM_CHANNELS then defer_callback cb CMD_RESULT_ERROR c
      else
        submit_speed ch (fl32 (sp_baud n)) (fl32 (sp_stopbits n)) (word_of_int (sp_rtscts n)) (word_of_int (sp_databits n))
          (speed_ext (sp_rigtype n mod 256) (sp_icomaddress n mod 256) (sp_icomsimulateautoinfo n mod 256) (sp_digitalovervoicerule n mod 256)
             (sp_usedecoderifconnected n mod 256) (sp_dontinterfereusbcontrol n mod 256))
          cb c)"

definition speed_params_from_cfg :: "cfg \<Rightarrow> mhc_speed_cfg" where
  "speed_params_from_cfg n =
     \<lparr>sp_baud = cfg_get_float_val n ''baud'' (-1), sp_stopbits = cfg_get_float_val n ''stopbits'' 1,
      sp_databits = cfg_get_int_val n ''databits'' 8, sp_rtscts = cfg_get_int_val n ''rtscts'' 0,
      sp_rigtype = cfg_get_int_val n ''rigtype'' 0, sp_icomaddress = cfg_get_int_val n ''icomaddress'' 0,
      sp_icomsimulateautoinfo = cfg_get_int_val n ''icomsimulateautoinfo'' 0,
      sp_digitalovervoicerule = cfg_get_int_val n ''digitalovervoicerule'' 0,
      sp_usedecoderifconnected = cfg_get_int_val n ''usedecoderifconnected'' 0,
      sp_dontinterfereusbcontrol = cfg_get_int_val n ''dontinterfereusbcontrol'' 0\<rparr>"

text \<open>
  The one caller of \<^verbatim>\<open>mhc_set_speed\<close> has a callback that only stores the result, so its direct call
  while the keyer is not online is an entry of the log.
\<close>

definition mhc_set_speed :: "channel \<Rightarrow> cfg \<Rightarrow> nat option \<Rightarrow> mhc \<Rightarrow> mhc" where
  "mhc_set_speed ch n cb c =
     (if ch < 0 \<or> ch \<ge> MH_NUM_CHANNELS then defer_callback (map_option CbClient cb) CMD_RESULT_ERROR c
      else if cfg_get_float_val n ''baud'' (-1) = -1 then c
      else
        let c = c\<lparr>ct_speed_args := (ct_speed_args c)(ch := Some n), ct_speed_params := (ct_speed_params c)(ch := speed_params_from_cfg n),
                  ct_speed_valid := (ct_speed_valid c)(ch := True)\<rparr>
        in if mhc_is_online c then submit_speed_cmd ch (map_option CbClient cb) c
           else (case cb of None \<Rightarrow> c | Some i \<Rightarrow> ct_out [OutDone i CMD_RESULT_OK (Some [])] c))"

definition mhc_set_speed_params :: "channel \<Rightarrow> mhc_speed_cfg option \<Rightarrow> completion option \<Rightarrow> mhc \<Rightarrow> mhc" where
  "mhc_set_speed_params ch n cb c =
     (case n of
        None \<Rightarrow> defer_callback cb CMD_RESULT_ERROR c
      | Some n \<Rightarrow>
          if ch < 0 \<or> ch \<ge> MH_NUM_CHANNELS then defer_callback cb CMD_RESULT_ERROR c
          else
            let c = c\<lparr>ct_speed_params := (ct_speed_params c)(ch := n), ct_speed_valid := (ct_speed_valid c)(ch := True)\<rparr>
            in if mhc_is_online c then submit_speed_cmd_params ch n cb c else defer_callback cb CMD_RESULT_OK c)"

definition mhc_get_speed_params :: "channel \<Rightarrow> mhc \<Rightarrow> mhc_speed_cfg option" where
  "mhc_get_speed_params ch c =
     (if ch < 0 \<or> ch \<ge> MH_NUM_CHANNELS then None else if \<not> ct_speed_valid c ch then None else Some (ct_speed_params c ch))"

section \<open>Settings\<close>

text \<open>The name is \<open>None\<close> for \<^verbatim>\<open>NULL\<close>. Only \<open>-1\<close> counts as an error of \<^verbatim>\<open>kcfg_set_val\<close>.\<close>

definition mhc_set_kopt :: "string option \<Rightarrow> int \<Rightarrow> mhc \<Rightarrow> int \<times> mhc" where
  "mhc_set_kopt key val c =
     (case key of
        None \<Rightarrow> (-1, c)
      | Some s \<Rightarrow>
          if s = [] then (-1, c)
          else
            (case ct_kcfg c of
               None \<Rightarrow> (-1, c)
             | Some k \<Rightarrow>
                 if mi_type (ct_mhi c) = MHT_UNKNOWN then (-1, c)
                 else
                   (case kcfg_set_val k s val of
                      None \<Rightarrow> (-1, fault c)
                    | Some (r, k') \<Rightarrow> if r = -1 then (-1, c) else (0, c\<lparr>ct_kcfg := Some k'\<rparr>))))"

text \<open>The loop with the iterator, over a callback that takes and returns the state behind its user data.\<close>

function kopts_loop :: "('u \<Rightarrow> string \<Rightarrow> int \<Rightarrow> int \<times> 'u) \<Rightarrow> kcfg \<Rightarrow> int \<Rightarrow> 'u \<Rightarrow> (int \<times> 'u) option" where
  "kopts_loop cb k it u =
     (let (more, it') = kcfg_iter_next (Some k) it
      in if more = 0 then Some (0, u)
         else
           (case kcfg_iter_get k it' of
              None \<Rightarrow> None
            | Some (r, kv) \<Rightarrow>
                (case kv of
                   None \<Rightarrow> Some (-1, u)
                 | Some (key, val) \<Rightarrow>
                     if r \<noteq> 0 then Some (-1, u)
                     else let (e, u') = cb u key val in if e \<noteq> 0 then Some (-1, u') else kopts_loop cb k it' u')))"
  by pat_completeness auto
termination
  by (relation "measure (\<lambda>(cb, k, it, u). nat (int (kc_num_citems k) - it))")
     (auto simp: kcfg_iter_next_def split: if_splits)

declare kopts_loop.simps [simp del]

definition mhc_kopts_foreach :: "('u \<Rightarrow> string \<Rightarrow> int \<Rightarrow> int \<times> 'u) \<Rightarrow> mhc \<Rightarrow> 'u \<Rightarrow> (int \<times> 'u) option" where
  "mhc_kopts_foreach cb c u = (case ct_kcfg c of None \<Rightarrow> Some (-1, u) | Some k \<Rightarrow> kopts_loop cb k kcfg_iter_begin u)"

definition mhc_set_cached_fw_version :: "16 word \<Rightarrow> 16 word \<Rightarrow> int \<Rightarrow> 16 word \<Rightarrow> mhc \<Rightarrow> mhc" where
  "mhc_set_cached_fw_version major minor beta winkey c =
     (if ver_fw_major (ct_mhi c) \<noteq> 0 \<or> ver_fw_minor (ct_mhi c) \<noteq> 0 then c
      else c\<lparr>ct_mhi := (ct_mhi c)\<lparr>ver_fw_major := major, ver_fw_minor := minor, ver_fw_beta := (if beta \<noteq> 0 then 1 else 0), ver_winkey := winkey\<rparr>\<rparr>)"

end
