(* ===== verification/ControlRun.thy ===== *)
theory ControlRun
  imports Control
begin

text \<open>
  \<^verbatim>\<open>src/mhcontrol.c\<close>, second part: radio information, the state machine that initialises a keyer, the
  completion of commands, the handlers of the control and flags channels and of the router's status,
  and the events that drive the module.
\<close>

section \<open>Radio information\<close>

text \<open>
  Frequencies with the masks of their bits: entries of equal frequency are merged into the first of
  them, which leaves a mask of 0 behind. \<open>absorb\<close> is the inner loop.
\<close>

type_synonym freq_entry = "u32 \<times> 16 word"

fun absorb :: "u32 \<Rightarrow> 16 word \<Rightarrow> freq_entry list \<Rightarrow> 16 word \<times> freq_entry list" where
  "absorb f m [] = (m, [])"
| "absorb f m ((g, k) # es) =
     (if k \<noteq> 0 \<and> g = f then (let (m', es') = absorb f (m OR k) es in (m', (g, 0) # es'))
      else (let (m', es') = absorb f m es in (m', (g, k) # es')))"

lemma length_absorb: "absorb f m es = (m', es') \<Longrightarrow> length es' = length es"
  by (induction f m es arbitrary: m' es' rule: absorb.induct) (auto split: if_splits prod.splits)

function merge_freqs :: "freq_entry list \<Rightarrow> freq_entry list" where
  "merge_freqs [] = []"
| "merge_freqs ((f, m) # es) =
     (if m = 0 then (f, m) # merge_freqs es
      else (case absorb f m es of (m', es') \<Rightarrow> (f, m') # merge_freqs es'))"
  by pat_completeness auto
termination
  by (relation "measure length") (auto dest!: length_absorb [OF sym])

definition freq_entries :: "radio_info \<Rightarrow> freq_entry list" where
  "freq_entries info =
     [(ri_rxFreq info, push_bit 0 1), (ri_txFreq info, push_bit 1 1), (ri_operFreq info, push_bit 2 1),
      (ri_vfoAFreq info, push_bit 3 1), (ri_vfoBFreq info, push_bit 4 1)]"

definition freq_cmd :: "byte \<Rightarrow> freq_entry \<Rightarrow> byte list" where
  "freq_cmd cm e =
     (let f = fst e; m = snd e OR push_bit 5 1
      in [cm, ucast f, ucast (drop_bit 8 f), ucast (drop_bit 16 f), ucast (drop_bit 24 f), 0, ucast m, ucast (drop_bit 8 m), cm OR MSB_BIT])"

text \<open>The requests handed to the callback come from a list of free ones, which is its length.\<close>

definition send_freq :: "byte \<Rightarrow> nat \<Rightarrow> freq_entry \<Rightarrow> mhc \<Rightarrow> mhc" where
  "send_freq cm radio e c =
     (if snd e = 0 \<or> fst e = 0 then c
      else submit_cmd (freq_cmd cm e) (Some (CbFreq radio)) (c\<lparr>ct_freq_free := ct_freq_free c - 1\<rparr>))"

definition send_cat_freq_info :: "radio_info \<Rightarrow> nat \<Rightarrow> mhc \<Rightarrow> mhc" where
  "send_cat_freq_info info radio c =
     (if radio < 1 \<or> radio > 2 then c
      else if \<not> mhi_has (ct_mhi c) MHF_HAS_CAT_CMD then c
      else
        let cm = (if radio = 1 then MHCMD_CAT_R1_FREQUENCY_INFO else MHCMD_CAT_R2_FREQUENCY_INFO)
        in fold (send_freq cm radio) (merge_freqs (freq_entries info)) c)"

definition send_cat_freq_info_cb :: "cmd_result \<Rightarrow> nat \<Rightarrow> mhc \<Rightarrow> mhc" where
  "send_cat_freq_info_cb result radio c =
     c\<lparr>ct_freq_sent := (ct_freq_sent c)(radio - 1 := (result = CMD_RESULT_OK)), ct_freq_free := ct_freq_free c + 1\<rparr>"

definition publish_radio_info :: "nat \<Rightarrow> mhc \<Rightarrow> mhc" where
  "publish_radio_info radio c =
     ct_out [OutEvRadio radio (ct_radio_valid c (radio - 1)) (ct_radio_source c (radio - 1)) (ct_radio_info c (radio - 1))] c"

definition force_key :: "nat \<Rightarrow> string" where
  "force_key radio = (if radio = 1 then ''r1ForceKeyerMode'' else ''r2ForceKeyerMode'')"

text \<open>The result says whether a change was made.\<close>

definition set_force_keyer_mode :: "nat \<Rightarrow> int \<Rightarrow> mhc \<Rightarrow> bool \<times> mhc" where
  "set_force_keyer_mode radio enable c =
     (if radio < 1 \<or> radio > 2 \<or> \<not> mhi_has (ct_mhi c) MHF_HAS_KEYER_MODE then (False, c)
      else
        (case ct_kcfg c of
           None \<Rightarrow> (False, fault c)
         | Some k \<Rightarrow>
             (case kcfg_get_val k (force_key radio) 1 of
                None \<Rightarrow> (False, fault c)
              | Some v \<Rightarrow>
                  if v = enable mod 2 then (False, c)
                  else
                    (case kcfg_set_val k (force_key radio) (enable mod 2) of
                       None \<Rightarrow> (False, fault c)
                     | Some (_, k') \<Rightarrow> (True, mhc_load_kopts None (c\<lparr>ct_kcfg := Some k'\<rparr>))))))"

definition freq_changed :: "radio_info \<Rightarrow> radio_info \<Rightarrow> bool" where
  "freq_changed old new \<longleftrightarrow>
     ri_rxFreq old \<noteq> ri_rxFreq new \<or> ri_txFreq old \<noteq> ri_txFreq new \<or> ri_operFreq old \<noteq> ri_operFreq new \<or>
     ri_vfoAFreq old \<noteq> ri_vfoAFreq new \<or> ri_vfoBFreq old \<noteq> ri_vfoBFreq new"

definition keyer_mode_of_radio :: "nat \<Rightarrow> mhc \<Rightarrow> byte" where
  "keyer_mode_of_radio radio c = (if mhi_has (ct_mhi c) MHF_HAS_R2 then ct_tracked_r c (radio - 1) else ct_tracked c)"

definition radio_info_mode_cb :: "cmd_result \<Rightarrow> mhc \<Rightarrow> mhc" where
  "radio_info_mode_cb result c =
     (if result = CMD_RESULT_TIMEOUT \<or> result = CMD_RESULT_OFFLINE \<or> result = CMD_RESULT_ERROR
      then c\<lparr>ct_mode_req := (ct_mode_req c)(0 := -1, 1 := -1)\<rparr> else c)"

text \<open>
  The parts of \<^verbatim>\<open>mhc_update_radio_info\<close>: a keyer without VOICE mode, what counts as new, the request for
  the keyer mode, the frequencies. A source is \<open>None\<close> for \<^verbatim>\<open>NULL\<close>; 16 bytes hold it with its zero.
\<close>

definition map_voice :: "mhc \<Rightarrow> radio_info \<Rightarrow> radio_info" where
  "map_voice c info =
     (if mhi_has (ct_mhi c) MHF_HAS_NO_VOICE_USE_FSK \<and> ri_mode info = MOD_VOICE then info\<lparr>ri_mode := MOD_FSK\<rparr> else info)"

definition src_str :: "string option \<Rightarrow> string" where
  "src_str src = (case src of None \<Rightarrow> [] | Some s \<Rightarrow> s)"

definition radio_info_news :: "string option \<Rightarrow> radio_info \<Rightarrow> nat \<Rightarrow> mhc \<Rightarrow> bool" where
  "radio_info_news src info r c \<longleftrightarrow>
     \<not> ct_radio_valid c r \<or> ri_mode (ct_radio_info c r) \<noteq> ri_mode info \<or> freq_changed (ct_radio_info c r) info \<or>
     take 8 (ri_mode_str (ct_radio_info c r)) \<noteq> take 8 (ri_mode_str info) \<or> take 16 (ct_radio_source c r) \<noteq> take 16 (src_str src)"

definition request_mode :: "bool \<Rightarrow> radio_info \<Rightarrow> nat \<Rightarrow> mhc \<Rightarrow> mhc" where
  "request_mode force_mode_changed info radio c =
     (let r = radio - 1; mode = ri_mode info
      in if mode \<ge> 0 \<and> mode \<le> 3 \<and> mhi_has (ct_mhi c) MHF_HAS_KEYER_MODE \<and>
            (force_mode_changed \<or> mode \<noteq> ct_mode_req c r \<or> (ct_mode_changed c r \<and> mode \<noteq> uint (keyer_mode_of_radio radio c)))
         then
           let c = c\<lparr>ct_mode_req := (ct_mode_req c)(r := mode), ct_mode_req_time := (ct_mode_req_time c)(r := ct_now c),
                     ct_mode_changed := (ct_mode_changed c)(r := False)\<rparr>
           in if mhi_has (ct_mhi c) MHF_HAS_R2 then mhc_set_mode_on_radio mode (word_of_nat radio) (Some CbMode) c
              else mhc_set_mode mode (Some CbMode) c
         else c)"

definition update_freqs :: "radio_info \<Rightarrow> nat \<Rightarrow> mhc \<Rightarrow> mhc" where
  "update_freqs info radio c =
     (if mhi_has (ct_mhi c) MHF_HAS_CAT_CMD \<and> (\<not> ct_freq_sent c (radio - 1) \<or> freq_changed (ct_radio_info c (radio - 1)) info) then
        (if mhc_is_online c then send_cat_freq_info info radio c
         else c\<lparr>ct_freq_sent := (ct_freq_sent c)(radio - 1 := False)\<rparr>)
      else c)"

definition mhc_update_radio_info :: "string option \<Rightarrow> radio_info option \<Rightarrow> mhc \<Rightarrow> mhc" where
  "mhc_update_radio_info src info c =
     (case info of
        None \<Rightarrow> c
      | Some info \<Rightarrow>
          let radio = unat (ri_radio info); r = radio - 1; info = map_voice c info
          in if radio < 1 \<or> radio > 2 then c
             else
               let c1 = c\<lparr>ct_radio_timer := (ct_radio_timer c)(r := True)\<rparr>;
                   (force_mode_changed, c2) = set_force_keyer_mode radio 0 c1;
                   notify = radio_info_news src info r c2;
                   c3 = c2\<lparr>ct_radio_valid := (ct_radio_valid c2)(r := True)\<rparr>;
                   c4 = request_mode force_mode_changed info radio c3;
                   c5 = update_freqs info radio c4;
                   c6 = c5\<lparr>ct_radio_info := (ct_radio_info c5)(r := info), ct_radio_source := (ct_radio_source c5)(r := take 15 (src_str src))\<rparr>
               in if notify then publish_radio_info radio c6 else c6)"

definition mhc_get_radio_info :: "nat \<Rightarrow> mhc \<Rightarrow> (bool \<times> radio_info \<times> string) option" where
  "mhc_get_radio_info radio c =
     (if radio < 1 \<or> radio > 2 then None else Some (ct_radio_valid c (radio - 1), ct_radio_info c (radio - 1), ct_radio_source c (radio - 1)))"

definition radio_info_timeout_cb :: "nat \<Rightarrow> mhc \<Rightarrow> mhc" where
  "radio_info_timeout_cb radio c =
     (let c1 = c\<lparr>ct_radio_valid := (ct_radio_valid c)(radio - 1 := False), ct_radio_timer := (ct_radio_timer c)(radio - 1 := False)\<rparr>;
          c2 = snd (set_force_keyer_mode radio 1 c1)
      in publish_radio_info radio c2)"

section \<open>Calls from other modules\<close>

text \<open>The calls that send a command or change the settings, each with the number of the client's callback.\<close>

datatype api =
    ApiSetSpeedParams channel "mhc_speed_cfg option" "nat option"
  | ApiLoadKopts "nat option"
  | ApiSetHfocus "byte list" "nat option"
  | ApiSetAccOutputs "byte list" "nat option"
  | ApiSetScenario byte "nat option"
  | ApiTurnToAzimuth "16 word" "nat option"
  | ApiGetAntswBlock "16 word" "nat option"
  | ApiSetAntswValidity byte "nat option"
  | ApiStoreAntswBlock "16 word" "byte list" "nat option"
  | ApiRecordMessage byte "nat option"
  | ApiStopRecording "nat option"
  | ApiPlayMessage byte "nat option"
  | ApiAbortMessage "nat option"
  | ApiStoreCw byte "byte list" byte byte "nat option"
  | ApiStoreFsk byte "byte list" byte byte "nat option"
  | ApiDisplay byte "byte list" byte "nat option"
  | ApiDvkState bool byte byte byte "nat option"
  | ApiSetKopt "string option" int
  | ApiRadioInfo "string option" "radio_info option"
  | ApiCachedVersion "16 word" "16 word" int "16 word"

abbreviation client :: "nat option \<Rightarrow> completion option" where
  "client cb \<equiv> map_option CbClient cb"

fun do_api :: "api \<Rightarrow> mhc \<Rightarrow> mhc" where
  "do_api (ApiSetSpeedParams ch n cb) c = mhc_set_speed_params ch n (client cb) c"
| "do_api (ApiLoadKopts cb) c = mhc_load_kopts (client cb) c"
| "do_api (ApiSetHfocus h cb) c = mhc_mk2r_set_hfocus h (client cb) c"
| "do_api (ApiSetAccOutputs a cb) c = mhc_mk2r_set_acc_outputs a (client cb) c"
| "do_api (ApiSetScenario i cb) c = mhc_mk2r_set_scenario i (client cb) c"
| "do_api (ApiTurnToAzimuth a cb) c = mhc_sm_turn_to_azimuth a (client cb) c"
| "do_api (ApiGetAntswBlock a cb) c = mhc_sm_get_antsw_block a (client cb) c"
| "do_api (ApiSetAntswValidity a cb) c = mhc_sm_set_antsw_validity a (client cb) c"
| "do_api (ApiStoreAntswBlock a d cb) c = mhc_sm_store_antsw_block a d (client cb) c"
| "do_api (ApiRecordMessage i cb) c = mhc_record_message i (client cb) c"
| "do_api (ApiStopRecording cb) c = mhc_stop_recording (client cb) c"
| "do_api (ApiPlayMessage i cb) c = mhc_play_message i (client cb) c"
| "do_api (ApiAbortMessage cb) c = mhc_abort_message (client cb) c"
| "do_api (ApiStoreCw i t n d cb) c = mhc_store_cw_message i t n d (client cb) c"
| "do_api (ApiStoreFsk i t n d cb) c = mhc_store_fsk_message i t n d (client cb) c"
| "do_api (ApiDisplay l t d cb) c = mhc_display_host_string_event l t d (client cb) c"
| "do_api (ApiDvkState v i p l cb) c = mhc_dvk_state v i p l (client cb) c"
| "do_api (ApiSetKopt k v) c = snd (mhc_set_kopt k v c)"
| "do_api (ApiRadioInfo s i) c = mhc_update_radio_info s i c"
| "do_api (ApiCachedVersion ma mi b w) c = mhc_set_cached_fw_version ma mi b w c"

text \<open>
  The world outside: what a client calls from inside its completion callback, and what \<^verbatim>\<open>sm_get_antsw\<close>
  of a Station Master calls when the keyer comes online (nothing if the band plan is known).
\<close>

record world =
  react :: "nat \<Rightarrow> cmd_result \<Rightarrow> byte list option \<Rightarrow> api list"
  sm_online :: "api list"

section \<open>State and initialisation\<close>

fun state_to_ext_state :: "ctl_state \<Rightarrow> keyer_state" where
  "state_to_ext_state CTL_STATE_DEVICE_DISABLED = MHC_KEYER_STATE_DISABLED"
| "state_to_ext_state CTL_STATE_DEVICE_OFF = MHC_KEYER_STATE_OFFLINE"
| "state_to_ext_state CTL_STATE_GET_VERSION = MHC_KEYER_STATE_OFFLINE"
| "state_to_ext_state CTL_STATE_INIT = MHC_KEYER_STATE_OFFLINE"
| "state_to_ext_state CTL_STATE_SET_CHANNELS = MHC_KEYER_STATE_OFFLINE"
| "state_to_ext_state CTL_STATE_LOAD_CFG = MHC_KEYER_STATE_OFFLINE"
| "state_to_ext_state CTL_STATE_ON_CONNECT = MHC_KEYER_STATE_OFFLINE"
| "state_to_ext_state CTL_STATE_DEVICE_DISC = MHC_KEYER_STATE_DISC"
| "state_to_ext_state CTL_STATE_OK = MHC_KEYER_STATE_ONLINE"

definition set_state :: "ctl_state \<Rightarrow> mhc \<Rightarrow> mhc" where
  "set_state st c =
     (let c1 = c\<lparr>ct_state := st, ct_heartbeat := (st \<noteq> CTL_STATE_DEVICE_DISC)\<rparr>;
          new = state_to_ext_state st
      in if new \<noteq> ct_keyer_state c1 then
           ct_out (map (\<lambda>u. OutState u new) (ct_state_cbs c1) @ [OutEvState new]) (c1\<lparr>ct_keyer_state := new\<rparr>)
         else c1)"

text \<open>\<^verbatim>\<open>PACKAGE_STRING\<close> as \<^verbatim>\<open>configure.ac\<close> defines it: ''mhuxd 0.90beta''.\<close>

definition PACKAGE_STRING :: "byte list" where
  "PACKAGE_STRING = [0x6d, 0x68, 0x75, 0x78, 0x64, 0x20, 0x30, 0x2e, 0x39, 0x30, 0x62, 0x65, 0x74, 0x61]"

text \<open>The loop over the channels, up to the first with a speed.\<close>

function speed_loop :: "mhc \<Rightarrow> mhc" where
  "speed_loop c =
     (if int (ct_speed_idx c) < MH_NUM_CHANNELS then
        let ch = int (ct_speed_idx c)
        in if ct_speed_args c ch \<noteq> None \<or> ct_speed_valid c ch then
             let c1 = set_state CTL_STATE_SET_CHANNELS c;
                 c2 = (if ct_speed_args c1 ch \<noteq> None then submit_speed_cmd ch (Some CbInitializer) c1
                       else submit_speed_cmd_params ch (ct_speed_params c1 ch) (Some CbInitializer) c1)
             in c2\<lparr>ct_speed_idx := ct_speed_idx c2 + 1\<rparr>
           else speed_loop (c\<lparr>ct_speed_idx := ct_speed_idx c + 1\<rparr>)
      else c)"
  by pat_completeness auto
termination
  by (relation "measure (\<lambda>c. 8 - ct_speed_idx c)") auto

declare speed_loop.simps [simp del]

definition step_channels :: "mhc \<Rightarrow> mhc" where
  "step_channels c =
     (let c1 = speed_loop c
      in if int (ct_speed_idx c1) < MH_NUM_CHANNELS then c1
         else
           let c2 = c1\<lparr>ct_speed_idx := 0\<rparr>
           in (case (case ct_kcfg c2 of Some k \<Rightarrow> Some (Some k) | None \<Rightarrow> kcfg_create (ct_mhi c2)) of
                 None \<Rightarrow> fault c2
               | Some None \<Rightarrow> set_state CTL_STATE_DEVICE_DISABLED c2
               | Some (Some k) \<Rightarrow> set_state CTL_STATE_LOAD_CFG (mhc_load_kopts (Some CbInitializer) (c2\<lparr>ct_kcfg := Some k\<rparr>))))"

definition initializer_step :: "world \<Rightarrow> byte list option \<Rightarrow> mhc \<Rightarrow> mhc" where
  "initializer_step w reply c =
     (case ct_state c of
        CTL_STATE_DEVICE_OFF \<Rightarrow>
          submit_cmd_simple MHCMD_ARE_YOU_THERE (Some CbInitializer)
            (set_state CTL_STATE_INIT (c\<lparr>ct_freq_sent := (ct_freq_sent c)(0 := False, 1 := False), ct_speed_idx := 0\<rparr>))
      | CTL_STATE_INIT \<Rightarrow>
          let c1 = (if mhi_has (ct_mhi c) MHF_HAS_DISPLAY then
                      mhc_display_host_string_event 1 [] 250 None (mhc_display_host_string_event 0 PACKAGE_STRING 250 None c)
                    else c)
          in submit_cmd_simple MHCMD_GET_VERSION (Some CbInitializer) (set_state CTL_STATE_GET_VERSION c1)
      | CTL_STATE_GET_VERSION \<Rightarrow> step_channels (c\<lparr>ct_mhi := snd (mhi_parse_version (ct_mhi c) reply)\<rparr>)
      | CTL_STATE_SET_CHANNELS \<Rightarrow> step_channels c
      | CTL_STATE_LOAD_CFG \<Rightarrow> set_state CTL_STATE_ON_CONNECT (submit_cmd_simple MHCMD_ON_CONNECT (Some CbInitializer) c)
      | CTL_STATE_ON_CONNECT \<Rightarrow>
          let c1 = (if ct_sm c then fold do_api (sm_online w) c else c)
          in set_state CTL_STATE_OK (c1\<lparr>ct_mode_req := (ct_mode_req c1)(0 := -1, 1 := -1)\<rparr>)
      | _ \<Rightarrow> c)"

section \<open>Completions\<close>

definition initializer_cb :: "world \<Rightarrow> cmd_result \<Rightarrow> byte list option \<Rightarrow> mhc \<Rightarrow> mhc" where
  "initializer_cb w result reply c =
     (if ct_state c = CTL_STATE_DEVICE_DISC then c
      else if result \<noteq> CMD_RESULT_OK then
        (if result = CMD_RESULT_ERROR \<and> ct_state c = CTL_STATE_SET_CHANNELS then initializer_step w None c
         else set_state CTL_STATE_DEVICE_OFF c)
      else initializer_step w reply c)"

definition heartbeat_completed_cb :: "world \<Rightarrow> cmd_result \<Rightarrow> mhc \<Rightarrow> mhc" where
  "heartbeat_completed_cb w result c =
     (case result of
        CMD_RESULT_OK \<Rightarrow> if ct_state c = CTL_STATE_DEVICE_OFF then initializer_step w None c else c
      | CMD_RESULT_TIMEOUT \<Rightarrow> if ct_state c = CTL_STATE_OK then set_state CTL_STATE_DEVICE_OFF c else c
      | _ \<Rightarrow> c)"

fun complete :: "world \<Rightarrow> completion \<Rightarrow> cmd_result \<Rightarrow> byte list option \<Rightarrow> mhc \<Rightarrow> mhc" where
  "complete w CbGeneric result reply c = c"
| "complete w CbInitializer result reply c = initializer_cb w result reply c"
| "complete w CbHeartbeat result reply c = heartbeat_completed_cb w result c"
| "complete w (CbFreq radio) result reply c = send_cat_freq_info_cb result radio c"
| "complete w CbMode result reply c = radio_info_mode_cb result c"
| "complete w (CbClient n) result reply c = fold do_api (react w n result reply) (ct_out [OutDone n result reply] c)"

text \<open>The first command is taken from the queue and completed; its node is free after the callback.\<close>

definition complete_head :: "world \<Rightarrow> ctl_command \<Rightarrow> cmd_result \<Rightarrow> byte list option \<Rightarrow> mhc \<Rightarrow> mhc" where
  "complete_head w cm result reply c =
     (let c1 = complete w (cmd_cb cm) result reply (c\<lparr>ct_cmds := tl (ct_cmds c)\<rparr>)
      in c1\<lparr>ct_free := ct_free c1 @ [cm]\<rparr>)"

text \<open>The timer has stopped when its callback is called.\<close>

definition cmd_timeout_cb :: "world \<Rightarrow> mhc \<Rightarrow> mhc" where
  "cmd_timeout_cb w c =
     (let c = c\<lparr>ct_cmd_timer := False\<rparr>
      in case ct_cmds c of
           [] \<Rightarrow> c
         | cm # _ \<Rightarrow> if cmd_sent cm then push_cmds (complete_head w cm CMD_RESULT_TIMEOUT None c) else c)"

text \<open>
  The loop of \<^verbatim>\<open>flush_cmds\<close> runs until the queue is empty, and each round may queue commands again: with
  fuel, one round for each.
\<close>

fun flush_loop :: "nat \<Rightarrow> world \<Rightarrow> cmd_result \<Rightarrow> mhc \<Rightarrow> mhc option" where
  "flush_loop 0 w result c = (if ct_cmds c = [] then Some c else None)"
| "flush_loop (Suc n) w result c =
     (case ct_cmds c of [] \<Rightarrow> Some c | cm # _ \<Rightarrow> flush_loop n w result (complete_head w cm result None c))"

definition flush_cmds :: "nat \<Rightarrow> world \<Rightarrow> cmd_result \<Rightarrow> mhc \<Rightarrow> mhc option" where
  "flush_cmds n w result c = flush_loop n w result (c\<lparr>ct_cmd_timer := False\<rparr>)"

text \<open>One deferred callback; the order in which libev runs them is not fixed.\<close>

definition handle_deferred :: "world \<Rightarrow> nat \<Rightarrow> mhc \<Rightarrow> mhc" where
  "handle_deferred w i c =
     (let (cb, result) = ct_deferred c ! i
      in complete w cb result (Some []) (c\<lparr>ct_deferred := remove_nth i (ct_deferred c)\<rparr>))"

definition heartbeat_cb :: "mhc \<Rightarrow> mhc" where
  "heartbeat_cb c = submit_cmd_simple MHCMD_ARE_YOU_THERE (Some CbHeartbeat) c"

section \<open>Reports of the keyer\<close>

text \<open>The data hold the bytes of the command with its code and the closing byte.\<close>

definition process_keyer_states :: "byte list \<Rightarrow> mhc \<Rightarrow> mhc" where
  "process_keyer_states data c =
     (let ty = mi_type (ct_mhi c); len = length data
      in if data ! 0 = MHCMD_MPK_STATE \<and> (ty = MHT_MK2 \<or> ty = MHT_MK3 \<or> ty = MHT_DK2) then
           (if len \<noteq> 6 then c else c\<lparr>ct_state_buf := take 4 (drop 1 data) @ drop 4 (ct_state_buf c)\<rparr>)
         else if data ! 0 = MHCMD_MOK_STATE \<and> (ty = MHT_MK2R \<or> ty = MHT_MK2Rp) then
           (if len \<noteq> 10 then c
            else
              let c1 = c\<lparr>ct_state_buf := take 8 (drop 1 data) @ drop 8 (ct_state_buf c)\<rparr>
              in (case mk2r_get_mok_value (take 8 (ct_state_buf c1)) ''wkTxFocus'' of
                    None \<Rightarrow> fault c1
                  | Some v \<Rightarrow>
                      ct_out (map (\<lambda>u. OutMok u (take 8 (drop 1 data))) (ct_mok_cbs c1))
                        (c1\<lparr>ct_router := mhr_set_wk_tx_focus (ct_router c1) (word_of_int v)\<rparr>)))
         else if data ! 0 = MHCMD_ACC_STATE \<and> (ty = MHT_MK2R \<or> ty = MHT_MK2Rp) then
           (if len \<noteq> 10 then c
            else
              let c1 = c\<lparr>ct_acc_state := take 8 (drop 1 data)\<rparr>
              in ct_out (map (\<lambda>u. OutAcc u (take 4 (drop 2 (ct_acc_state c1)))) (ct_acc_cbs c1)) c1)
         else if data ! 0 = MHCMD_SML_STATE \<and> (ty = MHT_SM \<or> ty = MHT_SMD) then
           (if len < 11 then c
            else
              let n = (if len - 2 > 13 then 13 else len - 2)
              in c\<lparr>ct_state_buf := take n (drop 1 data) @ replicate (13 - n) 0\<rparr>)
         else c)"

definition KEYER_MODE_ANSWER_TIME :: rat where "KEYER_MODE_ANSWER_TIME = 1"

definition keyer_mode_report :: "byte \<Rightarrow> mhc \<Rightarrow> mhc" where
  "keyer_mode_report f c =
     (let old = ct_tracked c;
          changed = (\<lambda>r. if r < 2 \<and> ct_now c - ct_mode_req_time c r > KEYER_MODE_ANSWER_TIME then True else ct_mode_changed c r);
          cur = f AND 3; rr1 = drop_bit 2 f AND 3; rr2 = drop_bit 4 f AND 3;
          c1 = c\<lparr>ct_tracked := cur, ct_tracked_r := (ct_tracked_r c)(0 := rr1, 1 := rr2), ct_mode_changed := changed\<rparr>;
          c2 = (case ct_kcfg c1 of
                  None \<Rightarrow> c1
                | Some k \<Rightarrow>
                    (case kcfg_update_keyer_mode (ct_mhi c1) cur rr1 rr2 k of
                       None \<Rightarrow> fault c1
                     | Some k' \<Rightarrow> ct_out [OutEvMode cur rr1 rr2] (c1\<lparr>ct_kcfg := Some k'\<rparr>)));
          c3 = (if mi_type (ct_mhi c2) = MHT_MK \<and> old \<noteq> ct_tracked c2 then mhc_load_kopts None c2 else c2)
      in ct_out (map (\<lambda>u. OutMode u cur rr1 rr2) (ct_mode_cbs c3)) c3)"

definition control_report :: "world \<Rightarrow> byte list \<Rightarrow> mhc \<Rightarrow> mhc" where
  "control_report w data c =
     (if data ! 0 \<in> {MHCMD_MPK_STATE, MHCMD_MOK_STATE, MHCMD_ACC_STATE, MHCMD_SML_STATE} then process_keyer_states data c
      else if data ! 0 = MHCMD_KEYER_MODE then (if length data < 2 then fault c else keyer_mode_report (data ! 1) c)
      else if data ! 0 = MHCMD_JUST_RESTARTED then
        (if ct_state c = CTL_STATE_OK then initializer_step w None (set_state CTL_STATE_SET_CHANNELS c) else c)
      else c)"

definition control_channel_cb :: "world \<Rightarrow> byte list \<Rightarrow> mhc \<Rightarrow> mhc" where
  "control_channel_cb w data c =
     (if data = [] then fault c
      else
        let c1 = (case ct_cmds c of
                    [] \<Rightarrow> control_report w data c
                  | cm # _ \<Rightarrow>
                      if cmd_sent cm \<and> data ! 0 = cmd_bytes cm ! 0 then
                        complete_head w cm CMD_RESULT_OK (Some data) (c\<lparr>ct_cmd_timer := False\<rparr>)
                      else if cmd_sent cm \<and> data ! 0 = MHCMD_NOT_SUPPORTED then
                        complete_head w cm CMD_RESULT_NOT_SUPPORTED (Some data) (c\<lparr>ct_cmd_timer := False\<rparr>)
                      else control_report w data c);
            c2 = (if ct_state c1 = CTL_STATE_DEVICE_OFF then initializer_step w None c1 else c1)
        in push_cmds c2)"

abbreviation (input) "MHD2CFL_LOCKOUT \<equiv> (0x02 :: byte)"
abbreviation (input) "MHD2CFL_ANY_PTT \<equiv> (0x04 :: byte)"
abbreviation (input) "MHD2CFL_R2 \<equiv> (0x08 :: byte)"
abbreviation (input) "MHD2CFL_NON_VOX_PTT \<equiv> (0x40 :: byte)"
abbreviation (input) "MHD2CFL_FOOTSWITCH \<equiv> (0x80 :: byte)"

definition published_flags :: byte where
  "published_flags = MHD2CFL_ANY_PTT OR MHD2CFL_FOOTSWITCH OR MHD2CFL_LOCKOUT OR MHD2CFL_NON_VOX_PTT"

definition flags_byte :: "byte \<Rightarrow> mhc \<Rightarrow> mhc" where
  "flags_byte d c =
     (let is_r2 = (d AND MHD2CFL_R2 \<noteq> 0);
          old = (if is_r2 then ct_flag_r2 c else ct_flag_r1 c);
          radio = (if is_r2 then 2 else 1);
          c1 = (if (old XOR d) AND published_flags \<noteq> 0 then
                  ct_out [OutEvFlags radio (d AND MHD2CFL_ANY_PTT \<noteq> 0) (d AND MHD2CFL_FOOTSWITCH \<noteq> 0)
                            (d AND MHD2CFL_LOCKOUT \<noteq> 0) (d AND MHD2CFL_NON_VOX_PTT \<noteq> 0)] c
                else c)
      in if is_r2 then c1\<lparr>ct_flag_r2 := d\<rparr> else c1\<lparr>ct_flag_r1 := d\<rparr>)"

definition flags_cb :: "byte list \<Rightarrow> mhc \<Rightarrow> mhc" where
  "flags_cb data c = fold flags_byte data c"

text \<open>\<open>None\<close> when the fuel of the flush runs out.\<close>

definition router_status_cb :: "nat \<Rightarrow> world \<Rightarrow> status \<Rightarrow> mhc \<Rightarrow> mhc option" where
  "router_status_cb n w st c =
     (case st of
        MHROUTER_CONNECTED \<Rightarrow>
          Some (if ct_state c = CTL_STATE_DEVICE_DISC \<or> ct_state c = CTL_STATE_DEVICE_OFF then
                  initializer_step w None (set_state CTL_STATE_DEVICE_OFF c) else c)
      | MHROUTER_DISCONNECTED \<Rightarrow> flush_cmds n w CMD_RESULT_OFFLINE (set_state CTL_STATE_DEVICE_DISC c))"

end
