(* ===== verification/ControlLoop.thy ===== *)
theory ControlLoop
  imports ControlRun
begin

text \<open>
  \<^verbatim>\<open>src/mhcontrol.c\<close>, third part: creation and destruction, registration of callbacks, the queries, and
  the event loop as a step relation.
\<close>

section \<open>Callbacks\<close>

text \<open>A callback is the number of its node; the one that is registered is told the state at once.\<close>

definition mhc_add_keyer_state_changed_cb :: "nat \<Rightarrow> mhc \<Rightarrow> mhc" where
  "mhc_add_keyer_state_changed_cb u c = ct_out [OutState u (ct_keyer_state c)] (c\<lparr>ct_state_cbs := ct_state_cbs c @ [u]\<rparr>)"

definition mhc_rem_keyer_state_changed_cb :: "nat \<Rightarrow> mhc \<Rightarrow> mhc" where
  "mhc_rem_keyer_state_changed_cb u c = c\<lparr>ct_state_cbs := remove1 u (ct_state_cbs c)\<rparr>"

definition mhc_add_mok_state_changed_cb :: "nat \<Rightarrow> mhc \<Rightarrow> mhc" where
  "mhc_add_mok_state_changed_cb u c =
     (let c1 = c\<lparr>ct_mok_cbs := ct_mok_cbs c @ [u]\<rparr>
      in if mhc_is_online c1 then ct_out [OutMok u (take 8 (ct_state_buf c1))] c1 else c1)"

definition mhc_rem_mok_state_changed_cb :: "nat \<Rightarrow> mhc \<Rightarrow> mhc" where
  "mhc_rem_mok_state_changed_cb u c = c\<lparr>ct_mok_cbs := remove1 u (ct_mok_cbs c)\<rparr>"

text \<open>Here the new callback gets bytes of \<^verbatim>\<open>state_buf\<close>, later reports are of \<^verbatim>\<open>acc_state\<close>.\<close>

definition mhc_add_acc_state_changed_cb :: "nat \<Rightarrow> mhc \<Rightarrow> mhc" where
  "mhc_add_acc_state_changed_cb u c =
     (let c1 = c\<lparr>ct_acc_cbs := ct_acc_cbs c @ [u]\<rparr>
      in if mhc_is_online c1 then ct_out [OutAcc u (take 4 (ct_state_buf c1))] c1 else c1)"

definition mhc_rem_acc_state_changed_cb :: "nat \<Rightarrow> mhc \<Rightarrow> mhc" where
  "mhc_rem_acc_state_changed_cb u c = c\<lparr>ct_acc_cbs := remove1 u (ct_acc_cbs c)\<rparr>"

definition mhc_add_mode_changed_cb :: "nat \<Rightarrow> mhc \<Rightarrow> mhc" where
  "mhc_add_mode_changed_cb u c = c\<lparr>ct_mode_cbs := ct_mode_cbs c @ [u]\<rparr>"

definition mhc_rem_mode_changed_cb :: "nat \<Rightarrow> mhc \<Rightarrow> mhc" where
  "mhc_rem_mode_changed_cb u c = c\<lparr>ct_mode_cbs := remove1 u (ct_mode_cbs c)\<rparr>"

section \<open>Creation and destruction\<close>

text \<open>The state after \<^verbatim>\<open>w_calloc\<close>, with the keyer's description copied in.\<close>

definition no_radio_info :: radio_info where
  "no_radio_info = \<lparr>ri_radio = 0, ri_mode = 0, ri_mode_str = [], ri_rxFreq = 0, ri_txFreq = 0, ri_operFreq = 0, ri_vfoAFreq = 0, ri_vfoBFreq = 0, ri_subRxFreq = 0, ri_subTxFreq = 0\<rparr>"

definition no_speed :: mhc_speed_cfg where
  "no_speed = \<lparr>sp_baud = 0, sp_stopbits = 0, sp_databits = 0, sp_rtscts = 0, sp_rigtype = 0, sp_icomaddress = 0,
     sp_icomsimulateautoinfo = 0, sp_digitalovervoicerule = 0, sp_usedecoderifconnected = 0, sp_dontinterfereusbcontrol = 0\<rparr>"

definition no_message :: cw_fsk_message where
  "no_message = \<lparr>msg_text = replicate (MAX_CW_FSK_MESSAGE_LEN + 1) 0, msg_next_idx = 0, msg_delay = 0\<rparr>"

definition mhc_calloc :: "rat \<Rightarrow> router \<Rightarrow> mh_info \<Rightarrow> mhc" where
  "mhc_calloc now rt mhi =
     \<lparr>ct_router = rt, ct_kcfg = None, ct_sm = False, ct_cmds = [], ct_free = [], ct_state_cbs = [], ct_mok_cbs = [],
      ct_acc_cbs = [], ct_mode_cbs = [], ct_heartbeat = False, ct_cmd_timer = False, ct_mhi = mhi,
      ct_speed_args = (\<lambda>ch. None), ct_speed_params = (\<lambda>ch. no_speed), ct_speed_valid = (\<lambda>ch. False), ct_speed_idx = 0,
      ct_radio_info = (\<lambda>r. no_radio_info), ct_radio_valid = (\<lambda>r. False), ct_radio_source = (\<lambda>r. []),
      ct_radio_timer = (\<lambda>r. False), ct_freq_sent = (\<lambda>r. False), ct_mode_req = (\<lambda>r. 0), ct_mode_req_time = (\<lambda>r. 0),
      ct_mode_changed = (\<lambda>r. False), ct_freq_free = 0, ct_state = CTL_STATE_DEVICE_DISABLED,
      ct_keyer_state = MHC_KEYER_STATE_UNKNOWN, ct_tracked = 0, ct_tracked_r = (\<lambda>r. 0), ct_flag_r1 = 0, ct_flag_r2 = 0,
      ct_state_buf = replicate 13 0, ct_acc_state = replicate 8 0, ct_hfocus = replicate 8 0,
      ct_cw_message = (\<lambda>i. no_message), ct_fsk_message = (\<lambda>i. no_message), ct_deferred = [], ct_now = now, ct_log = [],
      ct_fault = False\<rparr>"

text \<open>
  The callbacks registered with the router: the numbers of the three functions and of the object.
  \<^verbatim>\<open>bps_limits\<close> are the calls of \<^verbatim>\<open>mhr_set_bps_limit\<close>; the values are \<^verbatim>\<open>float\<close>.
\<close>

abbreviation (input) "STATUS_CB \<equiv> (1 :: cb)"
abbreviation (input) "CONTROL_CB \<equiv> (2 :: cb)"
abbreviation (input) "FLAGS_CB \<equiv> (3 :: cb)"

definition bps_limits :: "mh_info \<Rightarrow> (channel \<times> rat) list" where
  "bps_limits mhi =
     (if mhi_has mhi MHF_HAS_R1 then [(MH_CHANNEL_R1, fl32 (9600 / 9)), (CH_PTT1, fl32 (1200 / 9))] else []) @
     (if mhi_has mhi MHF_HAS_R2 then [(MH_CHANNEL_R2, fl32 (9600 / 9)), (CH_PTT2, fl32 (1200 / 9))] else []) @
     (if mhi_has mhi MHF_HAS_FSK1 then [(MH_CHANNEL_R1_FSK, fl32 (455 / 10 / (13 / 2)))] else []) @
     (if mhi_has mhi MHF_HAS_FSK2 then [(MH_CHANNEL_R2_FSK, fl32 (455 / 10 / (13 / 2)))] else []) @
     (if mhi_has mhi MHF_HAS_WINKEY then [(MH_CHANNEL_WINKEY, fl32 (1200 / 9))] else []) @
     [(CH_MCP, fl32 (9600 / 9)), (CH_ROTATOR, fl32 (9600 / 9))]"

definition mhc_create :: "rat \<Rightarrow> user \<Rightarrow> router \<Rightarrow> mh_info \<Rightarrow> mhc" where
  "mhc_create now user rt mhi =
     (let c0 = set_state CTL_STATE_DEVICE_DISC (mhc_calloc now rt mhi);
          c1 = (case kcfg_create mhi of None \<Rightarrow> fault c0 | Some k \<Rightarrow> c0\<lparr>ct_kcfg := k\<rparr>);
          c2 = c1\<lparr>ct_radio_info := (\<lambda>r. if r < 2 then no_radio_info\<lparr>ri_mode := -1\<rparr> else ct_radio_info c1 r), ct_tracked := 0xff,
                  ct_tracked_r := (ct_tracked_r c1)(0 := 0xff, 1 := 0xff), ct_mode_req := (ct_mode_req c1)(0 := -1, 1 := -1)\<rparr>;
          r1 = mhr_add_consumer_cb (mhr_add_status_cb rt (Some STATUS_CB) user) CONTROL_CB MH_CHANNEL_CONTROL user;
          r2 = (if mhi_has mhi MHF_HAS_FLAGS_CHANNEL then mhr_add_consumer_cb r1 FLAGS_CB MH_CHANNEL_FLAGS user else r1);
          r3 = fold (\<lambda>(ch, bps) r. mhr_set_bps_limit r ch bps) (bps_limits mhi) r2
      in c2\<lparr>ct_router := r3, ct_sm := (mi_type mhi = MHT_SM \<or> mi_type mhi = MHT_SMD)\<rparr>)"

text \<open>What \<^verbatim>\<open>mhc_destroy\<close> leaves to others: the router, without the status callback.\<close>

definition mhc_destroy :: "mhc \<Rightarrow> router" where
  "mhc_destroy c = mhr_rem_status_cb (ct_router c) (Some STATUS_CB)"

section \<open>Queries\<close>

fun mhc_state_str :: "keyer_state \<Rightarrow> string" where
  "mhc_state_str MHC_KEYER_STATE_UNKNOWN = ''UNKNOWN''"
| "mhc_state_str MHC_KEYER_STATE_DISABLED = ''DISABLED''"
| "mhc_state_str MHC_KEYER_STATE_OFFLINE = ''OFFLINE''"
| "mhc_state_str MHC_KEYER_STATE_DISC = ''DISCONNECTED''"
| "mhc_state_str MHC_KEYER_STATE_ONLINE = ''ONLINE''"

fun mhc_cmd_err_string :: "cmd_result \<Rightarrow> string" where
  "mhc_cmd_err_string CMD_RESULT_ERROR = ''invalid command result''"
| "mhc_cmd_err_string CMD_RESULT_OK = ''ok''"
| "mhc_cmd_err_string CMD_RESULT_TIMEOUT = ''command timed out''"
| "mhc_cmd_err_string CMD_RESULT_NOT_SUPPORTED = ''command not supported by keyer''"
| "mhc_cmd_err_string CMD_RESULT_OFFLINE = ''keyer offline''"

definition mhc_get_state :: "mhc \<Rightarrow> keyer_state" where
  "mhc_get_state c = ct_keyer_state c"

definition mhc_get_type :: "mhc \<Rightarrow> mh_type" where
  "mhc_get_type c = mi_type (ct_mhi c)"

definition mhc_get_keyer_mode :: "mhc \<Rightarrow> byte" where
  "mhc_get_keyer_mode c = ct_tracked c"

definition mhc_mk2r_get_hfocus :: "mhc \<Rightarrow> byte list" where
  "mhc_mk2r_get_hfocus c = take 8 (ct_hfocus c)"

text \<open>
  A float in a tree is text: written with \<^verbatim>\<open>%g\<close>, which keeps six digits, and read as a \<^verbatim>\<open>float\<close> again.
\<close>

fun dec_len :: "nat \<Rightarrow> nat" where
  "dec_len n = (if n < 10 then 1 else Suc (dec_len (n div 10)))"

declare dec_len.simps [simp del]

definition dec_exp :: "rat \<Rightarrow> int" where
  "dec_exp x = (if x \<ge> 1 then int (dec_len (nat \<lfloor>x\<rfloor>)) - 1 else - int (dec_len (nat (\<lceil>1 / x\<rceil> - 1))))"

definition scale10 :: "rat \<Rightarrow> int \<Rightarrow> rat" where
  "scale10 x e = (if 0 \<le> e then x * of_int (10 ^ nat e) else x / of_int (10 ^ nat (- e)))"

definition six_digits :: "rat \<Rightarrow> rat" where
  "six_digits x = (let s = 5 - dec_exp x in scale10 (of_int (round_even (scale10 x s))) (- s))"

definition cfg_set_float_val :: "rat \<Rightarrow> rat" where
  "cfg_set_float_val x = (let v = fl32 x in fl32 (if v = 0 then 0 else if v < 0 then - six_digits (- v) else six_digits v))"

text \<open>A speed stored as values is turned into a tree once, for clients that read the tree.\<close>

definition speed_cfg_from_params :: "mhc_speed_cfg \<Rightarrow> cfg" where
  "speed_cfg_from_params s =
     \<lparr>cfg_float = map_of [(''baud'', cfg_set_float_val (sp_baud s)), (''stopbits'', cfg_set_float_val (sp_stopbits s))],
      cfg_int = map_of [(''databits'', sp_databits s), (''rtscts'', sp_rtscts s), (''rigtype'', sp_rigtype s),
        (''icomaddress'', sp_icomaddress s), (''icomsimulateautoinfo'', sp_icomsimulateautoinfo s),
        (''digitalovervoicerule'', sp_digitalovervoicerule s), (''usedecoderifconnected'', sp_usedecoderifconnected s),
        (''dontinterfereusbcontrol'', sp_dontinterfereusbcontrol s)]\<rparr>"

definition mhc_get_speed_cfg :: "channel \<Rightarrow> mhc \<Rightarrow> cfg option \<times> mhc" where
  "mhc_get_speed_cfg ch c =
     (if ch < 0 \<or> ch \<ge> MH_NUM_CHANNELS then (None, c)
      else
        let c1 = (if ct_speed_args c ch = None \<and> ct_speed_valid c ch then
                    c\<lparr>ct_speed_args := (ct_speed_args c)(ch := Some (speed_cfg_from_params (ct_speed_params c ch)))\<rparr>
                  else c)
        in (ct_speed_args c1 ch, c1))"

section \<open>The event loop\<close>

datatype ctl_event =
    EvControl "byte list"
  | EvFlags "byte list"
  | EvCmdTimeout
  | EvHeartbeat
  | EvDeferred nat
  | EvRadioTimeout nat
  | EvStatus status
  | EvApi api
  | EvSetSpeed channel cfg "nat option"
  | EvGetSpeed channel
  | EvClock rat
  | EvRouter

text \<open>
  A step is a callback of the router, a timer that runs, a deferred callback, a call from another
  module, the clock, or a step of the router itself. A report of the keyer holds a byte at least.
  The router is shared: what it does between two calls is a step of its own.
\<close>

inductive cstep :: "(cb \<Rightarrow> user \<Rightarrow> buffer \<Rightarrow> buffer) \<Rightarrow> world \<Rightarrow> mhc \<Rightarrow> ctl_event \<Rightarrow> mhc \<Rightarrow> bool" for proc w where
  control: "data \<noteq> [] \<Longrightarrow> cstep proc w c (EvControl data) (control_channel_cb w data c)"
| flags: "cstep proc w c (EvFlags data) (flags_cb data c)"
| cmd_timeout: "ct_cmd_timer c \<Longrightarrow> cstep proc w c EvCmdTimeout (cmd_timeout_cb w c)"
| heartbeat: "ct_heartbeat c \<Longrightarrow> cstep proc w c EvHeartbeat (heartbeat_cb c)"
| deferred: "i < length (ct_deferred c) \<Longrightarrow> cstep proc w c (EvDeferred i) (handle_deferred w i c)"
| radio_timeout: "radio \<in> {1, 2} \<Longrightarrow> ct_radio_timer c (radio - 1) \<Longrightarrow> cstep proc w c (EvRadioTimeout radio) (radio_info_timeout_cb radio c)"
| status: "router_status_cb n w st c = Some c' \<Longrightarrow> cstep proc w c (EvStatus st) c'"
| api: "cstep proc w c (EvApi a) (do_api a c)"
| set_speed: "cstep proc w c (EvSetSpeed ch n cb) (mhc_set_speed ch n cb c)"
| get_speed: "cstep proc w c (EvGetSpeed ch) (snd (mhc_get_speed_cfg ch c))"
| clock: "ct_now c \<le> t \<Longrightarrow> cstep proc w c (EvClock t) (c\<lparr>ct_now := t\<rparr>)"
| router: "rstep proc (ct_router c) r \<Longrightarrow> cstep proc w c EvRouter (c\<lparr>ct_router := r\<rparr>)"

inductive crun :: "(cb \<Rightarrow> user \<Rightarrow> buffer \<Rightarrow> buffer) \<Rightarrow> world \<Rightarrow> mhc \<Rightarrow> ctl_event list \<Rightarrow> mhc \<Rightarrow> bool" for proc w where
  start: "crun proc w c [] c"
| step: "crun proc w c es c' \<Longrightarrow> cstep proc w c' e c'' \<Longrightarrow> crun proc w c (es @ [e]) c''"

end
