(* ===== verification/ControlInv.thy ===== *)
theory ControlInv
  imports ControlLoop
begin

text \<open>
  What every operation of the keyer control keeps: the discipline of the command queue, the books on
  completions, the timers. The relation \<open>flow\<close> says so of two states, \<open>performs\<close> of an operation that does not
  change the state of the keyer; both compose, so that an operation is its sequence of submissions.
\<close>

section \<open>The invariant\<close>

text \<open>A command: a code, its data, and the code with the top bit set.\<close>

definition frame_ok :: "byte list \<Rightarrow> bool" where
  "frame_ok b \<longleftrightarrow> (\<exists>x mid. b = x # mid @ [x OR MSB_BIT] \<and> x < 0x80)"

text \<open>Only the first command may be under way, and the timer runs while it is.\<close>

definition queue_ok :: "mhc \<Rightarrow> bool" where
  "queue_ok c \<longleftrightarrow>
     (\<forall>cm \<in> set (tl (ct_cmds c)). \<not> cmd_sent cm) \<and>
     (ct_cmd_timer c \<longleftrightarrow> ct_cmds c \<noteq> [] \<and> cmd_sent (hd (ct_cmds c))) \<and>
     length (ct_cmds c) \<le> Suc MAX_CMD_QUEUE_SIZE \<and>
     (\<forall>cm \<in> set (ct_cmds c). frame_ok (cmd_bytes cm) \<and> length (cmd_bytes cm) \<le> MAX_CMD_LEN)"

definition busy :: "mhc \<Rightarrow> bool" where
  "busy c \<longleftrightarrow> (ct_cmds c \<noteq> [] \<longrightarrow> cmd_sent (hd (ct_cmds c)))"

definition coherent :: "mhc \<Rightarrow> bool" where
  "coherent c \<longleftrightarrow> ct_keyer_state c = state_to_ext_state (ct_state c) \<and> (ct_heartbeat c \<longleftrightarrow> ct_state c \<noteq> CTL_STATE_DEVICE_DISC)"

definition radio_ok :: "mhc \<Rightarrow> bool" where
  "radio_ok c \<longleftrightarrow> (\<forall>r. ct_radio_valid c r \<longrightarrow> ct_radio_timer c r)"

section \<open>The books on completions\<close>

text \<open>How often a callback is still to be called: commands in the queue and deferred calls. Only those of
  clients are in the log.\<close>

definition owed :: "completion \<Rightarrow> mhc \<Rightarrow> nat" where
  "owed f c = count_list (map cmd_cb (ct_cmds c)) f + count_list (map fst (ct_deferred c)) f"

fun is_done :: "completion \<Rightarrow> ctl_out \<Rightarrow> bool" where
  "is_done (CbClient n) (OutDone m r b) = (m = n)"
| "is_done _ _ = False"

fun reports_done :: "ctl_out \<Rightarrow> bool" where
  "reports_done (OutDone m r b) = True"
| "reports_done _ = False"

definition completed :: "completion \<Rightarrow> mhc \<Rightarrow> nat" where
  "completed f c = length (filter (is_done f) (ct_log c))"

definition settled :: "completion \<Rightarrow> mhc \<Rightarrow> nat" where
  "settled f c = owed f c + completed f c"

fun tracked :: "completion \<Rightarrow> bool" where
  "tracked (CbClient n) = True"
| "tracked CbInitializer = True"
| "tracked _ = False"

lemma completed_init [simp]: "completed CbInitializer c = 0"
  by (simp add: completed_def)

definition flow :: "(cb \<Rightarrow> user \<Rightarrow> buffer \<Rightarrow> buffer) \<Rightarrow> completion list \<Rightarrow> mhc \<Rightarrow> mhc \<Rightarrow> bool" where
  "flow proc fs c c' \<longleftrightarrow>
     (ct_fault c \<longrightarrow> ct_fault c') \<and> (queue_ok c \<longrightarrow> queue_ok c') \<and> (queue_ok c \<longrightarrow> busy c \<longrightarrow> busy c') \<and> (coherent c \<longrightarrow> coherent c') \<and>
     (radio_ok c \<longrightarrow> radio_ok c') \<and> (reachable proc (ct_router c) \<longrightarrow> reachable proc (ct_router c')) \<and>
     (\<not> ct_fault c' \<longrightarrow> (\<forall>f. tracked f \<longrightarrow> settled f c' = settled f c + count_list fs f))"

definition performs :: "(cb \<Rightarrow> user \<Rightarrow> buffer \<Rightarrow> buffer) \<Rightarrow> completion list \<Rightarrow> mhc \<Rightarrow> mhc \<Rightarrow> bool" where
  "performs proc fs c c' \<longleftrightarrow> flow proc fs c c' \<and> ct_state c' = ct_state c \<and> (\<not> is_connected c \<longrightarrow> ct_cmds c' = ct_cmds c) \<and>
     (\<forall>r. ct_radio_timer c r \<longrightarrow> ct_radio_timer c' r)"

lemma flow_refl: "flow proc [] c c"
  by (simp add: flow_def)

lemma performs_refl [simp]: "performs proc [] c c"
  by (simp add: performs_def flow_refl)

lemma flow_trans: "flow proc fs c c' \<Longrightarrow> flow proc gs c' c'' \<Longrightarrow> flow proc (fs @ gs) c c''"
  by (auto simp: flow_def)

lemma performs_flow: "performs proc fs c c' \<Longrightarrow> flow proc fs c c'"
  by (simp add: performs_def)

lemma performs_trans: "performs proc fs c c' \<Longrightarrow> performs proc gs c' c'' \<Longrightarrow> performs proc (fs @ gs) c c''"
  using flow_trans [of proc fs c c' gs c''] by (auto simp: performs_def is_connected_def)

lemma performs_then: "performs proc [] c c' \<Longrightarrow> performs proc gs c' c'' \<Longrightarrow> performs proc gs c c''"
  using performs_trans [of proc "[]"] by simp

lemma performs_before: "performs proc gs c' c'' \<Longrightarrow> performs proc [] c c' \<Longrightarrow> performs proc gs c c''"
  by (rule performs_then)

lemma flow_then: "flow proc [] c c' \<Longrightarrow> flow proc gs c' c'' \<Longrightarrow> flow proc gs c c''"
  using flow_trans [of proc "[]"] by simp

text \<open>Fields that no part of the invariant looks at.\<close>

definition core :: "mhc \<Rightarrow> ctl_command list \<times> bool \<times> (completion \<times> cmd_result) list \<times> ctl_state \<times> keyer_state \<times> bool \<times> router \<times> ctl_out list" where
  "core c = (ct_cmds c, ct_cmd_timer c, ct_deferred c, ct_state c, ct_keyer_state c, ct_heartbeat c, ct_router c, filter reports_done (ct_log c))"

lemma is_done_out: "is_done f x \<Longrightarrow> reports_done x"
  by (cases "(f, x)" rule: is_done.cases) auto

lemma completed_core:
  assumes "filter reports_done l = filter reports_done l'"
  shows "filter (is_done f) l = filter (is_done f) l'"
proof -
  have split: "filter (is_done f) xs = filter (is_done f) (filter reports_done xs)" for xs
    unfolding filter_filter by (rule filter_cong [OF refl]) (auto dest: is_done_out)
  show ?thesis unfolding split [of l] split [of l'] assms ..
qed

lemma performs_core:
  assumes "core c' = core c" "ct_fault c \<longrightarrow> ct_fault c'" "radio_ok c \<longrightarrow> radio_ok c'"
    and timer: "\<forall>r. ct_radio_timer c r \<longrightarrow> ct_radio_timer c' r"
  shows "performs proc [] c c'"
proof -
  have log: "completed f c' = completed f c" for f
    using assms(1) completed_core [of "ct_log c'" "ct_log c" f] by (simp add: core_def completed_def)
  have eq: "ct_cmds c' = ct_cmds c" "ct_cmd_timer c' = ct_cmd_timer c" "ct_deferred c' = ct_deferred c" "ct_state c' = ct_state c"
    "ct_keyer_state c' = ct_keyer_state c" "ct_heartbeat c' = ct_heartbeat c" "ct_router c' = ct_router c"
    using assms(1) by (simp_all add: core_def)
  have "queue_ok c' = queue_ok c" "busy c' = busy c" "coherent c' = coherent c" "settled f c' = settled f c" for f
    by (simp_all add: queue_ok_def busy_def coherent_def settled_def owed_def eq log)
  then show ?thesis using assms(2,3) timer eq by (auto simp: performs_def flow_def)
qed

lemma performs_upd: "core c' = core c \<Longrightarrow> ct_fault c' = ct_fault c \<Longrightarrow> ct_radio_valid c' = ct_radio_valid c \<Longrightarrow>
    ct_radio_timer c' = ct_radio_timer c \<Longrightarrow> performs proc [] c c'"
  by (rule performs_core) (simp_all add: radio_ok_def)

lemma performs_fault [simp]: "performs proc fs c (fault c)"
  by (simp add: performs_def flow_def fault_def queue_ok_def busy_def coherent_def radio_ok_def)

lemma performs_out: "\<forall>x \<in> set os. \<not> reports_done x \<Longrightarrow> performs proc [] c (ct_out os c)"
  by (rule performs_upd) (auto simp: core_def ct_out_def filter_empty_conv)

section \<open>The queue\<close>

definition cbs :: "completion option \<Rightarrow> completion list" where
  "cbs cb = (case cb of None \<Rightarrow> [] | Some f \<Rightarrow> [f])"

lemma cbs_simps [simp]: "cbs None = []" "cbs (Some f) = [f]"
  by (simp_all add: cbs_def)

lemma performs_defer: "performs proc (cbs cb) c (defer_callback cb r c)"
  by (cases cb)
     (auto simp: performs_def flow_def defer_callback_def queue_ok_def busy_def coherent_def radio_ok_def settled_def owed_def completed_def)

lemma defer_callback_sel [simp]:
  "ct_cmds (defer_callback cb r c) = ct_cmds c" "ct_state (defer_callback cb r c) = ct_state c" "ct_fault (defer_callback cb r c) = ct_fault c"
  by (simp_all add: defer_callback_def split: option.split)

text \<open>Sending the first command of a queue of commands not yet sent.\<close>

lemma send_cmd_state [simp]: "ct_state (snd (send_cmd cm c)) = ct_state c"
  by (auto simp: send_cmd_def Let_def split: prod.split)

lemma send_cmd_flow:
  assumes "ct_cmds c = cm # cms" "\<not> cmd_sent cm" "send_cmd cm c = (sent, c')"
  shows "flow proc [] c c' \<and> (sent \<longrightarrow> busy c')"
proof -
  obtain r rt where r: "mhr_send_in (ct_router c) (cmd_bytes cm) MH_CHANNEL_CONTROL = (r, rt)" by fastforce
  then have rt: "reachable proc (ct_router c) \<longrightarrow> reachable proc rt"
    by (metis reachable.step rstep.send_in snd_conv)
  show ?thesis
    using assms rt
    by (auto simp: send_cmd_def r Let_def defer_callback_def flow_def queue_ok_def busy_def coherent_def radio_ok_def settled_def owed_def completed_def
        split: if_splits; cases cms; auto)
qed

lemma push_cmds_flow: "flow proc [] c (push_cmds c) \<and> busy (push_cmds c) \<and> ct_state (push_cmds c) = ct_state c"
proof (induction c rule: push_cmds.induct)
  case (1 c)
  show ?case
  proof (cases "ct_cmds c")
    case Nil
    then show ?thesis by (simp add: push_cmds.simps [of c] flow_refl busy_def)
  next
    case (Cons cm cms)
    show ?thesis
    proof (cases "cmd_sent cm")
      case True
      with Cons show ?thesis by (simp add: push_cmds.simps [of c] flow_refl busy_def)
    next
      case False
      obtain sent c' where s: "send_cmd cm c = (sent, c')" by fastforce
      have f: "flow proc [] c c' \<and> (sent \<longrightarrow> busy c')" by (rule send_cmd_flow [OF Cons False s])
      have st: "ct_state c' = ct_state c" using send_cmd_state [of cm c] s by simp
      show ?thesis
      proof (cases sent)
        case True
        with f s st Cons False show ?thesis by (simp add: push_cmds.simps [of c])
      next
        case no: False
        have "flow proc [] c' (push_cmds c') \<and> busy (push_cmds c') \<and> ct_state (push_cmds c') = ct_state c'"
          using 1 [OF Cons False s [symmetric]] no by simp
        with f st no s Cons False show ?thesis
          using flow_then [of proc c c'] by (simp add: push_cmds.simps [of c])
      qed
    qed
  qed
qed

text \<open>Submission, in any state of the keyer and for any command that is well formed.\<close>

lemma submit_flow:
  assumes "frame_ok b" shows "flow proc (cbs cb) c (submit_cmd b cb c) \<and> ct_state (submit_cmd b cb c) = ct_state c"
proof (cases "(b \<noteq> [] \<and> b ! 0 \<noteq> MHCMD_ARE_YOU_THERE \<and> \<not> is_connected c) \<or> length b > MAX_CMD_LEN \<or> length (ct_cmds c) > MAX_CMD_QUEUE_SIZE")
  case True
  then have "\<exists>r. submit_cmd b cb c = defer_callback cb r c"
    unfolding submit_cmd_def by (cases "b \<noteq> [] \<and> b ! 0 \<noteq> MHCMD_ARE_YOU_THERE \<and> \<not> is_connected c") auto
  with performs_flow [OF performs_defer] show ?thesis by auto
next
  case False
  define cm where "cm = \<lparr>cmd_bytes = b, cmd_sent = False, cmd_cb = (case cb of None \<Rightarrow> CbGeneric | Some f \<Rightarrow> f)\<rparr>"
  define c1 where "c1 = c\<lparr>ct_free := tl (ct_free c), ct_cmds := ct_cmds c @ [cm]\<rparr>"
  have s: "submit_cmd b cb c = push_cmds c1" using False by (auto simp: submit_cmd_def Let_def c1_def cm_def)
  have fields: "ct_fault c1 = ct_fault c" "coherent c1 = coherent c" "radio_ok c1 = radio_ok c" "ct_router c1 = ct_router c" "ct_state c1 = ct_state c"
    by (simp_all add: c1_def coherent_def radio_ok_def)
  have "queue_ok c \<longrightarrow> queue_ok c1"
    using False assms by (cases "ct_cmds c") (auto simp: c1_def cm_def queue_ok_def)
  moreover have "\<forall>f. tracked f \<longrightarrow> settled f c1 = settled f c + count_list (cbs cb) f"
    by (auto simp: c1_def cm_def settled_def owed_def completed_def split: option.split)
  ultimately show ?thesis
    using push_cmds_flow [of proc c1] fields by (simp add: s flow_def)
qed

lemma send_cmd_timers: "ct_radio_timer (snd (send_cmd cm c)) = ct_radio_timer c"
  by (auto simp: send_cmd_def Let_def defer_callback_def split: prod.split)

text \<open>What a round of the loop leaves alone, the loop leaves alone.\<close>

lemma push_cmds_frame:
  assumes "\<And>cm c. f (snd (send_cmd cm c)) = f c" shows "f (push_cmds c) = f c"
proof (induction c rule: push_cmds.induct)
  case (1 c)
  then show ?case
    using assms [of "hd (ct_cmds c)" c] by (auto simp: push_cmds.simps [of c] split: list.split prod.split)
qed

lemma push_cmds_timers: "ct_radio_timer (push_cmds c) = ct_radio_timer c"
  by (rule push_cmds_frame) (rule send_cmd_timers)

lemma submit_timers: "ct_radio_timer (submit_cmd b cb c) = ct_radio_timer c"
  by (simp add: submit_cmd_def Let_def push_cmds_timers defer_callback_def split: option.split)

lemma submit_acts: "frame_ok b \<Longrightarrow> b ! 0 \<noteq> MHCMD_ARE_YOU_THERE \<Longrightarrow> performs proc (cbs cb) c (submit_cmd b cb c)"
  using submit_flow [of b proc cb c] by (auto simp: performs_def submit_timers) (auto simp: submit_cmd_def frame_ok_def)

lemma frame_ok_Cons [simp]: "frame_ok (x # xs) \<longleftrightarrow> xs \<noteq> [] \<and> last xs = x OR MSB_BIT \<and> x < 0x80"
proof
  assume r: "xs \<noteq> [] \<and> last xs = x OR MSB_BIT \<and> x < 0x80"
  then have "x # xs = x # butlast xs @ [x OR MSB_BIT]" by (metis append_butlast_last_id)
  with r show "frame_ok (x # xs)" unfolding frame_ok_def by blast
qed (auto simp: frame_ok_def)

lemma submit_simple_acts: "x < 0x80 \<Longrightarrow> x \<noteq> MHCMD_ARE_YOU_THERE \<Longrightarrow> performs proc (cbs cb) c (submit_cmd_simple x cb c)"
  by (simp add: submit_cmd_simple_def submit_acts)

lemma submit_simple_flow: "x < 0x80 \<Longrightarrow> flow proc (cbs cb) c (submit_cmd_simple x cb c)"
  by (simp add: submit_cmd_simple_def submit_flow)

lemma submit_simple_state: "x < 0x80 \<Longrightarrow> ct_state (submit_cmd_simple x cb c) = ct_state c"
  using submit_flow [of "[x, x OR MSB_BIT]"] by (simp add: submit_cmd_simple_def)

text \<open>A command after an update of fields that no part of the invariant looks at.\<close>

lemma submit_upd_acts:
  assumes "core c' = core c" "ct_fault c' = ct_fault c" "ct_radio_valid c' = ct_radio_valid c" "ct_radio_timer c' = ct_radio_timer c"
    and "frame_ok b" "b ! 0 \<noteq> MHCMD_ARE_YOU_THERE"
  shows "performs proc (cbs cb) c (submit_cmd b cb c')"
  by (rule performs_then [OF performs_upd submit_acts]) (use assms in simp_all)


section \<open>The operations\<close>

named_theorems ctl_acts

lemma set_mode_acts [ctl_acts]: "performs proc (cbs cb) c (mhc_set_mode m cb c)"
  "performs proc (cbs cb) c (mhc_set_mode_on_radio m r cb c)"
  by (auto simp: mhc_set_mode_def mhc_set_mode_on_radio_def intro!: submit_acts)

lemma load_kopts_acts [ctl_acts]: "performs proc (cbs cb) c (mhc_load_kopts cb c)"
  by (auto simp: mhc_load_kopts_def core_def split: option.split intro!: submit_upd_acts)

lemma mk2r_acts [ctl_acts]:
  "performs proc (cbs cb) c (mhc_mk2r_set_hfocus h cb c)"
  "performs proc (cbs cb) c (mhc_mk2r_set_acc_outputs a cb c)"
  "performs proc (cbs cb) c (mhc_mk2r_set_scenario i cb c)"
  by (auto simp: mhc_mk2r_set_hfocus_def mhc_mk2r_set_acc_outputs_def mhc_mk2r_set_scenario_def core_def intro!: submit_upd_acts)

lemma sm_acts [ctl_acts]:
  "performs proc (cbs cb) c (mhc_sm_turn_to_azimuth a cb c)"
  "performs proc (cbs cb) c (mhc_sm_get_antsw_block a cb c)"
  "performs proc (cbs cb) c (mhc_sm_set_antsw_validity p cb c)"
  "performs proc (cbs cb) c (mhc_sm_store_antsw_block a d cb c)"
  by (auto simp: mhc_sm_turn_to_azimuth_def mhc_sm_get_antsw_block_def mhc_sm_set_antsw_validity_def mhc_sm_store_antsw_block_def
      intro!: submit_acts)

lemma message_acts [ctl_acts]:
  "performs proc (cbs cb) c (mhc_record_message i cb c)"
  "performs proc (cbs cb) c (mhc_stop_recording cb c)"
  "performs proc (cbs cb) c (mhc_play_message i cb c)"
  "performs proc (cbs cb) c (mhc_abort_message cb c)"
  by (auto simp: mhc_record_message_def mhc_stop_recording_def mhc_play_message_def mhc_abort_message_def submit_cmd_simple_def intro!: submit_acts)


lemma store_code: "1 \<le> i \<Longrightarrow> i \<le> 9 \<Longrightarrow> \<exists>k < 9. i - 1 = (word_of_nat k :: byte)"
  for i :: byte
  by (rule exI [of _ "unat (i - 1)"]) (simp add: word_le_nat_alt word_less_nat_alt unat_sub)

lemma store_codes:
  fixes i :: byte assumes "1 \<le> i" "i \<le> 9"
  shows "MHCMD_STORE_CW_FSK_MSG_1 + (i - 1) < 0x80" "MHCMD_STORE_CW_FSK_MSG_1 + (i - 1) \<noteq> MHCMD_ARE_YOU_THERE"
    "MHCMD_STORE_FSK_MSG_1 + (i - 1) < 0x80" "MHCMD_STORE_FSK_MSG_1 + (i - 1) \<noteq> MHCMD_ARE_YOU_THERE"
proof -
  obtain k where k: "k < 9" "i - 1 = word_of_nat k" using store_code [OF assms] by blast
  have cases: "k \<in> {0, 1, 2, 3, 4, 5, 6, 7, 8}" using k(1) by auto
  show "MHCMD_STORE_CW_FSK_MSG_1 + (i - 1) < 0x80" "MHCMD_STORE_CW_FSK_MSG_1 + (i - 1) \<noteq> MHCMD_ARE_YOU_THERE"
    "MHCMD_STORE_FSK_MSG_1 + (i - 1) < 0x80" "MHCMD_STORE_FSK_MSG_1 + (i - 1) \<noteq> MHCMD_ARE_YOU_THERE"
    unfolding k(2) using cases by auto
qed

lemma store_codes_simp:
  fixes i :: byte assumes "i \<noteq> 0" "\<not> 9 < i"
  shows "15 + i < 0x80" "15 + i \<noteq> 0x7e" "31 + i < 0x80" "31 + i \<noteq> 0x7e"
proof -
  have i1: "1 \<le> i" using assms(1) by (simp add: word_le_nat_alt Suc_le_eq unat_gt_0)
  have i9: "i \<le> 9" using assms(2) by simp
  note c = store_codes [OF i1 i9]
  have e: "MHCMD_STORE_CW_FSK_MSG_1 + (i - 1) = 15 + i" "MHCMD_STORE_FSK_MSG_1 + (i - 1) = 31 + i" by simp_all
  show "15 + i < 0x80" "15 + i \<noteq> 0x7e" "31 + i < 0x80" "31 + i \<noteq> 0x7e" using c unfolding e by blast+
qed

lemma store_acts [ctl_acts]:
  "performs proc (cbs cb) c (mhc_store_cw_message i t n d cb c)"
  "performs proc (cbs cb) c (mhc_store_fsk_message i t n d cb c)"
  by (auto simp: mhc_store_cw_message_def mhc_store_fsk_message_def Let_def core_def mhc_is_online_def store_codes_simp
      intro!: performs_defer submit_upd_acts performs_then [OF performs_upd performs_defer])

lemma display_acts [ctl_acts]:
  "performs proc (cbs cb) c (mhc_display_host_string_event l t d cb c)"
  "performs proc (cbs cb) c (mhc_dvk_state v i p lv cb c)"
  by (auto simp: mhc_display_host_string_event_def mhc_dvk_state_def Let_def intro!: performs_defer submit_acts)

lemma speed_channel_code: "speed_channel ch = Some (base, cm, feature) \<Longrightarrow> cm < 0x80 \<and> cm \<noteq> MHCMD_ARE_YOU_THERE"
  by (auto simp: speed_channel_def split: if_splits)

lemma performs_router: "(reachable proc (ct_router c) \<longrightarrow> reachable proc r) \<Longrightarrow> performs proc [] c (c\<lparr>ct_router := r\<rparr>)"
  by (simp add: performs_def flow_def queue_ok_def busy_def coherent_def radio_ok_def settled_def owed_def completed_def)

lemma performs_bps: "performs proc [] c (c\<lparr>ct_router := mhr_set_bps_limit (ct_router c) ch bps\<rparr>)"
  by (rule performs_router) (blast intro: reachable.step rstep.bps_limit)

lemma submit_speed_acts: "performs proc (cbs cb) c (submit_speed ch fbaud st rtscts databits ext cb c)"
proof (cases "fbaud = 0 \<or> speed_channel ch = None")
  case True
  then show ?thesis by (auto simp: submit_speed_def intro: performs_defer)
next
  case False
  then obtain base cm feature where ch: "speed_channel ch = Some (base, cm, feature)" "fbaud \<noteq> 0" by auto
  show ?thesis
    using speed_channel_code [OF ch(1)]
    by (auto simp: submit_speed_def ch Let_def split: option.split intro!: performs_defer performs_then [OF performs_bps submit_acts])
qed

lemma submit_speed_cmd_acts [ctl_acts]:
  "performs proc (cbs cb) c (submit_speed_cmd ch cb c)"
  "performs proc (cbs cb) c (submit_speed_cmd_params ch n cb c)"
  by (auto simp: submit_speed_cmd_def submit_speed_cmd_params_def split: option.split intro: performs_defer submit_speed_acts)

lemma performs_after: "performs proc gs c' c'' \<Longrightarrow> core c' = core c \<Longrightarrow> ct_fault c' = ct_fault c \<Longrightarrow> ct_radio_valid c' = ct_radio_valid c \<Longrightarrow>
    ct_radio_timer c' = ct_radio_timer c \<Longrightarrow> performs proc gs c c''"
  by (rule performs_then [OF performs_upd])

lemma set_speed_params_acts [ctl_acts]: "performs proc (cbs cb) c (mhc_set_speed_params ch n cb c)"
  by (auto simp: mhc_set_speed_params_def core_def Let_def split: option.split
      intro!: performs_defer performs_after [OF performs_defer] performs_after [OF submit_speed_cmd_acts(2)])

lemma set_kopt_acts [ctl_acts]: "performs proc [] c (snd (mhc_set_kopt k v c))"
  by (auto simp: mhc_set_kopt_def core_def split: option.split intro!: performs_upd)

lemma cached_version_acts [ctl_acts]: "performs proc [] c (mhc_set_cached_fw_version ma mi b w c)"
  by (auto simp: mhc_set_cached_fw_version_def core_def intro!: performs_upd)


section \<open>Radio information\<close>

lemma performs_untracked: "performs proc fs c c' \<Longrightarrow> \<forall>f \<in> set fs. \<not> tracked f \<Longrightarrow> performs proc [] c c'"
  by (auto simp: performs_def flow_def count_list_0_iff)

lemma performs_fold: "(\<And>x c. performs proc [] c (g x c)) \<Longrightarrow> performs proc [] c (fold g xs c)"
  by (induction xs arbitrary: c) (auto intro: performs_then)

lemma send_freq_acts: "radio = 1 \<or> radio = 2 \<Longrightarrow> performs proc [] c (send_freq (if radio = 1 then MHCMD_CAT_R1_FREQUENCY_INFO else MHCMD_CAT_R2_FREQUENCY_INFO) radio e c)"
  by (rule performs_untracked [of _ "if snd e = 0 \<or> fst e = 0 then [] else [CbFreq radio]"])
     (auto simp: send_freq_def freq_cmd_def Let_def core_def intro!: submit_upd_acts [of _ _ _ _ "Some _", simplified])

lemma send_cat_freq_info_acts: "performs proc [] c (send_cat_freq_info info radio c)"
proof (cases "radio < 1 \<or> radio > 2 \<or> \<not> mhi_has (ct_mhi c) MHF_HAS_CAT_CMD")
  case True
  then show ?thesis by (auto simp: send_cat_freq_info_def)
next
  case False
  then have r: "radio = 1 \<or> radio = 2" by auto
  have "performs proc [] c (fold (send_freq (if radio = 1 then MHCMD_CAT_R1_FREQUENCY_INFO else MHCMD_CAT_R2_FREQUENCY_INFO) radio) es c)" for es
    by (rule performs_fold) (rule send_freq_acts [OF r])
  then show ?thesis using False unfolding send_cat_freq_info_def Let_def by (simp only: if_False simp_thms de_Morgan_disj split: if_split)
qed

lemma publish_acts: "performs proc [] c (publish_radio_info radio c)"
  by (simp add: publish_radio_info_def performs_out)

lemma set_force_keyer_mode_acts: "performs proc [] c (snd (set_force_keyer_mode radio en c))"
  by (auto simp: set_force_keyer_mode_def core_def split: option.split
      intro!: performs_after [OF load_kopts_acts [of _ None, simplified]])

lemma request_mode_acts: "performs proc [] c (request_mode f info radio c)"
proof -
  have m: "performs proc [] c (mhc_set_mode_on_radio m r (Some CbMode) c)" "performs proc [] c (mhc_set_mode m (Some CbMode) c)" for m r c
    by (rule performs_untracked [OF set_mode_acts(2)] performs_untracked [OF set_mode_acts(1)], simp)+
  show ?thesis by (auto simp: request_mode_def Let_def core_def intro!: performs_after [OF m(1)] performs_after [OF m(2)])
qed

lemma update_freqs_acts: "performs proc [] c (update_freqs info radio c)"
  by (auto simp: update_freqs_def core_def intro: send_cat_freq_info_acts performs_upd)

lemma update_radio_info_acts [ctl_acts]: "performs proc [] c (mhc_update_radio_info src info c)"
proof (cases info)
  case None
  then show ?thesis by (simp add: mhc_update_radio_info_def)
next
  case (Some inf)
  define radio where "radio = unat (ri_radio inf)"
  define i where "i = map_voice c inf"
  define c1 where "c1 = c\<lparr>ct_radio_timer := (ct_radio_timer c)(radio - 1 := True)\<rparr>"
  define c2 where "c2 = snd (set_force_keyer_mode radio 0 c1)"
  define c3 where "c3 = c2\<lparr>ct_radio_valid := (ct_radio_valid c2)(radio - 1 := True)\<rparr>"
  define c4 where "c4 = request_mode (fst (set_force_keyer_mode radio 0 c1)) i radio c3"
  define c5 where "c5 = update_freqs i radio c4"
  define c6 where "c6 = c5\<lparr>ct_radio_info := (ct_radio_info c5)(radio - 1 := i), ct_radio_source := (ct_radio_source c5)(radio - 1 := take 15 (src_str src))\<rparr>"
  have a1: "performs proc [] c c1" by (rule performs_core) (simp_all add: c1_def core_def radio_ok_def)
  have a2: "performs proc [] c1 c2" by (simp add: c2_def set_force_keyer_mode_acts)
  have t: "ct_radio_timer c2 (radio - 1)" using a2 by (simp add: performs_def c1_def)
  have a3: "performs proc [] c2 c3" by (rule performs_core) (use t in \<open>simp_all add: c3_def core_def radio_ok_def\<close>)
  have a4: "performs proc [] c3 c4" by (simp add: c4_def request_mode_acts)
  have a5: "performs proc [] c4 c5" by (simp add: c5_def update_freqs_acts)
  have a6: "performs proc [] c5 c6" by (rule performs_upd) (simp_all add: c6_def core_def)
  have a7: "performs proc [] c c6" by (intro performs_then [OF a1] performs_then [OF a2] performs_then [OF a3] performs_then [OF a4] performs_then [OF a5] a6)
  have "mhc_update_radio_info src info c =
    (if radio < 1 \<or> radio > 2 then c else if radio_info_news src i (radio - 1) c2 then publish_radio_info radio c6 else c6)"
    by (simp add: mhc_update_radio_info_def Some Let_def radio_def [symmetric] i_def [symmetric] c1_def c2_def c3_def c4_def c5_def c6_def split_def)
  then show ?thesis using a7 performs_then [OF a7 publish_acts] by simp
qed

section \<open>Calls from other modules\<close>

fun api_cbs :: "api \<Rightarrow> completion list" where
  "api_cbs (ApiSetSpeedParams ch n cb) = cbs (client cb)"
| "api_cbs (ApiLoadKopts cb) = cbs (client cb)"
| "api_cbs (ApiSetHfocus h cb) = cbs (client cb)"
| "api_cbs (ApiSetAccOutputs a cb) = cbs (client cb)"
| "api_cbs (ApiSetScenario i cb) = cbs (client cb)"
| "api_cbs (ApiTurnToAzimuth a cb) = cbs (client cb)"
| "api_cbs (ApiGetAntswBlock a cb) = cbs (client cb)"
| "api_cbs (ApiSetAntswValidity a cb) = cbs (client cb)"
| "api_cbs (ApiStoreAntswBlock a d cb) = cbs (client cb)"
| "api_cbs (ApiRecordMessage i cb) = cbs (client cb)"
| "api_cbs (ApiStopRecording cb) = cbs (client cb)"
| "api_cbs (ApiPlayMessage i cb) = cbs (client cb)"
| "api_cbs (ApiAbortMessage cb) = cbs (client cb)"
| "api_cbs (ApiStoreCw i t n d cb) = cbs (client cb)"
| "api_cbs (ApiStoreFsk i t n d cb) = cbs (client cb)"
| "api_cbs (ApiDisplay l t d cb) = cbs (client cb)"
| "api_cbs (ApiDvkState v i p l cb) = cbs (client cb)"
| "api_cbs _ = []"

lemma do_api_acts: "performs proc (api_cbs a) c (do_api a c)"
  by (cases a) (simp_all add: ctl_acts)

lemma do_apis_acts: "performs proc (concat (map api_cbs as)) c (fold do_api as c)"
  by (induction as arbitrary: c) (auto intro: performs_trans [OF do_api_acts])


section \<open>The state machine\<close>

definition init_state :: "ctl_state \<Rightarrow> bool" where
  "init_state st \<longleftrightarrow> st \<in> {CTL_STATE_INIT, CTL_STATE_GET_VERSION, CTL_STATE_SET_CHANNELS, CTL_STATE_LOAD_CFG, CTL_STATE_ON_CONNECT}"

text \<open>Callbacks that calls from inside a callback may bring.\<close>

definition others :: "world \<Rightarrow> completion set" where
  "others w = {f. \<exists>a. (a \<in> set (sm_online w) \<or> (\<exists>n r b. a \<in> set (react w n r b))) \<and> f \<in> set (api_cbs a)}"

lemma set_state_sel [simp]: "ct_state (set_state st c) = st" "ct_fault (set_state st c) = ct_fault c" "ct_cmds (set_state st c) = ct_cmds c"
  "ct_speed_idx (set_state st c) = ct_speed_idx c" "ct_kcfg (set_state st c) = ct_kcfg c" "ct_deferred (set_state st c) = ct_deferred c"
  "ct_radio_timer (set_state st c) = ct_radio_timer c"
  by (simp_all add: set_state_def ct_out_def Let_def)

lemma set_state_flow: "flow proc [] c (set_state st c)" and set_state_coherent: "coherent (set_state st c)"
  by (auto simp: set_state_def Let_def ct_out_def flow_def queue_ok_def busy_def coherent_def radio_ok_def settled_def owed_def completed_def
      filter_empty_conv elim: is_done.elims)

text \<open>The changes of state that an event makes while the connection stays: the dialog with the keyer, in
  order, the restart of a keyer that was online, and the way back to its start.\<close>

definition dialog :: "ctl_state \<Rightarrow> ctl_state \<Rightarrow> bool" where
  "dialog st st' \<longleftrightarrow> st' = st \<or>
     (st \<noteq> CTL_STATE_DEVICE_DISC \<and> (st' = CTL_STATE_DEVICE_OFF \<or> st' = CTL_STATE_INIT)) \<or>
     (st, st') \<in> {(CTL_STATE_INIT, CTL_STATE_GET_VERSION), (CTL_STATE_GET_VERSION, CTL_STATE_SET_CHANNELS),
        (CTL_STATE_GET_VERSION, CTL_STATE_LOAD_CFG), (CTL_STATE_GET_VERSION, CTL_STATE_DEVICE_DISABLED),
        (CTL_STATE_SET_CHANNELS, CTL_STATE_LOAD_CFG), (CTL_STATE_SET_CHANNELS, CTL_STATE_DEVICE_DISABLED),
        (CTL_STATE_LOAD_CFG, CTL_STATE_ON_CONNECT), (CTL_STATE_ON_CONNECT, CTL_STATE_OK),
        (CTL_STATE_OK, CTL_STATE_SET_CHANNELS), (CTL_STATE_OK, CTL_STATE_LOAD_CFG), (CTL_STATE_OK, CTL_STATE_DEVICE_DISABLED)}"

text \<open>A step of the initialisation: as long as it has not ended, one of its callbacks is to come.\<close>

definition moves :: "(cb \<Rightarrow> user \<Rightarrow> buffer \<Rightarrow> buffer) \<Rightarrow> world \<Rightarrow> mhc \<Rightarrow> mhc \<Rightarrow> bool" where
  "moves proc w c c' \<longleftrightarrow>
     (\<exists>fs. flow proc fs c c' \<and> set fs \<subseteq> {CbInitializer} \<union> others w \<and>
        (init_state (ct_state c') \<longrightarrow> \<not> ct_fault c' \<longrightarrow> CbInitializer \<in> set fs)) \<and>
     dialog (ct_state c) (ct_state c') \<and>
     (ct_state c = CTL_STATE_DEVICE_DISC \<longrightarrow> ct_cmds c' = ct_cmds c)"

lemma speed_loop_flow:
  "(flow proc [] c (speed_loop c) \<and> ct_state (speed_loop c) = ct_state c \<and> \<not> int (ct_speed_idx (speed_loop c)) < MH_NUM_CHANNELS) \<or>
   (flow proc [CbInitializer] c (speed_loop c) \<and> ct_state (speed_loop c) = CTL_STATE_SET_CHANNELS)"
proof (induction c rule: speed_loop.induct)
  case (1 c)
  show ?case
  proof (cases "int (ct_speed_idx c) < MH_NUM_CHANNELS")
    case False
    then show ?thesis by (simp add: speed_loop.simps [of c] flow_refl)
  next
    case True
    let ?ch = "int (ct_speed_idx c)"
    show ?thesis
    proof (cases "ct_speed_args c ?ch \<noteq> None \<or> ct_speed_valid c ?ch")
      case ch: True
      define c1 where "c1 = set_state CTL_STATE_SET_CHANNELS c"
      define c2 where "c2 = (if ct_speed_args c1 ?ch \<noteq> None then submit_speed_cmd ?ch (Some CbInitializer) c1
        else submit_speed_cmd_params ?ch (ct_speed_params c1 ?ch) (Some CbInitializer) c1)"
      have a: "performs proc [CbInitializer] c1 c2"
        using submit_speed_cmd_acts [of proc "Some CbInitializer"] by (simp add: c2_def)
      have s: "speed_loop c = c2\<lparr>ct_speed_idx := ct_speed_idx c2 + 1\<rparr>"
        using True ch by (simp add: speed_loop.simps [of c] Let_def c1_def c2_def)
      have "performs proc [] c2 (c2\<lparr>ct_speed_idx := ct_speed_idx c2 + 1\<rparr>)" by (rule performs_upd) (simp_all add: core_def)
      from performs_trans [OF a this] have t: "performs proc [CbInitializer] c1 (speed_loop c)" by (simp add: s)
      then have "flow proc [CbInitializer] c (speed_loop c)"
        using flow_then [OF set_state_flow] performs_flow unfolding c1_def by blast
      moreover have "ct_state (speed_loop c) = CTL_STATE_SET_CHANNELS" using t by (simp add: performs_def c1_def)
      ultimately show ?thesis by blast
    next
      case ch: False
      define c1 where "c1 = c\<lparr>ct_speed_idx := ct_speed_idx c + 1\<rparr>"
      have a: "performs proc [] c c1" unfolding c1_def by (rule performs_upd) (simp_all add: core_def)
      have "speed_loop c = speed_loop c1" using True ch by (simp add: speed_loop.simps [of c] Let_def c1_def)
      moreover have "(flow proc [] c1 (speed_loop c1) \<and> ct_state (speed_loop c1) = ct_state c1 \<and> \<not> int (ct_speed_idx (speed_loop c1)) < MH_NUM_CHANNELS) \<or>
          (flow proc [CbInitializer] c1 (speed_loop c1) \<and> ct_state (speed_loop c1) = CTL_STATE_SET_CHANNELS)"
        unfolding c1_def by (rule 1 [OF True refl]) (use ch in simp)
      ultimately show ?thesis using flow_then [OF performs_flow [OF a]] a by (auto simp: performs_def)
    qed
  qed
qed


lemma flow_snoc: "flow proc fs c c' \<Longrightarrow> flow proc [] c' c'' \<Longrightarrow> flow proc fs c c''"
  using flow_trans [of proc fs c c' "[]" c''] by simp

lemma flow_fault: "flow proc [] c (fault c)"
  using performs_flow [OF performs_fault] .

lemma movesI:
  assumes "flow proc fs c c'" "set fs \<subseteq> {CbInitializer} \<union> others w"
    "init_state (ct_state c') \<Longrightarrow> \<not> ct_fault c' \<Longrightarrow> CbInitializer \<in> set fs"
    "dialog (ct_state c) (ct_state c')" "ct_state c \<noteq> CTL_STATE_DEVICE_DISC"
  shows "moves proc w c c'"
  using assms unfolding moves_def by blast

lemma moves_refl: "\<not> init_state (ct_state c) \<Longrightarrow> moves proc w c c"
  unfolding moves_def by (intro conjI exI [of _ "[]"]) (simp_all add: flow_refl dialog_def)

lemma step_channels_moves:
  assumes st: "ct_state c = CTL_STATE_GET_VERSION \<or> ct_state c = CTL_STATE_SET_CHANNELS"
  shows "moves proc w c (step_channels c)"
proof -
  define c1 where "c1 = speed_loop c"
  obtain fs where fs: "flow proc fs c c1" "set fs \<subseteq> {CbInitializer}" and n: "int (ct_speed_idx c1) < MH_NUM_CHANNELS \<longrightarrow> CbInitializer \<in> set fs"
    and st1: "ct_state c1 = ct_state c \<or> ct_state c1 = CTL_STATE_SET_CHANNELS"
    using speed_loop_flow [of proc c] st by (fastforce simp: c1_def)
  show ?thesis
  proof (cases "int (ct_speed_idx c1) < MH_NUM_CHANNELS")
    case True
    then have e: "step_channels c = c1" by (simp add: step_channels_def Let_def c1_def)
    show ?thesis unfolding e using n True st st1 by (intro movesI [OF fs(1)]) (use fs(2) in \<open>auto simp: dialog_def\<close>)
  next
    case False
    define c2 where "c2 = c1\<lparr>ct_speed_idx := 0\<rparr>"
    define k where "k = (case ct_kcfg c2 of Some k \<Rightarrow> Some (Some k) | None \<Rightarrow> kcfg_create (ct_mhi c2))"
    have f2: "flow proc fs c c2" by (rule flow_snoc [OF fs(1)], rule performs_flow, unfold c2_def, rule performs_upd) (simp_all add: core_def)
    have st2: "ct_state c2 = ct_state c1" by (simp add: c2_def)
    have e: "step_channels c = (case k of None \<Rightarrow> fault c2 | Some None \<Rightarrow> set_state CTL_STATE_DEVICE_DISABLED c2
        | Some (Some k) \<Rightarrow> set_state CTL_STATE_LOAD_CFG (mhc_load_kopts (Some CbInitializer) (c2\<lparr>ct_kcfg := Some k\<rparr>)))"
      using False by (simp add: step_channels_def Let_def c1_def [symmetric] c2_def [symmetric] k_def)
    show ?thesis
    proof (cases k)
      case None
      have "flow proc fs c (fault c2)" by (rule flow_snoc [OF f2 flow_fault])
      then show ?thesis unfolding e using None fs(2) st st1 st2 by (intro movesI [where fs = fs]) (auto simp: fault_def dialog_def)
    next
      case (Some ko)
      show ?thesis
      proof (cases ko)
        case None
        have "flow proc fs c (set_state CTL_STATE_DEVICE_DISABLED c2)" by (rule flow_snoc [OF f2 set_state_flow])
        then show ?thesis unfolding e using Some None fs(2) st by (intro movesI [where fs = fs]) (auto simp: init_state_def dialog_def)
      next
        case (Some kc)
        have "performs proc [CbInitializer] c2 (mhc_load_kopts (Some CbInitializer) (c2\<lparr>ct_kcfg := Some kc\<rparr>))"
          by (rule performs_after [OF load_kopts_acts [of _ "Some CbInitializer", simplified]]) (simp_all add: core_def)
        then have "flow proc (fs @ [CbInitializer]) c (set_state CTL_STATE_LOAD_CFG (mhc_load_kopts (Some CbInitializer) (c2\<lparr>ct_kcfg := Some kc\<rparr>)))"
          using flow_trans [OF f2 performs_flow] flow_snoc [OF _ set_state_flow] by blast
        then show ?thesis unfolding e using \<open>k = Some ko\<close> Some fs(2) st by (intro movesI [where fs = "fs @ [CbInitializer]"]) (auto simp: dialog_def)
      qed
    qed
  qed
qed

lemma display_flow: "flow proc [] c (mhc_display_host_string_event l t d None c)" "ct_state (mhc_display_host_string_event l t d None c) = ct_state c"
  using display_acts(1) [of proc None c l t d] by (simp_all add: performs_def)

lemma greeting_flow:
  "flow proc [] c (if mhi_has (ct_mhi c) MHF_HAS_DISPLAY
     then mhc_display_host_string_event 1 [] 250 None (mhc_display_host_string_event 0 PACKAGE_STRING 250 None c) else c)"
  by (simp add: flow_refl flow_then [OF display_flow(1) display_flow(1)])

lemma initializer_step_moves: "moves proc w c (initializer_step w reply c)"
proof (cases "ct_state c")
  case CTL_STATE_DEVICE_OFF
  define c1 where "c1 = c\<lparr>ct_freq_sent := (ct_freq_sent c)(0 := False, 1 := False), ct_speed_idx := 0\<rparr>"
  have "performs proc [] c c1" unfolding c1_def by (rule performs_upd) (simp_all add: core_def)
  then have "flow proc [CbInitializer] c (submit_cmd_simple MHCMD_ARE_YOU_THERE (Some CbInitializer) (set_state CTL_STATE_INIT c1))"
    using flow_then [OF flow_snoc [OF performs_flow set_state_flow] submit_simple_flow [of MHCMD_ARE_YOU_THERE proc "Some CbInitializer"]] by simp
  then show ?thesis
    using CTL_STATE_DEVICE_OFF submit_simple_state [of MHCMD_ARE_YOU_THERE "Some CbInitializer"]
    by (intro movesI [of proc "[CbInitializer]"]) (simp_all add: dialog_def initializer_step_def c1_def)
next
  case CTL_STATE_INIT
  define c1 where "c1 = (if mhi_has (ct_mhi c) MHF_HAS_DISPLAY
     then mhc_display_host_string_event 1 [] 250 None (mhc_display_host_string_event 0 PACKAGE_STRING 250 None c) else c)"
  have "flow proc [] c c1" unfolding c1_def by (rule greeting_flow)
  then have "flow proc [CbInitializer] c (submit_cmd_simple MHCMD_GET_VERSION (Some CbInitializer) (set_state CTL_STATE_GET_VERSION c1))"
    using flow_then [OF flow_snoc [OF _ set_state_flow] submit_simple_flow [of MHCMD_GET_VERSION proc "Some CbInitializer"]] by simp
  then show ?thesis
    using CTL_STATE_INIT submit_simple_state [of MHCMD_GET_VERSION "Some CbInitializer"]
    by (intro movesI [of proc "[CbInitializer]"]) (simp_all add: dialog_def initializer_step_def c1_def [symmetric])
next
  case CTL_STATE_GET_VERSION
  define c1 where "c1 = c\<lparr>ct_mhi := snd (mhi_parse_version (ct_mhi c) reply)\<rparr>"
  have a: "flow proc [] c c1" unfolding c1_def by (rule performs_flow, rule performs_upd) (simp_all add: core_def)
  have st: "ct_state c1 = ct_state c" by (simp add: c1_def)
  have "moves proc w c1 (step_channels c1)" by (rule step_channels_moves) (simp add: st CTL_STATE_GET_VERSION)
  with flow_then [OF a] CTL_STATE_GET_VERSION st have "moves proc w c (step_channels c1)" by (auto simp: moves_def)
  then show ?thesis by (simp add: initializer_step_def CTL_STATE_GET_VERSION c1_def)
next
  case CTL_STATE_SET_CHANNELS
  then show ?thesis using step_channels_moves [of c proc w] by (simp add: initializer_step_def)
next
  case CTL_STATE_LOAD_CFG
  have "flow proc [CbInitializer] c (set_state CTL_STATE_ON_CONNECT (submit_cmd_simple MHCMD_ON_CONNECT (Some CbInitializer) c))"
    using flow_snoc [OF submit_simple_flow [of MHCMD_ON_CONNECT proc "Some CbInitializer"] set_state_flow] by simp
  then show ?thesis using CTL_STATE_LOAD_CFG by (intro movesI [of proc "[CbInitializer]"]) (simp_all add: dialog_def initializer_step_def)
next
  case CTL_STATE_ON_CONNECT
  define c1 where "c1 = (if ct_sm c then fold do_api (sm_online w) c else c)"
  define fs where "fs = (if ct_sm c then concat (map api_cbs (sm_online w)) else [])"
  define c2 where "c2 = c1\<lparr>ct_mode_req := (ct_mode_req c1)(0 := -1, 1 := -1)\<rparr>"
  have a: "flow proc fs c c1" by (simp add: c1_def fs_def flow_refl performs_flow [OF do_apis_acts])
  have "flow proc [] c1 c2" unfolding c2_def by (rule performs_flow, rule performs_upd) (simp_all add: core_def)
  then have "flow proc fs c (set_state CTL_STATE_OK c2)" by (intro flow_snoc [OF flow_snoc [OF a] set_state_flow])
  moreover have "set fs \<subseteq> others w" by (auto simp: fs_def others_def)
  ultimately show ?thesis
    using CTL_STATE_ON_CONNECT by (intro movesI [of proc fs]) (auto simp: dialog_def initializer_step_def c1_def [symmetric] c2_def init_state_def)
qed (simp_all add: initializer_step_def moves_refl init_state_def)

end
