(* ===== verification/ControlSpec.thy ===== *)
theory ControlSpec
  imports ControlInv
begin

text \<open>
  The keyer control in its event loop: the invariant of every reachable state, and what follows for
  clients: each command is completed exactly once, the initialisation never gets stuck, a disconnection
  completes everything that waits.
\<close>

section \<open>Completions\<close>

definition sound :: "(cb \<Rightarrow> user \<Rightarrow> buffer \<Rightarrow> buffer) \<Rightarrow> mhc \<Rightarrow> bool" where
  "sound proc c \<longleftrightarrow> queue_ok c \<and> coherent c \<and> radio_ok c \<and> reachable proc (ct_router c) \<and>
     (\<not> ct_fault c \<longrightarrow> init_state (ct_state c) \<longrightarrow> owed CbInitializer c > 0)"

lemma dialog_refl [simp]: "dialog st st"
  by (simp add: dialog_def)

lemma dialog_to_off [simp]: "st \<noteq> CTL_STATE_DEVICE_DISC \<Longrightarrow> dialog st CTL_STATE_DEVICE_OFF"
  by (simp add: dialog_def)

lemma dialog_disc: "dialog st st' \<Longrightarrow> st' = CTL_STATE_DEVICE_DISC \<longleftrightarrow> st = CTL_STATE_DEVICE_DISC"
  by (auto simp: dialog_def)

lemma dialog_disc_eq [simp]: "dialog CTL_STATE_DEVICE_DISC st = (st = CTL_STATE_DEVICE_DISC)"
  by (auto simp: dialog_def)

lemma dialog_off: "dialog st CTL_STATE_DEVICE_OFF \<Longrightarrow> dialog CTL_STATE_DEVICE_OFF st' \<Longrightarrow> dialog st st'"
  by (auto simp: dialog_def)

lemma dialog_restart: "dialog CTL_STATE_SET_CHANNELS st' \<Longrightarrow> dialog CTL_STATE_OK st'"
  by (auto simp: dialog_def)

text \<open>What an event does to the invariant and the books of clients that are not called from callbacks.\<close>

definition keeps :: "(cb \<Rightarrow> user \<Rightarrow> buffer \<Rightarrow> buffer) \<Rightarrow> world \<Rightarrow> completion list \<Rightarrow> mhc \<Rightarrow> mhc \<Rightarrow> bool" where
  "keeps proc w gs c c' \<longleftrightarrow>
     (ct_fault c \<longrightarrow> ct_fault c') \<and> (sound proc c \<longrightarrow> sound proc c') \<and> (queue_ok c \<longrightarrow> busy c \<longrightarrow> busy c') \<and>
     (ct_state c = CTL_STATE_DEVICE_DISC \<longrightarrow> ct_cmds c = [] \<longrightarrow> ct_cmds c' = []) \<and>
     (\<not> ct_fault c' \<longrightarrow> (\<forall>n. CbClient n \<notin> others w \<longrightarrow> settled (CbClient n) c' = settled (CbClient n) c + count_list gs (CbClient n)))"

lemma sound_queue: "sound proc c \<Longrightarrow> queue_ok c"
  by (simp add: sound_def)

lemma keeps_refl: "keeps proc w [] c c"
  by (simp add: keeps_def)

lemma settled_init [simp]: "settled CbInitializer c = owed CbInitializer c"
  by (simp add: settled_def)

lemma flow_settled: "flow proc fs c c' \<Longrightarrow> \<not> ct_fault c' \<Longrightarrow> tracked f \<Longrightarrow> settled f c' = settled f c + count_list fs f"
  by (simp add: flow_def)

lemma flow_sound:
  assumes "flow proc fs c c'" "sound proc c" "\<not> ct_fault c' \<Longrightarrow> init_state (ct_state c') \<Longrightarrow> owed CbInitializer c' > 0"
  shows "sound proc c'"
  using assms by (simp add: flow_def sound_def)

lemma flow_same_sound:
  assumes f: "flow proc fs c c'" and st: "ct_state c' = ct_state c" and s: "sound proc c"
  shows "sound proc c'"
proof (rule flow_sound [OF f s])
  assume n: "\<not> ct_fault c'" "init_state (ct_state c')"
  with f s st have "owed CbInitializer c > 0" by (auto simp: sound_def flow_def)
  then show "owed CbInitializer c' > 0" using flow_settled [OF f n(1), of CbInitializer] by simp
qed

lemma flow_keeps:
  assumes "flow proc fs c c'" "sound proc c \<Longrightarrow> sound proc c'"
    "ct_state c = CTL_STATE_DEVICE_DISC \<Longrightarrow> ct_cmds c = [] \<Longrightarrow> ct_cmds c' = []"
    "\<And>n. CbClient n \<notin> others w \<Longrightarrow> count_list fs (CbClient n) = count_list gs (CbClient n)"
  shows "keeps proc w gs c c'"
  using assms by (simp add: keeps_def flow_def)

lemma performs_keeps: "performs proc fs c c' \<Longrightarrow> keeps proc w fs c c' \<and> ct_state c' = ct_state c"
proof (rule conjI)
  assume a: "performs proc fs c c'"
  then have f: "flow proc fs c c'" by (rule performs_flow)
  have "sound proc c \<Longrightarrow> sound proc c'" using flow_same_sound [OF f] a by (simp add: performs_def)
  then show "keeps proc w fs c c'" using a by (intro flow_keeps [OF f]) (simp_all add: performs_def is_connected_def)
qed (simp add: performs_def)

lemma count_others: "set fs \<subseteq> {CbInitializer} \<union> others w \<Longrightarrow> CbClient n \<notin> others w \<Longrightarrow> count_list fs (CbClient n) = 0"
  by (auto simp: count_list_0_iff)

lemma count_member: "x \<in> set xs \<Longrightarrow> count_list xs x > 0"
  using count_list_0_iff [of xs x] by auto

lemma moves_keeps:
  assumes "moves proc w c c'" shows "keeps proc w [] c c' \<and> dialog (ct_state c) (ct_state c')"
proof -
  obtain fs where fs: "flow proc fs c c'" "set fs \<subseteq> {CbInitializer} \<union> others w"
    "init_state (ct_state c') \<longrightarrow> \<not> ct_fault c' \<longrightarrow> CbInitializer \<in> set fs"
    using assms by (auto simp: moves_def)
  have "owed CbInitializer c' > 0" if n: "\<not> ct_fault c'" "init_state (ct_state c')"
    using flow_settled [OF fs(1) n(1), of CbInitializer] count_member [of CbInitializer fs] fs(3) n by simp
  then have "keeps proc w [] c c'"
    using assms count_others [OF fs(2)] by (intro flow_keeps [OF fs(1)] flow_sound [OF fs(1)]) (simp_all add: moves_def)
  then show ?thesis using assms by (simp add: moves_def)
qed

text \<open>A callback taken off the books and called.\<close>

fun client_of :: "completion \<Rightarrow> completion list" where
  "client_of (CbClient n) = [CbClient n]"
| "client_of _ = []"

lemma done_flow: "flow proc [CbClient n] c (ct_out [OutDone n result reply] c)"
  by (auto simp: flow_def ct_out_def queue_ok_def busy_def coherent_def radio_ok_def settled_def owed_def completed_def elim!: tracked.elims)

lemma initializer_cb_moves: "moves proc w c (initializer_cb w result reply c)"
proof -
  have "moves proc w c (set_state CTL_STATE_DEVICE_OFF c)" if "ct_state c \<noteq> CTL_STATE_DEVICE_DISC"
    using that by (intro movesI [of proc "[]"]) (auto simp: init_state_def set_state_flow)
  moreover have "moves proc w c c" if "ct_state c = CTL_STATE_DEVICE_DISC"
    using that by (simp add: moves_refl init_state_def)
  ultimately show ?thesis by (auto simp: initializer_cb_def initializer_step_moves)
qed

lemma heartbeat_completed_cb_cases:
  "heartbeat_completed_cb w result c = c \<or> moves proc w c (heartbeat_completed_cb w result c)"
proof -
  have "moves proc w c (set_state CTL_STATE_DEVICE_OFF c)" if "ct_state c = CTL_STATE_OK"
    using that by (intro movesI [of proc "[]"]) (auto simp: init_state_def set_state_flow)
  then show ?thesis by (cases result) (auto simp: heartbeat_completed_cb_def initializer_step_moves)
qed

lemma complete_client:
  "keeps proc w [CbClient n] c (complete w (CbClient n) result reply c) \<and> ct_state (complete w (CbClient n) result reply c) = ct_state c"
proof -
  let ?as = "react w n result reply" and ?c1 = "ct_out [OutDone n result reply] c"
  have a: "performs proc (concat (map api_cbs ?as)) ?c1 (fold do_api ?as ?c1)" by (rule do_apis_acts)
  have s: "set (concat (map api_cbs ?as)) \<subseteq> others w" by (auto simp: others_def)
  have "performs proc [CbClient n] c ?c1" using done_flow by (simp add: performs_def ct_out_def)
  from performs_trans [OF this a] have "performs proc (CbClient n # concat (map api_cbs ?as)) c (complete w (CbClient n) result reply c)" by simp
  moreover have "CbClient m \<notin> others w \<Longrightarrow> count_list (concat (map api_cbs ?as)) (CbClient m) = 0" for m
    using count_others [of "concat (map api_cbs ?as)"] s by blast
  ultimately show ?thesis using performs_keeps by (fastforce simp: keeps_def)
qed

lemma complete_keeps:
  "keeps proc w (client_of f) c (complete w f result reply c) \<and> dialog (ct_state c) (ct_state (complete w f result reply c))"
proof (cases f)
  case CbGeneric
  then show ?thesis by (simp add: keeps_refl)
next
  case CbInitializer
  then show ?thesis using moves_keeps [OF initializer_cb_moves] by simp
next
  case CbHeartbeat
  then show ?thesis using heartbeat_completed_cb_cases [of w result c proc] moves_keeps [of proc w c] by (auto simp: keeps_refl)
next
  case (CbFreq r)
  have "performs proc [] c (complete w f result reply c)" unfolding CbFreq by (rule performs_upd) (simp_all add: send_cat_freq_info_cb_def core_def)
  then show ?thesis using performs_keeps CbFreq by fastforce
next
  case CbMode
  have "performs proc [] c (complete w f result reply c)" unfolding CbMode by (rule performs_upd) (simp_all add: radio_info_mode_cb_def core_def)
  then show ?thesis using performs_keeps CbMode by fastforce
next
  case (CbClient n)
  then show ?thesis using complete_client [of proc w n c result reply] by simp
qed


lemma complete_disc: "ct_state c = CTL_STATE_DEVICE_DISC \<Longrightarrow> ct_cmds (complete w f result reply c) = ct_cmds c"
proof (cases f)
  case (CbClient n)
  assume st: "ct_state c = CTL_STATE_DEVICE_DISC"
  have "performs (\<lambda>c u b. b) (concat (map api_cbs (react w n result reply))) (ct_out [OutDone n result reply] c) (complete w f result reply c)"
    using do_apis_acts by (simp add: CbClient)
  then show ?thesis using st by (simp add: performs_def ct_out_def is_connected_def)
qed (auto simp: initializer_cb_def heartbeat_completed_cb_def send_cat_freq_info_cb_def radio_info_mode_cb_def split: cmd_result.split)

section \<open>A command leaves the queue\<close>

lemma calm_init: "moves proc w c c' \<Longrightarrow> queue_ok c \<and> coherent c \<and> radio_ok c \<and> reachable proc (ct_router c) \<Longrightarrow> sound proc c'"
proof -
  assume m: "moves proc w c c'" and c: "queue_ok c \<and> coherent c \<and> radio_ok c \<and> reachable proc (ct_router c)"
  obtain fs where fs: "flow proc fs c c'" "init_state (ct_state c') \<longrightarrow> \<not> ct_fault c' \<longrightarrow> CbInitializer \<in> set fs"
    using m by (auto simp: moves_def)
  have "owed CbInitializer c' > 0" if n: "\<not> ct_fault c'" "init_state (ct_state c')"
    using flow_settled [OF fs(1) n(1), of CbInitializer] count_member [of CbInitializer fs] fs(2) n by simp
  with fs(1) c show ?thesis by (simp add: flow_def sound_def)
qed

lemma complete_head_keeps:
  fixes w :: world and result :: cmd_result and reply :: "byte list option"
  assumes q: "ct_cmds c = cm # rest" and s: "sound proc c"
  defines "c' \<equiv> complete_head w cm result reply (c\<lparr>ct_cmd_timer := False\<rparr>)"
  shows "sound proc c' \<and> (ct_fault c \<longrightarrow> ct_fault c') \<and> dialog (ct_state c) (ct_state c') \<and>
    (ct_state c = CTL_STATE_DEVICE_DISC \<longrightarrow> ct_cmds c' = rest) \<and>
    (\<not> ct_fault c' \<longrightarrow> (\<forall>n. CbClient n \<notin> others w \<longrightarrow> settled (CbClient n) c' = settled (CbClient n) c))"
proof -
  define c0 where "c0 = c\<lparr>ct_cmd_timer := False, ct_cmds := rest\<rparr>"
  define c1 where "c1 = complete w (cmd_cb cm) result reply c0"
  have c': "c' = c1\<lparr>ct_free := ct_free c1 @ [cm]\<rparr>" by (simp add: c'_def complete_head_def Let_def c1_def c0_def q)
  have a: "performs proc [] c1 c'" unfolding c' by (rule performs_upd) (simp_all add: core_def)
  have calm: "queue_ok c0 \<and> coherent c0 \<and> radio_ok c0 \<and> reachable proc (ct_router c0)"
    using s q by (cases rest) (auto simp: sound_def queue_ok_def coherent_def radio_ok_def c0_def)
  have owed0: "owed f c0 + (if cmd_cb cm = f then 1 else 0) = owed f c" for f by (simp add: owed_def c0_def q)
  have k: "keeps proc w (client_of (cmd_cb cm)) c0 c1 \<and> dialog (ct_state c0) (ct_state c1)"
    unfolding c1_def by (rule complete_keeps)
  have s1: "sound proc c1"
  proof (cases "cmd_cb cm = CbInitializer")
    case True
    then show ?thesis using calm_init [OF initializer_cb_moves calm] by (simp add: c1_def)
  next
    case False
    then have "owed CbInitializer c0 = owed CbInitializer c" using owed0 [of CbInitializer] by simp
    with s calm have "sound proc c0" by (simp add: sound_def c0_def)
    with k show ?thesis by (simp add: keeps_def)
  qed
  have f0: "ct_fault c \<longrightarrow> ct_fault c1" using k by (simp add: keeps_def c0_def)
  have "settled (CbClient n) c' = settled (CbClient n) c" if n: "\<not> ct_fault c'" "CbClient n \<notin> others w" for n
  proof -
    have "settled (CbClient n) c1 = settled (CbClient n) c0 + count_list (client_of (cmd_cb cm)) (CbClient n)"
      using k n by (simp add: keeps_def c')
    moreover have "completed (CbClient n) c0 = completed (CbClient n) c" by (simp add: completed_def c0_def)
    moreover have "count_list (client_of (cmd_cb cm)) (CbClient n) = (if cmd_cb cm = CbClient n then 1 else 0)" by (cases "cmd_cb cm") auto
    moreover have "settled (CbClient n) c' = settled (CbClient n) c1" by (simp add: c' settled_def owed_def completed_def)
    ultimately show ?thesis using owed0 [of "CbClient n"] by (simp add: settled_def)
  qed
  moreover have "sound proc c'" using performs_keeps [OF a] s1 by (simp add: keeps_def)
  moreover have "ct_state c = CTL_STATE_DEVICE_DISC \<longrightarrow> ct_cmds c' = rest" using complete_disc [of c0] by (simp add: c' c1_def c0_def)
  ultimately show ?thesis using f0 k by (simp add: c' c0_def)
qed


section \<open>Events\<close>

definition ctl_ok :: "(cb \<Rightarrow> user \<Rightarrow> buffer \<Rightarrow> buffer) \<Rightarrow> mhc \<Rightarrow> bool" where
  "ctl_ok proc c \<longleftrightarrow> sound proc c \<and> busy c \<and> (ct_state c = CTL_STATE_DEVICE_DISC \<longrightarrow> ct_cmds c = [])"

text \<open>The callbacks that an event asks for; a speed without a baud rate is dropped with its callback.\<close>

fun asked :: "ctl_event \<Rightarrow> completion list" where
  "asked (EvApi a) = api_cbs a"
| "asked (EvSetSpeed ch n cb) =
     (if 0 \<le> ch \<and> ch < MH_NUM_CHANNELS \<and> cfg_get_float_val n ''baud'' (-1) = -1 then [] else cbs (client cb))"
| "asked _ = []"

text \<open>An event that ends with the queue going on.\<close>

definition handles :: "(cb \<Rightarrow> user \<Rightarrow> buffer \<Rightarrow> buffer) \<Rightarrow> world \<Rightarrow> completion list \<Rightarrow> mhc \<Rightarrow> mhc \<Rightarrow> bool" where
  "handles proc w gs c c' \<longleftrightarrow> ctl_ok proc c' \<and> (ct_fault c \<longrightarrow> ct_fault c') \<and>
     (\<not> ct_fault c' \<longrightarrow> (\<forall>n. CbClient n \<notin> others w \<longrightarrow> settled (CbClient n) c' = settled (CbClient n) c + count_list gs (CbClient n)))"

lemma keeps_handles:
  assumes "keeps proc w gs c c'" "dialog (ct_state c) (ct_state c')" "ctl_ok proc c"
  shows "handles proc w gs c c'"
  using assms by (auto simp: keeps_def handles_def ctl_ok_def sound_def dest: dialog_disc)

lemma performs_handles: "performs proc gs c c' \<Longrightarrow> ctl_ok proc c \<Longrightarrow> handles proc w gs c c' \<and> ct_state c' = ct_state c"
  using keeps_handles [of proc w gs c c'] performs_keeps [of proc gs c c' w] by simp

lemma push_keeps: "keeps proc w [] c (push_cmds c)"
proof (rule flow_keeps [where fs = "[]"])
  note f = push_cmds_flow [of proc c]
  then show "flow proc [] c (push_cmds c)" by blast
  show "sound proc c \<Longrightarrow> sound proc (push_cmds c)" using flow_same_sound f by blast
qed (simp_all add: push_cmds.simps [of c])

text \<open>Between the handler and the final \<^verbatim>\<open>push_cmds\<close>.\<close>

definition mid :: "(cb \<Rightarrow> user \<Rightarrow> buffer \<Rightarrow> buffer) \<Rightarrow> world \<Rightarrow> completion list \<Rightarrow> mhc \<Rightarrow> mhc \<Rightarrow> bool" where
  "mid proc w gs c c' \<longleftrightarrow> sound proc c' \<and> (ct_fault c \<longrightarrow> ct_fault c') \<and> dialog (ct_state c) (ct_state c') \<and>
     (ct_state c' = CTL_STATE_DEVICE_DISC \<longrightarrow> ct_cmds c' = []) \<and>
     (\<not> ct_fault c' \<longrightarrow> (\<forall>n. CbClient n \<notin> others w \<longrightarrow> settled (CbClient n) c' = settled (CbClient n) c + count_list gs (CbClient n)))"

lemma mid_push: "mid proc w gs c c1 \<Longrightarrow> handles proc w gs c (push_cmds c1) \<and> dialog (ct_state c) (ct_state (push_cmds c1))"
  using push_keeps [of proc w c1] push_cmds_flow [of proc c1]
  by (auto simp: mid_def handles_def keeps_def ctl_ok_def)

lemma mid_head:
  assumes "ct_cmds c = cm # rest" "ctl_ok proc c"
  shows "mid proc w [] c (complete_head w cm result reply (c\<lparr>ct_cmd_timer := False\<rparr>))"
  using complete_head_keeps [of c cm rest proc w result reply] assms by (auto simp: ctl_ok_def mid_def dest: dialog_disc)

lemma mid_keeps:
  assumes "keeps proc w gs c c'" "dialog (ct_state c) (ct_state c')" "ctl_ok proc c" shows "mid proc w gs c c'"
  using assms by (auto simp: keeps_def mid_def ctl_ok_def dest: dialog_disc)

lemma mid_step:
  assumes "mid proc w gs c c1" "ct_state c1 = CTL_STATE_DEVICE_OFF" shows "mid proc w gs c (initializer_step w reply c1)"
proof -
  have "keeps proc w [] c1 (initializer_step w reply c1)" "dialog (ct_state c1) (ct_state (initializer_step w reply c1))"
    using moves_keeps [OF initializer_step_moves] by blast+
  then show ?thesis using assms dialog_off by (auto simp: keeps_def mid_def dest: dialog_disc)
qed

lemma performs_mid: "performs proc gs c c' \<Longrightarrow> ctl_ok proc c \<Longrightarrow> mid proc w gs c c'"
  using performs_keeps [of proc gs c c' w] by (intro mid_keeps) simp_all

section \<open>Reports\<close>

lemma process_keyer_states_acts: "performs proc [] c (process_keyer_states data c)"
proof -
  have focus: "performs proc [] (c\<lparr>ct_state_buf := b\<rparr>) (ct_out (map (\<lambda>u. OutMok u x) us) (c\<lparr>ct_state_buf := b, ct_router := mhr_set_wk_tx_focus (ct_router c) f\<rparr>))" for b x us f
  proof (rule performs_then [OF performs_router])
    show "reachable proc (ct_router (c\<lparr>ct_state_buf := b\<rparr>)) \<longrightarrow> reachable proc (mhr_set_wk_tx_focus (ct_router c) f)"
      by (auto intro: reachable.step rstep.focus)
    show "performs proc [] (c\<lparr>ct_state_buf := b\<rparr>\<lparr>ct_router := mhr_set_wk_tx_focus (ct_router c) f\<rparr>)
        (ct_out (map (\<lambda>u. OutMok u x) us) (c\<lparr>ct_state_buf := b, ct_router := mhr_set_wk_tx_focus (ct_router c) f\<rparr>))"
      by (rule performs_out) simp
  qed
  have buf: "performs proc [] c (c\<lparr>ct_state_buf := b\<rparr>)" "performs proc [] c (c\<lparr>ct_acc_state := b\<rparr>)" for b
    by (rule performs_upd; simp add: core_def)+
  show ?thesis
    unfolding process_keyer_states_def Let_def
    by (auto split: option.split intro!: buf performs_then [OF buf(1) focus] performs_then [OF buf(1) performs_fault] performs_then [OF buf(2) performs_out])
qed

lemma keyer_mode_report_acts: "performs proc [] c (keyer_mode_report f c)"
proof -
  have kopts: "performs proc [] c (if b then mhc_load_kopts None c else c)" for b c
    using load_kopts_acts [of proc None] by simp
  have modes: "performs proc [] c (ct_out (map (\<lambda>u. OutMode u x y z) us) c)" "performs proc [] c (ct_out [OutEvMode x y z] c)" for x y z us c
    by (rule performs_out, simp)+
  have cfg: "performs proc [] c (case ct_kcfg c of None \<Rightarrow> c | Some k \<Rightarrow> (case g k of None \<Rightarrow> fault c | Some k' \<Rightarrow> ct_out [OutEvMode x y z] (c\<lparr>ct_kcfg := Some k'\<rparr>)))"
    for c g x y z
  proof -
    have "performs proc [] c (ct_out [OutEvMode x y z] (c\<lparr>ct_kcfg := k\<rparr>))" for k
      by (rule performs_after [OF modes(2)]) (simp_all add: core_def)
    then show ?thesis by (simp split: option.split)
  qed
  show ?thesis
    unfolding keyer_mode_report_def Let_def
    by (rule performs_then [OF performs_then [OF performs_then [OF performs_upd cfg] kopts] modes(1)]) (simp_all add: core_def)
qed


section \<open>Each event\<close>

lemma calm_restart:
  assumes "sound proc c" "ct_state c = CTL_STATE_OK"
  shows "sound proc (initializer_step w None (set_state CTL_STATE_SET_CHANNELS c))"
proof -
  let ?c = "set_state CTL_STATE_SET_CHANNELS c"
  have "queue_ok ?c \<and> coherent ?c \<and> radio_ok ?c \<and> reachable proc (ct_router ?c)"
    using assms(1) set_state_flow [of proc c CTL_STATE_SET_CHANNELS] set_state_coherent by (simp add: sound_def flow_def)
  from calm_init [OF initializer_step_moves this] show ?thesis .
qed

lemma mid_restart:
  assumes ok: "ctl_ok proc c" and st: "ct_state c = CTL_STATE_OK"
  shows "mid proc w [] c (initializer_step w None (set_state CTL_STATE_SET_CHANNELS c))"
proof -
  let ?c = "set_state CTL_STATE_SET_CHANNELS c" and ?c' = "initializer_step w None (set_state CTL_STATE_SET_CHANNELS c)"
  have s: "sound proc ?c'" using calm_restart ok st by (simp add: ctl_ok_def)
  have k: "keeps proc w [] ?c ?c'" "dialog (ct_state ?c) (ct_state ?c')" using moves_keeps [OF initializer_step_moves] by blast+
  have "settled (CbClient n) ?c = settled (CbClient n) c" for n
    by (simp add: settled_def owed_def completed_def) (auto simp: set_state_def ct_out_def Let_def filter_empty_conv)
  with s k st dialog_restart dialog_disc [OF k(2)] show ?thesis by (auto simp: mid_def keeps_def)
qed

lemma control_report_mid: "ctl_ok proc c \<Longrightarrow> mid proc w [] c (control_report w data c)"
  by (auto simp: control_report_def mid_restart intro!: performs_mid process_keyer_states_acts keyer_mode_report_acts)

lemma control_event:
  assumes ok: "ctl_ok proc c"
  shows "handles proc w [] c (control_channel_cb w data c) \<and> dialog (ct_state c) (ct_state (control_channel_cb w data c))"
proof (cases "data = []")
  case True
  then show ?thesis using performs_handles [OF performs_fault ok] by (simp add: control_channel_cb_def fault_def)
next
  case False
  define c1 where "c1 = (case ct_cmds c of [] \<Rightarrow> control_report w data c
    | cm # _ \<Rightarrow>
        if cmd_sent cm \<and> data ! 0 = cmd_bytes cm ! 0 then complete_head w cm CMD_RESULT_OK (Some data) (c\<lparr>ct_cmd_timer := False\<rparr>)
        else if cmd_sent cm \<and> data ! 0 = MHCMD_NOT_SUPPORTED then
          complete_head w cm CMD_RESULT_NOT_SUPPORTED (Some data) (c\<lparr>ct_cmd_timer := False\<rparr>)
        else control_report w data c)"
  have "mid proc w [] c c1"
    unfolding c1_def by (cases "ct_cmds c") (simp_all add: mid_head [OF _ ok] control_report_mid [OF ok])
  then have "mid proc w [] c (if ct_state c1 = CTL_STATE_DEVICE_OFF then initializer_step w None c1 else c1)"
    using mid_step [of proc w "[]" c c1] by simp
  from mid_push [OF this] show ?thesis
    using False by (simp add: control_channel_cb_def Let_def c1_def [symmetric])
qed

lemma flags_acts: "performs proc [] c (flags_cb data c)"
proof -
  have "performs proc [] c (flags_byte d c)" for d c
  proof -
    have flag: "performs proc [] c (c\<lparr>ct_flag_r1 := d\<rparr>)" "performs proc [] c (c\<lparr>ct_flag_r2 := d\<rparr>)" for c by (rule performs_upd; simp add: core_def)+
    show ?thesis by (auto simp: flags_byte_def Let_def intro!: flag performs_then [OF performs_out flag(1)] performs_then [OF performs_out flag(2)])
  qed
  then show ?thesis by (simp add: flags_cb_def performs_fold)
qed

lemma timeout_event:
  assumes ok: "ctl_ok proc c" and t: "ct_cmd_timer c"
  shows "handles proc w [] c (cmd_timeout_cb w c) \<and> dialog (ct_state c) (ct_state (cmd_timeout_cb w c))"
proof -
  obtain cm rest where q: "ct_cmds c = cm # rest" "cmd_sent cm"
    using ok t by (cases "ct_cmds c") (auto simp: ctl_ok_def sound_def queue_ok_def)
  then show ?thesis using mid_push [OF mid_head [OF q(1) ok]] by (simp add: cmd_timeout_cb_def Let_def)
qed

lemma heartbeat_event:
  assumes ok: "ctl_ok proc c" and t: "ct_heartbeat c"
  shows "handles proc w [] c (heartbeat_cb c) \<and> ct_state (heartbeat_cb c) = ct_state c"
proof -
  have st: "ct_state c \<noteq> CTL_STATE_DEVICE_DISC" using ok t by (simp add: ctl_ok_def sound_def coherent_def)
  have f: "flow proc [CbHeartbeat] c (heartbeat_cb c)"
    using submit_simple_flow [of MHCMD_ARE_YOU_THERE proc "Some CbHeartbeat"] by (simp add: heartbeat_cb_def)
  have s: "ct_state (heartbeat_cb c) = ct_state c" by (simp add: heartbeat_cb_def submit_simple_state)
  have "keeps proc w [] c (heartbeat_cb c)"
    by (rule flow_keeps [OF f flow_same_sound [OF f s]]) (use st in simp_all)
  then show ?thesis using keeps_handles [OF _ _ ok] s by simp
qed


lemma count_remove_nth: "i < length xs \<Longrightarrow> count_list (map f (remove_nth i xs)) y + (if f (xs ! i) = y then 1 else 0) = count_list (map f xs) y"
  using arg_cong [OF id_take_nth_drop [of i xs], of "\<lambda>l. count_list (map f l) y"] by (simp add: remove_nth_def)

lemma deferred_event:
  assumes ok: "ctl_ok proc c" and i: "i < length (ct_deferred c)"
  shows "handles proc w [] c (handle_deferred w i c) \<and> dialog (ct_state c) (ct_state (handle_deferred w i c))"
proof -
  obtain f result where d: "ct_deferred c ! i = (f, result)" by fastforce
  define c0 where "c0 = c\<lparr>ct_deferred := remove_nth i (ct_deferred c)\<rparr>"
  define c' where "c' = complete w f result (Some []) c0"
  have e: "handle_deferred w i c = c'" by (simp add: handle_deferred_def d c'_def c0_def)
  have calm: "queue_ok c0 \<and> coherent c0 \<and> radio_ok c0 \<and> reachable proc (ct_router c0)"
    using ok by (simp add: ctl_ok_def sound_def queue_ok_def coherent_def radio_ok_def c0_def)
  have owed0: "owed g c0 + (if f = g then 1 else 0) = owed g c" for g
    using count_remove_nth [OF i, of fst g] by (simp add: owed_def c0_def d)
  have k: "keeps proc w (client_of f) c0 c'" "dialog (ct_state c0) (ct_state c')" unfolding c'_def using complete_keeps by blast+
  have s: "sound proc c'"
  proof (cases "f = CbInitializer")
    case True
    then show ?thesis using calm_init [OF initializer_cb_moves calm] by (simp add: c'_def)
  next
    case False
    then have "sound proc c0" using calm ok owed0 [of CbInitializer] by (simp add: ctl_ok_def sound_def c0_def)
    with k show ?thesis by (simp add: keeps_def)
  qed
  have "settled (CbClient n) c' = settled (CbClient n) c" if n: "\<not> ct_fault c'" "CbClient n \<notin> others w" for n
  proof -
    have "settled (CbClient n) c' = settled (CbClient n) c0 + count_list (client_of f) (CbClient n)" using k n by (simp add: keeps_def)
    moreover have "completed (CbClient n) c0 = completed (CbClient n) c" by (simp add: completed_def c0_def)
    moreover have "count_list (client_of f) (CbClient n) = (if f = CbClient n then 1 else 0)" by (cases f) auto
    ultimately show ?thesis using owed0 [of "CbClient n"] by (simp add: settled_def)
  qed
  with s k ok calm show ?thesis
    by (auto simp: e handles_def ctl_ok_def keeps_def c0_def busy_def dest: dialog_disc)
qed

lemma radio_timeout_acts: "flow proc [] c (radio_info_timeout_cb radio c) \<and> ct_state (radio_info_timeout_cb radio c) = ct_state c \<and>
    (\<not> is_connected c \<longrightarrow> ct_cmds (radio_info_timeout_cb radio c) = ct_cmds c)"
proof -
  define c1 where "c1 = c\<lparr>ct_radio_valid := (ct_radio_valid c)(radio - 1 := False), ct_radio_timer := (ct_radio_timer c)(radio - 1 := False)\<rparr>"
  have "flow proc [] c c1"
    by (auto simp: c1_def flow_def queue_ok_def busy_def coherent_def radio_ok_def settled_def owed_def completed_def)
  moreover have "performs proc [] c1 (radio_info_timeout_cb radio c)"
    using performs_then [OF set_force_keyer_mode_acts publish_acts] by (simp add: radio_info_timeout_cb_def Let_def c1_def)
  ultimately show ?thesis using flow_then [OF _ performs_flow] by (auto simp: performs_def c1_def is_connected_def)
qed

lemma set_speed_acts: "performs proc (asked (EvSetSpeed ch n cb)) c (mhc_set_speed ch n cb c)"
proof (cases "ch < 0 \<or> ch \<ge> MH_NUM_CHANNELS \<or> cfg_get_float_val n ''baud'' (-1) = -1")
  case True
  then show ?thesis by (auto simp: mhc_set_speed_def intro: performs_defer)
next
  case False
  define c1 where "c1 = c\<lparr>ct_speed_args := (ct_speed_args c)(ch := Some n), ct_speed_params := (ct_speed_params c)(ch := speed_params_from_cfg n),
    ct_speed_valid := (ct_speed_valid c)(ch := True)\<rparr>"
  have a: "performs proc [] c c1" unfolding c1_def by (rule performs_upd) (simp_all add: core_def)
  have o: "performs proc [CbClient i] c1 (ct_out [OutDone i r x] c1)" for i r x using done_flow by (simp add: performs_def ct_out_def)
  have "performs proc (cbs (client cb)) c1 (if mhc_is_online c1 then submit_speed_cmd ch (client cb) c1
      else (case cb of None \<Rightarrow> c1 | Some i \<Rightarrow> ct_out [OutDone i CMD_RESULT_OK (Some [])] c1))"
    using submit_speed_cmd_acts(1) o by (auto split: option.split)
  moreover have "mhc_set_speed ch n cb c = (if mhc_is_online c1 then submit_speed_cmd ch (client cb) c1
      else (case cb of None \<Rightarrow> c1 | Some i \<Rightarrow> ct_out [OutDone i CMD_RESULT_OK (Some [])] c1))"
    using False by (simp add: mhc_set_speed_def Let_def c1_def split: option.split)
  moreover have "asked (EvSetSpeed ch n cb) = cbs (client cb)" using False by auto
  ultimately show ?thesis using performs_then [OF a] by simp
qed

section \<open>Disconnection\<close>

text \<open>A flush while disconnected takes as many rounds as there are commands.\<close>

lemma flush_loop_ends:
  "ct_state c = CTL_STATE_DEVICE_DISC \<Longrightarrow> sound proc c \<Longrightarrow> \<not> ct_cmd_timer c \<Longrightarrow> length (ct_cmds c) \<le> n \<Longrightarrow>
   \<exists>c'. flush_loop n w result c = Some c' \<and> ct_cmds c' = [] \<and> ct_state c' = CTL_STATE_DEVICE_DISC \<and> sound proc c' \<and> (ct_fault c \<longrightarrow> ct_fault c') \<and>
     (\<not> ct_fault c' \<longrightarrow> (\<forall>n. CbClient n \<notin> others w \<longrightarrow> settled (CbClient n) c' = settled (CbClient n) c))"
proof (induction n arbitrary: c)
  case 0
  then show ?case by simp
next
  case (Suc n)
  show ?case
  proof (cases "ct_cmds c")
    case Nil
    then show ?thesis using Suc.prems by simp
  next
    case (Cons cm rest)
    define c1 where "c1 = complete_head w cm result None c"
    have t: "c\<lparr>ct_cmd_timer := False\<rparr> = c" using Suc.prems(3) by simp
    note h = complete_head_keeps [OF Cons Suc.prems(2), of w result None, unfolded t, folded c1_def]
    have st: "ct_state c1 = CTL_STATE_DEVICE_DISC" using h Suc.prems(1) by simp
    have q: "ct_cmds c1 = rest" using h Suc.prems(1) by simp
    have rest: "\<not> cmd_sent (hd rest)" if "rest \<noteq> []"
      using Suc.prems(2) Cons that by (simp add: sound_def queue_ok_def)
    have "queue_ok c1" using h by (simp add: sound_def)
    then have "\<not> ct_cmd_timer c1" using q rest by (auto simp: queue_ok_def)
    with Suc.IH [of c1] st q h Suc.prems(4) Cons obtain c' where
      "flush_loop n w result c1 = Some c' \<and> ct_cmds c' = [] \<and> ct_state c' = CTL_STATE_DEVICE_DISC \<and> sound proc c' \<and> (ct_fault c1 \<longrightarrow> ct_fault c') \<and>
       (\<not> ct_fault c' \<longrightarrow> (\<forall>n. CbClient n \<notin> others w \<longrightarrow> settled (CbClient n) c' = settled (CbClient n) c1))" by auto
    with h Cons show ?thesis by (auto simp: c1_def)
  qed
qed


text \<open>What a submission leaves alone: the log and the radio information.\<close>

definition told :: "mhc \<Rightarrow> ctl_out list \<times> (nat \<Rightarrow> bool) \<times> (nat \<Rightarrow> radio_info) \<times> (nat \<Rightarrow> string)" where
  "told c = (ct_log c, ct_radio_valid c, ct_radio_info c, ct_radio_source c)"

definition dones :: "mhc \<Rightarrow> ctl_out list" where
  "dones c = filter reports_done (ct_log c)"

named_theorems told_simps

lemma told_core [told_simps]: "told (defer_callback cb r c) = told c" "told (fault c) = told c"
  by (simp_all add: told_def defer_callback_def fault_def split: option.split)

lemma told_send_cmd: "told (snd (send_cmd cm c)) = told c"
  by (auto simp: told_def send_cmd_def Let_def defer_callback_def split: prod.split)

lemma told_push_cmds: "told (push_cmds c) = told c"
  by (rule push_cmds_frame) (rule told_send_cmd)

lemma told_submit_cmd [told_simps]: "told (submit_cmd b cb c) = told c"
  by (simp add: submit_cmd_def Let_def told_push_cmds told_core) (simp add: told_def)

lemma told_load_kopts [told_simps]: "told (mhc_load_kopts cb c) = told c"
  by (auto simp: mhc_load_kopts_def told_simps split: option.split) (simp add: told_def)

lemma told_upd: "ct_log c' = ct_log c \<Longrightarrow> ct_radio_valid c' = ct_radio_valid c \<Longrightarrow> ct_radio_info c' = ct_radio_info c \<Longrightarrow>
    ct_radio_source c' = ct_radio_source c \<Longrightarrow> told c' = told c"
  by (simp add: told_def)

lemma told_submit_speed [told_simps]: "told (submit_speed ch fbaud st rtscts databits ext cb c) = told c"
  by (simp add: submit_speed_def Let_def told_simps split: option.split) (simp add: told_def)

lemma told_send_freqs: "told (fold (send_freq cm radio) es c) = told c"
proof (induction es arbitrary: c)
  case (Cons e es)
  have "told (send_freq cm radio e c) = told c" by (simp add: send_freq_def told_simps) (simp add: told_def)
  then show ?case using Cons by simp
qed simp

lemma told_force: "told (snd (set_force_keyer_mode radio en c)) = told c"
  by (auto simp: set_force_keyer_mode_def told_simps split: option.split) (simp add: told_def)

lemma told_request: "told (request_mode f i radio c) = told c"
  by (simp add: request_mode_def Let_def mhc_set_mode_def mhc_set_mode_on_radio_def told_simps) (simp add: told_def)

lemma told_freqs: "told (update_freqs i radio c) = told c"
  by (simp add: update_freqs_def send_cat_freq_info_def Let_def told_send_freqs) (simp add: told_def)

lemma told_do_api: "(\<And>s i. a \<noteq> ApiRadioInfo s i) \<Longrightarrow> told (do_api a c) = told c"
  by (cases a)
     (auto simp: mhc_set_speed_params_def mhc_mk2r_set_hfocus_def mhc_mk2r_set_acc_outputs_def mhc_mk2r_set_scenario_def
       mhc_sm_turn_to_azimuth_def mhc_sm_get_antsw_block_def mhc_sm_set_antsw_validity_def mhc_sm_store_antsw_block_def
       mhc_record_message_def mhc_stop_recording_def mhc_play_message_def mhc_abort_message_def mhc_store_cw_message_def
       mhc_store_fsk_message_def mhc_display_host_string_event_def mhc_dvk_state_def mhc_set_kopt_def mhc_set_cached_fw_version_def
       submit_speed_cmd_params_def submit_cmd_simple_def Let_def told_simps split: option.split intro!: told_upd)

text \<open>Radio information: what is stored, and that it is published when it is new.\<close>

lemma update_radio_info_told:
  fixes c :: mhc and src :: "string option"
  assumes r: "unat (ri_radio info) = radio" "radio \<in> {1, 2}"
  defines "i \<equiv> map_voice c info" and "c' \<equiv> mhc_update_radio_info src (Some info) c"
  shows "told c' = (ct_log c @ (if radio_info_news src i (radio - 1) c then [OutEvRadio radio True (take 15 (src_str src)) i] else []),
    (ct_radio_valid c)(radio - 1 := True), (ct_radio_info c)(radio - 1 := i), (ct_radio_source c)(radio - 1 := take 15 (src_str src)))"
proof -
  define c1 where "c1 = c\<lparr>ct_radio_timer := (ct_radio_timer c)(radio - 1 := True)\<rparr>"
  define c2 where "c2 = snd (set_force_keyer_mode radio 0 c1)"
  define c3 where "c3 = c2\<lparr>ct_radio_valid := (ct_radio_valid c2)(radio - 1 := True)\<rparr>"
  define c5 where "c5 = update_freqs i radio (request_mode (fst (set_force_keyer_mode radio 0 c1)) i radio c3)"
  define c6 where "c6 = c5\<lparr>ct_radio_info := (ct_radio_info c5)(radio - 1 := i), ct_radio_source := (ct_radio_source c5)(radio - 1 := take 15 (src_str src))\<rparr>"
  have c': "c' = (if radio_info_news src i (radio - 1) c2 then publish_radio_info radio c6 else c6)"
    using r by (auto simp: c'_def mhc_update_radio_info_def Let_def i_def c1_def c2_def c3_def c5_def c6_def split_def)
  have t2: "told c2 = told c" by (simp add: c2_def told_force) (simp add: told_def c1_def)
  have t5: "told c5 = told c3" by (simp add: c5_def told_freqs told_request)
  have "radio_info_news src i (radio - 1) c2 = radio_info_news src i (radio - 1) c" using t2 by (simp add: told_def radio_info_news_def)
  moreover have "told c6 = (ct_log c, (ct_radio_valid c)(radio - 1 := True), (ct_radio_info c)(radio - 1 := i), (ct_radio_source c)(radio - 1 := take 15 (src_str src)))"
    using t2 t5 by (simp add: told_def c3_def c6_def)
  ultimately show ?thesis by (simp add: c' publish_radio_info_def ct_out_def told_def)
qed

lemma dones_do_api: "dones (do_api a c) = dones c"
proof (cases a)
  case (ApiRadioInfo src inf)
  show ?thesis
  proof (cases inf)
    case None
    then show ?thesis by (simp add: ApiRadioInfo mhc_update_radio_info_def)
  next
    case (Some info)
    show ?thesis
    proof (cases "unat (ri_radio info) \<in> {1, 2}")
      case True
      from update_radio_info_told [OF refl this, where c = c and src = src] show ?thesis by (simp add: ApiRadioInfo Some told_def dones_def)
    next
      case False
      then have "unat (ri_radio info) < 1 \<or> unat (ri_radio info) > 2" by auto
      then show ?thesis by (simp add: ApiRadioInfo Some mhc_update_radio_info_def Let_def)
    qed
  qed
qed (use told_do_api [of a c] in \<open>simp_all add: told_def dones_def\<close>)

lemma dones_fold: "(\<And>x c. dones (g x c) = dones c) \<Longrightarrow> dones (fold g xs c) = dones c"
  by (induction xs arbitrary: c) auto

fun done_with :: "cmd_result \<Rightarrow> completion \<Rightarrow> ctl_out list" where
  "done_with result (CbClient n) = [OutDone n result None]"
| "done_with result _ = []"

lemma dones_complete_disc: "ct_state c = CTL_STATE_DEVICE_DISC \<Longrightarrow> dones (complete w f result None c) = dones c @ done_with result f"
proof (cases f)
  case (CbClient n)
  have "dones (complete w f result None c) = dones (ct_out [OutDone n result None] c)" by (simp add: CbClient dones_fold dones_do_api)
  then show ?thesis by (simp add: CbClient dones_def ct_out_def)
qed (auto simp: initializer_cb_def heartbeat_completed_cb_def send_cat_freq_info_cb_def radio_info_mode_cb_def dones_def split: cmd_result.split)

lemma dones_flush:
  "ct_state c = CTL_STATE_DEVICE_DISC \<Longrightarrow> flush_loop n w result c = Some c' \<Longrightarrow>
   dones c' = dones c @ concat (map (done_with result \<circ> cmd_cb) (ct_cmds c))"
proof (induction n arbitrary: c)
  case 0
  then show ?case by (simp split: if_splits)
next
  case (Suc n)
  show ?case
  proof (cases "ct_cmds c")
    case Nil
    then show ?thesis using Suc.prems by simp
  next
    case (Cons cm rest)
    define c0 where "c0 = c\<lparr>ct_cmds := rest\<rparr>"
    define c1 where "c1 = complete_head w cm result None c"
    have c1: "c1 = (let d = complete w (cmd_cb cm) result None c0 in d\<lparr>ct_free := ct_free d @ [cm]\<rparr>)"
      by (simp add: c1_def complete_head_def c0_def Cons)
    have st0: "ct_state c0 = CTL_STATE_DEVICE_DISC" using Suc.prems(1) by (simp add: c0_def)
    have "ct_state (complete w (cmd_cb cm) result None c0) = CTL_STATE_DEVICE_DISC"
      using complete_keeps [where c = c0 and f = "cmd_cb cm" and w = w and result = result and reply = None] st0 by (auto dest: dialog_disc)
    then have st: "ct_state c1 = CTL_STATE_DEVICE_DISC" by (simp add: c1 Let_def)
    have q: "ct_cmds c1 = rest" using complete_disc [OF st0] by (simp add: c1 Let_def c0_def)
    have d: "dones c1 = dones c @ done_with result (cmd_cb cm)"
      using dones_complete_disc [OF st0] by (simp add: c1 Let_def dones_def c0_def)
    from Suc.prems(2) Cons have "flush_loop n w result c1 = Some c'" by (simp add: c1_def)
    from Suc.IH [OF st this] show ?thesis by (simp add: q d Cons)
  qed
qed

lemma settled_set_state [simp]: "settled (CbClient n) (set_state st c) = settled (CbClient n) c"
  by (simp add: settled_def owed_def completed_def) (auto simp: set_state_def ct_out_def Let_def filter_empty_conv)

lemma sound_set_state: "sound proc c \<Longrightarrow> \<not> init_state st \<Longrightarrow> sound proc (set_state st c)"
  using set_state_flow [of proc c st] set_state_coherent [of st c] by (simp add: sound_def flow_def)

lemma disconnect_event:
  assumes ok: "ctl_ok proc c" and n: "length (ct_cmds c) \<le> n"
  shows "\<exists>c'. router_status_cb n w MHROUTER_DISCONNECTED c = Some c' \<and> ct_cmds c' = [] \<and> ct_state c' = CTL_STATE_DEVICE_DISC \<and>
    handles proc w [] c c' \<and> dones c' = dones c @ concat (map (done_with CMD_RESULT_OFFLINE \<circ> cmd_cb) (ct_cmds c))"
proof -
  define s where "s = set_state CTL_STATE_DEVICE_DISC c"
  define s0 where "s0 = s\<lparr>ct_cmd_timer := False\<rparr>"
  have s: "sound proc s" using sound_set_state ok by (simp add: s_def init_state_def ctl_ok_def)
  have fields: "ct_state s = CTL_STATE_DEVICE_DISC" "ct_cmds s = ct_cmds c" "ct_fault s = ct_fault c" "settled (CbClient m) s = settled (CbClient m) c" for m
    by (simp_all add: s_def)
  have dones: "dones s0 = dones c" by (auto simp: s0_def s_def dones_def set_state_def ct_out_def Let_def filter_empty_conv)
  have e: "router_status_cb n w MHROUTER_DISCONNECTED c = flush_loop n w CMD_RESULT_OFFLINE s0"
    by (simp add: router_status_cb_def flush_cmds_def s_def s0_def)
  have "\<exists>c'. flush_loop n w CMD_RESULT_OFFLINE s0 = Some c' \<and> ct_cmds c' = [] \<and> ct_state c' = CTL_STATE_DEVICE_DISC \<and> sound proc c' \<and>
      (ct_fault c \<longrightarrow> ct_fault c') \<and> (\<not> ct_fault c' \<longrightarrow> (\<forall>n. CbClient n \<notin> others w \<longrightarrow> settled (CbClient n) c' = settled (CbClient n) c))"
  proof (cases "ct_cmds c")
    case Nil
    have t: "\<not> ct_cmd_timer s" using s Nil fields by (simp add: sound_def queue_ok_def)
    then have "s0 = s" by (simp add: s0_def)
    moreover have "flush_loop n w CMD_RESULT_OFFLINE s = Some s" using Nil fields(2) by (cases n) simp_all
    ultimately show ?thesis using s Nil fields by simp
  next
    case (Cons cm rest)
    then obtain k where k: "n = Suc k" "length rest \<le> k" using n by (cases n) auto
    define c1 where "c1 = complete_head w cm CMD_RESULT_OFFLINE None s0"
    have q: "ct_cmds s = cm # rest" using Cons fields by simp
    note h = complete_head_keeps [OF q s, of w CMD_RESULT_OFFLINE None, folded s0_def, folded c1_def]
    have st: "ct_state c1 = CTL_STATE_DEVICE_DISC" using h fields by simp
    have q1: "ct_cmds c1 = rest" using h fields by simp
    have "rest \<noteq> [] \<Longrightarrow> \<not> cmd_sent (hd rest)" using s q by (simp add: sound_def queue_ok_def)
    then have t: "\<not> ct_cmd_timer c1" using h q1 by (auto simp: sound_def queue_ok_def)
    obtain c' where "flush_loop k w CMD_RESULT_OFFLINE c1 = Some c' \<and> ct_cmds c' = [] \<and> ct_state c' = CTL_STATE_DEVICE_DISC \<and> sound proc c' \<and>
        (ct_fault c1 \<longrightarrow> ct_fault c') \<and> (\<not> ct_fault c' \<longrightarrow> (\<forall>n. CbClient n \<notin> others w \<longrightarrow> settled (CbClient n) c' = settled (CbClient n) c1))"
      using flush_loop_ends [of c1 proc k w CMD_RESULT_OFFLINE] st h t q1 k(2) by auto
    moreover have "ct_cmds s0 = cm # rest" using q by (simp add: s0_def)
    ultimately show ?thesis using h fields k(1) by (auto simp: c1_def)
  qed
  then obtain c' where c': "flush_loop n w CMD_RESULT_OFFLINE s0 = Some c'" "ct_cmds c' = []" "ct_state c' = CTL_STATE_DEVICE_DISC" "sound proc c'"
    "ct_fault c \<longrightarrow> ct_fault c'" "\<not> ct_fault c' \<longrightarrow> (\<forall>n. CbClient n \<notin> others w \<longrightarrow> settled (CbClient n) c' = settled (CbClient n) c)" by blast
  have "handles proc w [] c c'" using c' by (simp add: handles_def ctl_ok_def busy_def)
  moreover have "dones c' = dones c @ concat (map (done_with CMD_RESULT_OFFLINE \<circ> cmd_cb) (ct_cmds c))"
    using dones_flush [OF _ c'(1)] dones fields by (simp add: s0_def)
  ultimately show ?thesis using c' e by auto
qed


lemma flush_loop_more: "flush_loop n w result c = Some c' \<Longrightarrow> n \<le> m \<Longrightarrow> flush_loop m w result c = Some c'"
proof (induction n arbitrary: c m)
  case 0
  then show ?case by (cases m) (simp_all split: if_splits)
next
  case (Suc n)
  then obtain k where "m = Suc k" "n \<le> k" by (cases m) auto
  with Suc show ?case by (cases "ct_cmds c") auto
qed

lemma status_event:
  assumes ok: "ctl_ok proc c" and r: "router_status_cb n w st c = Some c'"
  shows "handles proc w [] c c' \<and> ct_state c' =
    (if st = MHROUTER_DISCONNECTED then CTL_STATE_DEVICE_DISC
     else if ct_state c = CTL_STATE_DEVICE_DISC \<or> ct_state c = CTL_STATE_DEVICE_OFF then CTL_STATE_INIT else ct_state c)"
proof (cases st)
  case MHROUTER_DISCONNECTED
  then obtain c'' where d: "router_status_cb (max n (length (ct_cmds c))) w st c = Some c''" "ct_state c'' = CTL_STATE_DEVICE_DISC" "handles proc w [] c c''"
    using disconnect_event [OF ok, of "max n (length (ct_cmds c))" w] by auto
  have "router_status_cb (max n (length (ct_cmds c))) w st c = Some c'"
    using r flush_loop_more [of n w CMD_RESULT_OFFLINE _ c' "max n (length (ct_cmds c))"]
    by (simp add: MHROUTER_DISCONNECTED router_status_cb_def flush_cmds_def)
  with d show ?thesis by (simp add: MHROUTER_DISCONNECTED)
next
  case MHROUTER_CONNECTED
  show ?thesis
  proof (cases "ct_state c = CTL_STATE_DEVICE_DISC \<or> ct_state c = CTL_STATE_DEVICE_OFF")
    case False
    then have "c' = c" using r MHROUTER_CONNECTED by (auto simp: router_status_cb_def)
    then show ?thesis using ok MHROUTER_CONNECTED False by (simp add: handles_def)
  next
    case True
    let ?c = "set_state CTL_STATE_DEVICE_OFF c"
    have e: "c' = initializer_step w None ?c" using True r MHROUTER_CONNECTED by (simp add: router_status_cb_def)
    have s: "sound proc ?c" "busy ?c" "queue_ok ?c"
      using ok sound_set_state [of proc c CTL_STATE_DEVICE_OFF] by (simp_all add: ctl_ok_def init_state_def busy_def sound_def)
    have k: "keeps proc w [] ?c c'" "dialog CTL_STATE_DEVICE_OFF (ct_state c')"
      using moves_keeps [OF initializer_step_moves, of proc w ?c None] by (simp_all add: e)
    have "ct_state c' = CTL_STATE_INIT" by (simp add: e initializer_step_def submit_simple_state)
    with s k True MHROUTER_CONNECTED show ?thesis by (auto simp: handles_def ctl_ok_def keeps_def)
  qed
qed

lemma get_speed_acts: "performs proc [] c (snd (mhc_get_speed_cfg ch c))"
  by (auto simp: mhc_get_speed_cfg_def Let_def core_def intro!: performs_upd)

lemma cstep_handles:
  assumes "cstep proc w c e c'" and ok: "ctl_ok proc c"
  shows "handles proc w (asked e) c c'"
  using assms(1)
proof cases
  case (control data)
  then show ?thesis using control_event [OF ok] by simp
next
  case (flags data)
  then show ?thesis using performs_handles [OF flags_acts ok] by simp
next
  case cmd_timeout
  then show ?thesis using timeout_event [OF ok] by simp
next
  case heartbeat
  then show ?thesis using heartbeat_event [OF ok] by simp
next
  case (deferred i)
  then show ?thesis using deferred_event [OF ok] by simp
next
  case (radio_timeout radio)
  then have f: "flow proc [] c c'" and st: "ct_state c' = ct_state c" and q: "\<not> is_connected c \<longrightarrow> ct_cmds c' = ct_cmds c"
    using radio_timeout_acts [of proc c radio] by simp_all
  have "keeps proc w [] c c'" by (rule flow_keeps [OF f flow_same_sound [OF f st]]) (use q in \<open>simp_all add: is_connected_def\<close>)
  then show ?thesis using radio_timeout st keeps_handles [OF _ _ ok] by simp
next
  case (status n st)
  then show ?thesis using status_event [OF ok] by simp
next
  case (api a)
  then show ?thesis using performs_handles [OF do_api_acts ok] by simp
next
  case (set_speed ch n cb)
  then show ?thesis using performs_handles [OF set_speed_acts ok] by simp
next
  case (get_speed ch)
  then show ?thesis using performs_handles [OF get_speed_acts ok] by simp
next
  case (clock t)
  have "performs proc [] c c'" unfolding clock by (rule performs_upd) (simp_all add: core_def)
  then show ?thesis using performs_handles ok clock by simp
next
  case (router r)
  have "performs proc [] c c'" unfolding router by (rule performs_router) (use router in \<open>blast intro: reachable.step\<close>)
  then show ?thesis using performs_handles ok router by simp
qed

lemma cstep_state:
  assumes "cstep proc w c e c'" and ok: "ctl_ok proc c" and "\<And>st. e \<noteq> EvStatus st"
  shows "dialog (ct_state c) (ct_state c')"
  using assms(1)
proof cases
  case (control data)
  then show ?thesis using control_event [OF ok] by simp
next
  case (flags data)
  then show ?thesis using performs_handles [OF flags_acts ok] by simp
next
  case cmd_timeout
  then show ?thesis using timeout_event [OF ok] by simp
next
  case heartbeat
  then show ?thesis using heartbeat_event [OF ok] by simp
next
  case (deferred i)
  then show ?thesis using deferred_event [OF ok] by simp
next
  case (radio_timeout radio)
  then show ?thesis using radio_timeout_acts [of proc c radio] by simp
next
  case (api a)
  then show ?thesis using performs_handles [OF do_api_acts ok] by simp
next
  case (set_speed ch n cb)
  then show ?thesis using performs_handles [OF set_speed_acts ok] by simp
next
  case (get_speed ch)
  then show ?thesis using performs_handles [OF get_speed_acts ok] by simp
qed (use assms(3) in simp_all)

section \<open>Runs\<close>

lemma limits_reachable: "reachable proc r \<Longrightarrow> reachable proc (fold (\<lambda>(ch, bps) r. mhr_set_bps_limit r ch bps) xs r)"
  by (induction xs arbitrary: r) (auto intro: reachable.step rstep.bps_limit)

lemma create_fields:
  "ct_cmds (mhc_create now user rt mhi) = []" "ct_deferred (mhc_create now user rt mhi) = []" "ct_log (mhc_create now user rt mhi) = [OutEvState MHC_KEYER_STATE_DISC]"
  "ct_cmd_timer (mhc_create now user rt mhi) = False" "ct_state (mhc_create now user rt mhi) = CTL_STATE_DEVICE_DISC"
  "ct_keyer_state (mhc_create now user rt mhi) = MHC_KEYER_STATE_DISC" "ct_heartbeat (mhc_create now user rt mhi) = False"
  "ct_radio_valid (mhc_create now user rt mhi) = (\<lambda>r. False)"
  by (simp_all add: mhc_create_def mhc_calloc_def set_state_def ct_out_def fault_def Let_def split: option.split)

lemma create_ok: "reachable proc rt \<Longrightarrow> ctl_ok proc (mhc_create now user rt mhi)"
proof -
  assume r: "reachable proc rt"
  have "reachable proc (mhr_add_consumer_cb r a ch u)" "reachable proc (mhr_add_status_cb r b u)" if "reachable proc r" for r a b ch u
    using that by (auto intro: reachable.step rstep.add_consumer_cb rstep.add_status)
  with r have "reachable proc (ct_router (mhc_create now user rt mhi))"
    by (simp add: mhc_create_def Let_def limits_reachable)
  then show ?thesis
    by (simp add: ctl_ok_def sound_def queue_ok_def busy_def coherent_def radio_ok_def create_fields init_state_def)
qed

lemma crun_handles:
  assumes "crun proc w c es c'" "ctl_ok proc c"
  shows "handles proc w (concat (map asked es)) c c'"
  using assms
proof (induction rule: crun.induct)
  case (start c)
  then show ?case by (simp add: handles_def)
next
  case (step c es c' e c'')
  then have a: "handles proc w (concat (map asked es)) c c'" by simp
  then have "handles proc w (asked e) c' c''" using step cstep_handles by (simp add: handles_def)
  with a show ?case by (auto simp: handles_def count_list_append)
qed

end
