(* ===== verification/ControlProps.thy ===== *)
theory ControlProps
  imports ControlSpec
begin

text \<open>
  The properties of the keyer control, with the runs that witness them.
\<close>

section \<open>Invariant and books\<close>

text \<open>
  The example: a keyer of unknown type, created, connected, a command for its scenario with the callback
  7, and disconnected again. Its other module calls nothing from inside a callback.
\<close>

definition example_info :: mh_info where
  "example_info = \<lparr>mi_type = MHT_UNKNOWN, ver_fw_major = 0, ver_fw_minor = 0, ver_fw_beta = 0, ver_winkey = 0, mi_flags = 0, mi_type_str = []\<rparr>"

definition quiet_world :: world where
  "quiet_world = \<lparr>react = (\<lambda>n r b. []), sm_online = []\<rparr>"

definition example_start :: mhc where
  "example_start = mhc_create 0 0 (two_connectors MH_CHANNEL_R1) example_info"

definition example_init :: mhc where
  "example_init = initializer_step quiet_world None (set_state CTL_STATE_DEVICE_OFF example_start)"

lemma example_connect: "cstep no_proc quiet_world example_start (EvStatus MHROUTER_CONNECTED) example_init"
  by (rule cstep.status [of 0]) (simp add: router_status_cb_def example_init_def example_start_def create_fields)

lemma example_init_state: "ct_state example_init = CTL_STATE_INIT"
  by (simp add: example_init_def initializer_step_def submit_simple_state)

lemma send_cmd_kept:
  "(ct_fault (snd (send_cmd cm c)), ct_speed_idx (snd (send_cmd cm c)), ct_kcfg (snd (send_cmd cm c)), ct_speed_args (snd (send_cmd cm c))) =
   (ct_fault c, ct_speed_idx c, ct_kcfg c, ct_speed_args c)"
  by (auto simp: send_cmd_def Let_def defer_callback_def split: prod.split)

lemma push_cmds_kept: "(ct_fault (push_cmds c), ct_speed_idx (push_cmds c), ct_kcfg (push_cmds c), ct_speed_args (push_cmds c)) =
   (ct_fault c, ct_speed_idx c, ct_kcfg c, ct_speed_args c)"
  by (rule push_cmds_frame [of "\<lambda>c. (ct_fault c, ct_speed_idx c, ct_kcfg c, ct_speed_args c)"]) (rule send_cmd_kept)

lemma submit_cmd_kept [simp]:
  "ct_fault (submit_cmd b cb c) = ct_fault c" "ct_speed_idx (submit_cmd b cb c) = ct_speed_idx c" "ct_kcfg (submit_cmd b cb c) = ct_kcfg c"
  using push_cmds_kept by (auto simp: submit_cmd_def Let_def defer_callback_def split: option.split)

lemma submit_speed_kept [simp]:
  "ct_speed_idx (submit_speed ch fbaud st rtscts databits ext cb c) = ct_speed_idx c" "ct_kcfg (submit_speed ch fbaud st rtscts databits ext cb c) = ct_kcfg c"
  by (auto simp: submit_speed_def Let_def fault_def defer_callback_def split: option.split)

lemma example_start_fault: "\<not> ct_fault example_start"
  by (simp add: example_start_def mhc_create_def mhc_calloc_def example_info_def kcfg_create_def Let_def)

lemma example_init_fault: "\<not> ct_fault example_init"
  by (simp add: example_init_def initializer_step_def submit_cmd_simple_def example_start_fault create_fields)

lemma example_run: "crun no_proc quiet_world example_start [EvStatus MHROUTER_CONNECTED] example_init"
  using crun.step [OF crun.start example_connect] by simp

text \<open>Claim C28. In every reachable state of the control of a keyer at most the first command of the queue
  is under way, and it is as soon as there is one; the timer for its answer runs exactly then; the queue
  holds at most 17 commands, each of them a frame of at most 128 bytes; the state shown to clients is the
  one derived from the state inside; the heartbeat runs exactly while connected; radio information
  counts as valid only while its timer runs; nothing waits while disconnected; and the router has been
  used through its operations only.\<close>

theorem control_invariant:
  assumes "crun proc w (mhc_create now user rt mhi) es c" "reachable proc rt"
  shows "(\<forall>cm \<in> set (tl (ct_cmds c)). \<not> cmd_sent cm) \<and> (ct_cmds c \<noteq> [] \<longrightarrow> cmd_sent (hd (ct_cmds c))) \<and>
    (ct_cmd_timer c \<longleftrightarrow> ct_cmds c \<noteq> []) \<and> length (ct_cmds c) \<le> 17 \<and>
    (\<forall>cm \<in> set (ct_cmds c). frame_ok (cmd_bytes cm) \<and> length (cmd_bytes cm) \<le> 128) \<and>
    mhc_get_state c = state_to_ext_state (ct_state c) \<and> (ct_heartbeat c \<longleftrightarrow> ct_state c \<noteq> CTL_STATE_DEVICE_DISC) \<and>
    (\<forall>r. ct_radio_valid c r \<longrightarrow> ct_radio_timer c r) \<and> (ct_state c = CTL_STATE_DEVICE_DISC \<longrightarrow> ct_cmds c = []) \<and>
    reachable proc (ct_router c)"
proof -
  have "ctl_ok proc c" using crun_handles [OF assms(1) create_ok [OF assms(2)]] by (simp add: handles_def)
  then show ?thesis
    by (auto simp: ctl_ok_def sound_def queue_ok_def busy_def coherent_def radio_ok_def mhc_get_state_def MAX_CMD_QUEUE_SIZE_def MAX_CMD_LEN_def)
qed


theorem control_invariant_witness:
  "ct_state example_init = CTL_STATE_INIT \<and> (ct_cmd_timer example_init \<longleftrightarrow> ct_cmds example_init \<noteq> []) \<and> ct_heartbeat example_init"
  using control_invariant [OF example_run [unfolded example_start_def] two_connectors_reachable] example_init_state by simp

text \<open>Claim C29. Over any run, as long as the program is in a defined state, the completions of a client's
  callback so far and those that are still to come (commands in the queue, deferred calls) are as many
  as the calls that passed the callback: no command is forgotten and none is completed twice. For
  callbacks that other modules do not pass from inside a callback; a speed without a baud rate is the one
  call that is never answered.\<close>

theorem commands_completed_once:
  assumes "crun proc w (mhc_create now user rt mhi) es c" "reachable proc rt" "\<not> ct_fault c" "CbClient n \<notin> others w"
  shows "length (filter (is_done (CbClient n)) (ct_log c)) +
      (count_list (map cmd_cb (ct_cmds c)) (CbClient n) + count_list (map fst (ct_deferred c)) (CbClient n)) =
    count_list (concat (map asked es)) (CbClient n)"
proof -
  have "settled (CbClient n) c = settled (CbClient n) (mhc_create now user rt mhi) + count_list (concat (map asked es)) (CbClient n)"
    using crun_handles [OF assms(1) create_ok [OF assms(2)]] assms(3,4) by (simp add: handles_def)
  moreover have "settled (CbClient n) (mhc_create now user rt mhi) = 0" by (simp add: settled_def owed_def completed_def create_fields)
  ultimately show ?thesis by (simp add: settled_def owed_def completed_def)
qed

text \<open>Claim C30. While the keyer is being initialised, the run does not depend on luck: a completion of the
  initialisation is in the queue or deferred, and in the first case the timer runs that ends the wait.\<close>

theorem init_never_stuck:
  assumes "crun proc w (mhc_create now user rt mhi) es c" "reachable proc rt" "\<not> ct_fault c"
    "ct_state c \<in> {CTL_STATE_INIT, CTL_STATE_GET_VERSION, CTL_STATE_SET_CHANNELS, CTL_STATE_LOAD_CFG, CTL_STATE_ON_CONNECT}"
  shows "(ct_cmd_timer c \<and> CbInitializer \<in> cmd_cb ` set (ct_cmds c)) \<or> CbInitializer \<in> fst ` set (ct_deferred c)"
proof -
  have ok: "ctl_ok proc c" using crun_handles [OF assms(1) create_ok [OF assms(2)]] by (simp add: handles_def)
  then have "owed CbInitializer c > 0" using assms(3,4) by (auto simp: ctl_ok_def sound_def init_state_def)
  then have "CbInitializer \<in> cmd_cb ` set (ct_cmds c) \<or> CbInitializer \<in> fst ` set (ct_deferred c)"
    using count_list_0_iff [of "map cmd_cb (ct_cmds c)" CbInitializer] count_list_0_iff [of "map fst (ct_deferred c)" CbInitializer]
    by (auto simp: owed_def)
  moreover have "ct_cmds c \<noteq> [] \<longrightarrow> ct_cmd_timer c" using ok by (simp add: ctl_ok_def sound_def queue_ok_def busy_def)
  ultimately show ?thesis by auto
qed

theorem init_never_stuck_witness:
  "(ct_cmd_timer example_init \<and> CbInitializer \<in> cmd_cb ` set (ct_cmds example_init)) \<or> CbInitializer \<in> fst ` set (ct_deferred example_init)"
  using init_never_stuck [OF example_run [unfolded example_start_def] two_connectors_reachable example_init_fault] example_init_state by simp


section \<open>Sending to a keyer that is connected\<close>

lemma create_router:
  "rtr_fd (ct_router (mhc_create now user rt mhi)) = rtr_fd rt"
  "channel_buf_out (ct_router (mhc_create now user rt mhi)) = channel_buf_out rt"
proof -
  have limit: "rtr_fd (mhr_set_bps_limit r ch bps) = rtr_fd r \<and> channel_buf_out (mhr_set_bps_limit r ch bps) = channel_buf_out r" for r ch bps
    by (simp add: mhr_set_bps_limit_def Let_def set_lb_def)
  have limits: "rtr_fd (fold (\<lambda>(ch, bps) r. mhr_set_bps_limit r ch bps) xs r) = rtr_fd r \<and>
      channel_buf_out (fold (\<lambda>(ch, bps) r. mhr_set_bps_limit r ch bps) xs r) = channel_buf_out r" for xs r
    by (induction xs arbitrary: r) (auto simp: limit)
  have cbs: "rtr_fd (mhr_add_consumer_cb r a ch u) = rtr_fd r \<and> channel_buf_out (mhr_add_consumer_cb r a ch u) = channel_buf_out r"
    "rtr_fd (mhr_add_status_cb r b u) = rtr_fd r \<and> channel_buf_out (mhr_add_status_cb r b u) = channel_buf_out r" for r a ch u b
    by (simp_all add: mhr_add_consumer_cb_def mhr_add_status_cb_def)
  show "rtr_fd (ct_router (mhc_create now user rt mhi)) = rtr_fd rt" "channel_buf_out (ct_router (mhc_create now user rt mhi)) = channel_buf_out rt"
    by (simp_all add: mhc_create_def Let_def limits cbs)
qed

lemma send_to_keyer:
  assumes "router_ok r" "rtr_fd r \<noteq> -1" "channel_buf_out r MH_CHANNEL_CONTROL = buf_alloc" "length data \<le> 4096"
  shows "fst (mhr_send_in r data MH_CHANNEL_CONTROL) = int (length data)"
proof -
  have b: "buf_ok buf_alloc" using assms(1,3) by (metis router_ok_def bufs_ok_def)
  moreover have "buf_size_avail buf_alloc = 4096" by (simp add: buf_avail [OF b]) (simp add: buf_alloc_def BUFFER_CAPACITY_def)
  ultimately show ?thesis
    using buf_append_fits(1) [OF b, of data] assms by (simp add: mhr_send_in_def in_range_def BUFFER_CAPACITY_def Let_def split_def)
qed

lemma push_one:
  assumes "ct_cmds c = [cm]" "\<not> cmd_sent cm" "fst (mhr_send_in (ct_router c) (cmd_bytes cm) MH_CHANNEL_CONTROL) = int (length (cmd_bytes cm))"
  shows "ct_cmds (push_cmds c) = [cm\<lparr>cmd_sent := True\<rparr>]"
  using assms by (auto simp: push_cmds.simps [of c] send_cmd_def Let_def split: prod.split)

lemma router_set_state [simp]: "ct_router (set_state st c) = ct_router c"
  by (simp add: set_state_def ct_out_def Let_def)

definition example_queue :: mhc where
  "example_queue = do_api (ApiSetScenario 1 (Some 7)) example_init"

lemma example_init_cmds: "ct_cmds example_init = [\<lparr>cmd_bytes = [0x7e, 0xfe], cmd_sent = True, cmd_cb = CbInitializer\<rparr>]"
proof -
  define c where "c = set_state CTL_STATE_INIT (set_state CTL_STATE_DEVICE_OFF example_start\<lparr>ct_freq_sent := (ct_freq_sent (set_state CTL_STATE_DEVICE_OFF example_start))(0 := False, 1 := False), ct_speed_idx := 0\<rparr>)"
  define cm where "cm = \<lparr>cmd_bytes = [0x7e, 0xfe], cmd_sent = False, cmd_cb = CbInitializer\<rparr>"
  define d where "d = c\<lparr>ct_free := tl (ct_free c), ct_cmds := [cm]\<rparr>"
  have q: "ct_cmds c = []" by (simp add: c_def example_start_def create_fields)
  have e: "example_init = push_cmds d"
    by (simp add: example_init_def initializer_step_def c_def [symmetric, simplified] submit_cmd_simple_def submit_cmd_def Let_def q d_def cm_def MAX_CMD_LEN_def MAX_CMD_QUEUE_SIZE_def)
  have r: "router_ok (ct_router example_start)"
    using crun_handles [OF crun.start create_ok [OF two_connectors_reachable], of quiet_world 0 0 MH_CHANNEL_R1 example_info]
    by (auto simp: handles_def ctl_ok_def sound_def example_start_def intro: reachable_ok)
  have "ct_router d = ct_router example_start" by (simp add: d_def c_def)
  then have "fst (mhr_send_in (ct_router d) (cmd_bytes cm) MH_CHANNEL_CONTROL) = int (length (cmd_bytes cm))"
    using r by (intro send_to_keyer) (simp_all add: example_start_def create_router two_connectors_state cm_def)
  from push_one [OF _ _ this] show ?thesis by (simp add: e d_def cm_def)
qed

lemma example_queue_cmds:
  "ct_cmds example_queue = [\<lparr>cmd_bytes = [0x7e, 0xfe], cmd_sent = True, cmd_cb = CbInitializer\<rparr>,
     \<lparr>cmd_bytes = [0x34, 1, 0xb4], cmd_sent = False, cmd_cb = CbClient 7\<rparr>]"
  by (simp add: example_queue_def mhc_mk2r_set_scenario_def submit_cmd_def is_connected_def example_init_state example_init_cmds
      MAX_CMD_LEN_def MAX_CMD_QUEUE_SIZE_def Let_def push_cmds.simps)

lemma example_queue_run: "crun no_proc quiet_world example_start [EvStatus MHROUTER_CONNECTED, EvApi (ApiSetScenario 1 (Some 7))] example_queue"
  using crun.step [OF example_run cstep.api [of no_proc quiet_world example_init "ApiSetScenario 1 (Some 7)"]] by (simp add: example_queue_def)

theorem commands_completed_once_witness:
  "length (filter (is_done (CbClient 7)) (ct_log example_queue)) +
      (count_list (map cmd_cb (ct_cmds example_queue)) (CbClient 7) + count_list (map fst (ct_deferred example_queue)) (CbClient 7)) = 1"
proof -
  have f: "\<not> ct_fault example_queue" by (simp add: example_queue_def mhc_mk2r_set_scenario_def example_init_fault)
  have n: "CbClient 7 \<notin> others quiet_world" by (simp add: others_def quiet_world_def)
  show ?thesis
    using commands_completed_once [OF example_queue_run [unfolded example_start_def] two_connectors_reachable f n] by simp
qed

section \<open>Disconnection\<close>

text \<open>Claim C31. When the keyer is disconnected, the loop that flushes the queue ends, after as many rounds as
  there are commands, whatever the callbacks do: the queue is empty, no timer for an answer runs, and
  every command of a client that waited is completed as offline, in the order of the queue and
  before anything else is completed.\<close>

theorem disconnect_flushes:
  assumes "crun proc w (mhc_create now user rt mhi) es c" "reachable proc rt"
  shows "\<exists>c'. (\<forall>n \<ge> length (ct_cmds c). router_status_cb n w MHROUTER_DISCONNECTED c = Some c') \<and>
    ct_cmds c' = [] \<and> \<not> ct_cmd_timer c' \<and> ct_state c' = CTL_STATE_DEVICE_DISC \<and> mhc_get_state c' = MHC_KEYER_STATE_DISC \<and>
    filter reports_done (ct_log c') = filter reports_done (ct_log c) @
      concat (map (\<lambda>cm. case cmd_cb cm of CbClient k \<Rightarrow> [OutDone k CMD_RESULT_OFFLINE None] | _ \<Rightarrow> []) (ct_cmds c))"
proof -
  have ok: "ctl_ok proc c" using crun_handles [OF assms(1) create_ok [OF assms(2)]] by (simp add: handles_def)
  obtain c' where c': "router_status_cb (length (ct_cmds c)) w MHROUTER_DISCONNECTED c = Some c'" "ct_cmds c' = []"
    "ct_state c' = CTL_STATE_DEVICE_DISC" "handles proc w [] c c'"
    "dones c' = dones c @ concat (map (done_with CMD_RESULT_OFFLINE \<circ> cmd_cb) (ct_cmds c))"
    using disconnect_event [OF ok order_refl] by blast
  have all: "router_status_cb n w MHROUTER_DISCONNECTED c = Some c'" if "length (ct_cmds c) \<le> n" for n
    using c'(1) flush_loop_more [OF _ that] by (simp add: router_status_cb_def flush_cmds_def)
  have "done_with CMD_RESULT_OFFLINE f = (case f of CbClient k \<Rightarrow> [OutDone k CMD_RESULT_OFFLINE None] | _ \<Rightarrow> [])" for f
    by (cases f) simp_all
  then have "filter reports_done (ct_log c') = filter reports_done (ct_log c) @
      concat (map (\<lambda>cm. case cmd_cb cm of CbClient k \<Rightarrow> [OutDone k CMD_RESULT_OFFLINE None] | _ \<Rightarrow> []) (ct_cmds c))"
    using c'(5) by (simp add: dones_def comp_def)
  moreover have "\<not> ct_cmd_timer c'" "mhc_get_state c' = MHC_KEYER_STATE_DISC"
    using c' by (simp_all add: handles_def ctl_ok_def sound_def queue_ok_def coherent_def mhc_get_state_def)
  ultimately show ?thesis using c' all by blast
qed

theorem disconnect_flushes_witness:
  "\<exists>c'. router_status_cb 2 quiet_world MHROUTER_DISCONNECTED example_queue = Some c' \<and> ct_cmds c' = [] \<and>
     OutDone 7 CMD_RESULT_OFFLINE None \<in> set (ct_log c')"
proof -
  obtain c' where c': "\<forall>n \<ge> length (ct_cmds example_queue). router_status_cb n quiet_world MHROUTER_DISCONNECTED example_queue = Some c'" "ct_cmds c' = []"
    "filter reports_done (ct_log c') = filter reports_done (ct_log example_queue) @
      concat (map (\<lambda>cm. case cmd_cb cm of CbClient k \<Rightarrow> [OutDone k CMD_RESULT_OFFLINE None] | _ \<Rightarrow> []) (ct_cmds example_queue))"
    using disconnect_flushes [OF example_queue_run [unfolded example_start_def] two_connectors_reachable] by blast
  have "OutDone 7 CMD_RESULT_OFFLINE None \<in> set (filter reports_done (ct_log c'))" using c'(3) by (simp add: example_queue_cmds)
  then have "OutDone 7 CMD_RESULT_OFFLINE None \<in> set (ct_log c')" by simp
  with c' show ?thesis by (auto simp: example_queue_cmds)
qed

section \<open>States\<close>

text \<open>Claim C32. A disconnected keyer leaves that state only when the router reports a connection, and gets into
  it only when the router reports the loss; every other event keeps the dialog of the initialisation in
  its order, so a keyer is reported online only after its last step.\<close>

theorem connection_and_dialog:
  assumes "crun proc w (mhc_create now user rt mhi) es c" "reachable proc rt" "cstep proc w c e c'"
  shows "(if e = EvStatus MHROUTER_DISCONNECTED then ct_state c' = CTL_STATE_DEVICE_DISC
      else if e = EvStatus MHROUTER_CONNECTED then
        ct_state c' = (if ct_state c = CTL_STATE_DEVICE_DISC \<or> ct_state c = CTL_STATE_DEVICE_OFF then CTL_STATE_INIT else ct_state c)
      else dialog (ct_state c) (ct_state c')) \<and>
    (mhc_get_state c' = MHC_KEYER_STATE_ONLINE \<longrightarrow> ct_state c \<in> {CTL_STATE_OK, CTL_STATE_ON_CONNECT})"
proof -
  have ok: "ctl_ok proc c" using crun_handles [OF assms(1) create_ok [OF assms(2)]] by (simp add: handles_def)
  have ok': "ctl_ok proc c'" using cstep_handles [OF assms(3) ok] by (simp add: handles_def)
  have e: "if e = EvStatus MHROUTER_DISCONNECTED then ct_state c' = CTL_STATE_DEVICE_DISC
      else if e = EvStatus MHROUTER_CONNECTED then
        ct_state c' = (if ct_state c = CTL_STATE_DEVICE_DISC \<or> ct_state c = CTL_STATE_DEVICE_OFF then CTL_STATE_INIT else ct_state c)
      else dialog (ct_state c) (ct_state c')"
  proof (cases "\<exists>st. e = EvStatus st")
    case True
    then obtain st n where "e = EvStatus st" "router_status_cb n w st c = Some c'" using assms(3) by (auto elim: cstep.cases)
    then show ?thesis using status_event [OF ok] by (cases st) auto
  next
    case False
    then show ?thesis using cstep_state [OF assms(3) ok] by auto
  qed
  have "mhc_get_state c' = MHC_KEYER_STATE_ONLINE \<longleftrightarrow> ct_state c' = CTL_STATE_OK"
    using ok' by (cases "ct_state c'") (simp_all add: mhc_get_state_def ctl_ok_def sound_def coherent_def)
  with e show ?thesis by (auto simp: dialog_def split: if_splits)
qed

theorem connection_and_dialog_witness: "ct_state example_init = CTL_STATE_INIT \<and> mhc_get_state example_init \<noteq> MHC_KEYER_STATE_ONLINE"
  using connection_and_dialog [OF crun.start two_connectors_reachable example_connect [unfolded example_start_def]]
  by (auto simp: create_fields)


section \<open>The last channel\<close>

text \<open>Claim C35. After the last channel (\<^verbatim>\<open>R2_FSK\<close>) the loop over the channels does not stop to wait: when
  that channel has a speed, the settings are sent at once and the state is the one that waits for them,
  while the channel's own completion is still to come. The next step is then taken on whichever
  completion comes first.\<close>

theorem last_channel_not_awaited:
  assumes "ct_state c = CTL_STATE_SET_CHANNELS" "ct_speed_idx c = 7" "ct_speed_valid c MH_CHANNEL_R2_FSK" "ct_kcfg c = Some k"
    "\<not> ct_fault (initializer_step w None c)"
  shows "ct_state (initializer_step w None c) = CTL_STATE_LOAD_CFG \<and>
    owed CbInitializer (initializer_step w None c) = owed CbInitializer c + 2"
proof -
  define c1 where "c1 = set_state CTL_STATE_SET_CHANNELS c"
  define c2 where "c2 = (if ct_speed_args c1 7 \<noteq> None then submit_speed_cmd 7 (Some CbInitializer) c1
        else submit_speed_cmd_params 7 (ct_speed_params c1 7) (Some CbInitializer) c1)"
  define c3 where "c3 = c2\<lparr>ct_speed_idx := 0, ct_kcfg := Some k\<rparr>"
  define c4 where "c4 = mhc_load_kopts (Some CbInitializer) c3"
  have idx: "ct_speed_idx c2 = 7" "ct_kcfg c2 = Some k"
    using assms by (auto simp: c2_def c1_def submit_speed_cmd_def submit_speed_cmd_params_def defer_callback_def split: option.split)
  have "speed_loop c = c2\<lparr>ct_speed_idx := ct_speed_idx c2 + 1\<rparr>"
    using assms(2,3) by (simp add: speed_loop.simps [of c] Let_def c1_def [symmetric] c2_def)
  then have e: "initializer_step w None c = set_state CTL_STATE_LOAD_CFG c4"
    using idx assms(1) by (simp add: initializer_step_def step_channels_def Let_def c3_def c4_def)
  have "performs no_proc [CbInitializer] c1 c2" using submit_speed_cmd_acts [of no_proc "Some CbInitializer"] by (simp add: c2_def)
  moreover have "performs no_proc [] c2 c3" unfolding c3_def by (rule performs_upd) (simp_all add: core_def)
  moreover have "performs no_proc [CbInitializer] c3 c4" using load_kopts_acts [of no_proc "Some CbInitializer"] by (simp add: c4_def)
  ultimately have "performs no_proc [CbInitializer, CbInitializer] c1 c4" using performs_trans performs_then by (metis append_Cons append_Nil)
  then have "flow no_proc [CbInitializer, CbInitializer] c (set_state CTL_STATE_LOAD_CFG c4)"
    unfolding c1_def using flow_snoc [OF flow_then [OF set_state_flow performs_flow] set_state_flow] by blast
  from flow_settled [OF this, of CbInitializer] assms(5) show ?thesis by (simp add: e)
qed

definition example_channel :: mhc where
  "example_channel = example_start\<lparr>ct_state := CTL_STATE_SET_CHANNELS, ct_speed_idx := 7, ct_speed_valid := (\<lambda>ch. True),
     ct_kcfg := Some \<lparr>kc_b = [1, 2], kc_citem = [], kc_num_citems = 0, kc_settings_size = 2\<rparr>\<rparr>"

lemma example_channel_fields:
  "ct_speed_args example_channel = (\<lambda>ch. None)" "ct_speed_params example_channel = (\<lambda>ch. no_speed)" "ct_mhi example_channel = example_info"
  "\<not> ct_fault example_channel" "ct_speed_idx example_channel = 7" "ct_speed_valid example_channel = (\<lambda>ch. True)"
  "ct_state example_channel = CTL_STATE_SET_CHANNELS" "ct_kcfg example_channel = Some \<lparr>kc_b = [1, 2], kc_citem = [], kc_num_citems = 0, kc_settings_size = 2\<rparr>"
  using example_start_fault
  by (simp_all add: example_channel_def) (simp_all add: example_start_def mhc_create_def mhc_calloc_def set_state_def ct_out_def fault_def Let_def split: option.split)

theorem last_channel_not_awaited_witness:
  "ct_state (initializer_step quiet_world None example_channel) = CTL_STATE_LOAD_CFG"
proof (rule last_channel_not_awaited [THEN conjunct1])
  define c1 where "c1 = set_state CTL_STATE_SET_CHANNELS example_channel"
  have c1: "ct_speed_args c1 = (\<lambda>ch. None)" "ct_speed_params c1 = (\<lambda>ch. no_speed)" "ct_mhi c1 = example_info" "\<not> ct_fault c1"
    "ct_speed_idx c1 = 7" "ct_kcfg c1 = Some \<lparr>kc_b = [1, 2], kc_citem = [], kc_num_citems = 0, kc_settings_size = 2\<rparr>"
    by (simp_all add: c1_def example_channel_fields) (simp_all add: set_state_def ct_out_def Let_def example_channel_fields)
  have "speed_loop example_channel = (defer_callback (Some CbInitializer) CMD_RESULT_ERROR c1)\<lparr>ct_speed_idx := 8\<rparr>"
    by (simp add: speed_loop.simps [of example_channel] example_channel_fields c1_def [symmetric] c1 Let_def submit_speed_cmd_params_def
        submit_speed_def no_speed_def fl32_def) (simp add: defer_callback_def c1)
  then show "\<not> ct_fault (initializer_step quiet_world None example_channel)"
    by (simp add: initializer_step_def example_channel_fields step_channels_def Let_def mhc_load_kopts_def kcfg_get_settings_def
        is_mk_family_def example_info_def c1 defer_callback_def)
qed (simp_all add: example_channel_fields)


section \<open>Frequencies\<close>

text \<open>The bits that a list of entries gives to a frequency.\<close>

fun mask_of :: "u32 \<Rightarrow> freq_entry list \<Rightarrow> 16 word" where
  "mask_of f [] = 0"
| "mask_of f ((g, k) # es) = (if g = f then k OR mask_of f es else mask_of f es)"

definition without :: "u32 \<Rightarrow> freq_entry list \<Rightarrow> freq_entry list" where
  "without f es = map (\<lambda>(g, k). if g = f then (g, 0) else (g, k)) es"

lemma absorb_spec: "absorb f m es = (m OR mask_of f es, without f es)"
  by (induction f m es rule: absorb.induct) (auto simp: without_def ac_simps split: prod.split)

lemma mask_of_without: "mask_of g (without f es) = (if g = f then 0 else mask_of g es)"
  by (induction es) (auto simp: without_def)

lemma merge_freqs_spec:
  "distinct (map fst (filter (\<lambda>e. snd e \<noteq> 0) (merge_freqs es))) \<and>
   (\<forall>e \<in> set (filter (\<lambda>e. snd e \<noteq> 0) (merge_freqs es)). snd e = mask_of (fst e) es) \<and>
   (\<forall>g. mask_of g es \<noteq> 0 \<longrightarrow> g \<in> fst ` set (filter (\<lambda>e. snd e \<noteq> 0) (merge_freqs es)))"
proof (induction es rule: merge_freqs.induct)
  case 1
  then show ?case by simp
next
  case (2 f m es)
  show ?case
  proof (cases "m = 0")
    case True
    with 2(1) show ?thesis by (simp add: or.right_neutral)
  next
    case False
    let ?out = "filter (\<lambda>e. snd e \<noteq> 0) (merge_freqs (without f es))"
    have ih: "distinct (map fst ?out)" "\<forall>e \<in> set ?out. snd e = mask_of (fst e) (without f es)"
      "\<forall>g. mask_of g (without f es) \<noteq> 0 \<longrightarrow> g \<in> fst ` set ?out"
      using 2(2) [OF False absorb_spec [symmetric]] by blast+
    have nf: "f \<notin> fst ` set ?out"
    proof
      assume "f \<in> fst ` set ?out"
      then obtain e where "e \<in> set ?out" "fst e = f" by auto
      moreover from this ih(2) have "snd e = mask_of (fst e) (without f es)" by blast
      ultimately show False by (simp add: mask_of_without)
    qed
    have m: "m OR mask_of f es \<noteq> 0" using False by (simp add: or_eq_0_iff)
    have out: "filter (\<lambda>e. snd e \<noteq> 0) (merge_freqs ((f, m) # es)) = (f, m OR mask_of f es) # ?out"
      using False m by (simp add: absorb_spec)
    have masks: "snd e = mask_of (fst e) ((f, m) # es)" if e: "e \<in> set ?out" for e
    proof -
      have "fst e \<noteq> f" using nf e by blast
      moreover have "snd e = mask_of (fst e) (without f es)" using ih(2) e by blast
      ultimately show ?thesis by (cases e) (simp add: mask_of_without)
    qed
    have all: "mask_of g ((f, m) # es) \<noteq> 0 \<longrightarrow> g = f \<or> g \<in> fst ` set ?out" for g
      using ih(3) by (cases "g = f") (auto simp: mask_of_without)
    show ?thesis
    proof (unfold out, intro conjI ballI allI impI)
      show "distinct (map fst ((f, m OR mask_of f es) # ?out))" using ih(1) nf by simp
      show "snd e = mask_of (fst e) ((f, m) # es)" if "e \<in> set ((f, m OR mask_of f es) # ?out)" for e
        using that masks [of e] by (auto simp del: mask_of.simps(2)) (simp_all add: mask_of.simps(2))
      show "g \<in> fst ` set ((f, m OR mask_of f es) # ?out)" if "mask_of g ((f, m) # es) \<noteq> 0" for g
        using all [of g] that by (simp only: list.set image_insert fst_conv insert_iff simp_thms)
    qed
  qed
qed

definition freqs_of :: "radio_info \<Rightarrow> u32 list" where
  "freqs_of info = [ri_rxFreq info, ri_txFreq info, ri_operFreq info, ri_vfoAFreq info, ri_vfoBFreq info]"

lemma bit_one_push: "bit (push_bit k (1 :: 16 word)) n \<longleftrightarrow> n = k \<and> k < 16"
  by (auto simp: bit_simps)

lemma mask_of_bits: "bit (mask_of f es) i \<longleftrightarrow> (\<exists>e \<in> set es. fst e = f \<and> bit (snd e) i)"
  by (induction f es rule: mask_of.induct) (auto simp: bit_or_iff)

lemma mask_of_entries: "bit (mask_of f (freq_entries info)) i \<longleftrightarrow> i < 5 \<and> freqs_of info ! i = f"
proof -
  have "bit (mask_of f (freq_entries info)) i \<longleftrightarrow>
      (ri_rxFreq info = f \<and> i = 0) \<or> (ri_txFreq info = f \<and> i = 1) \<or> (ri_operFreq info = f \<and> i = 2) \<or>
      (ri_vfoAFreq info = f \<and> i = 3) \<or> (ri_vfoBFreq info = f \<and> i = 4)"
    unfolding mask_of_bits freq_entries_def by (simp only: list.set bex_simps fst_conv snd_conv bit_one_push) simp
  also have "\<dots> \<longleftrightarrow> i < 5 \<and> freqs_of info ! i = f"
  proof -
    have "i < 5 \<longleftrightarrow> i = 0 \<or> i = 1 \<or> i = 2 \<or> i = 3 \<or> i = 4" by auto
    then show ?thesis by (auto simp: freqs_of_def)
  qed
  finally show ?thesis .
qed


lemma send_freqs_filter: "fold (send_freq cm radio) es c = fold (send_freq cm radio) (filter (\<lambda>e. snd e \<noteq> 0 \<and> fst e \<noteq> 0) es) c"
  by (induction es arbitrary: c) (auto simp: send_freq_def)


definition example_radio :: radio_info where
  "example_radio = no_radio_info\<lparr>ri_radio := 1, ri_rxFreq := 14025000, ri_txFreq := 7010000, ri_operFreq := 14025000\<rparr>"


section \<open>News of a radio\<close>




end
