(* ===== verification/Spec2Isabelle.thy ===== *)
theory Spec2Isabelle
  imports RouterPtt IoState CatCivSpec CatAsciiSpec CatYbinSpec PgList Wkman Kcfg KeyerTables ControlProps
begin

text \<open>
  Verification library of mhuxd, the daemon between microHam keyers and radio programs.

  \<^bold>\<open>The program.\<close> A keyer speaks one serial stream in which the bytes of up to some twenty channels
  are packed: the radios, the PTT and FSK lines, the Winkey chip, a control channel. mhuxd unpacks
  them and offers each channel to programs as a serial port or a socket (connectors), and packs what
  they write. On top of the channels it configures the keyer and its chips, and it listens to the
  radio traffic (native CAT) to know the frequency and the mode without a question of its own, or
  with one when nobody else asks.

  \<^bold>\<open>Theories and sources\<close>, in the order they build on each other (files under \<^verbatim>\<open>src/src/\<close>):

  \<^item> \<open>Prelude\<close>: machine types, the collections \<open>invs\<close> and \<open>frames\<close>, the shapes of the C list loops.
  \<^item> \<open>PgList\<close> (\<^verbatim>\<open>pglist.c\<close>): the intrusive linked list as a store of pointer cells; it refines HOL lists,
    which is how every other theory models a \<^verbatim>\<open>struct PGList\<close>.
  \<^item> \<open>Buffer\<close> (\<^verbatim>\<open>buffer.c\<close>): the fixed byte buffer; locale \<open>byte_fifo\<close>, interpreted on it.
  \<^item> \<open>Channel\<close> (\<^verbatim>\<open>channel.c\<close>), \<open>Mux\<close> (\<^verbatim>\<open>mux.c\<close>), \<open>Demux\<close> (\<^verbatim>\<open>demux.c\<close>): channel names, packing, unpacking. The
    specification side is a reader of the packed stream (\<open>rd_frames\<close>) and the frames a keyer sends.
  \<^item> \<open>IoState\<close> (\<^verbatim>\<open>util.c\<close>): the life of an endpoint, what a system call may return.
  \<^item> \<open>RouterModel\<close> (\<^verbatim>\<open>mhrouter.c\<close>): the state and every operation and callback of the router. \<open>RouterInv\<close>: the
    step relation \<open>rstep\<close> of the event loop and the invariant of the reachable states. \<open>RouterWatch\<close>: who
    may read, the turn. \<open>RouterFlow\<close>: the bytes in both directions. \<open>RouterPtt\<close>: keying, throughput,
    closing.
  \<^item> \<open>CatState\<close> (\<^verbatim>\<open>cat_state.c\<close>): the decoded radio state. \<open>CatFrame\<close> (\<^verbatim>\<open>cat.h\<close>): reports and counters, and what the
    CAT session relies on in a decoder (locales \<open>cat_decoder_base\<close> and \<open>cat_decoder\<close>).
  \<^item> \<open>CatCiv\<close>, \<open>CatCivInv\<close>, \<open>CatCivSpec\<close> (\<^verbatim>\<open>cat_civ.c\<close>); \<open>CatAscii\<close>, \<open>CatAsciiInv\<close>, \<open>CatAsciiSpec\<close> (\<^verbatim>\<open>cat_ascii.c\<close>);
    \<open>CatYbin\<close>, \<open>CatYbinInv\<close>, \<open>CatYbinSpec\<close> (\<^verbatim>\<open>cat_ybin.c\<close>): the three decoders, each as its model, its
    well-formed states with the interpretation of the decoder interface, and what it promises.
    \<open>Bcd\<close>: the decimal codes two of them share.
  \<^item> \<open>Citem\<close> (\<^verbatim>\<open>citem.c\<close>): settings packed into bytes; locale \<open>settings\<close>, interpreted on a table of items.
    \<open>Wkman\<close> (\<^verbatim>\<open>wkman.c\<close>): the Winkey settings and commands, over \<open>Citem\<close> and the router.
  \<^item> \<open>MhInfo\<close> (\<^verbatim>\<open>mhinfo.c\<close>): the types of keyer and their features. \<open>KeyerTables\<close> (\<^verbatim>\<open>mhmk2.c\<close>, \<^verbatim>\<open>mhmk2r.c\<close>,
    \<^verbatim>\<open>radiotypes.c\<close>): state reports, focus command, radios. \<open>Kcfg\<close> (\<^verbatim>\<open>kcfg.c\<close>): the settings of a keyer, the
    second interpretation of \<open>settings\<close>.
  \<^item> \<open>Control\<close>, \<open>ControlRun\<close>, \<open>ControlLoop\<close> (\<^verbatim>\<open>mhcontrol.c\<close>): the control of a keyer, over the router and \<open>Kcfg\<close>: the
    command queue and the commands; radio information, initialisation, completions and handlers;
    creation, queries and the event loop as a step relation. \<open>ControlInv\<close>: what every operation keeps.
    \<open>ControlSpec\<close>, \<open>ControlProps\<close>: each event, the reachable states, the properties.

  The records have the fields of the C structs, under their names with a prefix where a name would
  clash; an operation has the name of its C function, also with a prefix where two files use
  the same name for a static function (\<open>civ_\<close>, \<open>asc_\<close>, \<open>yb_\<close>, \<open>wkm_\<close>).

  \<^bold>\<open>What the lemmas show.\<close> The stream theorems of \<open>Mux\<close> and \<open>Demux\<close> are inverse to each other through the
  frame format: no byte is lost, invented, reordered or moved to another channel, for any contents of
  the buffers; commands come out whole. The router theorems carry this to connectors and callbacks,
  show that a radio is keyed exactly while a registered producer holds PTT, that only the producer
  with the turn is read, that a limited channel gets no more than its share, and that each descriptor
  is closed once. For each decoder: every report is well formed and within the buffers, whatever the
  streams; a query and its answer set exactly the frequency the radio sent; answers go to the client
  that asked; what clients send alone changes only what it may. The settings and the linked list
  refine a map and a list. For the keyer control: one command at a time is under way and timed, every
  command of a client is completed exactly once, the initialisation always has a completion to wait
  for and keeps its order, a disconnection completes what waits, and the router stays in its
  reachable states.

  \<^bold>\<open>Conventions and bounds.\<close> Bytes and the integers that may wrap are words of their C width (times 64 bits,
  frequencies and counters 32 bits), \<^verbatim>\<open>uint16_t\<close> sizes are \<open>nat\<close> with the conversion \<open>to_u16\<close> written out;
  other C integers never come near their bounds and are \<open>int\<close> or \<open>nat\<close>. A C program without a defined
  result (a read or write outside an array, a shift by too much, a loop that does not end) is \<open>None\<close>
  where the theory says so. Loops are structural recursion, or functions with a termination proof:
  the loops that expire pending commands remove one each time, the frames of a sequence grow its
  length. Only the scans of \<open>PgList\<close> are partial, since a store need not hold a list. The fuel of the
  loops that destroy the router's lists is the length of the list; the flush of the command queue has
  one round for each command as fuel, and a theorem says that they are enough. The \<^verbatim>\<open>float\<close> and \<^verbatim>\<open>double\<close>
  values of the throughput limit are rational or whole numbers; for the speeds of a keyer a \<^verbatim>\<open>float\<close> is a rational
  number rounded to 24 bits.

  \<^bold>\<open>Parameters.\<close> Results of system calls, the configuration tree of the ClearSilver library, whether the
  keyer is online. A libev watcher or timer is a flag, an event of the loop a step; calls out of
  a module are entries of a log (\<^verbatim>\<open>events\<close> of the router, the reports of a decoder), so a callback that
  calls back into the module is not covered within the call, only as a later step (the completions of
  keyer commands are: what a client calls inside its callback is a parameter). Processors of a
  channel are a function on its buffer. The comparison of two VFO slots with \<^verbatim>\<open>memcmp\<close> compares the
  fields, not the padding.

  \<^bold>\<open>Not modelled.\<close> The native CAT session (\<^verbatim>\<open>cat_native.c\<close>), the Station Master (\<^verbatim>\<open>mhsm.c\<close>) and the
  channel processors (\<^verbatim>\<open>proc_mcp.c\<close>, \<^verbatim>\<open>proc_rotator.c\<close>) are left for later, in this order: they build on
  what is here. Sockets, serial ports, CUSE, udev, processes, the web server and its API, files and
  trees of the configuration, logging and start-up are calls of the system or of libraries; the HTTP
  parser and ClearSilver are third-party code. \<^verbatim>\<open>MHUXD_SEND_STATUS_VIA_PTT_CONNECTOR\<close> and the code
  under \<^verbatim>\<open>#if 0\<close> are not compiled.
\<close>

end
